(* ===== verification/Py_Prelude.thy ===== *)
theory Py_Prelude
  imports Complex_Main "HOL-Library.List_Lexorder" "HOL-Library.Product_Lexorder" "HOL-Library.Code_Target_Nat"
begin

text \<open>
  What the components share of Python itself: strings as lists of code points, insertion-ordered
  dictionaries, stable sorting and minima by a key, the \<open>error + value\<close> results of pure
  code, and the computations of stateful code, which keep their state changes when an exception
  leaves them. The last part holds two interfaces (locales) that several components implement:
  collections with replace-or-append saving, and transition systems with an invariant.
\<close>

section \<open>Named collections of facts\<close>

named_theorems sem_defs \<open>unfolding the computations of stateful code\<close>
named_theorems dict_simps \<open>lookup after an update of a dictionary\<close>

section \<open>Strings\<close>

text \<open>
  A Python \<open>str\<close> is a sequence of Unicode code points; \<open>len\<close>, slicing, comparison and
  \<open>in\<close> count code points. \<open>lit\<close> turns an ASCII literal into such a sequence.
\<close>

type_synonym pystr = "nat list"

definition lit :: "string \<Rightarrow> pystr" where
  "lit s = map of_char s"

text \<open>The code points \<open>str.isspace\<close> accepts, which \<open>str.strip()\<close> removes at both ends.\<close>

definition is_space :: "nat \<Rightarrow> bool" where
  "is_space c \<longleftrightarrow> (9 \<le> c \<and> c \<le> 13) \<or> (28 \<le> c \<and> c \<le> 32) \<or> c = 133 \<or> c = 160 \<or> c = 5760
     \<or> (8192 \<le> c \<and> c \<le> 8202) \<or> c = 8232 \<or> c = 8233 \<or> c = 8239 \<or> c = 8287 \<or> c = 12288"

definition strip :: "pystr \<Rightarrow> pystr" where
  "strip s = rev (dropWhile is_space (rev (dropWhile is_space s)))"

fun starts_with :: "pystr \<Rightarrow> pystr \<Rightarrow> bool" where
  "starts_with s [] = True"
| "starts_with [] (p # ps) = False"
| "starts_with (c # s) (p # ps) = (c = p \<and> starts_with s ps)"

text \<open>\<open>p in s\<close> for strings.\<close>

fun substr_in :: "pystr \<Rightarrow> pystr \<Rightarrow> bool" where
  "substr_in p [] = (p = [])"
| "substr_in p (c # s) = (starts_with (c # s) p \<or> substr_in p s)"

fun join_str :: "pystr \<Rightarrow> pystr list \<Rightarrow> pystr" where
  "join_str sep [] = []"
| "join_str sep [s] = s"
| "join_str sep (s # t # ts) = s @ sep @ join_str sep (t # ts)"

fun show_nat :: "nat \<Rightarrow> pystr" where
  "show_nat n = (if n < 10 then [48 + n] else show_nat (n div 10) @ [48 + n mod 10])"

declare show_nat.simps [simp del]

definition show_int :: "int \<Rightarrow> pystr" where
  "show_int i = (if i < 0 then 45 # show_nat (nat (- i)) else show_nat (nat i))"

section \<open>Insertion-ordered dictionaries\<close>

text \<open>
  A \<open>dict\<close> is its list of items in insertion order. Assigning to an existing key keeps the
  key's position, assigning to a new key appends it.
\<close>

type_synonym ('k, 'v) dict = "('k \<times> 'v) list"

fun dict_set :: "'k \<Rightarrow> 'v \<Rightarrow> ('k, 'v) dict \<Rightarrow> ('k, 'v) dict" where
  "dict_set k v [] = [(k, v)]"
| "dict_set k v ((k', v') # d) = (if k' = k then (k, v) # d else (k', v') # dict_set k v d)"

definition dict_get :: "('k, 'v) dict \<Rightarrow> 'k \<Rightarrow> 'v option" where
  "dict_get d k = map_of d k"

definition dict_get_or :: "('k, 'v) dict \<Rightarrow> 'k \<Rightarrow> 'v \<Rightarrow> 'v" where
  "dict_get_or d k v = (case dict_get d k of None \<Rightarrow> v | Some x \<Rightarrow> x)"

definition dict_values :: "('k, 'v) dict \<Rightarrow> 'v list" where
  "dict_values d = map snd d"

definition dict_keys :: "('k, 'v) dict \<Rightarrow> 'k list" where
  "dict_keys d = map fst d"

definition dict_wf :: "('k, 'v) dict \<Rightarrow> bool" where
  "dict_wf d \<longleftrightarrow> distinct (map fst d)"

text \<open>\<open>{key(x): val(x) for x in xs}\<close>: a later item replaces the value, not the position.\<close>

definition dict_comp :: "('a \<Rightarrow> 'k) \<Rightarrow> ('a \<Rightarrow> 'v) \<Rightarrow> 'a list \<Rightarrow> ('k, 'v) dict" where
  "dict_comp key val xs = foldl (\<lambda>d x. dict_set (key x) (val x) d) [] xs"

definition dict_by :: "('v \<Rightarrow> 'k) \<Rightarrow> 'v list \<Rightarrow> ('k, 'v) dict" where
  "dict_by key xs = dict_comp key (\<lambda>x. x) xs"

text \<open>\<open>tuple(dict.fromkeys(xs))\<close>: the first occurrence of each item, in order.\<close>

fun fromkeys :: "'a list \<Rightarrow> 'a list" where
  "fromkeys [] = []"
| "fromkeys (x # xs) = x # filter (\<lambda>y. y \<noteq> x) (fromkeys xs)"

section \<open>Sequences\<close>

definition last_option :: "'a list \<Rightarrow> 'a option" where
  "last_option xs = (if xs = [] then None else Some (last xs))"

text \<open>\<open>min(xs, key=f)\<close>: the first of the items with the least key.\<close>

fun min_by :: "('a \<Rightarrow> 'k::linorder) \<Rightarrow> 'a list \<Rightarrow> 'a option" where
  "min_by f [] = None"
| "min_by f (x # xs) = (case min_by f xs of None \<Rightarrow> Some x
     | Some y \<Rightarrow> Some (if f y < f x then y else x))"

text \<open>\<open>max(xs, default=d)\<close>.\<close>

definition max_default :: "'a::linorder \<Rightarrow> 'a list \<Rightarrow> 'a" where
  "max_default d xs = (if xs = [] then d else foldl max (hd xs) (tl xs))"

text \<open>\<open>enumerate(xs, start=n)\<close> is \<open>List.enumerate\<close>.\<close>

text \<open>Replacing the items with a given key by one value, as the services rebuild tuples.\<close>

definition replace_by :: "('a \<Rightarrow> 'k) \<Rightarrow> 'a \<Rightarrow> 'a list \<Rightarrow> 'a list" where
  "replace_by key v xs = map (\<lambda>x. if key x = key v then v else x) xs"

text \<open>
  Saving by identity: the loop over a list that overwrites the first item with the same
  identity and returns, or appends after the loop.
\<close>

fun upsert :: "('a \<Rightarrow> 'k) \<Rightarrow> 'a \<Rightarrow> 'a list \<Rightarrow> 'a list" where
  "upsert key v [] = [v]"
| "upsert key v (x # xs) = (if key x = key v then v # xs else x # upsert key v xs)"

section \<open>Results of pure code that may raise\<close>

definition bindE :: "'e + 'a \<Rightarrow> ('a \<Rightarrow> 'e + 'b) \<Rightarrow> 'e + 'b" where
  "bindE r f = (case r of Inl e \<Rightarrow> Inl e | Inr x \<Rightarrow> f x)"

definition checkE :: "bool \<Rightarrow> 'e \<Rightarrow> 'e + unit" where
  "checkE b e = (if b then Inr () else Inl e)"

fun mapE :: "('a \<Rightarrow> 'e + 'b) \<Rightarrow> 'a list \<Rightarrow> 'e + 'b list" where
  "mapE f [] = Inr []"
| "mapE f (x # xs) = bindE (f x) (\<lambda>y. bindE (mapE f xs) (\<lambda>ys. Inr (y # ys)))"

section \<open>Computations with state and exceptions\<close>

text \<open>
  A method of a stateful object is a function from the state to a result and the state after
  it. An exception is a result too and comes with the state at the raise: Python does not undo
  what was done before.
\<close>

type_synonym ('s, 'e, 'a) sem = "'s \<Rightarrow> ('e + 'a) \<times> 's"

definition returnM :: "'a \<Rightarrow> ('s, 'e, 'a) sem" where
  "returnM x s = (Inr x, s)"

definition raiseM :: "'e \<Rightarrow> ('s, 'e, 'a) sem" where
  "raiseM e s = (Inl e, s)"

definition bindM :: "('s, 'e, 'a) sem \<Rightarrow> ('a \<Rightarrow> ('s, 'e, 'b) sem) \<Rightarrow> ('s, 'e, 'b) sem" where
  "bindM m f s = (case m s of (Inl e, s') \<Rightarrow> (Inl e, s') | (Inr x, s') \<Rightarrow> f x s')"

definition thenM :: "('s, 'e, unit) sem \<Rightarrow> ('s, 'e, 'b) sem \<Rightarrow> ('s, 'e, 'b) sem" where
  "thenM m n = bindM m (\<lambda>_. n)"

definition readM :: "('s \<Rightarrow> 'a) \<Rightarrow> ('s, 'e, 'a) sem" where
  "readM f s = (Inr (f s), s)"

definition modifyM :: "('s \<Rightarrow> 's) \<Rightarrow> ('s, 'e, unit) sem" where
  "modifyM f s = (Inr (), f s)"

definition liftM :: "'e + 'a \<Rightarrow> ('s, 'e, 'a) sem" where
  "liftM r s = (r, s)"

definition checkM :: "bool \<Rightarrow> 'e \<Rightarrow> ('s, 'e, unit) sem" where
  "checkM b e = (if b then returnM () else raiseM e)"

definition catchM :: "('s, 'e, 'a) sem \<Rightarrow> ('e \<Rightarrow> ('s, 'e, 'a) sem) \<Rightarrow> ('s, 'e, 'a) sem" where
  "catchM m h s = (case m s of (Inl e, s') \<Rightarrow> h e s' | (Inr x, s') \<Rightarrow> (Inr x, s'))"

fun forM :: "'a list \<Rightarrow> ('a \<Rightarrow> ('s, 'e, unit) sem) \<Rightarrow> ('s, 'e, unit) sem" where
  "forM [] f = returnM ()"
| "forM (x # xs) f = thenM (f x) (forM xs f)"

fun mapM :: "('a \<Rightarrow> ('s, 'e, 'b) sem) \<Rightarrow> 'a list \<Rightarrow> ('s, 'e, 'b list) sem" where
  "mapM f [] = returnM []"
| "mapM f (x # xs) = bindM (f x) (\<lambda>y. bindM (mapM f xs) (\<lambda>ys. returnM (y # ys)))"

section \<open>Facts about strings\<close>

lemma lit_Nil [simp]: "lit [] = []"
  by (simp add: lit_def)

lemma lit_Cons [simp]: "lit (c # s) = of_char c # lit s"
  by (simp add: lit_def)

lemma strip_Nil [simp]: "strip [] = []"
  by (simp add: strip_def)

lemma dropWhile_no_space: "s \<noteq> [] \<Longrightarrow> \<not> P (hd s) \<Longrightarrow> dropWhile P s = s"
  by (cases s) simp_all

lemma dropWhile_rev_dropWhile_hd:
  assumes "dropWhile P (rev (dropWhile P s)) \<noteq> []"
  shows "\<not> P (hd (rev (dropWhile P (rev (dropWhile P s)))))"
proof -
  let ?t = "dropWhile P s"
  obtain ps where ps: "rev ?t = ps @ dropWhile P (rev ?t)" "\<forall>x \<in> set ps. P x"
    by (metis set_takeWhileD takeWhile_dropWhile_id)
  then have t: "?t = rev (dropWhile P (rev ?t)) @ rev ps"
    by (metis rev_append rev_rev_ident)
  from assms have ne: "rev (dropWhile P (rev ?t)) \<noteq> []" by simp
  with t have "hd ?t = hd (rev (dropWhile P (rev ?t)))"
    by (metis hd_append2)
  moreover from t ne have "?t \<noteq> []" by (metis append_is_Nil_conv)
  ultimately show ?thesis
    using hd_dropWhile [of P s] by simp
qed

lemma strip_strip [simp]: "strip (strip s) = strip s"
proof (cases "strip s = []")
  case True
  then show ?thesis by simp
next
  case False
  then have ne: "dropWhile is_space (rev (dropWhile is_space s)) \<noteq> []"
    by (auto simp: strip_def simp del: dropWhile_eq_Nil_conv)
  have "dropWhile is_space (strip s) = strip s"
    using False dropWhile_rev_dropWhile_hd [OF ne]
    by (intro dropWhile_no_space) (simp_all add: strip_def)
  moreover have "dropWhile is_space (rev (strip s)) = rev (strip s)"
    by (simp add: strip_def)
  ultimately show ?thesis
    by (simp add: strip_def [of "strip s"])
qed

lemma strip_length: "length (strip s) \<le> length s"
proof -
  have "length (strip s) \<le> length (rev (dropWhile is_space s))"
    unfolding strip_def length_rev by (metis length_dropWhile_le length_rev)
  also have "\<dots> \<le> length s"
    by (simp add: length_dropWhile_le)
  finally show ?thesis .
qed

lemma starts_with_iff: "starts_with s p \<longleftrightarrow> (\<exists>r. s = p @ r)"
  by (induction s p rule: starts_with.induct) auto

lemma substr_in_iff: "substr_in p s \<longleftrightarrow> (\<exists>l r. s = l @ p @ r)"
proof (induction s)
  case Nil
  then show ?case by auto
next
  case (Cons c s)
  note IH = Cons.IH
  show ?case
  proof
    assume "substr_in p (c # s)"
    then consider (here) r where "c # s = [] @ p @ r" | (later) l r where "c # s = (c # l) @ p @ r"
      using IH by (auto simp: starts_with_iff)
    then show "\<exists>l r. c # s = l @ p @ r" by cases blast+
  next
    assume "\<exists>l r. c # s = l @ p @ r"
    then obtain l r where lr: "c # s = l @ p @ r" by blast
    show "substr_in p (c # s)"
    proof (cases l)
      case Nil
      with lr have "starts_with (c # s) p" by (auto simp: starts_with_iff)
      then show ?thesis by simp
    next
      case (Cons d l')
      with lr have "s = l' @ p @ r" by simp
      with IH show ?thesis by auto
    qed
  qed
qed

section \<open>Facts about dictionaries\<close>

lemma dict_get_set [simp, dict_simps]:
  "dict_get (dict_set k v d) k' = (if k' = k then Some v else dict_get d k')"
  by (induction k v d rule: dict_set.induct) (auto simp: dict_get_def)

lemma dict_get_Nil [simp, dict_simps]: "dict_get [] k = None"
  by (simp add: dict_get_def)

lemma dict_get_or_set [simp, dict_simps]:
  "dict_get_or (dict_set k v d) k' w = (if k' = k then v else dict_get_or d k' w)"
  by (simp add: dict_get_or_def)

lemma fst_set_dict_set: "fst ` set (dict_set k v d) = insert k (fst ` set d)"
  by (induction k v d rule: dict_set.induct) auto

lemma dict_wf_Nil [simp]: "dict_wf []"
  by (simp add: dict_wf_def)

lemma dict_wf_set [simp]: "dict_wf d \<Longrightarrow> dict_wf (dict_set k v d)"
  by (induction k v d rule: dict_set.induct) (auto simp: dict_wf_def fst_set_dict_set)

lemma dict_get_iff: "dict_wf d \<Longrightarrow> dict_get d k = Some v \<longleftrightarrow> (k, v) \<in> set d"
  by (auto simp: dict_get_def dict_wf_def dest: map_of_SomeD)

lemma dict_get_SomeD: "dict_get d k = Some v \<Longrightarrow> v \<in> set (dict_values d)"
  by (force simp: dict_get_def dict_values_def dest: map_of_SomeD)

lemma set_dict_values: "dict_wf d \<Longrightarrow> v \<in> set (dict_values d) \<longleftrightarrow> (\<exists>k. dict_get d k = Some v)"
  by (force simp: dict_values_def dict_get_iff)

lemma dict_keys_iff: "k \<in> set (dict_keys d) \<longleftrightarrow> dict_get d k \<noteq> None"
  by (simp add: dict_keys_def dict_get_def map_of_eq_None_iff)

lemma dict_values_set_new:
  "dict_get d k = None \<Longrightarrow> dict_values (dict_set k v d) = dict_values d @ [v]"
  by (induction k v d rule: dict_set.induct) (auto simp: dict_values_def dict_get_def split: if_splits)

lemma length_dict_set:
  "length (dict_set k v d) = (if dict_get d k = None then Suc (length d) else length d)"
  by (induction k v d rule: dict_set.induct) (auto simp: dict_get_def)

lemma dict_comp_snoc: "dict_comp key val (xs @ [x]) = dict_set (key x) (val x) (dict_comp key val xs)"
  by (simp add: dict_comp_def)

lemma dict_get_comp:
  "dict_get (dict_comp key val xs) k = map_option val (last_option (filter (\<lambda>x. key x = k) xs))"
proof (induction xs rule: rev_induct)
  case Nil
  then show ?case by (simp add: dict_comp_def last_option_def)
next
  case (snoc x xs)
  then show ?case by (simp add: dict_comp_snoc last_option_def)
qed

lemma dict_wf_comp [simp]: "dict_wf (dict_comp key val xs)"
  by (induction xs rule: rev_induct) (simp_all add: dict_comp_def)

lemma dict_get_by: "dict_get (dict_by key xs) k = last_option (filter (\<lambda>x. key x = k) xs)"
  by (simp add: dict_by_def dict_get_comp option.map_ident)

lemma last_option_SomeD: "last_option xs = Some x \<Longrightarrow> x \<in> set xs"
  by (auto simp: last_option_def split: if_splits)

lemma find_SomeD: "find P xs = Some x \<Longrightarrow> x \<in> set xs \<and> P x"
  by (induction xs) (auto split: if_splits)

lemma dict_by_SomeD: "dict_get (dict_by key xs) k = Some x \<Longrightarrow> x \<in> set xs \<and> key x = k"
  by (auto simp: dict_get_by dest: last_option_SomeD)

lemma dict_by_in: "x \<in> set xs \<Longrightarrow> \<exists>y. dict_get (dict_by key xs) (key x) = Some y"
  by (auto simp: dict_get_by last_option_def filter_empty_conv)

lemma dict_by_unique:
  assumes "distinct (map key xs)" "x \<in> set xs"
  shows "dict_get (dict_by key xs) (key x) = Some x"
proof -
  from assms(2) obtain y where y: "dict_get (dict_by key xs) (key x) = Some y"
    using dict_by_in by fastforce
  with assms show ?thesis
    by (auto simp: distinct_map inj_on_def dest: dict_by_SomeD)
qed

lemma set_fromkeys [simp]: "set (fromkeys xs) = set xs"
  by (induction xs) auto

lemma distinct_fromkeys [simp]: "distinct (fromkeys xs)"
  by (induction xs) auto

lemma fromkeys_distinct: "distinct xs \<Longrightarrow> fromkeys xs = xs"
  by (induction xs) (auto intro!: filter_True)

section \<open>Facts about sequences\<close>

lemma min_by_None [simp]: "min_by f xs = None \<longleftrightarrow> xs = []"
  by (cases xs) (auto split: option.splits)

lemma min_by_in: "min_by f xs = Some x \<Longrightarrow> x \<in> set xs"
  by (induction xs arbitrary: x) (auto split: option.splits if_splits)

lemma min_by_le: "min_by f xs = Some x \<Longrightarrow> y \<in> set xs \<Longrightarrow> f x \<le> f y"
  by (induction xs arbitrary: x) (fastforce split: option.splits if_splits)+

lemma foldl_max_ge: "(a::'a::linorder) \<le> foldl max a xs \<and> (\<forall>x \<in> set xs. x \<le> foldl max a xs)"
  by (induction xs arbitrary: a) (auto, meson max.cobounded1 order_trans, meson max.cobounded2 order_trans)

lemma max_default_ge: "x \<in> set xs \<Longrightarrow> x \<le> max_default d xs"
  using foldl_max_ge [of "hd xs" "tl xs"] by (cases xs) (auto simp: max_default_def)

lemma foldl_max_in: "foldl max (a::'a::linorder) xs \<in> insert a (set xs)"
proof (induction xs arbitrary: a)
  case Nil
  then show ?case by simp
next
  case (Cons x xs)
  from Cons.IH [of "max a x"] show ?case by (auto simp: max_def split: if_splits)
qed

lemma max_default_in: "xs \<noteq> [] \<Longrightarrow> max_default d xs \<in> set xs"
  using foldl_max_in [of "hd xs" "tl xs"] by (cases xs) (auto simp: max_default_def)

lemma length_replace_by [simp]: "length (replace_by key v xs) = length xs"
  by (simp add: replace_by_def)

lemma map_key_replace_by [simp]: "map key (replace_by key v xs) = map key xs"
  by (auto simp: replace_by_def)

lemma replace_by_Nil [simp]: "replace_by key v [] = []"
  by (simp add: replace_by_def)

lemma replace_by_Cons [simp]:
  "replace_by key v (x # xs) = (if key x = key v then v else x) # replace_by key v xs"
  by (simp add: replace_by_def)

lemma set_replace_by:
  "x \<in> set (replace_by key v xs) \<longleftrightarrow>
     (x = v \<and> key v \<in> key ` set xs) \<or> (x \<in> set xs \<and> key x \<noteq> key v)"
  by (induction xs) (auto simp: image_iff)

section \<open>Facts about results and computations\<close>

lemma bindE_simps [simp]: "bindE (Inl e) f = Inl e" "bindE (Inr x) f = f x"
  by (simp_all add: bindE_def)

lemma bindE_Inr: "bindE r f = Inr y \<longleftrightarrow> (\<exists>x. r = Inr x \<and> f x = Inr y)"
  by (cases r) auto

lemma checkE_simps [simp]: "checkE True e = Inr ()" "checkE False e = Inl e"
  by (simp_all add: checkE_def)

lemma checkE_Inr [simp]: "checkE b e = Inr u \<longleftrightarrow> b"
  by (simp add: checkE_def)

lemma mapE_Inr: "mapE f xs = Inr ys \<longleftrightarrow> list_all2 (\<lambda>x y. f x = Inr y) xs ys"
proof (induction xs arbitrary: ys)
  case Nil
  then show ?case by auto
next
  case (Cons x xs)
  then show ?case by (cases ys) (auto simp: bindE_Inr)
qed

lemmas sem_unfold =
  returnM_def raiseM_def bindM_def thenM_def readM_def modifyM_def liftM_def checkM_def catchM_def

declare sem_unfold [sem_defs]

lemma bindM_returnM [simp]: "bindM (returnM x) f = f x"
  by (rule ext) (simp add: sem_unfold)

lemma bindM_raiseM [simp]: "bindM (raiseM e) f = raiseM e"
  by (rule ext) (simp add: sem_unfold)

lemma thenM_returnM [simp]: "thenM (returnM u) n = n"
  by (rule ext) (simp add: sem_unfold)

lemma thenM_raiseM [simp]: "thenM (raiseM e) n = raiseM e"
  by (rule ext) (simp add: sem_unfold)

lemma checkM_simps [simp]: "checkM True e = returnM ()" "checkM False e = raiseM e"
  by (simp_all add: checkM_def)

lemma bindM_assoc: "bindM (bindM m f) g = bindM m (\<lambda>x. bindM (f x) g)"
  by (rule ext) (simp add: bindM_def split: prod.split sum.split)

lemma length_filter_eq: "length (filter P xs) = length xs \<longleftrightarrow> (\<forall>x \<in> set xs. P x)"
  by (metis filter_True length_filter_less nat_neq_iff)

lemma mapE_total: "(\<And>x. x \<in> set xs \<Longrightarrow> \<exists>y. f x = Inr y) \<Longrightarrow> \<exists>ys. mapE f xs = Inr ys"
  by (induction xs) fastforce+

lemma mapE_origin: "mapE f xs = Inr ys \<Longrightarrow> y \<in> set ys \<Longrightarrow> \<exists>x \<in> set xs. f x = Inr y"
  by (auto simp: mapE_Inr list_all2_conv_all_nth in_set_conv_nth) (metis nth_mem)

text \<open>From a computed case distinction to the values it found.\<close>

lemma case_Some_D: "(case x of None \<Rightarrow> False | Some a \<Rightarrow> P a) \<Longrightarrow> \<exists>a. x = Some a \<and> P a"
  by (auto split: option.splits)

lemma case_pair_D: "(case p of (a, b) \<Rightarrow> P a b) \<Longrightarrow> \<exists>a b. p = (a, b) \<and> P a b"
  by (auto split: prod.splits)

lemma case_Inr_D: "(case r of (Inl e, s) \<Rightarrow> False | (Inr x, s) \<Rightarrow> P x s) \<Longrightarrow> \<exists>x s. r = (Inr x, s) \<and> P x s"
  by (auto split: prod.splits sum.splits)

lemma case_Inr_Some_D:
  "(case r of (Inl e, s) \<Rightarrow> False | (Inr None, s) \<Rightarrow> False | (Inr (Some x), s) \<Rightarrow> P x s) \<Longrightarrow> \<exists>x s. r = (Inr (Some x), s) \<and> P x s"
  by (auto split: prod.splits sum.splits option.splits)

lemmas case_evaluated = case_Some_D case_pair_D case_Inr_D case_Inr_Some_D

lemma ex_Not [simp]: "Ex Not"
  by (rule exI [of _ False]) simp

lemma bindM_Inr:
  "bindM m f s = (Inr y, t) \<longleftrightarrow> (\<exists>x s'. m s = (Inr x, s') \<and> f x s' = (Inr y, t))"
  by (auto simp: bindM_def split: prod.splits sum.splits)

lemma thenM_Inr:
  "thenM m n s = (Inr y, t) \<longleftrightarrow> (\<exists>s'. m s = (Inr (), s') \<and> n s' = (Inr y, t))"
  by (auto simp: thenM_def bindM_Inr)

section \<open>Interface: collections that save by identity\<close>

text \<open>
  The repositories keep versioned entities in lists. The contract of such a collection: saving
  keeps every item with another identity where it was, an item whose identity is known replaces
  the first holder of it, an item whose identity is new comes last.
\<close>

locale identity_store =
  fixes ident :: "'a \<Rightarrow> 'k"
    and save :: "'a \<Rightarrow> 'a list \<Rightarrow> 'a list"
  assumes save_known: "ident v \<in> ident ` set xs \<Longrightarrow> map ident (save v xs) = map ident xs"
    and save_new: "ident v \<notin> ident ` set xs \<Longrightarrow> save v xs = xs @ [v]"
    and save_others: "x \<in> set xs \<Longrightarrow> ident x \<noteq> ident v \<Longrightarrow> x \<in> set (save v xs)"
    and save_mem: "v \<in> set (save v xs)"
    and save_sub: "set (save v xs) \<subseteq> insert v (set xs)"
begin

lemma distinct_save: "distinct (map ident xs) \<Longrightarrow> distinct (map ident (save v xs))"
  by (cases "ident v \<in> ident ` set xs") (auto simp: save_known save_new)

lemma idents_save: "ident ` set (save v xs) = insert (ident v) (ident ` set xs)"
  using save_mem save_sub save_others by (fastforce simp: image_iff)

lemma length_save:
  "length (save v xs) = (if ident v \<in> ident ` set xs then length xs else Suc (length xs))"
proof (cases "ident v \<in> ident ` set xs")
  case True
  then have "length (map ident (save v xs)) = length (map ident xs)"
    by (simp only: save_known)
  with True show ?thesis by simp
next
  case False
  then show ?thesis by (simp add: save_new)
qed

lemma save_unique:
  assumes "distinct (map ident xs)" "x \<in> set (save v xs)" "ident x = ident v"
  shows "x = v"
proof -
  from assms(1) have "distinct (map ident (save v xs))" by (rule distinct_save)
  with assms(2,3) save_mem [of v xs] show ?thesis
    by (auto simp: distinct_map inj_on_def)
qed

lemma save_last:
  assumes "xs \<noteq> []" "ident (last xs) = ident v" "distinct (map ident xs)"
  shows "last (save v xs) = v"
proof -
  from assms(1,2) have known: "ident v \<in> ident ` set xs"
    by (metis image_eqI last_in_set)
  from known assms(1) have ne: "save v xs \<noteq> []"
    by (metis save_mem list.set(1) empty_iff)
  have "ident (last (save v xs)) = ident (last xs)"
    using save_known [OF known] assms(1) ne by (metis last_map)
  with assms(2,3) ne show ?thesis
    by (metis save_unique last_in_set)
qed

end

section \<open>Interface: transition systems with an invariant\<close>

text \<open>
  A component that is driven by commands: \<open>start\<close> tells its initial states, \<open>step\<close>
  what one command does. An invariant that holds initially and that every command keeps holds in
  every state a sequence of commands reaches.
\<close>

inductive reachable :: "('s \<Rightarrow> bool) \<Rightarrow> ('c \<Rightarrow> 's \<Rightarrow> 's) \<Rightarrow> 's \<Rightarrow> bool"
  for start :: "'s \<Rightarrow> bool" and step :: "'c \<Rightarrow> 's \<Rightarrow> 's" where
  reach_start: "start s \<Longrightarrow> reachable start step s"
| reach_step: "reachable start step s \<Longrightarrow> reachable start step (step c s)"

fun run_commands :: "('c \<Rightarrow> 's \<Rightarrow> 's) \<Rightarrow> 'c list \<Rightarrow> 's \<Rightarrow> 's" where
  "run_commands step [] s = s"
| "run_commands step (c # cs) s = run_commands step cs (step c s)"

lemma reachable_run: "reachable start step s \<Longrightarrow> reachable start step (run_commands step cs s)"
  by (induction cs arbitrary: s) (auto intro: reach_step)

locale invariant_system =
  fixes start :: "'s \<Rightarrow> bool"
    and step :: "'c \<Rightarrow> 's \<Rightarrow> 's"
    and invar :: "'s \<Rightarrow> bool"
  assumes invar_start: "start s \<Longrightarrow> invar s"
    and invar_step: "invar s \<Longrightarrow> invar (step c s)"
begin

lemma invar_reachable: "reachable start step s \<Longrightarrow> invar s"
  by (induction rule: reachable.induct) (auto intro: invar_start invar_step)

lemma invar_run: "invar s \<Longrightarrow> invar (run_commands step cs s)"
  by (induction cs arbitrary: s) (auto intro: invar_step)

end

text \<open>
  A system that stamps its objects with tokens that never decrease: a token seen once is a lower
  bound for ever after, which is what makes a token a fence against earlier holders.
\<close>

locale token_system = invariant_system +
  fixes token :: "'s \<Rightarrow> 'k \<Rightarrow> nat option"
  assumes token_step: "invar s \<Longrightarrow> token s k = Some n \<Longrightarrow> \<exists>n'. token (step c s) k = Some n' \<and> n \<le> n'"
begin

lemma token_run: "invar s \<Longrightarrow> token s k = Some n \<Longrightarrow> \<exists>n'. token (run_commands step cs s) k = Some n' \<and> n \<le> n'"
proof (induction cs arbitrary: s n)
  case (Cons c cs)
  from token_step [OF Cons.prems, of c] obtain n1 where n1: "token (step c s) k = Some n1" "n \<le> n1" by blast
  from Cons.IH [OF invar_step [OF Cons.prems(1)] n1(1)] n1(2) show ?case
    using le_trans by fastforce
qed simp

end

text \<open>The replace-or-append loop is such a collection, whatever the identity.\<close>

lemma upsert_save_known: "key v \<in> key ` set xs \<Longrightarrow> map key (upsert key v xs) = map key xs"
  by (induction key v xs rule: upsert.induct) auto

lemma upsert_save_new: "key v \<notin> key ` set xs \<Longrightarrow> upsert key v xs = xs @ [v]"
  by (induction key v xs rule: upsert.induct) auto

lemma upsert_save_others: "x \<in> set xs \<Longrightarrow> key x \<noteq> key v \<Longrightarrow> x \<in> set (upsert key v xs)"
  by (induction key v xs rule: upsert.induct) auto

lemma upsert_save_mem: "v \<in> set (upsert key v xs)"
  by (induction key v xs rule: upsert.induct) auto

lemma upsert_save_sub: "set (upsert key v xs) \<subseteq> insert v (set xs)"
  by (induction key v xs rule: upsert.induct) auto

lemmas upsert_laws =
  upsert_save_known upsert_save_new upsert_save_others upsert_save_mem upsert_save_sub

end
