(* ===== verification/Py_Json.thy ===== *)
theory Py_Json
  imports Py_Prelude
begin

text \<open>
  The JSON values the models return and the commands are hashed as, with the Python operations
  the validators apply to them (\<open>dict.get\<close>, \<open>or\<close>, \<open>str\<close>, \<open>int\<close>,
  iteration), the exceptions of the workflow, and the canonical serialisation of
  \<^verbatim>\<open>src/prd_agent/hashing.py\<close>.
\<close>

section \<open>Values and exceptions\<close>

text \<open>
  A float carries its value and its \<open>repr\<close>, which \<open>str\<close> and \<open>json.dumps\<close>
  print.
\<close>

datatype json =
    JNull
  | JBool bool
  | JInt int
  | JFloat rat pystr
  | JStr pystr
  | JList "json list"
  | JObj "(pystr \<times> json) list"

text \<open>
  The exceptions that reach a caller. A workflow error carries the literal of its message, with
  the interpolated values left in braces as in the source; what a callback raises is
  \<open>OtherError\<close> with its text.
\<close>

datatype exn =
    InvalidCommand string
  | InvalidTransition string
  | VersionConflict string
  | ActiveRunConflict string
  | IdempotencyConflict string
  | NotFound string
  | ModelOutputError string
  | KeyError
  | TypeError
  | ValueError string
  | RuntimeError string
  | ValidationError string
  | OtherError pystr

text \<open>The classes \<open>except (KeyError, TypeError, ValueError, ModelOutputError)\<close> names;
  pydantic's \<open>ValidationError\<close> is a \<open>ValueError\<close>.\<close>

fun is_format_error :: "exn \<Rightarrow> bool" where
  "is_format_error KeyError = True"
| "is_format_error TypeError = True"
| "is_format_error (ValueError m) = True"
| "is_format_error (ValidationError m) = True"
| "is_format_error (ModelOutputError m) = True"
| "is_format_error _ = False"

section \<open>Python operations on JSON values\<close>

fun py_truthy :: "json \<Rightarrow> bool" where
  "py_truthy JNull = False"
| "py_truthy (JBool b) = b"
| "py_truthy (JInt i) = (i \<noteq> 0)"
| "py_truthy (JFloat r s) = (r \<noteq> 0)"
| "py_truthy (JStr s) = (s \<noteq> [])"
| "py_truthy (JList xs) = (xs \<noteq> [])"
| "py_truthy (JObj kvs) = (kvs \<noteq> [])"

text \<open>
  \<open>str(v)\<close>. The text of arrays and objects (Python's \<open>repr\<close> of containers) is the
  parameter \<open>str_of\<close>.
\<close>

fun py_str :: "(json \<Rightarrow> pystr) \<Rightarrow> json \<Rightarrow> pystr" where
  "py_str str_of JNull = lit ''None''"
| "py_str str_of (JBool b) = (if b then lit ''True'' else lit ''False'')"
| "py_str str_of (JInt i) = show_int i"
| "py_str str_of (JFloat r s) = s"
| "py_str str_of (JStr s) = s"
| "py_str str_of v = str_of v"

text \<open>\<open>int(s)\<close> for a string: optional sign, decimal digits with single underscores between
  them, surrounding white space.\<close>

definition is_digit :: "nat \<Rightarrow> bool" where
  "is_digit c \<longleftrightarrow> 48 \<le> c \<and> c \<le> 57"

fun parse_digits :: "int \<Rightarrow> pystr \<Rightarrow> int option" where
  "parse_digits acc [] = Some acc"
| "parse_digits acc (c # cs) =
     (if is_digit c then parse_digits (acc * 10 + (int c - 48)) cs
      else if c = 95 then
        (case cs of [] \<Rightarrow> None | d # ds \<Rightarrow> if is_digit d then parse_digits (acc * 10 + (int d - 48)) ds else None)
      else None)"

definition parse_int :: "pystr \<Rightarrow> int option" where
  "parse_int s =
     (case strip s of
        [] \<Rightarrow> None
      | c # cs \<Rightarrow>
          if c = 45 \<or> c = 43 then
            (case cs of [] \<Rightarrow> None
             | d # ds \<Rightarrow> if is_digit d then map_option (\<lambda>i. if c = 45 then - i else i) (parse_digits 0 cs) else None)
          else if is_digit c then parse_digits 0 (c # cs) else None)"

fun py_int :: "json \<Rightarrow> exn + int" where
  "py_int (JInt i) = Inr i"
| "py_int (JBool b) = Inr (if b then 1 else 0)"
| "py_int (JFloat r s) = Inr (if 0 \<le> r then \<lfloor>r\<rfloor> else \<lceil>r\<rceil>)"
| "py_int (JStr s) = (case parse_int s of None \<Rightarrow> Inl (ValueError ''invalid literal for int()'') | Some i \<Rightarrow> Inr i)"
| "py_int _ = Inl TypeError"

text \<open>Iterating over a value: a list, the characters of a string, the keys of an object.\<close>

fun py_iter :: "json \<Rightarrow> exn + json list" where
  "py_iter (JList xs) = Inr xs"
| "py_iter (JStr s) = Inr (map (\<lambda>c. JStr [c]) s)"
| "py_iter (JObj kvs) = Inr (map (\<lambda>(k, v). JStr k) kvs)"
| "py_iter _ = Inl TypeError"

definition obj_get :: "(pystr \<times> json) list \<Rightarrow> string \<Rightarrow> json option" where
  "obj_get kvs k = dict_get kvs (lit k)"

definition obj_get_or :: "(pystr \<times> json) list \<Rightarrow> string \<Rightarrow> json \<Rightarrow> json" where
  "obj_get_or kvs k d = dict_get_or kvs (lit k) d"

definition obj_set :: "string \<Rightarrow> json \<Rightarrow> (pystr \<times> json) list \<Rightarrow> (pystr \<times> json) list" where
  "obj_set k v kvs = dict_set (lit k) v kvs"

section \<open>Canonical serialisation and hashing\<close>

definition hex_digit :: "nat \<Rightarrow> nat" where
  "hex_digit n = (if n < 10 then 48 + n else 87 + n)"

text \<open>The escapes of \<open>json.dumps(..., ensure_ascii=False)\<close>.\<close>

definition json_escape :: "nat \<Rightarrow> pystr" where
  "json_escape c =
     (if c = 34 then [92, 34] else if c = 92 then [92, 92]
      else if c = 10 then [92, 110] else if c = 13 then [92, 114] else if c = 9 then [92, 116]
      else if c = 12 then [92, 102] else if c = 8 then [92, 98]
      else if c < 32 then [92, 117, 48, 48, hex_digit (c div 16), hex_digit (c mod 16)]
      else [c])"

definition json_quote :: "pystr \<Rightarrow> pystr" where
  "json_quote s = 34 # concat (map json_escape s) @ [34]"

text \<open>\<open>json.dumps\<close> with sorted keys; \<open>isep\<close> and \<open>ksep\<close> are its \<open>separators\<close>.\<close>

function json_dumps :: "pystr \<Rightarrow> pystr \<Rightarrow> json \<Rightarrow> pystr" where
  "json_dumps isep ksep JNull = lit ''null''"
| "json_dumps isep ksep (JBool b) = (if b then lit ''true'' else lit ''false'')"
| "json_dumps isep ksep (JInt i) = show_int i"
| "json_dumps isep ksep (JFloat r s) = s"
| "json_dumps isep ksep (JStr s) = json_quote s"
| "json_dumps isep ksep (JList xs) = 91 # join_str isep (map (json_dumps isep ksep) xs) @ [93]"
| "json_dumps isep ksep (JObj kvs) =
     123 # join_str isep (map (\<lambda>kv. json_quote (fst kv) @ ksep @ json_dumps isep ksep (snd kv)) (sort_key fst kvs)) @ [125]"
  by pat_completeness auto

lemma size_json_obj: "kv \<in> set kvs \<Longrightarrow> size (snd kv) < size (JObj kvs)"
proof -
  assume "kv \<in> set kvs"
  then have "size_prod (\<lambda>_. 0) size kv \<le> size_list (size_prod (\<lambda>_. 0) size) kvs"
    by (rule size_list_estimation') simp
  moreover have "size (snd kv) \<le> size_prod (\<lambda>_. 0) size kv" by (cases kv) simp
  ultimately show ?thesis by simp
qed

termination json_dumps
proof (relation "measure (\<lambda>(i, k, v). size v)", goal_cases)
  case 1
  show ?case by simp
next
  case (2 i k xs x)
  then show ?case by (simp add: less_Suc_eq_le size_list_estimation')
next
  case (3 i k kvs kv)
  then have "kv \<in> set kvs" by simp
  then show ?case using size_json_obj by simp
qed

text \<open>\<open>canonical_json\<close>: separators \<open>","\<close> and \<open>":"\<close>.\<close>

definition canonical_json :: "json \<Rightarrow> pystr" where
  "canonical_json v = json_dumps [44] [58] v"

text \<open>
  \<open>sha256_json\<close>: the hex digest of the UTF-8 bytes of a text, \<open>hashlib.sha256\<close>, is the
  parameter \<open>sha256\<close>.
\<close>

definition sha256_json :: "(pystr \<Rightarrow> pystr) \<Rightarrow> json \<Rightarrow> pystr" where
  "sha256_json sha256 v = lit ''sha256:'' @ sha256 (canonical_json v)"

lemma obj_get_or_simp: "obj_get_or kvs k d = (case obj_get kvs k of None \<Rightarrow> d | Some v \<Rightarrow> v)"
  by (simp add: obj_get_or_def obj_get_def dict_get_or_def)

end
