(* ===== verification/Domain_Model.thy ===== *)
theory Domain_Model
  imports Py_Json
begin

text \<open>
  The data of the PRD workflow: the status enumerations of
  \<^verbatim>\<open>src/prd_agent/domain/enums.py\<close>, the entities of \<^verbatim>\<open>entities.py\<close> and the
  commands of \<^verbatim>\<open>commands.py\<close>, field by field. Times are integers (microseconds), so
  that they compare as \<open>datetime\<close> values do. The lemmas at the end describe what
  \<open>RequirementBrief.from_mapping\<close> accepts.
\<close>

type_synonym time = int

section \<open>Enumerations\<close>

datatype TaskStatus = TS_DRAFT | TS_CLARIFYING | TS_OUTLINE_REVIEW | TS_GENERATING
  | TS_FINAL_REVIEW | TS_COMPLETED | TS_FAILED | TS_STOPPED | TS_DELETING

datatype RunStatus = RS_QUEUED | RS_RUNNING | RS_WAITING_USER | RS_SUCCEEDED | RS_FAILED | RS_STOPPED

datatype OutlineStatus = OS_DRAFT | OS_PENDING_CONFIRMATION | OS_CONFIRMED | OS_SUPERSEDED

datatype UnitStatus = US_PENDING | US_PREPARING | US_INVESTIGATING | US_GENERATING
  | US_PENDING_CONFIRMATION | US_CONFIRMED | US_REVISION_REQUIRED | US_HUMAN_INPUT_REQUIRED
  | US_SUPERSEDED | US_FAILED

datatype SectionStatus = SS_DRAFT | SS_PENDING_CONFIRMATION | SS_CONFIRMED | SS_INVALIDATED | SS_SUPERSEDED

datatype DocumentStatus = DS_CHECKING | DS_FINAL_REVIEW | DS_CONFIRMED | DS_SUPERSEDED

datatype Complexity = CX_LOW | CX_MEDIUM | CX_HIGH

text \<open>\<open>Complexity(s)\<close>: looking an enumeration member up by its value.\<close>

definition complexity_of :: "pystr \<Rightarrow> exn + Complexity" where
  "complexity_of s =
     (if s = lit ''LOW'' then Inr CX_LOW else if s = lit ''MEDIUM'' then Inr CX_MEDIUM
      else if s = lit ''HIGH'' then Inr CX_HIGH else Inl (ValueError ''is not a valid Complexity''))"

definition ACTIVE_RUN_STATUSES :: "RunStatus set" where
  "ACTIVE_RUN_STATUSES = {RS_QUEUED, RS_RUNNING, RS_WAITING_USER}"

section \<open>Entities\<close>

record Task =
  task_id :: pystr
  task_title :: "pystr option"
  task_status :: TaskStatus
  task_version :: int
  current_outline_version :: "int option"
  current_unit_sequence :: "int option"
  task_created_at :: time
  task_updated_at :: time
  task_owner_id :: pystr

record RequirementBrief =
  problem :: pystr
  target_users :: "pystr list"
  scenarios :: "pystr list"
  goals :: "pystr list"
  scope_in :: "pystr list"
  scope_out :: "pystr list"
  product_rules :: "pystr list"
  success_metrics :: "pystr list"
  current_state_fact_ids :: "pystr list"
  target_decisions :: "pystr list"
  authorized_assumptions :: "pystr list"
  agent_suggestions :: "pystr list"
  open_questions :: "pystr list"
  unknown_item_ids :: "pystr list"
  source_conflict_ids :: "pystr list"

text \<open>\<open>_strings\<close>: an optional array of non-blank strings.\<close>

definition strings_of :: "(json \<Rightarrow> pystr) \<Rightarrow> json \<Rightarrow> exn + pystr list" where
  "strings_of str_of v =
     (case v of
        JNull \<Rightarrow> Inr []
      | JList xs \<Rightarrow>
          (let items = map (\<lambda>x. strip (py_str str_of x)) xs in
           if \<exists>s \<in> set items. s = [] then Inl (ModelOutputError ''{field_name} cannot contain empty values'')
           else Inr items)
      | _ \<Rightarrow> Inl (ModelOutputError ''{field_name} must be an array''))"

definition from_mapping :: "(json \<Rightarrow> pystr) \<Rightarrow> json \<Rightarrow> exn + RequirementBrief" where
  "from_mapping str_of value =
     (case value of
        JObj kvs \<Rightarrow>
          (let prob = strip (py_str str_of (obj_get_or kvs ''problem'' (JStr [])));
               field = (\<lambda>name. strings_of str_of (obj_get_or kvs name JNull)) in
           bindE (checkE (prob \<noteq> []) (ModelOutputError ''requirement brief requires problem'')) (\<lambda>_.
           bindE (checkE (\<not> (\<exists>name \<in> {''current_state_fact_ids'', ''unknown_item_ids'', ''source_conflict_ids''}.
                     py_truthy (obj_get_or kvs name JNull)))
                   (ModelOutputError ''investigation-backed fields must remain empty in step 2'')) (\<lambda>_.
           bindE (field ''target_users'') (\<lambda>v1.
           bindE (field ''scenarios'') (\<lambda>v2.
           bindE (field ''goals'') (\<lambda>v3.
           bindE (field ''scope_in'') (\<lambda>v4.
           bindE (field ''scope_out'') (\<lambda>v5.
           bindE (field ''product_rules'') (\<lambda>v6.
           bindE (field ''success_metrics'') (\<lambda>v7.
           bindE (field ''current_state_fact_ids'') (\<lambda>v8.
           bindE (field ''target_decisions'') (\<lambda>v9.
           bindE (field ''authorized_assumptions'') (\<lambda>v10.
           bindE (field ''agent_suggestions'') (\<lambda>v11.
           bindE (field ''open_questions'') (\<lambda>v12.
           bindE (field ''unknown_item_ids'') (\<lambda>v13.
           bindE (field ''source_conflict_ids'') (\<lambda>v14.
           Inr \<lparr>problem = prob, target_users = v1, scenarios = v2, goals = v3, scope_in = v4,
                scope_out = v5, product_rules = v6, success_metrics = v7, current_state_fact_ids = v8,
                target_decisions = v9, authorized_assumptions = v10, agent_suggestions = v11,
                open_questions = v12, unknown_item_ids = v13, source_conflict_ids = v14\<rparr>)))))))))))))))))
      | _ \<Rightarrow> Inl (ModelOutputError ''requirement brief must be an object''))"

definition needs_clarification :: "RequirementBrief \<Rightarrow> bool" where
  "needs_clarification b \<longleftrightarrow> open_questions b \<noteq> []
     \<or> \<not> (target_users b \<noteq> [] \<and> scenarios b \<noteq> [] \<and> goals b \<noteq> [] \<and> scope_in b \<noteq> [])"

record RequirementBriefVersion =
  brief_task_id :: pystr
  brief_version :: int
  brief_value :: RequirementBrief
  brief_confirmed :: bool
  brief_created_at :: time

record OutlineNode =
  node_id :: pystr
  node_sequence :: int
  node_title :: pystr
  node_purpose :: pystr
  node_complexity :: Complexity
  required_information :: "json list"
  parent_id :: "pystr option"
  node_level :: int
  stable_key :: "pystr option"

text \<open>One entry of a unit's \<open>section_drafts\<close>.\<close>

record SectionDraft =
  draft_node_id :: "pystr option"
  draft_title :: pystr
  draft_content :: pystr
  draft_content_hash :: pystr

record ConfirmationUnit =
  unit_id :: pystr
  unit_outline_id :: pystr
  unit_sequence :: int
  unit_title :: pystr
  unit_status :: UnitStatus
  unit_content :: "pystr option"
  unit_version :: int
  node_ids :: "pystr list"
  depends_on_unit_ids :: "pystr list"
  unit_content_hash :: "pystr option"
  unit_grounding_run_id :: "pystr option"
  unit_quality_run_id :: "pystr option"
  section_drafts :: "SectionDraft list"

record OutlineVersion =
  outline_id :: pystr
  outline_task_id :: pystr
  outline_version :: int
  outline_title :: pystr
  outline_status :: OutlineStatus
  outline_nodes :: "OutlineNode list"
  confirmation_units :: "ConfirmationUnit list"
  outline_created_at :: time
  outline_confirmed_at :: "time option"

record AgentRun =
  run_id :: pystr
  run_task_id :: pystr
  thread_id :: pystr
  graph_name :: string
  graph_version :: string
  run_status :: RunStatus
  input_hash :: pystr
  run_idempotency_key :: pystr
  started_at :: "time option"
  ended_at :: "time option"
  run_error :: "exn option"

record TaskMessage =
  message_id :: pystr
  message_task_id :: pystr
  message_actor_id :: pystr
  message_content :: pystr
  message_created_at :: time

record PrdSectionVersion =
  section_id :: pystr
  section_unit_id :: pystr
  section_version :: int
  section_title :: pystr
  section_content :: pystr
  section_created_at :: time
  section_node_id :: "pystr option"
  section_status :: SectionStatus
  section_content_hash :: pystr
  source_run_id :: "pystr option"
  section_grounding_run_id :: "pystr option"
  section_quality_run_id :: "pystr option"
  supersedes_section_id :: "pystr option"
  section_confirmed_by :: "pystr option"
  section_confirmed_at :: "time option"

record PrdDocumentVersion =
  document_id :: pystr
  document_task_id :: pystr
  document_version :: int
  document_markdown :: pystr
  document_created_at :: time
  document_content_hash :: pystr
  document_status :: DocumentStatus
  document_section_ids :: "pystr list"
  document_confirmed_by :: "pystr option"
  document_confirmed_at :: "time option"

text \<open>The payloads of the workflow's events: one constructor per shape the service writes.\<close>

datatype EventPayload =
    RunPayload pystr
  | NodePayload string
  | QuestionCountPayload nat
  | OutlineVersionPayload int
  | UnitPayload pystr
  | UnitIssuesPayload pystr nat
  | QualityPayload pystr bool nat
  | DocumentVersionPayload nat
  | RevisionPayload pystr "pystr list"
  | ReopenPayload "pystr list" pystr
  | DocumentPayload pystr

record DomainEvent =
  event_id :: pystr
  event_task_id :: pystr
  event_sequence :: nat
  event_type :: string
  event_payload :: EventPayload
  event_created_at :: time

record IdempotencyRecord =
  idem_actor_id :: pystr
  idem_key :: pystr
  idem_input_hash :: pystr
  idem_task_id :: pystr
  idem_run_id :: pystr
  idem_created_at :: time

section \<open>Commands\<close>

record StartTask =
  st_message :: pystr
  st_idempotency_key :: pystr
  st_actor_id :: pystr

record ReplyToTask =
  rt_task_id :: pystr
  rt_message :: pystr
  rt_expected_task_version :: int
  rt_idempotency_key :: pystr
  rt_actor_id :: pystr

record ConfirmOutline =
  co_task_id :: pystr
  co_outline_version :: int
  co_expected_task_version :: int
  co_idempotency_key :: pystr
  co_actor_id :: pystr

record ConfirmUnit =
  cu_task_id :: pystr
  cu_unit_id :: pystr
  cu_expected_task_version :: int
  cu_idempotency_key :: pystr
  cu_actor_id :: pystr

record FinalizePrd =
  fp_task_id :: pystr
  fp_document_id :: pystr
  fp_content_hash :: pystr
  fp_expected_task_version :: int
  fp_idempotency_key :: pystr
  fp_actor_id :: pystr

record ApproveRevisionPlan =
  ar_task_id :: pystr
  ar_document_id :: pystr
  ar_issue_ids :: "pystr list"
  ar_unit_ids :: "pystr list"
  ar_expected_task_version :: int
  ar_idempotency_key :: pystr
  ar_actor_id :: pystr

record ReopenPrd =
  rp_task_id :: pystr
  rp_unit_ids :: "pystr list"
  rp_reason :: pystr
  rp_expected_task_version :: int
  rp_idempotency_key :: pystr
  rp_actor_id :: pystr

section \<open>What a brief accepted from a model looks like\<close>

lemma strings_of_nonblank:
  assumes "strings_of str_of v = Inr ss" "s \<in> set ss"
  shows "s \<noteq> [] \<and> strip s = s"
  using assms by (auto simp: strings_of_def Let_def split: json.splits if_splits)

lemma strings_of_falsy: "\<not> py_truthy v \<Longrightarrow> strings_of str_of v = Inr ss \<Longrightarrow> ss = []"
  by (cases v) (auto simp: strings_of_def Let_def split: if_splits)

lemma from_mapping_problem: "from_mapping str_of v = Inr b \<Longrightarrow> problem b \<noteq> [] \<and> strip (problem b) = problem b"
  by (auto simp: from_mapping_def Let_def bindE_Inr split: json.splits)

lemma from_mapping_protected:
  assumes "from_mapping str_of v = Inr b"
  shows "current_state_fact_ids b = [] \<and> unknown_item_ids b = [] \<and> source_conflict_ids b = []"
  using assms
  by (auto simp: from_mapping_def Let_def bindE_Inr split: json.splits dest: strings_of_falsy)

lemma from_mapping_nonblank:
  assumes "from_mapping str_of v = Inr b"
  shows "\<forall>s \<in> set (goals b) \<union> set (scope_in b) \<union> set (scope_out b) \<union> set (open_questions b)
           \<union> set (target_users b) \<union> set (scenarios b) \<union> set (product_rules b). s \<noteq> [] \<and> strip s = s"
  using assms
  by (auto simp: from_mapping_def Let_def bindE_Inr split: json.splits dest: strings_of_nonblank)

lemma from_mapping_object: "from_mapping str_of v = Inr b \<Longrightarrow> \<exists>kvs. v = JObj kvs"
  by (auto simp: from_mapping_def split: json.splits)

end
