(* ===== verification/Evidence_Model.thy ===== *)
theory Evidence_Model
  imports Domain_Model
begin

text \<open>
  Source bindings (\<^verbatim>\<open>src/prd_agent/sources/models.py\<close>) and the evidence, facts and
  conflicts of \<^verbatim>\<open>src/prd_agent/evidence/models.py\<close>, which grounding judges.
\<close>

datatype SourceKind = CODE_REPOSITORY | HISTORICAL_PRD_CORPUS | HISTORICAL_PRD_DOCUMENT

datatype FactScope = FS_CURRENT_STATE | FS_HISTORICAL_CONTEXT | FS_TARGET_DECISION | FS_ASSUMPTION

datatype FactType = FT_USER_CONFIRMED | FT_CODE_VERIFIED | FT_DOCUMENT_SUPPORTED | FT_INFERRED | FT_UNKNOWN

datatype VerificationStatus = VS_SUPPORTED | VS_PARTIALLY_SUPPORTED | VS_UNSUPPORTED | VS_CONFLICTING

datatype ExtractionMethod = EM_TREE | EM_SEARCH | EM_SOURCE_READ | EM_OPENAPI_PARSE
  | EM_DATABASE_SCHEMA_PARSE | EM_RELATED_TEST_SEARCH | EM_SYMBOL_SEARCH | EM_REFERENCE_SEARCH
  | EM_HISTORICAL_RETRIEVAL | EM_EXTERNAL_AGENT_CANDIDATE

record SourceBinding =
  binding_id :: pystr
  binding_source_kind :: SourceKind
  binding_source_id :: pystr
  binding_source_version :: pystr
  binding_owner_id :: pystr
  binding_access_scope_hash :: pystr
  binding_metadata :: "(pystr \<times> pystr) list"

text \<open>\<open>source_id\<close> and \<open>source_version\<close> are optional in the class, and its validator
  \<open>validate_source_contract\<close> refuses evidence that lacks one.\<close>

record SourceEvidence =
  evidence_id :: pystr
  evidence_tool_call_id :: pystr
  evidence_source_type :: pystr
  evidence_source_kind :: SourceKind
  evidence_source_id :: "pystr option"
  evidence_source_version :: "pystr option"
  evidence_locator :: "(pystr \<times> json) list"
  evidence_access_scope_hash :: "pystr option"
  evidence_repository_id :: "pystr option"
  evidence_resolved_commit_sha :: "pystr option"
  evidence_path :: "pystr option"
  evidence_line_start :: "int option"
  evidence_line_end :: "int option"
  evidence_symbol :: "pystr option"
  evidence_excerpt :: pystr
  evidence_content_hash :: pystr
  evidence_source_blob_id :: "pystr option"
  evidence_extraction_method :: ExtractionMethod
  evidence_redaction_applied :: bool
  evidence_retrieved_at :: time

text \<open>\<open>not value\<close> for an optional string.\<close>

definition blank_opt :: "pystr option \<Rightarrow> bool" where
  "blank_opt v \<longleftrightarrow> v = None \<or> v = Some []"

definition validate_source_contract :: "SourceEvidence \<Rightarrow> exn + SourceEvidence" where
  "validate_source_contract e =
     (if blank_opt (evidence_source_id e) \<or> blank_opt (evidence_source_version e)
      then Inl (ValueError ''source_id and source_version are required'')
      else if evidence_source_kind e = CODE_REPOSITORY
      then (if blank_opt (evidence_repository_id e) \<or> blank_opt (evidence_resolved_commit_sha e) \<or> blank_opt (evidence_path e)
            then Inl (ValueError ''code evidence requires repository, commit and path'') else Inr e)
      else if evidence_locator e = [] then Inl (ValueError ''historical evidence requires a locator'')
      else Inr e)"

record DeterministicFact =
  fact_id :: pystr
  fact_tool_call_id :: pystr
  fact_task_id :: "pystr option"
  fact_subject :: pystr
  fact_predicate :: pystr
  fact_value_json :: json
  fact_scope :: FactScope
  fact_type :: FactType
  fact_confidence :: pystr
  fact_verification_status :: VerificationStatus
  fact_extractor_id :: pystr
  fact_extractor_version :: pystr
  fact_evidence_ids :: "pystr list"

record SourceConflict =
  conflict_id :: pystr
  conflict_subject :: pystr
  conflict_description :: pystr
  conflict_fact_ids :: "pystr list"
  conflict_status :: pystr

end
