(* ===== verification/Grounding_Service.thy ===== *)
theory Grounding_Service
  imports Evidence_Model
begin

text \<open>
  \<^verbatim>\<open>src/prd_agent/grounding/models.py\<close> and \<^verbatim>\<open>service.py\<close>: the deterministic
  grounding policy. A fact is judged by its links, its verification status and the reproducible
  evidence behind it; a claim by the facts, decisions or assumptions it cites; a request is
  confirmable when no claim of a blocking kind is unsupported. A blocked request may be judged a
  second time, once, on supplementary facts.
\<close>

section \<open>Data\<close>

datatype GroundingVerdict = GV_SUPPORTED | GV_PARTIALLY_SUPPORTED | GV_UNSUPPORTED | GV_CONFLICTING
  | GV_STALE_SOURCE | GV_INVALID_SOURCE

datatype ClaimKind = CK_CURRENT_STATE | CK_HISTORICAL_CONTEXT | CK_TARGET_DECISION | CK_ASSUMPTION
  | CK_RECOMMENDATION | CK_UNKNOWN | CK_RISK

datatype ClaimCriticality = CC_CRITICAL | CC_MATERIAL | CC_INFORMATIONAL

datatype GroundingAction = GA_PASS | GA_RETRY_INVESTIGATION | GA_DELETE_CLAIM
  | GA_DOWNGRADE_TO_ASSUMPTION | GA_CONVERT_TO_UNKNOWN | GA_CONVERT_TO_RISK | GA_HUMAN_CONFIRMATION_REQUIRED

datatype GroundingStatus = GS_PASSED | GS_DEGRADED | GS_HUMAN_INPUT_REQUIRED | GS_FAILED

record PrdClaim =
  claim_id :: pystr
  claim_text :: pystr
  claim_kind :: ClaimKind
  claim_criticality :: ClaimCriticality
  claim_fact_ids :: "pystr list"
  claim_decision_ids :: "pystr list"
  claim_assumption_ids :: "pystr list"

record GroundingRequest =
  gr_grounding_run_id :: pystr
  gr_task_id :: pystr
  gr_unit_id :: pystr
  gr_repository_id :: "pystr option"
  gr_resolved_commit_sha :: "pystr option"
  gr_allowed_source_bindings :: "SourceBinding list"
  gr_content :: pystr
  gr_claims :: "PrdClaim list"
  gr_facts :: "DeterministicFact list"
  gr_evidence :: "SourceEvidence list"
  gr_conflicts :: "SourceConflict list"
  gr_retry_count :: int

record GroundingSupplement =
  supp_facts :: "DeterministicFact list"
  supp_evidence :: "SourceEvidence list"
  supp_conflicts :: "SourceConflict list"

record FactGroundingAssessment =
  fa_fact_id :: pystr
  fa_evidence_ids :: "pystr list"
  fa_verdict :: GroundingVerdict
  fa_reason_code :: string

record ClaimGroundingAssessment =
  ca_claim_id :: pystr
  ca_kind :: ClaimKind
  ca_verdict :: GroundingVerdict
  ca_valid_fact_ids :: "pystr list"
  ca_invalid_fact_ids :: "pystr list"
  ca_action :: GroundingAction
  ca_reason_code :: string

record GroundingReference =
  ref_claim_ids :: "pystr list"
  ref_fact_id :: pystr
  ref_evidence_id :: pystr
  ref_source_kind :: SourceKind
  ref_source_id :: "pystr option"
  ref_source_version :: "pystr option"
  ref_locator :: "(pystr \<times> json) list"
  ref_repository_id :: "pystr option"
  ref_resolved_commit_sha :: "pystr option"
  ref_path :: "pystr option"
  ref_line_start :: "int option"
  ref_line_end :: "int option"
  ref_symbol :: "pystr option"

record GroundingResult =
  grounding_run_id :: pystr
  grounding_task_id :: pystr
  grounding_unit_id :: pystr
  grounding_status :: GroundingStatus
  grounding_confirmable :: bool
  fact_assessments :: "FactGroundingAssessment list"
  claim_assessments :: "ClaimGroundingAssessment list"
  used_fact_ids :: "pystr list"
  grounding_references :: "GroundingReference list"
  grounding_retry_count :: int
  grounding_issues :: "(pystr \<times> string) list"

text \<open>The field constraints and \<open>validate_source_scope\<close> of \<open>GroundingRequest\<close>.\<close>

definition is_commit_sha :: "pystr \<Rightarrow> bool" where
  "is_commit_sha s \<longleftrightarrow> length s = 40 \<and> (\<forall>c \<in> set s. is_digit c \<or> (97 \<le> c \<and> c \<le> 102))"

definition validate_grounding_request :: "GroundingRequest \<Rightarrow> exn + GroundingRequest" where
  "validate_grounding_request r =
     (if gr_grounding_run_id r = [] \<or> gr_task_id r = [] \<or> gr_unit_id r = [] \<or> gr_content r = []
         \<or> gr_repository_id r = Some []
         \<or> (case gr_resolved_commit_sha r of None \<Rightarrow> False | Some s \<Rightarrow> \<not> is_commit_sha s)
         \<or> gr_retry_count r < 0 \<or> 1 < gr_retry_count r
      then Inl (ValidationError ''GroundingRequest field'')
      else if blank_opt (gr_repository_id r) \<noteq> blank_opt (gr_resolved_commit_sha r)
      then Inl (ValidationError ''repository_id and resolved_commit_sha must be provided together'')
      else if blank_opt (gr_repository_id r) \<and> gr_allowed_source_bindings r = []
      then Inl (ValidationError ''at least one allowed source binding is required'')
      else Inr r)"

section \<open>Judging facts\<close>

text \<open>\<open>_searchable_value\<close>; \<open>lower\<close> is Python's \<open>str.lower\<close>.\<close>

fun searchable_value :: "(pystr \<Rightarrow> pystr) \<Rightarrow> json \<Rightarrow> pystr" where
  "searchable_value lower (JStr s) = lower (strip s)"
| "searchable_value lower v = lower (json_dumps [44, 32] [58, 32] v)"

definition kind_matches :: "SourceBinding \<Rightarrow> SourceEvidence \<Rightarrow> bool" where
  "kind_matches b e \<longleftrightarrow> binding_source_kind b = evidence_source_kind e
     \<or> (binding_source_kind b = HISTORICAL_PRD_CORPUS \<and> evidence_source_kind e = HISTORICAL_PRD_DOCUMENT)"

definition locator_is :: "SourceEvidence \<Rightarrow> string \<Rightarrow> pystr \<Rightarrow> bool" where
  "locator_is e k s \<longleftrightarrow> obj_get (evidence_locator e) k = Some (JStr s)"

definition id_matches :: "SourceBinding \<Rightarrow> SourceEvidence \<Rightarrow> bool" where
  "id_matches b e \<longleftrightarrow> Some (binding_source_id b) = evidence_source_id e
     \<or> (evidence_source_kind e = HISTORICAL_PRD_DOCUMENT \<and> locator_is e ''corpus_id'' (binding_source_id b))"

definition version_matches :: "SourceBinding \<Rightarrow> SourceEvidence \<Rightarrow> bool" where
  "version_matches b e \<longleftrightarrow> Some (binding_source_version b) = evidence_source_version e
     \<or> (evidence_source_kind e = HISTORICAL_PRD_DOCUMENT \<and> locator_is e ''corpus_version'' (binding_source_version b))"

definition source_verdict :: "GroundingRequest \<Rightarrow> SourceEvidence \<Rightarrow> (GroundingVerdict \<times> string) option" where
  "source_verdict request e =
     (if gr_allowed_source_bindings request \<noteq> [] then
        (let candidates = filter (\<lambda>b. kind_matches b e \<and> id_matches b e) (gr_allowed_source_bindings request) in
         if candidates = [] then Some (GV_INVALID_SOURCE, ''SOURCE_BINDING_MISMATCH'')
         else
           (case find (\<lambda>b. version_matches b e) candidates of
              None \<Rightarrow> Some (GV_STALE_SOURCE, ''SOURCE_VERSION_MISMATCH'')
            | Some b \<Rightarrow>
                if \<not> blank_opt (evidence_access_scope_hash e)
                   \<and> evidence_access_scope_hash e \<noteq> Some (binding_access_scope_hash b)
                then Some (GV_INVALID_SOURCE, ''ACCESS_SCOPE_MISMATCH'') else None))
      else if evidence_source_kind e \<noteq> CODE_REPOSITORY then Some (GV_INVALID_SOURCE, ''SOURCE_KIND_NOT_ALLOWED'')
      else if evidence_repository_id e \<noteq> gr_repository_id request then Some (GV_INVALID_SOURCE, ''REPOSITORY_MISMATCH'')
      else if evidence_resolved_commit_sha e \<noteq> gr_resolved_commit_sha request then Some (GV_STALE_SOURCE, ''COMMIT_MISMATCH'')
      else None)"

text \<open>The loop over a fact's evidence identifiers: a refusal, or the evidence it linked.\<close>

fun link_evidence :: "GroundingRequest \<Rightarrow> (pystr, SourceEvidence) dict \<Rightarrow> pystr list \<Rightarrow>
    (GroundingVerdict \<times> string) + SourceEvidence list" where
  "link_evidence request by_id [] = Inr []"
| "link_evidence request by_id (i # ids) =
     (case dict_get by_id i of
        None \<Rightarrow> Inl (GV_INVALID_SOURCE, ''EVIDENCE_NOT_FOUND'')
      | Some e \<Rightarrow>
          (case source_verdict request e of
             Some v \<Rightarrow> Inl v
           | None \<Rightarrow>
               if strip (evidence_excerpt e) = [] \<or> evidence_content_hash e = []
               then Inl (GV_INVALID_SOURCE, ''EVIDENCE_NOT_REPRODUCIBLE'')
               else bindE (link_evidence request by_id ids) (\<lambda>linked. Inr (e # linked))))"

definition assess_fact :: "(pystr \<Rightarrow> pystr) \<Rightarrow> GroundingRequest \<Rightarrow> DeterministicFact \<Rightarrow>
    (pystr, SourceEvidence) dict \<Rightarrow> pystr list \<Rightarrow> GroundingVerdict \<times> string" where
  "assess_fact lower request fct evidence_by_id conflict_ids =
     (if \<not> blank_opt (fact_task_id fct) \<and> fact_task_id fct \<noteq> Some (gr_task_id request)
      then (GV_INVALID_SOURCE, ''FACT_TASK_MISMATCH'')
      else if fact_id fct \<in> set conflict_ids then (GV_CONFLICTING, ''OPEN_SOURCE_CONFLICT'')
      else if fact_evidence_ids fct = [] then (GV_INVALID_SOURCE, ''EVIDENCE_REQUIRED'')
      else if fact_type fct \<in> {FT_INFERRED, FT_UNKNOWN} then (GV_UNSUPPORTED, ''NON_DETERMINISTIC_FACT'')
      else if fact_verification_status fct = VS_CONFLICTING then (GV_CONFLICTING, ''FACT_CONFLICTING'')
      else if fact_verification_status fct = VS_PARTIALLY_SUPPORTED then (GV_PARTIALLY_SUPPORTED, ''FACT_PARTIAL'')
      else if fact_verification_status fct \<noteq> VS_SUPPORTED then (GV_UNSUPPORTED, ''FACT_NOT_VERIFIED'')
      else
        (case link_evidence request evidence_by_id (fact_evidence_ids fct) of
           Inl v \<Rightarrow> v
         | Inr linked \<Rightarrow>
             (let value = searchable_value lower (fact_value_json fct) in
              if value \<noteq> [] \<and> \<not> (\<exists>e \<in> set linked. substr_in value (lower (evidence_excerpt e)))
              then (GV_UNSUPPORTED, ''EVIDENCE_ONLY_RELATED'')
              else (GV_SUPPORTED, ''DIRECT_SUPPORT''))))"

section \<open>Judging claims\<close>

fun fact_can_support_claim :: "DeterministicFact option \<Rightarrow> ClaimKind \<Rightarrow> bool" where
  "fact_can_support_claim None kind = False"
| "fact_can_support_claim (Some f) CK_CURRENT_STATE =
     (fact_type f = FT_CODE_VERIFIED \<and> fact_scope f = FS_CURRENT_STATE)"
| "fact_can_support_claim (Some f) CK_HISTORICAL_CONTEXT =
     (fact_type f = FT_DOCUMENT_SUPPORTED \<and> fact_scope f = FS_HISTORICAL_CONTEXT)"
| "fact_can_support_claim (Some f) _ = False"

definition assess_claim :: "PrdClaim \<Rightarrow> (pystr, GroundingVerdict) dict \<Rightarrow>
    (pystr, DeterministicFact) dict \<Rightarrow> ClaimGroundingAssessment" where
  "assess_claim claim fact_verdicts facts_by_id =
     (if claim_kind claim \<in> {CK_CURRENT_STATE, CK_HISTORICAL_CONTEXT} then
        (if claim_fact_ids claim = [] then
           \<lparr>ca_claim_id = claim_id claim, ca_kind = claim_kind claim, ca_verdict = GV_UNSUPPORTED,
            ca_valid_fact_ids = [], ca_invalid_fact_ids = [], ca_action = GA_RETRY_INVESTIGATION,
            ca_reason_code = (if claim_kind claim = CK_CURRENT_STATE then ''CURRENT_STATE_FACT_REQUIRED''
                              else ''HISTORICAL_FACT_REQUIRED'')\<rparr>
         else
           (let valid = filter (\<lambda>i. dict_get fact_verdicts i = Some GV_SUPPORTED
                   \<and> fact_can_support_claim (dict_get facts_by_id i) (claim_kind claim)) (claim_fact_ids claim);
                invalid = filter (\<lambda>i. i \<notin> set valid) (claim_fact_ids claim);
                ok = (length valid = length (claim_fact_ids claim)) in
            \<lparr>ca_claim_id = claim_id claim, ca_kind = claim_kind claim,
             ca_verdict = (if ok then GV_SUPPORTED else GV_UNSUPPORTED),
             ca_valid_fact_ids = valid, ca_invalid_fact_ids = invalid,
             ca_action = (if ok then GA_PASS else GA_RETRY_INVESTIGATION),
             ca_reason_code = (if ok then ''FACTS_SUPPORT_CLAIM''
                else if claim_kind claim = CK_CURRENT_STATE then ''CLAIM_HAS_UNSUPPORTED_FACT''
                else ''HISTORICAL_CLAIM_HAS_UNSUPPORTED_FACT'')\<rparr>))
      else
        (let (supported, reason) =
           (if claim_kind claim = CK_TARGET_DECISION then
              (claim_decision_ids claim \<noteq> [],
               if claim_decision_ids claim \<noteq> [] then ''TARGET_DECISION_CONFIRMED'' else ''DECISION_REQUIRED'')
            else if claim_kind claim = CK_ASSUMPTION then
              (claim_assumption_ids claim \<noteq> [],
               if claim_assumption_ids claim \<noteq> [] then ''ASSUMPTION_AUTHORIZED'' else ''ASSUMPTION_AUTHORIZATION_REQUIRED'')
            else (True, ''NON_DETERMINISTIC_CLAIM_LABELED'')) in
         \<lparr>ca_claim_id = claim_id claim, ca_kind = claim_kind claim,
          ca_verdict = (if supported then GV_SUPPORTED else GV_UNSUPPORTED),
          ca_valid_fact_ids = [], ca_invalid_fact_ids = [],
          ca_action = (if supported then GA_PASS else GA_HUMAN_CONFIRMATION_REQUIRED),
          ca_reason_code = reason\<rparr>))"

section \<open>Grounding a request\<close>

definition conflict_fact_ids_of :: "GroundingRequest \<Rightarrow> pystr list" where
  "conflict_fact_ids_of request =
     concat (map conflict_fact_ids (filter (\<lambda>c. conflict_status c = lit ''OPEN'') (gr_conflicts request)))"

definition fact_assessment :: "(pystr \<Rightarrow> pystr) \<Rightarrow> GroundingRequest \<Rightarrow> DeterministicFact \<Rightarrow> FactGroundingAssessment" where
  "fact_assessment lower request f =
     (let (verdict, reason) = assess_fact lower request f (dict_by evidence_id (gr_evidence request)) (conflict_fact_ids_of request) in
      \<lparr>fa_fact_id = fact_id f, fa_evidence_ids = fact_evidence_ids f, fa_verdict = verdict, fa_reason_code = reason\<rparr>)"

definition assess_facts :: "(pystr \<Rightarrow> pystr) \<Rightarrow> GroundingRequest \<Rightarrow> FactGroundingAssessment list" where
  "assess_facts lower request = map (fact_assessment lower request) (gr_facts request)"

definition fact_verdict_dict :: "FactGroundingAssessment list \<Rightarrow> (pystr, GroundingVerdict) dict" where
  "fact_verdict_dict as = dict_comp fa_fact_id fa_verdict as"

definition blocking_kinds :: "ClaimKind set" where
  "blocking_kinds = {CK_CURRENT_STATE, CK_HISTORICAL_CONTEXT, CK_TARGET_DECISION, CK_ASSUMPTION}"

text \<open>\<open>claims_by_id[i].kind\<close>; looking an absent claim up raises.\<close>

definition kind_of_claim :: "GroundingRequest \<Rightarrow> pystr \<Rightarrow> exn + ClaimKind" where
  "kind_of_claim request i =
     (case dict_get (dict_by claim_id (gr_claims request)) i of None \<Rightarrow> Inl KeyError | Some c \<Rightarrow> Inr (claim_kind c))"

fun any_blocking :: "GroundingRequest \<Rightarrow> ClaimGroundingAssessment list \<Rightarrow> exn + bool" where
  "any_blocking request [] = Inr False"
| "any_blocking request (a # as) =
     (if ca_verdict a \<noteq> GV_SUPPORTED then
        bindE (kind_of_claim request (ca_claim_id a)) (\<lambda>k.
        if k \<in> blocking_kinds then Inr True else any_blocking request as)
      else any_blocking request as)"

definition reference_of :: "pystr list \<Rightarrow> pystr \<Rightarrow> SourceEvidence \<Rightarrow> GroundingReference" where
  "reference_of claim_ids fid e =
     \<lparr>ref_claim_ids = claim_ids, ref_fact_id = fid, ref_evidence_id = evidence_id e,
      ref_source_kind = evidence_source_kind e, ref_source_id = evidence_source_id e,
      ref_source_version = evidence_source_version e, ref_locator = evidence_locator e,
      ref_repository_id = evidence_repository_id e, ref_resolved_commit_sha = evidence_resolved_commit_sha e,
      ref_path = evidence_path e, ref_line_start = evidence_line_start e, ref_line_end = evidence_line_end e,
      ref_symbol = evidence_symbol e\<rparr>"

definition references_of :: "GroundingRequest \<Rightarrow> FactGroundingAssessment list \<Rightarrow> pystr list \<Rightarrow> exn + GroundingReference list" where
  "references_of request as used =
     (let supported = map fa_fact_id (filter (\<lambda>a. fa_verdict a = GV_SUPPORTED) as);
          fact_by_id = dict_by fact_id (gr_facts request);
          evidence_by_id = dict_by evidence_id (gr_evidence request) in
      bindE (mapE (\<lambda>fid.
          case dict_get fact_by_id fid of
            None \<Rightarrow> Inl KeyError
          | Some fct \<Rightarrow>
              mapE (\<lambda>eid. case dict_get evidence_by_id eid of
                  None \<Rightarrow> Inl KeyError
                | Some e \<Rightarrow> Inr (reference_of
                    (map claim_id (filter (\<lambda>c. fid \<in> set (claim_fact_ids c)) (gr_claims request))) fid e))
                (fact_evidence_ids fct))
        (filter (\<lambda>fid. fid \<in> set supported) (fromkeys used)))
      (\<lambda>rss. Inr (concat rss)))"

text \<open>The body of \<open>ground\<close> up to the result, with the flag \<open>blocking\<close>.\<close>

definition ground_once :: "(pystr \<Rightarrow> pystr) \<Rightarrow> GroundingRequest \<Rightarrow> exn + GroundingResult \<times> bool" where
  "ground_once lower request =
     (let fas = assess_facts lower request;
          cas = map (\<lambda>c. assess_claim c (fact_verdict_dict fas) (dict_by fact_id (gr_facts request))) (gr_claims request);
          used = concat (map ca_valid_fact_ids cas);
          issues = map (\<lambda>a. (ca_claim_id a, ca_reason_code a)) (filter (\<lambda>a. ca_verdict a \<noteq> GV_SUPPORTED) cas) in
      bindE (any_blocking request cas) (\<lambda>blocking.
      bindE (references_of request fas used) (\<lambda>refs.
      Inr (\<lparr>grounding_run_id = gr_grounding_run_id request, grounding_task_id = gr_task_id request,
            grounding_unit_id = gr_unit_id request,
            grounding_status = (if blocking then GS_HUMAN_INPUT_REQUIRED else if issues \<noteq> [] then GS_DEGRADED else GS_PASSED),
            grounding_confirmable = (\<not> blocking), fact_assessments = fas, claim_assessments = cas,
            used_fact_ids = fromkeys used, grounding_references = refs,
            grounding_retry_count = gr_retry_count request, grounding_issues = issues\<rparr>, blocking))))"

definition failed_claim_ids_of :: "GroundingRequest \<Rightarrow> ClaimGroundingAssessment list \<Rightarrow> pystr list" where
  "failed_claim_ids_of request cas =
     map ca_claim_id (filter (\<lambda>a. ca_verdict a \<noteq> GV_SUPPORTED
       \<and> (case dict_get (dict_by claim_id (gr_claims request)) (ca_claim_id a) of
            None \<Rightarrow> False
          | Some c \<Rightarrow> claim_kind c = CK_CURRENT_STATE \<and> claim_criticality c \<noteq> CC_INFORMATIONAL)) cas)"

text \<open>\<open>facts = {by id}; facts.update({by id})\<close>.\<close>

definition merge_by :: "('v \<Rightarrow> pystr) \<Rightarrow> 'v list \<Rightarrow> 'v list \<Rightarrow> 'v list" where
  "merge_by key xs ys = dict_values (foldl (\<lambda>d y. dict_set (key y) y d) (dict_by key xs) (dict_values (dict_by key ys)))"

definition retried_request :: "GroundingRequest \<Rightarrow> GroundingSupplement \<Rightarrow> GroundingRequest" where
  "retried_request request s =
     request\<lparr>gr_facts := merge_by fact_id (gr_facts request) (supp_facts s),
             gr_evidence := merge_by evidence_id (gr_evidence request) (supp_evidence s),
             gr_conflicts := merge_by conflict_id (gr_conflicts request) (supp_conflicts s),
             gr_retry_count := 1\<rparr>"

text \<open>
  \<open>GroundingService.ground\<close>. The retry provider is code the service is constructed with: it
  may return a supplement for the failed claims, or nothing, or raise, and its exception leaves
  \<open>ground\<close>. The second judgement runs on a service without a provider, so it is one more \<open>ground_once\<close>.
\<close>

type_synonym retry_provider = "GroundingRequest \<Rightarrow> pystr list \<Rightarrow> exn + GroundingSupplement option"

definition ground :: "(pystr \<Rightarrow> pystr) \<Rightarrow> retry_provider option \<Rightarrow> GroundingRequest \<Rightarrow> exn + GroundingResult" where
  "ground lower retry_provider request =
     bindE (ground_once lower request) (\<lambda>(result, blocking).
       case retry_provider of
         None \<Rightarrow> Inr result
       | Some supplement \<Rightarrow>
           if blocking \<and> gr_retry_count request = 0 then
             (let failed = failed_claim_ids_of request (claim_assessments result) in
              if failed = [] then Inr result
              else
                (case supplement request failed of
                   Inl e \<Rightarrow> Inl e
                 | Inr None \<Rightarrow> Inr result
                 | Inr (Some s) \<Rightarrow> bindE (ground_once lower (retried_request request s)) (\<lambda>(result', _). Inr result')))
           else Inr result)"

section \<open>Facts about judging facts\<close>

lemma link_evidence_Inr:
  assumes "link_evidence request by_id ids = Inr linked"
  shows "list_all2 (\<lambda>i e. dict_get by_id i = Some e) ids linked
    \<and> (\<forall>e \<in> set linked. source_verdict request e = None \<and> strip (evidence_excerpt e) \<noteq> [] \<and> evidence_content_hash e \<noteq> [])"
  using assms
proof (induction ids arbitrary: linked)
  case Nil
  then show ?case by simp
next
  case (Cons i ids)
  then show ?case
    by (auto simp: bindE_Inr split: option.splits if_splits)
qed

text \<open>What a fact needs in order to be judged \<open>SUPPORTED\<close>.\<close>

lemma assess_fact_supported:
  assumes "fst (assess_fact lower request f by_id conflicts) = GV_SUPPORTED"
  obtains linked where
    "link_evidence request by_id (fact_evidence_ids f) = Inr linked"
    "fact_evidence_ids f \<noteq> []" "fact_id f \<notin> set conflicts"
    "fact_type f \<notin> {FT_INFERRED, FT_UNKNOWN}" "fact_verification_status f = VS_SUPPORTED"
    "blank_opt (fact_task_id f) \<or> fact_task_id f = Some (gr_task_id request)"
    "searchable_value lower (fact_value_json f) = [] \<or>
       (\<exists>e \<in> set linked. substr_in (searchable_value lower (fact_value_json f)) (lower (evidence_excerpt e)))"
proof -
  have not_sup: "\<And>ids v. link_evidence request by_id ids = Inl v \<Longrightarrow> fst v \<noteq> GV_SUPPORTED"
  proof -
    fix ids v assume "link_evidence request by_id ids = Inl v"
    then show "fst v \<noteq> GV_SUPPORTED"
    proof (induction ids)
      case Nil
      then show ?case by simp
    next
      case (Cons i ids)
      then show ?case
        by (auto simp: source_verdict_def Let_def bindE_def split: option.splits if_splits sum.splits)
    qed
  qed
  from assms that not_sup show thesis
    by (fastforce simp: assess_fact_def Let_def split: if_splits sum.splits)
qed

text \<open>Evidence that passes in the single-repository mode is from the pinned repository and commit.\<close>

lemma source_verdict_pinned:
  "source_verdict request e = None \<Longrightarrow> gr_allowed_source_bindings request = [] \<Longrightarrow>
     evidence_source_kind e = CODE_REPOSITORY \<and> evidence_repository_id e = gr_repository_id request
     \<and> evidence_resolved_commit_sha e = gr_resolved_commit_sha request"
  by (auto simp: source_verdict_def split: if_splits)

text \<open>Evidence that passes under source bindings is covered by one of them.\<close>

lemma source_verdict_bound:
  assumes "source_verdict request e = None" "gr_allowed_source_bindings request \<noteq> []"
  shows "\<exists>b \<in> set (gr_allowed_source_bindings request). kind_matches b e \<and> id_matches b e \<and> version_matches b e
    \<and> (blank_opt (evidence_access_scope_hash e) \<or> evidence_access_scope_hash e = Some (binding_access_scope_hash b))"
  using assms
  by (fastforce simp: source_verdict_def Let_def split: if_splits option.splits dest: find_SomeD)

lemma fact_assessment_simps [simp]:
  "fa_fact_id (fact_assessment lower request f) = fact_id f"
  "fa_verdict (fact_assessment lower request f) =
     fst (assess_fact lower request f (dict_by evidence_id (gr_evidence request)) (conflict_fact_ids_of request))"
  by (simp_all add: fact_assessment_def case_prod_beta)

lemma dict_get_fact_verdict:
  "dict_get (fact_verdict_dict (assess_facts lower request)) i =
     map_option (\<lambda>f. fa_verdict (fact_assessment lower request f)) (dict_get (dict_by fact_id (gr_facts request)) i)"
proof -
  have "filter (\<lambda>a. fa_fact_id a = i) (assess_facts lower request) =
      map (fact_assessment lower request) (filter (\<lambda>f. fact_id f = i) (gr_facts request))"
    by (simp add: assess_facts_def filter_map comp_def)
  then show ?thesis
    by (simp add: fact_verdict_dict_def dict_get_comp dict_get_by last_option_def last_map)
qed

text \<open>A fact the request finds supported, as the theorems below speak of it.\<close>

definition backed_fact :: "(pystr \<Rightarrow> pystr) \<Rightarrow> GroundingRequest \<Rightarrow> DeterministicFact \<Rightarrow> bool" where
  "backed_fact lower request f \<longleftrightarrow>
     fact_id f \<notin> set (conflict_fact_ids_of request) \<and> fact_verification_status f = VS_SUPPORTED
     \<and> fact_type f \<notin> {FT_INFERRED, FT_UNKNOWN}
     \<and> (blank_opt (fact_task_id f) \<or> fact_task_id f = Some (gr_task_id request))
     \<and> fact_evidence_ids f \<noteq> []
     \<and> (\<forall>i \<in> set (fact_evidence_ids f). \<exists>e.
          dict_get (dict_by evidence_id (gr_evidence request)) i = Some e \<and> source_verdict request e = None
          \<and> strip (evidence_excerpt e) \<noteq> [] \<and> evidence_content_hash e \<noteq> [])
     \<and> (searchable_value lower (fact_value_json f) = [] \<or>
          (\<exists>i \<in> set (fact_evidence_ids f). \<exists>e. dict_get (dict_by evidence_id (gr_evidence request)) i = Some e
             \<and> substr_in (searchable_value lower (fact_value_json f)) (lower (evidence_excerpt e))))"

lemma assess_fact_backed:
  assumes "fst (assess_fact lower request f (dict_by evidence_id (gr_evidence request)) (conflict_fact_ids_of request)) = GV_SUPPORTED"
  shows "backed_fact lower request f"
proof -
  let ?d = "dict_by evidence_id (gr_evidence request)"
  from assms obtain linked where l:
    "link_evidence request ?d (fact_evidence_ids f) = Inr linked"
    and rest: "fact_evidence_ids f \<noteq> []" "fact_id f \<notin> set (conflict_fact_ids_of request)"
      "fact_type f \<notin> {FT_INFERRED, FT_UNKNOWN}" "fact_verification_status f = VS_SUPPORTED"
      "blank_opt (fact_task_id f) \<or> fact_task_id f = Some (gr_task_id request)"
    and val: "searchable_value lower (fact_value_json f) = [] \<or>
       (\<exists>e \<in> set linked. substr_in (searchable_value lower (fact_value_json f)) (lower (evidence_excerpt e)))"
    by (rule assess_fact_supported)
  from link_evidence_Inr [OF l] have
    all2: "list_all2 (\<lambda>i e. dict_get ?d i = Some e) (fact_evidence_ids f) linked"
    and ok: "\<forall>e \<in> set linked. source_verdict request e = None \<and> strip (evidence_excerpt e) \<noteq> [] \<and> evidence_content_hash e \<noteq> []"
    by blast+
  have ids: "\<exists>e \<in> set linked. dict_get ?d i = Some e" if "i \<in> set (fact_evidence_ids f)" for i
    using all2 that by (auto simp: list_all2_conv_all_nth in_set_conv_nth)
  have origin: "\<exists>i \<in> set (fact_evidence_ids f). dict_get ?d i = Some e" if "e \<in> set linked" for e
    using all2 that by (auto simp: list_all2_conv_all_nth in_set_conv_nth) (metis nth_mem)
  have evid: "\<exists>e. dict_get ?d i = Some e \<and> source_verdict request e = None
      \<and> strip (evidence_excerpt e) \<noteq> [] \<and> evidence_content_hash e \<noteq> []"
    if "i \<in> set (fact_evidence_ids f)" for i
    using ids [OF that] ok by auto
  have val': "searchable_value lower (fact_value_json f) = [] \<or>
      (\<exists>i \<in> set (fact_evidence_ids f). \<exists>e. dict_get ?d i = Some e
         \<and> substr_in (searchable_value lower (fact_value_json f)) (lower (evidence_excerpt e)))"
    using val origin by blast
  from rest evid val' show ?thesis
    by (simp add: backed_fact_def)
qed

section \<open>Facts about judging claims\<close>

lemma assess_claim_simps [simp]:
  "ca_claim_id (assess_claim c fv fb) = claim_id c" "ca_kind (assess_claim c fv fb) = claim_kind c"
  by (auto simp: assess_claim_def Let_def)

lemma assess_claim_supported:
  "ca_verdict (assess_claim c fv fb) = GV_SUPPORTED \<longleftrightarrow>
     (case claim_kind c of
        CK_TARGET_DECISION \<Rightarrow> claim_decision_ids c \<noteq> []
      | CK_ASSUMPTION \<Rightarrow> claim_assumption_ids c \<noteq> []
      | CK_CURRENT_STATE \<Rightarrow> claim_fact_ids c \<noteq> [] \<and> (\<forall>i \<in> set (claim_fact_ids c).
          dict_get fv i = Some GV_SUPPORTED \<and> fact_can_support_claim (dict_get fb i) CK_CURRENT_STATE)
      | CK_HISTORICAL_CONTEXT \<Rightarrow> claim_fact_ids c \<noteq> [] \<and> (\<forall>i \<in> set (claim_fact_ids c).
          dict_get fv i = Some GV_SUPPORTED \<and> fact_can_support_claim (dict_get fb i) CK_HISTORICAL_CONTEXT)
      | _ \<Rightarrow> True)"
  by (cases "claim_kind c") (simp_all add: assess_claim_def Let_def length_filter_eq)

lemma assess_claim_valid:
  "i \<in> set (ca_valid_fact_ids (assess_claim c fv fb)) \<Longrightarrow>
     i \<in> set (claim_fact_ids c) \<and> dict_get fv i = Some GV_SUPPORTED \<and> fact_can_support_claim (dict_get fb i) (claim_kind c)"
  by (auto simp: assess_claim_def Let_def split: if_splits)

section \<open>Grounding returns\<close>

lemma kind_of_claim_known:
  "i \<in> claim_id ` set (gr_claims request) \<Longrightarrow> \<exists>c \<in> set (gr_claims request). claim_id c = i \<and> kind_of_claim request i = Inr (claim_kind c)"
  by (auto simp: kind_of_claim_def split: option.splits dest: dict_by_SomeD)
     (metis dict_by_in option.distinct(1))

lemma kind_of_claim_unique:
  "distinct (map claim_id (gr_claims request)) \<Longrightarrow> c \<in> set (gr_claims request) \<Longrightarrow>
     kind_of_claim request (claim_id c) = Inr (claim_kind c)"
  by (simp add: kind_of_claim_def dict_by_unique)

lemma any_blocking_returns:
  assumes "\<forall>a \<in> set as. ca_claim_id a \<in> claim_id ` set (gr_claims request)"
  shows "\<exists>b. any_blocking request as = Inr b"
  using assms
proof (induction as)
  case Nil
  then show ?case by simp
next
  case (Cons a as)
  then obtain k b where "kind_of_claim request (ca_claim_id a) = Inr k" "any_blocking request as = Inr b"
    using kind_of_claim_known [of "ca_claim_id a" request] by auto
  then show ?case
    by (cases "k \<in> blocking_kinds"; cases "ca_verdict a = GV_SUPPORTED"; cases b) auto
qed

lemma any_blocking_False:
  assumes "any_blocking request as = Inr False" "a \<in> set as" "ca_verdict a \<noteq> GV_SUPPORTED"
  shows "\<exists>k. kind_of_claim request (ca_claim_id a) = Inr k \<and> k \<notin> blocking_kinds"
  using assms
  by (induction as) (auto simp: bindE_Inr split: if_splits)

lemma any_blocking_True:
  assumes "any_blocking request as = Inr True"
  shows "\<exists>a \<in> set as. ca_verdict a \<noteq> GV_SUPPORTED \<and> (\<exists>k \<in> blocking_kinds. kind_of_claim request (ca_claim_id a) = Inr k)"
  using assms
  by (induction as) (auto simp: bindE_Inr split: if_splits)

text \<open>The assessments the body of \<open>ground\<close> computes.\<close>

definition claim_assessments_of :: "(pystr \<Rightarrow> pystr) \<Rightarrow> GroundingRequest \<Rightarrow> ClaimGroundingAssessment list" where
  "claim_assessments_of lower request =
     map (\<lambda>c. assess_claim c (fact_verdict_dict (assess_facts lower request)) (dict_by fact_id (gr_facts request))) (gr_claims request)"

lemma used_fact_backed:
  assumes "i \<in> set (concat (map ca_valid_fact_ids (claim_assessments_of lower request)))"
  obtains f where "dict_get (dict_by fact_id (gr_facts request)) i = Some f" "backed_fact lower request f"
proof -
  from assms obtain c where
    "i \<in> set (ca_valid_fact_ids (assess_claim c (fact_verdict_dict (assess_facts lower request)) (dict_by fact_id (gr_facts request))))"
    by (auto simp: claim_assessments_of_def)
  then have "dict_get (fact_verdict_dict (assess_facts lower request)) i = Some GV_SUPPORTED"
    using assess_claim_valid by blast
  then obtain f where "dict_get (dict_by fact_id (gr_facts request)) i = Some f" "fa_verdict (fact_assessment lower request f) = GV_SUPPORTED"
    by (auto simp: dict_get_fact_verdict)
  with that show thesis by (simp add: assess_fact_backed)
qed

lemma references_of_returns:
  assumes "set used \<subseteq> set (concat (map ca_valid_fact_ids (claim_assessments_of lower request)))"
  shows "\<exists>refs. references_of request as used = Inr refs"
proof -
  let ?fb = "dict_by fact_id (gr_facts request)" and ?eb = "dict_by evidence_id (gr_evidence request)"
  let ?F = "\<lambda>fid. case dict_get ?fb fid of None \<Rightarrow> Inl KeyError
          | Some fct \<Rightarrow> mapE (\<lambda>eid. case dict_get ?eb eid of None \<Rightarrow> Inl KeyError
                | Some e \<Rightarrow> Inr (reference_of (map claim_id (filter (\<lambda>c. fid \<in> set (claim_fact_ids c)) (gr_claims request))) fid e))
                (fact_evidence_ids fct)"
  have ret: "\<exists>rs. ?F fid = Inr rs" if "fid \<in> set used" for fid
  proof -
    from that assms obtain f where f: "dict_get ?fb fid = Some f" "backed_fact lower request f"
      using used_fact_backed [of fid lower request] by blast
    have "\<exists>e. dict_get ?eb eid = Some e" if "eid \<in> set (fact_evidence_ids f)" for eid
      using f(2) that unfolding backed_fact_def by blast
    then show ?thesis
      using f(1) by (auto intro!: mapE_total split: option.splits)
  qed
  have "\<exists>rss. mapE ?F (filter (\<lambda>fid. fid \<in> set (map fa_fact_id (filter (\<lambda>a. fa_verdict a = GV_SUPPORTED) as))) (fromkeys used)) = Inr rss"
    by (rule mapE_total) (use ret in auto)
  then show ?thesis
    by (auto simp: references_of_def Let_def bindE_def)
qed

lemma ground_once_eq:
  "\<exists>blocking refs. any_blocking request (claim_assessments_of lower request) = Inr blocking
    \<and> references_of request (assess_facts lower request) (concat (map ca_valid_fact_ids (claim_assessments_of lower request))) = Inr refs
    \<and> ground_once lower request =
      (let cas = claim_assessments_of lower request;
           issues = map (\<lambda>a. (ca_claim_id a, ca_reason_code a)) (filter (\<lambda>a. ca_verdict a \<noteq> GV_SUPPORTED) cas) in
       Inr (\<lparr>grounding_run_id = gr_grounding_run_id request, grounding_task_id = gr_task_id request,
            grounding_unit_id = gr_unit_id request,
            grounding_status = (if blocking then GS_HUMAN_INPUT_REQUIRED else if issues \<noteq> [] then GS_DEGRADED else GS_PASSED),
            grounding_confirmable = (\<not> blocking), fact_assessments = assess_facts lower request, claim_assessments = cas,
            used_fact_ids = fromkeys (concat (map ca_valid_fact_ids cas)), grounding_references = refs,
            grounding_retry_count = gr_retry_count request, grounding_issues = issues\<rparr>, blocking))"
proof -
  let ?cas = "claim_assessments_of lower request"
  have "\<forall>a \<in> set ?cas. ca_claim_id a \<in> claim_id ` set (gr_claims request)"
    by (auto simp: claim_assessments_of_def)
  then obtain b where b: "any_blocking request ?cas = Inr b"
    using any_blocking_returns by blast
  obtain refs where r: "references_of request (assess_facts lower request) (concat (map ca_valid_fact_ids ?cas)) = Inr refs"
    using references_of_returns [of "concat (map ca_valid_fact_ids ?cas)" lower request "assess_facts lower request"] by auto
  from b r show ?thesis
    by (simp add: ground_once_def Let_def claim_assessments_of_def)
qed

lemma ground_once_returns: "\<exists>result blocking. ground_once lower request = Inr (result, blocking)
    \<and> grounding_confirmable result = (\<not> blocking) \<and> any_blocking request (claim_assessments result) = Inr blocking
    \<and> claim_assessments result = claim_assessments_of lower request"
  using ground_once_eq [of request lower] by (auto simp: Let_def)

section \<open>What a judged request promises\<close>

lemma supported_claim_backed:
  assumes "ca_verdict (assess_claim c (fact_verdict_dict (assess_facts lower request)) (dict_by fact_id (gr_facts request))) = GV_SUPPORTED"
    and "claim_kind c = CK_CURRENT_STATE"
  shows "claim_fact_ids c \<noteq> [] \<and> (\<forall>i \<in> set (claim_fact_ids c). \<exists>f \<in> set (gr_facts request).
    fact_id f = i \<and> fact_type f = FT_CODE_VERIFIED \<and> fact_scope f = FS_CURRENT_STATE \<and> backed_fact lower request f)"
proof -
  let ?fb = "dict_by fact_id (gr_facts request)"
  from assms have ne: "claim_fact_ids c \<noteq> []" and each: "\<forall>i \<in> set (claim_fact_ids c).
      dict_get (fact_verdict_dict (assess_facts lower request)) i = Some GV_SUPPORTED
      \<and> fact_can_support_claim (dict_get ?fb i) CK_CURRENT_STATE"
    by (auto simp: assess_claim_supported)
  have "\<exists>f \<in> set (gr_facts request). fact_id f = i \<and> fact_type f = FT_CODE_VERIFIED
      \<and> fact_scope f = FS_CURRENT_STATE \<and> backed_fact lower request f" if i: "i \<in> set (claim_fact_ids c)" for i
  proof -
    from each i obtain f where f: "dict_get ?fb i = Some f"
        "fa_verdict (fact_assessment lower request f) = GV_SUPPORTED"
      by (auto simp: dict_get_fact_verdict)
    with each i have "fact_type f = FT_CODE_VERIFIED \<and> fact_scope f = FS_CURRENT_STATE"
      by auto
    with f dict_by_SomeD [OF f(1)] show ?thesis
      by (auto dest: assess_fact_backed)
  qed
  with ne show ?thesis by blast
qed

text \<open>
  The request whose judgement \<open>ground\<close> returns: the given one, or the one retry with what the
  provider supplied for the claims that failed.
\<close>

definition judged_request :: "(pystr \<Rightarrow> pystr) \<Rightarrow> retry_provider option \<Rightarrow> GroundingRequest \<Rightarrow> GroundingRequest" where
  "judged_request lower retry_provider request =
     (case (ground_once lower request, retry_provider) of
        (Inr (result, True), Some supplement) \<Rightarrow>
          if gr_retry_count request = 0 \<and> failed_claim_ids_of request (claim_assessments result) \<noteq> [] then
            (case supplement request (failed_claim_ids_of request (claim_assessments result)) of
               Inr (Some s) \<Rightarrow> retried_request request s
             | _ \<Rightarrow> request)
          else request
      | _ \<Rightarrow> request)"

lemma ground_judged:
  assumes "ground lower retry_provider request = Inr result"
  shows "ground_once lower (judged_request lower retry_provider request) = Inr (result, \<not> grounding_confirmable result)"
proof -
  obtain r0 b0 where r0: "ground_once lower request = Inr (r0, b0)" "grounding_confirmable r0 = (\<not> b0)"
    using ground_once_returns by blast
  let ?failed = "failed_claim_ids_of request (claim_assessments r0)"
  show ?thesis
  proof (cases "\<exists>p s. retry_provider = Some p \<and> b0 \<and> gr_retry_count request = 0 \<and> ?failed \<noteq> [] \<and> p request ?failed = Inr (Some s)")
    case True
    then obtain p s where p: "retry_provider = Some p" "b0" "gr_retry_count request = 0" "?failed \<noteq> []" "p request ?failed = Inr (Some s)"
      by blast
    obtain r1 b1 where r1: "ground_once lower (retried_request request s) = Inr (r1, b1)" "grounding_confirmable r1 = (\<not> b1)"
      using ground_once_returns by blast
    have "judged_request lower retry_provider request = retried_request request s" using p r0(1) by (simp add: judged_request_def)
    moreover have "result = r1" using assms p r0(1) r1(1) by (simp add: ground_def Let_def)
    ultimately show ?thesis using r1 by simp
  next
    case False
    then have "judged_request lower retry_provider request = request"
      using r0(1) by (auto simp: judged_request_def split: option.split sum.split bool.split)
    moreover have "result = r0"
      using assms False r0(1) by (auto simp: ground_def Let_def split: option.splits if_splits sum.splits)
    ultimately show ?thesis using r0 by simp
  qed
qed

lemma judged_request_cases:
  "judged_request lower retry_provider request = request
   \<or> gr_retry_count request = 0 \<and> (\<exists>s. judged_request lower retry_provider request = retried_request request s)"
  by (auto simp: judged_request_def split: sum.split option.split bool.split)

lemma retried_request_simps [simp]:
  "gr_claims (retried_request request s) = gr_claims request"
  "gr_task_id (retried_request request s) = gr_task_id request"
  "gr_repository_id (retried_request request s) = gr_repository_id request"
  "gr_resolved_commit_sha (retried_request request s) = gr_resolved_commit_sha request"
  "gr_allowed_source_bindings (retried_request request s) = gr_allowed_source_bindings request"
  "gr_retry_count (retried_request request s) = 1"
  by (simp_all add: retried_request_def)

lemma ground_once_confirmable:
  assumes "ground_once lower request = Inr (result, False)"
    and "distinct (map claim_id (gr_claims request))" and "c \<in> set (gr_claims request)"
    and "claim_kind c \<in> blocking_kinds"
  shows "ca_verdict (assess_claim c (fact_verdict_dict (assess_facts lower request)) (dict_by fact_id (gr_facts request))) = GV_SUPPORTED"
proof (rule ccontr)
  let ?a = "assess_claim c (fact_verdict_dict (assess_facts lower request)) (dict_by fact_id (gr_facts request))"
  assume "ca_verdict ?a \<noteq> GV_SUPPORTED"
  moreover have "?a \<in> set (claim_assessments_of lower request)"
    using assms(3) by (simp add: claim_assessments_of_def)
  moreover have "any_blocking request (claim_assessments_of lower request) = Inr False"
    using ground_once_returns [of lower request] assms(1) by auto
  ultimately show False
    using any_blocking_False [of request _ ?a] kind_of_claim_unique [OF assms(2,3)] assms(4) by auto
qed

lemma references_of_backed:
  assumes "references_of request as used = Inr refs" "rf \<in> set refs"
  shows "\<exists>f e. ref_fact_id rf \<in> set used \<and> dict_get (dict_by fact_id (gr_facts request)) (ref_fact_id rf) = Some f
    \<and> dict_get (dict_by evidence_id (gr_evidence request)) (ref_evidence_id rf) = Some e
    \<and> ref_evidence_id rf \<in> set (fact_evidence_ids f)
    \<and> ref_resolved_commit_sha rf = evidence_resolved_commit_sha e \<and> ref_repository_id rf = evidence_repository_id e \<and> ref_path rf = evidence_path e
    \<and> ref_claim_ids rf = map claim_id (filter (\<lambda>c. ref_fact_id rf \<in> set (claim_fact_ids c)) (gr_claims request))"
proof -
  from assms obtain fid rs where fid: "fid \<in> set used" "rf \<in> set rs" and
    F: "(case dict_get (dict_by fact_id (gr_facts request)) fid of None \<Rightarrow> Inl KeyError
        | Some fct \<Rightarrow> mapE (\<lambda>eid. case dict_get (dict_by evidence_id (gr_evidence request)) eid of None \<Rightarrow> Inl KeyError
            | Some e \<Rightarrow> Inr (reference_of (map claim_id (filter (\<lambda>c. fid \<in> set (claim_fact_ids c)) (gr_claims request))) fid e))
            (fact_evidence_ids fct)) = Inr rs"
    by (fastforce simp: references_of_def Let_def bindE_Inr dest: mapE_origin)
  then obtain f where f: "dict_get (dict_by fact_id (gr_facts request)) fid = Some f"
    by (cases "dict_get (dict_by fact_id (gr_facts request)) fid") auto
  with F fid(2) obtain eid e where "eid \<in> set (fact_evidence_ids f)"
      "dict_get (dict_by evidence_id (gr_evidence request)) eid = Some e"
      "rf = reference_of (map claim_id (filter (\<lambda>c. fid \<in> set (claim_fact_ids c)) (gr_claims request))) fid e"
    by (auto dest!: mapE_origin split: option.splits)
  with f fid(1) dict_by_SomeD [of evidence_id "gr_evidence request" eid e] show ?thesis
    by (auto simp: reference_of_def)
qed

lemma ground_once_references:
  assumes "ground_once lower request = Inr (result, b)" "rf \<in> set (grounding_references result)"
  shows "\<exists>f \<in> set (gr_facts request). \<exists>e \<in> set (gr_evidence request).
     fact_id f = ref_fact_id rf \<and> evidence_id e = ref_evidence_id rf \<and> backed_fact lower request f
     \<and> ref_evidence_id rf \<in> set (fact_evidence_ids f) \<and> source_verdict request e = None
     \<and> ref_resolved_commit_sha rf = evidence_resolved_commit_sha e \<and> ref_repository_id rf = evidence_repository_id e
     \<and> ref_path rf = evidence_path e"
proof -
  from ground_once_eq [of request lower] assms have
    "references_of request (assess_facts lower request) (concat (map ca_valid_fact_ids (claim_assessments_of lower request)))
       = Inr (grounding_references result)"
    by (auto simp: Let_def)
  from references_of_backed [OF this assms(2)] obtain f e where
    u: "ref_fact_id rf \<in> set (concat (map ca_valid_fact_ids (claim_assessments_of lower request)))"
    and f: "dict_get (dict_by fact_id (gr_facts request)) (ref_fact_id rf) = Some f"
    and e: "dict_get (dict_by evidence_id (gr_evidence request)) (ref_evidence_id rf) = Some e"
    and m: "ref_evidence_id rf \<in> set (fact_evidence_ids f)"
    and r: "ref_resolved_commit_sha rf = evidence_resolved_commit_sha e" "ref_repository_id rf = evidence_repository_id e"
      "ref_path rf = evidence_path e"
    by blast
  have b: "backed_fact lower request f"
    using used_fact_backed [OF u] f by auto
  have "source_verdict request e = None"
    using b m e unfolding backed_fact_def by fastforce
  then show ?thesis
    using dict_by_SomeD [OF f] dict_by_SomeD [OF e] b m r by blast
qed

lemma link_evidence_ok:
  assumes "\<forall>i \<in> set ids. \<exists>e. dict_get d i = Some e \<and> source_verdict request e = None
      \<and> strip (evidence_excerpt e) \<noteq> [] \<and> evidence_content_hash e \<noteq> []"
  shows "link_evidence request d ids = Inr (map (\<lambda>i. the (dict_get d i)) ids)"
  using assms by (induction ids) auto

text \<open>A fact is judged supported exactly when it is backed.\<close>

lemma assess_fact_iff:
  "fst (assess_fact lower request f (dict_by evidence_id (gr_evidence request)) (conflict_fact_ids_of request)) = GV_SUPPORTED
    \<longleftrightarrow> backed_fact lower request f"
proof
  assume b: "backed_fact lower request f"
  let ?d = "dict_by evidence_id (gr_evidence request)"
  have l: "link_evidence request ?d (fact_evidence_ids f) = Inr (map (\<lambda>i. the (dict_get ?d i)) (fact_evidence_ids f))"
    using b by (intro link_evidence_ok) (auto simp: backed_fact_def)
  show "fst (assess_fact lower request f ?d (conflict_fact_ids_of request)) = GV_SUPPORTED"
    using b unfolding backed_fact_def
    by (auto simp: assess_fact_def l Let_def) (metis option.sel)+
qed (rule assess_fact_backed)

definition claim_backed :: "(pystr \<Rightarrow> pystr) \<Rightarrow> GroundingRequest \<Rightarrow> PrdClaim \<Rightarrow> bool" where
  "claim_backed lower request c \<longleftrightarrow>
     (case claim_kind c of
        CK_TARGET_DECISION \<Rightarrow> claim_decision_ids c \<noteq> []
      | CK_ASSUMPTION \<Rightarrow> claim_assumption_ids c \<noteq> []
      | CK_CURRENT_STATE \<Rightarrow> claim_fact_ids c \<noteq> [] \<and> (\<forall>i \<in> set (claim_fact_ids c).
          \<exists>f. dict_get (dict_by fact_id (gr_facts request)) i = Some f \<and> fact_type f = FT_CODE_VERIFIED
            \<and> fact_scope f = FS_CURRENT_STATE \<and> backed_fact lower request f)
      | CK_HISTORICAL_CONTEXT \<Rightarrow> claim_fact_ids c \<noteq> [] \<and> (\<forall>i \<in> set (claim_fact_ids c).
          \<exists>f. dict_get (dict_by fact_id (gr_facts request)) i = Some f \<and> fact_type f = FT_DOCUMENT_SUPPORTED
            \<and> fact_scope f = FS_HISTORICAL_CONTEXT \<and> backed_fact lower request f)
      | _ \<Rightarrow> True)"

lemma assess_claim_iff:
  "ca_verdict (assess_claim c (fact_verdict_dict (assess_facts lower request)) (dict_by fact_id (gr_facts request))) = GV_SUPPORTED
    \<longleftrightarrow> claim_backed lower request c"
  by (auto simp: assess_claim_supported claim_backed_def dict_get_fact_verdict assess_fact_iff split: ClaimKind.splits)


definition pinned_evidence :: "GroundingRequest \<Rightarrow> SourceEvidence \<Rightarrow> bool" where
  "pinned_evidence request e \<longleftrightarrow>
     (if gr_allowed_source_bindings request = []
      then evidence_source_kind e = CODE_REPOSITORY \<and> evidence_repository_id e = gr_repository_id request
         \<and> evidence_resolved_commit_sha e = gr_resolved_commit_sha request
      else \<exists>b \<in> set (gr_allowed_source_bindings request). kind_matches b e \<and> id_matches b e \<and> version_matches b e
         \<and> (blank_opt (evidence_access_scope_hash e) \<or> evidence_access_scope_hash e = Some (binding_access_scope_hash b)))"

lemma source_verdict_None: "source_verdict request e = None \<Longrightarrow> pinned_evidence request e"
  using source_verdict_pinned [of request e] source_verdict_bound [of request e]
  by (simp add: pinned_evidence_def)

lemma pinned_retried [simp]: "pinned_evidence (retried_request request s) e = pinned_evidence request e"
  by (simp add: pinned_evidence_def)

text \<open>The only exception of \<open>ground\<close> is that of the provider, asked about the claims that failed.\<close>

lemma ground_raises:
  assumes "ground lower retry_provider request = Inl e"
  shows "\<exists>p result. retry_provider = Some p \<and> gr_retry_count request = 0 \<and> ground lower None request = Inr result
    \<and> \<not> grounding_confirmable result \<and> p request (failed_claim_ids_of request (claim_assessments result)) = Inl e"
proof -
  obtain r0 b0 where r0: "ground_once lower request = Inr (r0, b0)" "grounding_confirmable r0 = (\<not> b0)"
    using ground_once_returns by blast
  have again: "\<exists>r1 b1. ground_once lower (retried_request request s) = Inr (r1, b1)" for s
    using ground_once_returns [of lower "retried_request request s"] by auto
  have no: False if "bindE (ground_once lower (retried_request request s)) (\<lambda>(result', _). Inr result') = Inl e" for s
    using that again [of s] by auto
  show ?thesis
    using assms r0 no
    by (auto simp: ground_def Let_def split: option.splits if_splits sum.splits)
qed

lemma any_blocking_all_supported: "\<forall>a \<in> set as. ca_verdict a = GV_SUPPORTED \<Longrightarrow> any_blocking request as = Inr False"
  by (induction as) auto

lemma ground_once_status:
  assumes "ground_once lower request = Inr (result, b)"
  shows "grounding_retry_count result = gr_retry_count request"
    "grounding_confirmable result \<longleftrightarrow> grounding_status result \<noteq> GS_HUMAN_INPUT_REQUIRED"
    "grounding_status result = GS_PASSED \<longleftrightarrow> (\<forall>a \<in> set (claim_assessments result). ca_verdict a = GV_SUPPORTED)"
proof -
  let ?cas = "claim_assessments_of lower request"
  from ground_once_eq [of request lower] assms have
    blk: "any_blocking request ?cas = Inr b" and cas: "claim_assessments result = ?cas"
    and st: "grounding_status result = (if b then GS_HUMAN_INPUT_REQUIRED
        else if filter (\<lambda>a. ca_verdict a \<noteq> GV_SUPPORTED) ?cas \<noteq> [] then GS_DEGRADED else GS_PASSED)"
    and cf: "grounding_confirmable result = (\<not> b)"
    and rc: "grounding_retry_count result = gr_retry_count request"
    by (auto simp: Let_def)
  show "grounding_retry_count result = gr_retry_count request" by (rule rc)
  show "grounding_confirmable result \<longleftrightarrow> grounding_status result \<noteq> GS_HUMAN_INPUT_REQUIRED"
    by (simp add: st cf)
  show "grounding_status result = GS_PASSED \<longleftrightarrow> (\<forall>a \<in> set (claim_assessments result). ca_verdict a = GV_SUPPORTED)"
    using any_blocking_all_supported [of ?cas request] blk unfolding st cas
    by (auto simp: filter_empty_conv)
qed

lemma backed_fact_evidence:
  assumes "backed_fact lower request f" "j \<in> set (fact_evidence_ids f)"
  shows "\<exists>e \<in> set (gr_evidence request). evidence_id e = j \<and> strip (evidence_excerpt e) \<noteq> [] \<and> pinned_evidence request e"
proof -
  from assms obtain e where "dict_get (dict_by evidence_id (gr_evidence request)) j = Some e"
    "source_verdict request e = None" "strip (evidence_excerpt e) \<noteq> []"
    unfolding backed_fact_def by blast
  then show ?thesis
    by (auto dest: dict_by_SomeD source_verdict_None)
qed

lemma claim_backed_nonblocking: "claim_kind c \<notin> blocking_kinds \<Longrightarrow> claim_backed lower request c"
  by (cases "claim_kind c") (auto simp: claim_backed_def blocking_kinds_def)

section \<open>Properties of the grounding gate\<close>

text \<open>A request whose only claim is a current-state claim on one code fact, for the witnesses.\<close>

definition sample_evidence :: SourceEvidence where
  "sample_evidence = \<lparr>evidence_id = lit ''e1'', evidence_tool_call_id = lit ''t1'', evidence_source_type = lit ''code'',
     evidence_source_kind = CODE_REPOSITORY, evidence_source_id = Some (lit ''repo''), evidence_source_version = Some (lit ''v1''),
     evidence_locator = [], evidence_access_scope_hash = None, evidence_repository_id = Some (lit ''repo''),
     evidence_resolved_commit_sha = Some (lit ''c1''), evidence_path = Some (lit ''a.py''), evidence_line_start = Some 1,
     evidence_line_end = Some 2, evidence_symbol = None, evidence_excerpt = lit ''limit = ten'', evidence_content_hash = lit ''h'',
     evidence_source_blob_id = None, evidence_extraction_method = EM_SOURCE_READ, evidence_redaction_applied = False,
     evidence_retrieved_at = 0\<rparr>"

definition sample_fact :: DeterministicFact where
  "sample_fact = \<lparr>fact_id = lit ''f1'', fact_tool_call_id = lit ''t1'', fact_task_id = None, fact_subject = lit ''limit'',
     fact_predicate = lit ''is'', fact_value_json = JStr (lit ''ten''), fact_scope = FS_CURRENT_STATE,
     fact_type = FT_CODE_VERIFIED, fact_confidence = lit ''1.0'', fact_verification_status = VS_SUPPORTED,
     fact_extractor_id = lit ''x'', fact_extractor_version = lit ''1'', fact_evidence_ids = [lit ''e1'']\<rparr>"

definition sample_claim :: PrdClaim where
  "sample_claim = \<lparr>claim_id = lit ''c1'', claim_text = lit ''the limit is ten'', claim_kind = CK_CURRENT_STATE,
     claim_criticality = CC_MATERIAL, claim_fact_ids = [lit ''f1''], claim_decision_ids = [], claim_assumption_ids = []\<rparr>"

definition sample_grounding :: GroundingRequest where
  "sample_grounding = \<lparr>gr_grounding_run_id = lit ''g1'', gr_task_id = lit ''task'', gr_unit_id = lit ''u1'',
     gr_repository_id = Some (lit ''repo''), gr_resolved_commit_sha = Some (lit ''c1''), gr_allowed_source_bindings = [],
     gr_content = lit ''text'', gr_claims = [sample_claim], gr_facts = [sample_fact], gr_evidence = [sample_evidence],
     gr_conflicts = [], gr_retry_count = 0\<rparr>"

lemmas sample_grounding_defs = sample_evidence_def sample_fact_def sample_claim_def sample_grounding_def

lemma sample_grounding_runs:
  "case ground (\<lambda>s. s) None sample_grounding of Inl e \<Rightarrow> False
     | Inr result \<Rightarrow> grounding_confirmable result \<and> map ref_evidence_id (grounding_references result) = [lit ''e1'']"
  by code_simp

lemma sample_grounding_claims: "distinct (map claim_id (gr_claims sample_grounding))" "sample_claim \<in> set (gr_claims sample_grounding)"
  "claim_kind sample_claim = CK_CURRENT_STATE"
  by (simp_all add: sample_grounding_defs)


text \<open>
  C34. A confirmable grounding result is sound. For a request whose claim identifiers are distinct,
  take the facts, evidence and conflicts that were judged: those of the request, or, when the gate
  had to ask for more, those together with what the provider supplied. Every current-state claim
  cites at least one fact, and each fact it cites is code-verified, about the current state, not in
  an open conflict, verified as supported, linked only to non-blank evidence of the repository and
  commit the request pins or of a source it allows, and its value, if it has one, occurs in the
  excerpt of such evidence.
\<close>

theorem ground_confirmable_sound:
  assumes "ground lower retry_provider request = Inr result" and "grounding_confirmable result"
    and "distinct (map claim_id (gr_claims request))"
    and "c \<in> set (gr_claims request)" and "claim_kind c = CK_CURRENT_STATE"
    and "r = judged_request lower retry_provider request"
  shows "claim_fact_ids c \<noteq> []
    \<and> (\<forall>i \<in> set (claim_fact_ids c). \<exists>f. dict_get (dict_by fact_id (gr_facts r)) i = Some f
         \<and> fact_type f = FT_CODE_VERIFIED \<and> fact_scope f = FS_CURRENT_STATE \<and> fact_verification_status f = VS_SUPPORTED
         \<and> i \<notin> set (conflict_fact_ids_of r) \<and> fact_evidence_ids f \<noteq> []
         \<and> (\<forall>j \<in> set (fact_evidence_ids f). \<exists>e. dict_get (dict_by evidence_id (gr_evidence r)) j = Some e
              \<and> strip (evidence_excerpt e) \<noteq> [] \<and> pinned_evidence request e)
         \<and> (searchable_value lower (fact_value_json f) = [] \<or>
              (\<exists>j \<in> set (fact_evidence_ids f). \<exists>e. dict_get (dict_by evidence_id (gr_evidence r)) j = Some e
                 \<and> substr_in (searchable_value lower (fact_value_json f)) (lower (evidence_excerpt e)))))"
proof -
  have r: "ground_once lower r = Inr (result, False)" using ground_judged [OF assms(1)] assms(2,6) by simp
  have same: "gr_claims r = gr_claims request" and pin: "pinned_evidence r = pinned_evidence request"
    using judged_request_cases [of lower retry_provider request] assms(6) by (auto simp: fun_eq_iff)
  have "claim_backed lower r c"
    using ground_once_confirmable [OF r, of c] assms(3-5) by (simp add: same assess_claim_iff blocking_kinds_def)
  then have ne: "claim_fact_ids c \<noteq> []" and facts: "\<forall>i \<in> set (claim_fact_ids c).
      \<exists>f. dict_get (dict_by fact_id (gr_facts r)) i = Some f \<and> fact_type f = FT_CODE_VERIFIED
        \<and> fact_scope f = FS_CURRENT_STATE \<and> backed_fact lower r f"
    using assms(5) by (simp_all add: claim_backed_def)
  have linked: "\<exists>e. dict_get (dict_by evidence_id (gr_evidence r)) j = Some e \<and> strip (evidence_excerpt e) \<noteq> [] \<and> pinned_evidence request e"
    if f: "backed_fact lower r f" and j: "j \<in> set (fact_evidence_ids f)" for f j
  proof -
    obtain e where "dict_get (dict_by evidence_id (gr_evidence r)) j = Some e" "source_verdict r e = None" "strip (evidence_excerpt e) \<noteq> []"
      using f j unfolding backed_fact_def by blast
    then show ?thesis using source_verdict_None [of r e] unfolding pin by blast
  qed
  show ?thesis
  proof (intro conjI ballI ne)
    fix i assume "i \<in> set (claim_fact_ids c)"
    with facts obtain f where f: "dict_get (dict_by fact_id (gr_facts r)) i = Some f" "fact_type f = FT_CODE_VERIFIED"
        "fact_scope f = FS_CURRENT_STATE" "backed_fact lower r f"
      by blast
    have id: "fact_id f = i" using dict_by_SomeD [OF f(1)] by simp
    note b = f(4) [unfolded backed_fact_def]
    show "\<exists>f. dict_get (dict_by fact_id (gr_facts r)) i = Some f
         \<and> fact_type f = FT_CODE_VERIFIED \<and> fact_scope f = FS_CURRENT_STATE \<and> fact_verification_status f = VS_SUPPORTED
         \<and> i \<notin> set (conflict_fact_ids_of r) \<and> fact_evidence_ids f \<noteq> []
         \<and> (\<forall>j \<in> set (fact_evidence_ids f). \<exists>e. dict_get (dict_by evidence_id (gr_evidence r)) j = Some e
              \<and> strip (evidence_excerpt e) \<noteq> [] \<and> pinned_evidence request e)
         \<and> (searchable_value lower (fact_value_json f) = [] \<or>
              (\<exists>j \<in> set (fact_evidence_ids f). \<exists>e. dict_get (dict_by evidence_id (gr_evidence r)) j = Some e
                 \<and> substr_in (searchable_value lower (fact_value_json f)) (lower (evidence_excerpt e))))"
      by (intro exI [of _ f] conjI ballI linked [OF f(4)] f(1-3)) (use b id in \<open>simp_all only: simp_thms\<close>)
  qed
qed

text \<open>The same claim without facts, and a provider that has them.\<close>

definition sample_blocked :: GroundingRequest where
  "sample_blocked = sample_grounding\<lparr>gr_facts := [], gr_evidence := []\<rparr>"

definition sample_provider :: retry_provider where
  "sample_provider request failed =
     (if failed = [lit ''c1'']
      then Inr (Some \<lparr>supp_facts = [sample_fact], supp_evidence = [sample_evidence], supp_conflicts = []\<rparr>) else Inl KeyError)"

lemma sample_retry_runs:
  "case ground (\<lambda>s. s) (Some sample_provider) sample_blocked of Inl e \<Rightarrow> False | Inr result \<Rightarrow> grounding_confirmable result"
  by code_simp

lemma sample_retry_facts:
  "gr_facts (judged_request (\<lambda>s. s) (Some sample_provider) sample_blocked) = [sample_fact]"
  by code_simp

theorem ground_confirmable_sound_witness:
  "\<exists>result. ground (\<lambda>s. s) (Some sample_provider) sample_blocked = Inr result \<and> grounding_confirmable result
     \<and> (\<exists>f. dict_get (dict_by fact_id (gr_facts (judged_request (\<lambda>s. s) (Some sample_provider) sample_blocked))) (lit ''f1'') = Some f
          \<and> fact_type f = FT_CODE_VERIFIED \<and> fact_verification_status f = VS_SUPPORTED)"
proof -
  obtain result where g: "ground (\<lambda>s. s) (Some sample_provider) sample_blocked = Inr result" "grounding_confirmable result"
    using sample_retry_runs by (auto split: sum.splits)
  have c: "distinct (map claim_id (gr_claims sample_blocked))" "sample_claim \<in> set (gr_claims sample_blocked)"
      "lit ''f1'' \<in> set (claim_fact_ids sample_claim)"
    by (simp_all add: sample_blocked_def sample_grounding_defs)
  show ?thesis
    using ground_confirmable_sound [OF g c(1,2) sample_grounding_claims(3) refl] g c(3) by blast
qed



text \<open>
  C36. Grounding raises only what the retry provider raises. No lookup of a claim, fact or evidence
  identifier fails: either a result is returned, which is confirmable exactly when it does not ask
  for human input, passed exactly when every claim is supported, and reports the retry count of
  the request or, after the one retry, the count one; or the exception is that of the provider,
  asked about the failed claims of a request that was not confirmable and not yet retried. The
  values of facts are JSON values here.
\<close>

theorem ground_total:
  "case ground lower retry_provider request of
     Inr result \<Rightarrow>
       (grounding_confirmable result \<longleftrightarrow> grounding_status result \<noteq> GS_HUMAN_INPUT_REQUIRED)
       \<and> (grounding_status result = GS_PASSED \<longleftrightarrow> list_all (\<lambda>a. ca_verdict a = GV_SUPPORTED) (claim_assessments result))
       \<and> grounding_retry_count result = gr_retry_count (judged_request lower retry_provider request)
   | Inl e \<Rightarrow>
       (\<exists>p result. retry_provider = Some p \<and> gr_retry_count request = 0 \<and> ground lower None request = Inr result
          \<and> \<not> grounding_confirmable result \<and> p request (failed_claim_ids_of request (claim_assessments result)) = Inl e)"
proof (cases "ground lower retry_provider request")
  case (Inl e)
  then show ?thesis using ground_raises [OF Inl] by simp
next
  case (Inr result)
  from ground_once_status [OF ground_judged [OF Inr]] Inr show ?thesis by (auto simp: list_all_iff)
qed

text \<open>
  Every reference of a result points at a supported fact and at evidence that the fact links and
  that comes from the pinned repository and commit or an allowed source.
\<close>

theorem ground_references_pinned:
  assumes "ground lower retry_provider request = Inr result" and "rf \<in> set (grounding_references result)"
    and "r = judged_request lower retry_provider request"
  shows "\<exists>f e. f \<in> set (gr_facts r) \<and> e \<in> set (gr_evidence r)
    \<and> fact_id f = ref_fact_id rf \<and> evidence_id e = ref_evidence_id rf \<and> backed_fact lower r f
    \<and> ref_evidence_id rf \<in> set (fact_evidence_ids f) \<and> pinned_evidence request e
    \<and> ref_resolved_commit_sha rf = evidence_resolved_commit_sha e \<and> ref_repository_id rf = evidence_repository_id e"
proof -
  have r: "ground_once lower r = Inr (result, \<not> grounding_confirmable result)" using ground_judged [OF assms(1)] assms(3) by simp
  have pin: "pinned_evidence r = pinned_evidence request"
    using judged_request_cases [of lower retry_provider request] assms(3) by (auto simp: fun_eq_iff)
  from ground_once_references [OF r assms(2)] show ?thesis
    unfolding pin [symmetric] using source_verdict_None by blast
qed

theorem ground_references_pinned_witness:
  "\<exists>result. ground (\<lambda>s. s) None sample_grounding = Inr result
     \<and> (\<exists>rf \<in> set (grounding_references result). ref_evidence_id rf = lit ''e1''
          \<and> (\<exists>e. evidence_id e = ref_evidence_id rf \<and> pinned_evidence sample_grounding e))"
proof -
  obtain result where res: "ground (\<lambda>s. s) None sample_grounding = Inr result"
      "map ref_evidence_id (grounding_references result) = [lit ''e1'']"
    using sample_grounding_runs by (auto split: sum.splits)
  then obtain rf where rf: "rf \<in> set (grounding_references result)" "ref_evidence_id rf = lit ''e1''"
    by (auto simp: map_eq_Cons_conv)
  from ground_references_pinned [OF res(1) rf(1) refl] res(1) rf show ?thesis by blast
qed

text \<open>
  Claim identifiers that occur twice defeat the gate: the later claim's kind is used for both, so an
  unsupported current-state claim passes when a recommendation repeats its identifier.
\<close>

definition masked_grounding :: GroundingRequest where
  "masked_grounding = sample_grounding\<lparr>gr_facts := [], gr_evidence := [],
     gr_claims := [sample_claim, sample_claim\<lparr>claim_kind := CK_RECOMMENDATION\<rparr>]\<rparr>"

lemma duplicate_claim_id_masks:
  "case ground (\<lambda>s. s) None masked_grounding of Inl e \<Rightarrow> False
     | Inr result \<Rightarrow> grounding_confirmable result \<and> map ca_verdict (claim_assessments result) = [GV_UNSUPPORTED, GV_SUPPORTED]
         \<and> map ca_kind (claim_assessments result) = [CK_CURRENT_STATE, CK_RECOMMENDATION]"
  by code_simp

end
