(* ===== verification/Doc_Rendering.thy ===== *)
theory Doc_Rendering
  imports Grounding_Service
begin

text \<open>
  \<^verbatim>\<open>src/prd_agent/rendering/\<close> and \<^verbatim>\<open>src/prd_agent/quality/\<close>: the Markdown document
  that a finished outline renders to, its evidence appendix, and the deterministic quality checks
  of a document. Literals outside ASCII are given by their code points.
\<close>

section \<open>The document\<close>

text \<open>The literals of \<open>render_markdown\<close>.\<close>

definition txt_to_confirm :: pystr where
  "txt_to_confirm = [24453, 30830, 35748]"

definition txt_summary :: pystr where
  "txt_summary = [38656, 27714, 25688, 35201]"

definition txt_boundary :: pystr where
  "txt_boundary = [33539, 22260, 36793, 30028]"

definition txt_in_scope :: pystr where
  "txt_in_scope = [33539, 22260, 20869]"

definition txt_out_of_scope :: pystr where
  "txt_out_of_scope = [33539, 22260, 22806]"

definition txt_rules :: pystr where
  "txt_rules = [19994, 21153, 35268, 21017]"

definition txt_first_unit :: pystr where
  "txt_first_unit = [31532, 19968, 30830, 35748, 21333, 20803, 65306]"

definition txt_open_items :: pystr where
  "txt_open_items = [24453, 30830, 35748, 20107, 39033]"

definition nl :: pystr where
  "nl = [10]"

definition nl2 :: pystr where
  "nl2 = [10, 10]"

text \<open>\<open>_list\<close>.\<close>

definition markdown_list :: "pystr list \<Rightarrow> pystr" where
  "markdown_list items =
     (if items \<noteq> [] then join_str nl (map (\<lambda>i. lit ''- '' @ i) items) else lit ''- '' @ txt_to_confirm)"

definition unit_of_section :: "OutlineVersion \<Rightarrow> PrdSectionVersion \<Rightarrow> ConfirmationUnit option" where
  "unit_of_section outline s = find (\<lambda>u. unit_id u = section_unit_id s) (confirmation_units outline)"

definition section_heading :: "nat \<Rightarrow> PrdSectionVersion \<Rightarrow> pystr" where
  "section_heading n s = (if n = 1 then txt_first_unit @ section_title s else section_title s)"

definition render_markdown :: "RequirementBrief \<Rightarrow> OutlineVersion \<Rightarrow> PrdSectionVersion list \<Rightarrow> pystr \<Rightarrow> exn + pystr" where
  "render_markdown brief outline sections appendix =
     (if outline_status outline \<noteq> OS_CONFIRMED then Inl (InvalidTransition ''cannot render an unconfirmed outline'')
      else if \<exists>s \<in> set sections. (case unit_of_section outline s of None \<Rightarrow> True | Some u \<Rightarrow> unit_status u \<noteq> US_CONFIRMED)
      then Inl (InvalidTransition ''cannot render an unconfirmed unit'')
      else
        (let prob = (if problem brief \<noteq> [] then problem brief else txt_to_confirm);
             front = lit ''# '' @ outline_title outline @ nl2
               @ lit ''## '' @ txt_summary @ nl2 @ prob @ nl2
               @ lit ''## '' @ txt_boundary @ nl2
               @ lit ''### '' @ txt_in_scope @ nl2 @ markdown_list (scope_in brief) @ nl2
               @ lit ''### '' @ txt_out_of_scope @ nl2 @ markdown_list (scope_out brief) @ nl2
               @ lit ''## '' @ txt_rules @ nl2 @ markdown_list (product_rules brief) @ nl2;
             middle = concat (map (\<lambda>s. lit ''## '' @ section_heading (length sections) s @ nl2 @ section_content s @ nl2) sections);
             back = lit ''## '' @ txt_open_items @ nl2 @ markdown_list (open_questions brief) @ nl in
         Inr (front @ middle @ back @ (if appendix \<noteq> [] then nl @ appendix else []))))"

section \<open>The evidence appendix\<close>

definition txt_references :: pystr where
  "txt_references = [21442, 32771, 20381, 25454]"

definition txt_no_claim :: pystr where
  "txt_no_claim = [26410, 20851, 32852, 32, 67, 108, 97, 105, 109]"

text \<open>
  \<open>_locator\<close>: a missing path is \<open>None\<close>, to which nothing can be appended; alone it
  prints as \<open>None\<close>.
\<close>

definition reference_locator :: "GroundingReference \<Rightarrow> exn + pystr" where
  "reference_locator r =
     (case ref_line_start r of
        Some a \<Rightarrow>
          (case ref_path r of
             None \<Rightarrow> Inl TypeError
           | Some p \<Rightarrow> Inr (p @ lit '':'' @ show_int a @
               (case ref_line_end r of None \<Rightarrow> [] | Some b \<Rightarrow> if b \<noteq> a then lit ''-'' @ show_int b else [])))
      | None \<Rightarrow>
          (case ref_symbol r of
             Some (c # s) \<Rightarrow> (case ref_path r of None \<Rightarrow> Inl TypeError | Some p \<Rightarrow> Inr (p @ lit ''#'' @ c # s))
           | _ \<Rightarrow> (case ref_path r of None \<Rightarrow> Inr (lit ''None'') | Some p \<Rightarrow> Inr p)))"

definition reference_key :: "GroundingReference \<Rightarrow> pystr \<times> int \<times> pystr \<times> pystr" where
  "reference_key r =
     (case ref_path r of None \<Rightarrow> [] | Some p \<Rightarrow> p, case ref_line_start r of None \<Rightarrow> 0 | Some a \<Rightarrow> a,
      ref_fact_id r, ref_evidence_id r)"

text \<open>Sorting raises when a missing path has to be compared with a present one.\<close>

definition sort_references :: "GroundingReference list \<Rightarrow> exn + GroundingReference list" where
  "sort_references rs =
     (if (\<exists>r \<in> set rs. ref_path r = None) \<and> (\<exists>r \<in> set rs. ref_path r \<noteq> None) then Inl TypeError
      else Inr (sort_key reference_key rs))"

definition reference_lines :: "GroundingReference \<Rightarrow> exn + pystr list" where
  "reference_lines r =
     (let joined = join_str (lit '', '') (ref_claim_ids r);
          claims = (if joined \<noteq> [] then joined else txt_no_claim) in
      bindE (reference_locator r) (\<lambda>loc.
      case ref_resolved_commit_sha r of
        None \<Rightarrow> Inl TypeError
      | Some sha \<Rightarrow>
          Inr [lit ''- Claim: '' @ claims, lit ''  - Fact: '' @ ref_fact_id r, lit ''  - Source: '' @ loc,
               lit ''  - Commit: '' @ take 12 sha, lit ''  - Verification: SUPPORTED'']))"

definition render_evidence_appendix :: "GroundingResult list \<Rightarrow> exn + pystr" where
  "render_evidence_appendix results =
     bindE (sort_references (concat (map grounding_references results))) (\<lambda>refs.
       if refs = [] then Inr []
       else bindE (mapE reference_lines refs) (\<lambda>ls.
         Inr (join_str nl ([lit ''## '' @ txt_references, []] @ concat ls) @ nl)))"

section \<open>Quality checks\<close>

datatype QualityScope = QS_UNIT | QS_DOCUMENT

datatype QualitySeverity = QV_BLOCKER | QV_ERROR | QV_WARNING | QV_INFO

datatype QualityIssueType = QI_OUTLINE_COVERAGE | QI_EMPTY_OR_DUPLICATE_CONTENT | QI_TERMINOLOGY_INCONSISTENCY
  | QI_RULE_CONFLICT | QI_STATE_FLOW_GAP | QI_ROLE_PERMISSION_CONFLICT | QI_EXCEPTION_GAP | QI_BOUNDARY_GAP
  | QI_ACCEPTANCE_NOT_EXECUTABLE | QI_ASSUMPTION_NOT_LABELED | QI_OPEN_ITEM_UNRESOLVED | QI_SOURCE_LINK_INCOMPLETE

fun issue_type_value :: "QualityIssueType \<Rightarrow> string" where
  "issue_type_value QI_OUTLINE_COVERAGE = ''OUTLINE_COVERAGE''"
| "issue_type_value QI_EMPTY_OR_DUPLICATE_CONTENT = ''EMPTY_OR_DUPLICATE_CONTENT''"
| "issue_type_value QI_TERMINOLOGY_INCONSISTENCY = ''TERMINOLOGY_INCONSISTENCY''"
| "issue_type_value QI_RULE_CONFLICT = ''RULE_CONFLICT''"
| "issue_type_value QI_STATE_FLOW_GAP = ''STATE_FLOW_GAP''"
| "issue_type_value QI_ROLE_PERMISSION_CONFLICT = ''ROLE_PERMISSION_CONFLICT''"
| "issue_type_value QI_EXCEPTION_GAP = ''EXCEPTION_GAP''"
| "issue_type_value QI_BOUNDARY_GAP = ''BOUNDARY_GAP''"
| "issue_type_value QI_ACCEPTANCE_NOT_EXECUTABLE = ''ACCEPTANCE_NOT_EXECUTABLE''"
| "issue_type_value QI_ASSUMPTION_NOT_LABELED = ''ASSUMPTION_NOT_LABELED''"
| "issue_type_value QI_OPEN_ITEM_UNRESOLVED = ''OPEN_ITEM_UNRESOLVED''"
| "issue_type_value QI_SOURCE_LINK_INCOMPLETE = ''SOURCE_LINK_INCOMPLETE''"

record QualityIssue =
  issue_id :: pystr
  issue_type :: QualityIssueType
  issue_severity :: QualitySeverity
  affected_node_ids :: "pystr list"
  affected_unit_ids :: "pystr list"
  affected_section_ids :: "pystr list"
  issue_description :: pystr
  suggested_resolution :: pystr

record QualityResult =
  quality_run_id :: pystr
  quality_task_id :: pystr
  quality_scope :: QualityScope
  scope_id :: pystr
  quality_confirmable :: bool
  quality_issues :: "QualityIssue list"

text \<open>\<open>_issue_id\<close>; \<open>sha256\<close> is the hexadecimal digest of a string.\<close>

definition make_issue_id :: "(pystr \<Rightarrow> pystr) \<Rightarrow> pystr \<Rightarrow> QualityIssueType \<Rightarrow> pystr \<Rightarrow> pystr" where
  "make_issue_id sha256 run_id' ty key =
     lit ''quality-issue-'' @ take 20 (sha256 (run_id' @ lit '':'' @ lit (issue_type_value ty) @ lit '':'' @ key))"

definition txt_acceptance :: pystr where
  "txt_acceptance = [39564, 25910]"

text \<open>The alternatives of the two searches over an acceptance section.\<close>

definition condition_words :: "pystr list" where
  "condition_words = [[24403], [22914, 26524], [36755, 20837], [35831, 27714]]"

definition outcome_words :: "pystr list" where
  "outcome_words = [[24212], [36820, 22238], [25298, 32477], [25104, 21151], [22833, 36133], [25552, 31034]]"

definition searches :: "pystr list \<Rightarrow> pystr \<Rightarrow> bool" where
  "searches ws s \<longleftrightarrow> (\<exists>w \<in> set ws. substr_in w s)"

definition missing_nodes :: "OutlineVersion \<Rightarrow> PrdSectionVersion list \<Rightarrow> pystr list" where
  "missing_nodes outline sections =
     (let covered = map section_node_id (filter (\<lambda>s. \<not> blank_opt (section_node_id s)) sections) in
      map node_id (filter (\<lambda>n. Some (node_id n) \<notin> set covered) (outline_nodes outline)))"

definition coverage_issue :: "(pystr \<Rightarrow> pystr) \<Rightarrow> pystr \<Rightarrow> pystr list \<Rightarrow> QualityIssue" where
  "coverage_issue sha256 qid missing =
     \<lparr>issue_id = make_issue_id sha256 qid QI_OUTLINE_COVERAGE (join_str (lit '','') missing),
      issue_type = QI_OUTLINE_COVERAGE, issue_severity = QV_BLOCKER, affected_node_ids = missing,
      affected_unit_ids = [], affected_section_ids = [],
      issue_description = [24050, 30830, 35748, 22823, 32434, 23384, 22312, 26410, 23436, 25104, 31456, 33410],
      suggested_resolution = [34917, 20840, 21463, 24433, 21709, 30830, 35748, 21333, 20803, 24182, 37325, 26032, 30830, 35748]\<rparr>"

definition section_issue :: "(pystr \<Rightarrow> pystr) \<Rightarrow> pystr \<Rightarrow> QualityIssueType \<Rightarrow> PrdSectionVersion \<Rightarrow> pystr \<Rightarrow> pystr \<Rightarrow> QualityIssue" where
  "section_issue sha256 qid ty s description resolution =
     \<lparr>issue_id = make_issue_id sha256 qid ty (section_id s), issue_type = ty, issue_severity = QV_ERROR,
      affected_node_ids = (case section_node_id s of None \<Rightarrow> [] | Some n \<Rightarrow> if n = [] then [] else [n]),
      affected_unit_ids = [section_unit_id s], affected_section_ids = [section_id s],
      issue_description = description, suggested_resolution = resolution\<rparr>"

definition section_issues :: "(pystr \<Rightarrow> pystr) \<Rightarrow> pystr \<Rightarrow> PrdSectionVersion \<Rightarrow> QualityIssue list" where
  "section_issues sha256 qid s =
     (if strip (section_content s) = []
      then [section_issue sha256 qid QI_EMPTY_OR_DUPLICATE_CONTENT s
              [31456, 33410, 20869, 23481, 20026, 31354]
              [37325, 26032, 29983, 25104, 24182, 30830, 35748, 35813, 31456, 33410]]
      else []) @
     (if substr_in txt_acceptance (section_title s)
         \<and> \<not> (searches condition_words (section_content s) \<and> searches outcome_words (section_content s))
      then [section_issue sha256 qid QI_ACCEPTANCE_NOT_EXECUTABLE s
              [39564, 25910, 26631, 20934, 32570, 23569, 21487, 25191, 34892, 26465, 20214, 25110, 39044, 26399, 32467, 26524]
              [34917, 20805, 35302, 21457, 26465, 20214, 12289, 21160, 20316, 21644, 21487, 39564, 35777, 32467, 26524]]
      else [])"

definition check_document :: "(pystr \<Rightarrow> pystr) \<Rightarrow> pystr \<Rightarrow> pystr \<Rightarrow> pystr \<Rightarrow> OutlineVersion \<Rightarrow> PrdSectionVersion list \<Rightarrow> QualityResult" where
  "check_document sha256 qid tid did outline sections =
     (let current = filter (\<lambda>s. section_status s = SS_CONFIRMED) sections;
          missing = missing_nodes outline current;
          issues = (if missing \<noteq> [] then [coverage_issue sha256 qid missing] else [])
            @ concat (map (section_issues sha256 qid) current) in
      \<lparr>quality_run_id = qid, quality_task_id = tid, quality_scope = QS_DOCUMENT, scope_id = did,
       quality_confirmable = (\<not> (\<exists>i \<in> set issues. issue_severity i \<in> {QV_BLOCKER, QV_ERROR})),
       quality_issues = issues\<rparr>)"

section \<open>What a rendered document shows\<close>

lemma substr_in_append: "substr_in p s \<Longrightarrow> substr_in p (l @ s)" "substr_in p s \<Longrightarrow> substr_in p (s @ r)"
  unfolding substr_in_iff by (metis append.assoc)+

lemma substr_in_mid: "substr_in p s \<Longrightarrow> substr_in p (l @ s @ r)"
  by (intro substr_in_append)

lemma substr_in_refl [simp]: "substr_in s s"
  unfolding substr_in_iff by (metis append_Nil append_Nil2)

lemma substr_in_Nil: "substr_in [] s"
  unfolding substr_in_iff by (metis append_Nil)

lemma substr_in_concat: "x \<in> set xs \<Longrightarrow> substr_in p x \<Longrightarrow> substr_in p (concat xs)"
  by (induction xs) (auto intro: substr_in_append)

lemma substr_in_join: "x \<in> set xs \<Longrightarrow> substr_in p x \<Longrightarrow> substr_in p (join_str sep xs)"
proof (induction sep xs rule: join_str.induct)
  case (3 sep u v us)
  then show ?case by (cases "x = u") (auto intro: substr_in_append)
qed simp_all

lemma markdown_list_shows:
  assumes "i \<in> set items"
  shows "substr_in i (markdown_list items)"
proof -
  have "items \<noteq> []" using assms by auto
  moreover have "substr_in i (join_str nl (map (\<lambda>i. lit ''- '' @ i) items))"
    by (rule substr_in_join [of "lit ''- '' @ i"]) (use assms in \<open>simp_all add: substr_in_append(1) del: lit_Cons\<close>)
  ultimately show ?thesis by (simp only: markdown_list_def if_True simp_thms)
qed


section \<open>What the quality check decides\<close>

text \<open>A confirmed section that has content and, where it is about acceptance, a condition and an outcome.\<close>

definition good_section :: "PrdSectionVersion \<Rightarrow> bool" where
  "good_section s \<longleftrightarrow> strip (section_content s) \<noteq> []
     \<and> (if substr_in txt_acceptance (section_title s)
        then searches condition_words (section_content s) \<and> searches outcome_words (section_content s) else True)"

lemma section_issues_good: "section_issues sha256 qid s = [] \<longleftrightarrow> good_section s"
  by (auto simp: section_issues_def good_section_def)

lemma section_issues_error: "i \<in> set (section_issues sha256 qid s) \<Longrightarrow> issue_severity i = QV_ERROR \<and> affected_section_ids i = [section_id s]"
  by (auto simp: section_issues_def section_issue_def split: if_splits)

lemma section_issues_some: "\<not> good_section s \<Longrightarrow> \<exists>i \<in> set (section_issues sha256 qid s). issue_severity i = QV_ERROR \<and> affected_section_ids i = [section_id s]"
  using section_issues_good [of sha256 qid s] section_issues_error [of _ sha256 qid s] by (metis list.set_intros(1) neq_Nil_conv)

lemma missing_nodes_covered:
  "missing_nodes outline sections = [] \<longleftrightarrow>
     list_all (\<lambda>n. node_id n \<noteq> [] \<and> list_ex (\<lambda>s. section_node_id s = Some (node_id n)) sections) (outline_nodes outline)"
  by (fastforce simp: missing_nodes_def Let_def filter_empty_conv list_all_iff list_ex_iff blank_opt_def image_iff)

lemma missing_node: "n \<in> set (outline_nodes outline) \<Longrightarrow> \<not> list_ex (\<lambda>s. section_node_id s = Some (node_id n)) sections
    \<Longrightarrow> node_id n \<in> set (missing_nodes outline sections)"
  unfolding missing_nodes_def Let_def set_map
  by (intro imageI) (auto simp: list_ex_iff)

lemma check_document_confirmable:
  "quality_confirmable (check_document sha256 qid tid did outline sections) \<longleftrightarrow>
     (let confirmed = filter (\<lambda>s. section_status s = SS_CONFIRMED) sections in
      missing_nodes outline confirmed = [] \<and> list_all good_section confirmed)"
proof -
  let ?confirmed = "filter (\<lambda>s. section_status s = SS_CONFIRMED) sections"
  have "\<not> quality_confirmable (check_document sha256 qid tid did outline sections)" if "s \<in> set ?confirmed" "\<not> good_section s" for s
    using section_issues_some [OF that(2), of sha256 qid] that(1) by (fastforce simp: check_document_def Let_def)
  moreover have "\<not> quality_confirmable (check_document sha256 qid tid did outline sections)" if "missing_nodes outline ?confirmed \<noteq> []"
    using that by (simp add: check_document_def Let_def coverage_issue_def)
  moreover have "quality_confirmable (check_document sha256 qid tid did outline sections)"
    if "missing_nodes outline ?confirmed = []" "\<forall>s \<in> set ?confirmed. good_section s"
    using that by (auto simp: check_document_def Let_def section_issues_good [THEN iffD2])
  ultimately show ?thesis unfolding Let_def list_all_iff by blast
qed


definition page_node :: OutlineNode where
  "page_node = \<lparr>node_id = lit ''n1'', node_sequence = 1, node_title = txt_acceptance, node_purpose = [], node_complexity = CX_LOW,
     required_information = [], parent_id = None, node_level = 1, stable_key = None\<rparr>"

definition page_outline :: OutlineVersion where
  "page_outline = \<lparr>outline_id = lit ''o1'', outline_task_id = lit ''t1'', outline_version = 1, outline_title = lit ''PRD'', outline_status = OS_CONFIRMED,
     outline_nodes = [page_node], confirmation_units = [], outline_created_at = 0, outline_confirmed_at = None\<rparr>"

definition page_section :: "pystr \<Rightarrow> PrdSectionVersion" where
  "page_section content = \<lparr>section_id = lit ''s1'', section_unit_id = lit ''u1'', section_version = 1, section_title = txt_acceptance,
     section_content = content, section_created_at = 0, section_node_id = Some (lit ''n1''), section_status = SS_CONFIRMED,
     section_content_hash = [], source_run_id = None, section_grounding_run_id = None, section_quality_run_id = None,
     supersedes_section_id = None, section_confirmed_by = None, section_confirmed_at = None\<rparr>"


section \<open>The evidence appendix\<close>

definition located :: "GroundingReference \<Rightarrow> bool" where
  "located r \<longleftrightarrow> ref_path r \<noteq> None \<and> ref_resolved_commit_sha r \<noteq> None"

lemma reference_lines_located: "located r \<Longrightarrow> \<exists>ls. reference_lines r = Inr ls"
  by (auto simp: located_def reference_lines_def reference_locator_def Let_def split: option.splits list.splits)

lemma appendix_located:
  assumes "\<forall>g \<in> set results. \<forall>r \<in> set (grounding_references g). located r"
  shows "\<exists>a. render_evidence_appendix results = Inr a"
proof -
  let ?rs = "concat (map grounding_references results)"
  have loc: "located r" if "r \<in> set ?rs" for r using assms that by auto
  have "sort_references ?rs = Inr (sort_key reference_key ?rs)"
    using loc by (auto simp: sort_references_def located_def)
  moreover have "\<exists>ls. mapE reference_lines (sort_key reference_key ?rs) = Inr ls"
    by (rule mapE_total) (use loc reference_lines_located in auto)
  ultimately show ?thesis by (auto simp: render_evidence_appendix_def)
qed

end
