(* ===== verification/Workflow_Nodes.thy ===== *)
theory Workflow_Nodes
  imports Doc_Rendering
begin

text \<open>
  \<^verbatim>\<open>src/prd_agent/workflow/nodes.py\<close> and \<^verbatim>\<open>context_builder.py\<close>: what the workflow asks of the
  language model, the validators of its answers, the one repair of an ill-formed answer, and the
  confirmed context a unit is generated from. The model is not part of the program: it is a
  parameter that answers a request with JSON or raises.
\<close>

section \<open>Requests to the model\<close>

record ConfirmedContext =
  cc_section_id :: pystr
  cc_unit_id :: pystr
  cc_node_id :: "pystr option"
  cc_version :: int
  cc_title :: pystr
  cc_content :: pystr
  cc_content_hash :: pystr

text \<open>What an investigation hands to the generation of a unit; absent entries are \<open>None\<close>.\<close>

record InvestigationContext =
  ic_repository_id :: "pystr option"
  ic_resolved_commit_sha :: "pystr option"
  ic_facts :: "DeterministicFact list"
  ic_evidence :: "SourceEvidence list"
  ic_conflicts :: "SourceConflict list"

text \<open>The operation and its payload, one constructor for each call of the workflow.\<close>

datatype ModelRequest =
    ExtractRequirementBrief pystr "RequirementBrief option"
  | GenerateOutline RequirementBrief
  | GenerateConfirmationUnit RequirementBrief pystr int "OutlineNode list" int pystr "ConfirmedContext list"
      "InvestigationContext option"

fun operation_name :: "ModelRequest \<Rightarrow> string" where
  "operation_name (ExtractRequirementBrief _ _) = ''extract_requirement_brief''"
| "operation_name (GenerateOutline _) = ''generate_outline''"
| "operation_name (GenerateConfirmationUnit _ _ _ _ _ _ _ _) = ''generate_confirmation_unit''"

text \<open>
  \<open>model n request repair\<close> is the outcome of the \<open>n\<close>-th call. The state of
  \<open>invoke_validated\<close> is the number of calls made.
\<close>

type_synonym workflow_model = "nat \<Rightarrow> ModelRequest \<Rightarrow> bool \<Rightarrow> exn + json"

fun attempt_loop :: "workflow_model \<Rightarrow> ModelRequest \<Rightarrow> (json \<Rightarrow> exn + 'a) \<Rightarrow> bool list \<Rightarrow> nat \<Rightarrow> (exn + 'a) \<times> nat" where
  "attempt_loop model request validator [] n =
     (Inl (ModelOutputError ''invalid {operation} output after one repair: {first_error}''), n)"
| "attempt_loop model request validator (repair # rest) n =
     (case model n request repair of
        Inl e \<Rightarrow> (Inl e, Suc n)
      | Inr output \<Rightarrow>
          (case validator output of
             Inr v \<Rightarrow> (Inr v, Suc n)
           | Inl e \<Rightarrow>
               if is_format_error e then attempt_loop model request validator rest (Suc n) else (Inl e, Suc n)))"

definition invoke_validated :: "workflow_model \<Rightarrow> ModelRequest \<Rightarrow> (json \<Rightarrow> exn + 'a) \<Rightarrow> nat \<Rightarrow> (exn + 'a) \<times> nat" where
  "invoke_validated model request validator n = attempt_loop model request validator [False, True] n"

definition extract_requirement_brief ::
  "(json \<Rightarrow> pystr) \<Rightarrow> workflow_model \<Rightarrow> pystr \<Rightarrow> RequirementBrief option \<Rightarrow> nat \<Rightarrow> (exn + RequirementBrief) \<times> nat" where
  "extract_requirement_brief str_of model message previous n =
     invoke_validated model (ExtractRequirementBrief message previous) (from_mapping str_of) n"

section \<open>Outlines\<close>

record NodeDraft =
  nd_fields :: "(pystr \<times> json) list"
  nd_key :: pystr
  nd_parent_key :: "pystr option"
  nd_level :: int

record UnitDraft =
  ud_key :: pystr
  ud_title :: pystr
  ud_node_keys :: "pystr list"
  ud_depends_on :: "pystr list"

record OutlineDraft =
  od_title :: pystr
  od_nodes :: "NodeDraft list"
  od_units :: "UnitDraft list"

definition not_a_mapping :: exn where
  "not_a_mapping = OtherError (lit ''AttributeError'')"

definition indexed_key :: "string \<Rightarrow> nat \<Rightarrow> pystr" where
  "indexed_key prefix i = lit prefix @ show_nat i"

text \<open>\<open>str(value.get(name) or default)\<close>, stripped.\<close>

definition key_or :: "(json \<Rightarrow> pystr) \<Rightarrow> (pystr \<times> json) list \<Rightarrow> string \<Rightarrow> pystr \<Rightarrow> pystr" where
  "key_or str_of obj name dflt =
     (case obj_get obj name of
        None \<Rightarrow> strip dflt
      | Some v \<Rightarrow> if py_truthy v then strip (py_str str_of v) else strip dflt)"

definition text_field :: "(json \<Rightarrow> pystr) \<Rightarrow> (pystr \<times> json) list \<Rightarrow> string \<Rightarrow> pystr" where
  "text_field str_of obj name = strip (py_str str_of (obj_get_or obj name (JStr [])))"

text \<open>One turn of the loop over the nodes; \<open>levels\<close> has the keys seen so far with their levels.\<close>

definition validate_node :: "(json \<Rightarrow> pystr) \<Rightarrow> nat \<Rightarrow> json \<Rightarrow> (pystr, int) dict \<Rightarrow> exn + NodeDraft" where
  "validate_node str_of index node levels =
     (case node of
        JObj obj \<Rightarrow>
          if \<exists>name \<in> {''title'', ''purpose'', ''complexity''}. text_field str_of obj name = []
          then Inl (ModelOutputError ''outline node requires title, purpose and complexity'')
          else
            (let key = key_or str_of obj ''key'' (indexed_key ''node-'' index) in
             if key = [] \<or> dict_get levels key \<noteq> None
             then Inl (ModelOutputError ''outline node keys must be unique'')
             else
               (let parent_key = (case obj_get_or obj ''parent_key'' JNull of
                                    JNull \<Rightarrow> None | v \<Rightarrow> Some (strip (py_str str_of v))) in
                bindE (case parent_key of
                    Some (c # p) \<Rightarrow>
                      (case dict_get levels (c # p) of
                         None \<Rightarrow> Inl (ModelOutputError ''outline parent must precede its child'')
                       | Some l \<Rightarrow> Inr (l + 1))
                  | _ \<Rightarrow> Inr 1) (\<lambda>inferred.
                bindE (case obj_get obj ''level'' of None \<Rightarrow> Inr inferred | Some v \<Rightarrow> py_int v) (\<lambda>level.
                if level \<noteq> inferred \<or> level < 1 \<or> level > 3
                then Inl (ModelOutputError ''outline node level must match a maximum three-level tree'')
                else Inr \<lparr>nd_fields = obj, nd_key = key, nd_parent_key = parent_key, nd_level = level\<rparr>))))
      | _ \<Rightarrow> Inl (ModelOutputError ''outline node must be an object''))"

fun validate_nodes :: "(json \<Rightarrow> pystr) \<Rightarrow> nat \<Rightarrow> json list \<Rightarrow> (pystr, int) dict \<Rightarrow> exn + NodeDraft list" where
  "validate_nodes str_of index [] levels = Inr []"
| "validate_nodes str_of index (node # nodes) levels =
     bindE (validate_node str_of index node levels) (\<lambda>d.
     bindE (validate_nodes str_of (Suc index) nodes (dict_set (nd_key d) (nd_level d) levels)) (\<lambda>ds.
     Inr (d # ds)))"

text \<open>The units when the model gives none: one for each node, in sequence.\<close>

definition default_unit :: "nat \<Rightarrow> NodeDraft \<Rightarrow> json" where
  "default_unit index node =
     JObj [(lit ''key'', JStr (indexed_key ''unit-'' index)), (lit ''title'', obj_get_or (nd_fields node) ''title'' JNull),
           (lit ''node_keys'', JList [JStr (nd_key node)]),
           (lit ''depends_on_unit_keys'', JList (if index = 1 then [] else [JStr (indexed_key ''unit-'' (index - 1))]))]"

definition default_units :: "NodeDraft list \<Rightarrow> json list" where
  "default_units nodes = map (\<lambda>(i, n). default_unit i n) (enumerate 1 nodes)"

definition validate_unit :: "(json \<Rightarrow> pystr) \<Rightarrow> nat \<Rightarrow> json \<Rightarrow> pystr list \<Rightarrow> pystr list \<Rightarrow> exn + UnitDraft" where
  "validate_unit str_of index unit node_keys unit_keys =
     (case unit of
        JObj obj \<Rightarrow>
          (let key = key_or str_of obj ''key'' (indexed_key ''unit-'' index);
               title = text_field str_of obj ''title'' in
           bindE (case obj_get obj ''node_keys'' of None \<Rightarrow> Inr [] | Some v \<Rightarrow> py_iter v) (\<lambda>mapped_items.
           bindE (case obj_get obj ''depends_on_unit_keys'' of None \<Rightarrow> Inr [] | Some v \<Rightarrow> py_iter v) (\<lambda>dependency_items.
           let mapped = map (py_str str_of) mapped_items; dependencies = map (py_str str_of) dependency_items in
           if key = [] \<or> key \<in> set unit_keys \<or> title = [] \<or> mapped = []
           then Inl (ModelOutputError ''confirmation unit requires unique key, title and nodes'')
           else if \<exists>k \<in> set mapped. k \<notin> set node_keys
           then Inl (ModelOutputError ''confirmation unit references an unknown node'')
           else if \<exists>k \<in> set dependencies. k \<notin> set unit_keys
           then Inl (ModelOutputError ''confirmation unit dependencies must precede the unit'')
           else Inr \<lparr>ud_key = key, ud_title = title, ud_node_keys = mapped, ud_depends_on = dependencies\<rparr>)))
      | _ \<Rightarrow> Inl (ModelOutputError ''confirmation unit must be an object''))"

fun validate_units :: "(json \<Rightarrow> pystr) \<Rightarrow> nat \<Rightarrow> json list \<Rightarrow> pystr list \<Rightarrow> pystr list \<Rightarrow> exn + UnitDraft list" where
  "validate_units str_of index [] node_keys unit_keys = Inr []"
| "validate_units str_of index (unit # units) node_keys unit_keys =
     bindE (validate_unit str_of index unit node_keys unit_keys) (\<lambda>d.
     bindE (validate_units str_of (Suc index) units node_keys (unit_keys @ [ud_key d])) (\<lambda>ds.
     Inr (d # ds)))"

definition validate_outline :: "(json \<Rightarrow> pystr) \<Rightarrow> json \<Rightarrow> exn + OutlineDraft" where
  "validate_outline str_of value =
     (case value of
        JObj obj \<Rightarrow>
          (let title = text_field str_of obj ''title'' in
           case obj_get obj ''nodes'' of
             Some (JList (n # ns)) \<Rightarrow>
               if title = [] then Inl (ModelOutputError ''outline requires a title and at least one node'')
               else
                 bindE (validate_nodes str_of 1 (n # ns) []) (\<lambda>nodes.
                 bindE (case obj_get_or obj ''units'' JNull of
                     JNull \<Rightarrow> Inr (default_units nodes)
                   | JList us \<Rightarrow> Inr us
                   | _ \<Rightarrow> Inl (ModelOutputError ''outline requires between 1 and 15 confirmation units'')) (\<lambda>us.
                 if us = [] \<or> length us > 15
                 then Inl (ModelOutputError ''outline requires between 1 and 15 confirmation units'')
                 else
                   bindE (validate_units str_of 1 us (map nd_key nodes) []) (\<lambda>units.
                   let covered = concat (map ud_node_keys units) in
                   if sort covered \<noteq> sort (map nd_key nodes)
                   then Inl (ModelOutputError ''every outline node must belong to exactly one unit'')
                   else Inr \<lparr>od_title = title, od_nodes = nodes, od_units = units\<rparr>)))
           | _ \<Rightarrow> Inl (ModelOutputError ''outline requires a title and at least one node''))
      | _ \<Rightarrow> Inl not_a_mapping)"

section \<open>Units\<close>

record SectionText =
  sx_node_key :: pystr
  sx_title :: pystr
  sx_content :: pystr

record UnitContent =
  uc_content :: pystr
  uc_claims :: "PrdClaim list"
  uc_sections :: "SectionText list"

definition validate_unit_content :: "(json \<Rightarrow> pystr) \<Rightarrow> (pystr \<times> json) list \<Rightarrow> exn + pystr" where
  "validate_unit_content str_of obj =
     (let content = text_field str_of obj ''content'' in
      if content = [] then Inl (ModelOutputError ''confirmation unit requires non-empty Markdown content'') else Inr content)"

definition validate_section :: "(json \<Rightarrow> pystr) \<Rightarrow> json \<Rightarrow> exn + SectionText" where
  "validate_section str_of item =
     (case item of
        JObj obj \<Rightarrow>
          (let s = \<lparr>sx_node_key = text_field str_of obj ''node_key'', sx_title = text_field str_of obj ''title'',
                    sx_content = text_field str_of obj ''content''\<rparr> in
           if sx_node_key s = [] \<or> sx_title s = [] \<or> sx_content s = []
           then Inl (ModelOutputError ''confirmation unit section requires node_key, title and content'') else Inr s)
      | _ \<Rightarrow> Inl (ModelOutputError ''confirmation unit section must be an object''))"

text \<open>
  \<open>PrdClaim.model_validate\<close>: no unknown field, non-empty identifier and text, a known kind and
  criticality, arrays of strings. Every refusal is a \<open>ValidationError\<close>.
\<close>

definition claim_kind_of :: "pystr \<Rightarrow> ClaimKind option" where
  "claim_kind_of s =
     map_of [(lit ''CURRENT_STATE'', CK_CURRENT_STATE), (lit ''HISTORICAL_CONTEXT'', CK_HISTORICAL_CONTEXT),
       (lit ''TARGET_DECISION'', CK_TARGET_DECISION), (lit ''ASSUMPTION'', CK_ASSUMPTION),
       (lit ''RECOMMENDATION'', CK_RECOMMENDATION), (lit ''UNKNOWN'', CK_UNKNOWN), (lit ''RISK'', CK_RISK)] s"

definition claim_criticality_of :: "pystr \<Rightarrow> ClaimCriticality option" where
  "claim_criticality_of s =
     map_of [(lit ''CRITICAL'', CC_CRITICAL), (lit ''MATERIAL'', CC_MATERIAL), (lit ''INFORMATIONAL'', CC_INFORMATIONAL)] s"

fun string_items :: "json list \<Rightarrow> pystr list option" where
  "string_items [] = Some []"
| "string_items (JStr s # xs) = map_option ((#) s) (string_items xs)"
| "string_items (_ # xs) = None"

definition string_array :: "(pystr \<times> json) list \<Rightarrow> string \<Rightarrow> pystr list option" where
  "string_array obj name =
     (case obj_get obj name of None \<Rightarrow> Some [] | Some (JList xs) \<Rightarrow> string_items xs | _ \<Rightarrow> None)"

definition claim_field_names :: "pystr list" where
  "claim_field_names = map lit [''claim_id'', ''text'', ''kind'', ''criticality'', ''fact_ids'', ''decision_ids'', ''assumption_ids'']"

definition validate_claim :: "json \<Rightarrow> exn + PrdClaim" where
  "validate_claim item =
     (case item of
        JObj obj \<Rightarrow>
          (case (obj_get obj ''claim_id'', obj_get obj ''text'', obj_get obj ''kind'') of
             (Some (JStr i), Some (JStr t), Some (JStr k)) \<Rightarrow>
               (case (claim_kind_of k,
                      case obj_get obj ''criticality'' of None \<Rightarrow> Some CC_MATERIAL | Some (JStr c) \<Rightarrow> claim_criticality_of c | _ \<Rightarrow> None,
                      string_array obj ''fact_ids'', string_array obj ''decision_ids'', string_array obj ''assumption_ids'') of
                  (Some kind, Some crit, Some fs, Some ds, Some as) \<Rightarrow>
                    if i = [] \<or> t = [] \<or> (\<exists>k \<in> set (map fst obj). k \<notin> set claim_field_names)
                    then Inl (ValidationError ''PrdClaim'')
                    else Inr \<lparr>claim_id = i, claim_text = t, claim_kind = kind, claim_criticality = crit,
                              claim_fact_ids = fs, claim_decision_ids = ds, claim_assumption_ids = as\<rparr>
                | _ \<Rightarrow> Inl (ValidationError ''PrdClaim''))
           | _ \<Rightarrow> Inl (ValidationError ''PrdClaim''))
      | _ \<Rightarrow> Inl (ValidationError ''PrdClaim''))"

definition section_markdown :: "SectionText \<Rightarrow> pystr" where
  "section_markdown s = lit ''### '' @ sx_title s @ nl2 @ sx_content s"

definition validate_unit_draft :: "(json \<Rightarrow> pystr) \<Rightarrow> json \<Rightarrow> exn + UnitContent" where
  "validate_unit_draft str_of value =
     (case value of
        JObj obj \<Rightarrow>
          (case obj_get_or obj ''sections'' (JList []) of
             JList raw_sections \<Rightarrow>
               bindE (mapE (validate_section str_of) raw_sections) (\<lambda>sections.
               bindE (if sections \<noteq> [] then Inr (join_str nl2 (map section_markdown sections))
                      else validate_unit_content str_of obj) (\<lambda>content.
               case obj_get_or obj ''claims'' (JList []) of
                 JList raw_claims \<Rightarrow>
                   (case mapE validate_claim raw_claims of
                      Inl e \<Rightarrow> Inl (ModelOutputError ''invalid confirmation unit claims: {exc}'')
                    | Inr claims \<Rightarrow> Inr \<lparr>uc_content = content, uc_claims = claims, uc_sections = sections\<rparr>)
               | _ \<Rightarrow> Inl (ModelOutputError ''confirmation unit claims must be an array'')))
           | _ \<Rightarrow> Inl (ModelOutputError ''confirmation unit sections must be an array''))
      | _ \<Rightarrow> Inl not_a_mapping)"

definition validate_unit_draft_for_nodes :: "(json \<Rightarrow> pystr) \<Rightarrow> pystr list \<Rightarrow> json \<Rightarrow> exn + UnitContent" where
  "validate_unit_draft_for_nodes str_of expected value =
     bindE (validate_unit_draft str_of value) (\<lambda>draft.
       if uc_sections draft = []
       then (if length expected > 1
             then Inl (ModelOutputError ''a multi-node confirmation unit requires structured sections'') else Inr draft)
       else
         (let provided = map sx_node_key (uc_sections draft) in
          if \<not> distinct provided \<or> set provided \<noteq> set expected
          then Inl (ModelOutputError ''generated sections must cover every unit node exactly once'')
          else Inr draft))"

section \<open>Confirmed context\<close>

definition section_key :: "PrdSectionVersion \<Rightarrow> pystr" where
  "section_key s = (case section_node_id s of Some (c # n) \<Rightarrow> c # n | _ \<Rightarrow> section_unit_id s)"

text \<open>The loop that keeps the section with the greatest version for each key.\<close>

definition keep_latest :: "(pystr, PrdSectionVersion) dict \<Rightarrow> PrdSectionVersion \<Rightarrow> (pystr, PrdSectionVersion) dict" where
  "keep_latest latest s =
     (case dict_get latest (section_key s) of
        None \<Rightarrow> dict_set (section_key s) s latest
      | Some current \<Rightarrow> if section_version s > section_version current then dict_set (section_key s) s latest else latest)"

definition latest_sections :: "PrdSectionVersion list \<Rightarrow> (pystr, PrdSectionVersion) dict" where
  "latest_sections ss = foldl keep_latest [] ss"

definition context_of_section :: "nat \<Rightarrow> PrdSectionVersion \<Rightarrow> ConfirmedContext" where
  "context_of_section n s =
     \<lparr>cc_section_id = section_id s, cc_unit_id = section_unit_id s, cc_node_id = section_node_id s,
      cc_version = section_version s, cc_title = section_title s, cc_content = take n (section_content s),
      cc_content_hash = section_content_hash s\<rparr>"

definition build_confirmed_context :: "ConfirmationUnit \<Rightarrow> PrdSectionVersion list \<Rightarrow> nat \<Rightarrow> ConfirmedContext list" where
  "build_confirmed_context unit sections max_content_chars =
     map (context_of_section max_content_chars)
       (sort_key (\<lambda>s. (section_unit_id s, case section_node_id s of None \<Rightarrow> [] | Some n \<Rightarrow> n, section_version s))
         (dict_values (latest_sections
           (filter (\<lambda>s. section_unit_id s \<in> set (depends_on_unit_ids unit) \<and> section_status s = SS_CONFIRMED) sections))))"

end
