(* ===== verification/Workflow_Policies.thy ===== *)
theory Workflow_Policies
  imports Domain_Model
begin

text \<open>
  The deterministic policies of \<^verbatim>\<open>src/prd_agent/policies/\<close>: which status a task may
  take next under optimistic locking, when an outline and a unit may be confirmed, which runs
  may be active, stopped or retried, and when an idempotency key is a replay.
\<close>

section \<open>Task transitions\<close>

text \<open>\<open>TaskTransitionPolicy._allowed\<close>.\<close>

fun allowed :: "TaskStatus \<Rightarrow> TaskStatus set" where
  "allowed TS_DRAFT = {TS_CLARIFYING, TS_DELETING}"
| "allowed TS_CLARIFYING = {TS_OUTLINE_REVIEW, TS_FAILED, TS_STOPPED, TS_DELETING}"
| "allowed TS_OUTLINE_REVIEW = {TS_CLARIFYING, TS_GENERATING, TS_DELETING}"
| "allowed TS_GENERATING = {TS_OUTLINE_REVIEW, TS_FINAL_REVIEW, TS_FAILED, TS_STOPPED, TS_DELETING}"
| "allowed TS_FINAL_REVIEW = {TS_GENERATING, TS_COMPLETED, TS_DELETING}"
| "allowed TS_COMPLETED = {TS_GENERATING, TS_DELETING}"
| "allowed TS_FAILED = {TS_CLARIFYING, TS_OUTLINE_REVIEW, TS_GENERATING, TS_DELETING}"
| "allowed TS_STOPPED = {TS_CLARIFYING, TS_OUTLINE_REVIEW, TS_GENERATING, TS_DELETING}"
| "allowed TS_DELETING = {}"

definition transition :: "TaskStatus \<Rightarrow> TaskStatus \<Rightarrow> int \<Rightarrow> int \<Rightarrow> exn + TaskStatus" where
  "transition current target current_version expected_version =
     (if current_version \<noteq> expected_version
      then Inl (VersionConflict ''expected task version {expected_version}, current version is {current_version}'')
      else if target \<notin> allowed current
      then Inl (InvalidTransition ''task cannot transition from {current} to {target}'')
      else Inr target)"

section \<open>Outlines\<close>

definition outline_confirm :: "OutlineVersion \<Rightarrow> int \<Rightarrow> exn + unit" where
  "outline_confirm outline requested_version =
     (if outline_version outline \<noteq> requested_version
      then Inl (InvalidTransition ''requested outline version {requested_version} is not current version {outline.version}'')
      else if outline_status outline \<noteq> OS_PENDING_CONFIRMATION
      then Inl (InvalidTransition ''only a pending outline can be confirmed'')
      else if outline_nodes outline = []
      then Inl (InvalidTransition ''an outline requires at least one node'')
      else if confirmation_units outline = []
      then Inl (InvalidTransition ''an outline requires at least one confirmation unit'')
      else if length (confirmation_units outline) > 15
      then Inl (InvalidTransition ''an outline cannot exceed 15 confirmation units'')
      else Inr ())"

section \<open>Units\<close>

definition unit_confirm :: "OutlineVersion \<Rightarrow> pystr \<Rightarrow> int option \<Rightarrow> exn + unit" where
  "unit_confirm outline uid current_sequence =
     (if outline_status outline \<noteq> OS_CONFIRMED
      then Inl (InvalidTransition ''unit cannot be confirmed before its outline'')
      else
        (case filter (\<lambda>u. unit_id u = uid) (confirmation_units outline) of
           [] \<Rightarrow> Inl (InvalidTransition ''unit does not belong to current outline: {unit_id}'')
         | unit # _ \<Rightarrow>
             if Some (unit_sequence unit) \<noteq> current_sequence
             then Inl (InvalidTransition ''only the current confirmation unit can be confirmed'')
             else
               (let confirmed_ids = map unit_id (filter (\<lambda>u. unit_status u = US_CONFIRMED) (confirmation_units outline)) in
                if \<exists>d \<in> set (depends_on_unit_ids unit). d \<notin> set confirmed_ids
                then Inl (InvalidTransition ''unit dependencies must be confirmed first'')
                else if unit_status unit \<noteq> US_PENDING_CONFIRMATION \<or> unit_content unit = None \<or> unit_content unit = Some []
                then Inl (InvalidTransition ''only generated content pending confirmation can be confirmed'')
                else Inr ())))"

section \<open>Runs\<close>

definition ensure_single_active :: "AgentRun list \<Rightarrow> pystr \<Rightarrow> exn + unit" where
  "ensure_single_active runs candidate_run_id =
     (let active = filter (\<lambda>r. run_id r \<noteq> candidate_run_id \<and> run_status r \<in> ACTIVE_RUN_STATUSES) runs in
      if active \<noteq> [] then Inl (ActiveRunConflict ''task already has active run: {active[0].run_id}'') else Inr ())"

definition ensure_stoppable :: "AgentRun \<Rightarrow> exn + unit" where
  "ensure_stoppable run =
     (if run_status run \<notin> ACTIVE_RUN_STATUSES then Inl (InvalidTransition ''run in {run.status} cannot be stopped'') else Inr ())"

definition ensure_retryable :: "AgentRun \<Rightarrow> exn + unit" where
  "ensure_retryable run =
     (if run_status run \<notin> {RS_FAILED, RS_STOPPED} then Inl (InvalidTransition ''run in {run.status} cannot be retried'') else Inr ())"

section \<open>Idempotency\<close>

definition validate_replay :: "IdempotencyRecord \<Rightarrow> pystr \<Rightarrow> exn + pystr" where
  "validate_replay r h =
     (if idem_input_hash r \<noteq> h
      then Inl (IdempotencyConflict ''idempotency key was already used with different input'')
      else Inr (idem_task_id r))"

section \<open>Facts\<close>

lemma ACTIVE_RUN_STATUSES_mem [simp]:
  "RS_QUEUED \<in> ACTIVE_RUN_STATUSES" "RS_RUNNING \<in> ACTIVE_RUN_STATUSES"
  "RS_WAITING_USER \<in> ACTIVE_RUN_STATUSES" "RS_SUCCEEDED \<notin> ACTIVE_RUN_STATUSES"
  "RS_FAILED \<notin> ACTIVE_RUN_STATUSES" "RS_STOPPED \<notin> ACTIVE_RUN_STATUSES"
  by (simp_all add: ACTIVE_RUN_STATUSES_def)

lemma transition_Inr [simp]:
  "transition c t v e = Inr t' \<longleftrightarrow> v = e \<and> t \<in> allowed c \<and> t' = t"
  by (auto simp: transition_def)

text \<open>A run is stoppable or retryable or it succeeded, and never two of these.\<close>

lemma run_policies_partition:
  "(ensure_stoppable r = Inr ()) \<noteq> (ensure_retryable r = Inr () \<or> run_status r = RS_SUCCEEDED)"
  by (cases "run_status r") (auto simp: ensure_stoppable_def ensure_retryable_def)

lemma outline_confirm_Inr [simp]:
  "outline_confirm ol v = Inr u \<longleftrightarrow> outline_version ol = v \<and> outline_status ol = OS_PENDING_CONFIRMATION
     \<and> outline_nodes ol \<noteq> [] \<and> confirmation_units ol \<noteq> [] \<and> length (confirmation_units ol) \<le> 15"
  by (auto simp: outline_confirm_def)

lemma unit_confirm_Inr:
  assumes "unit_confirm ol uid cur = Inr x"
  obtains u us where "filter (\<lambda>u. unit_id u = uid) (confirmation_units ol) = u # us"
    "outline_status ol = OS_CONFIRMED" "cur = Some (unit_sequence u)" "unit_status u = US_PENDING_CONFIRMATION"
    "unit_content u \<noteq> None" "unit_content u \<noteq> Some []"
    "\<forall>d \<in> set (depends_on_unit_ids u). \<exists>v \<in> set (confirmation_units ol). unit_id v = d \<and> unit_status v = US_CONFIRMED"
  using assms by (fastforce simp: unit_confirm_def Let_def split: if_splits list.splits)

lemma validate_replay_Inr [simp]:
  "validate_replay r h = Inr t \<longleftrightarrow> idem_input_hash r = h \<and> t = idem_task_id r"
  by (auto simp: validate_replay_def)

end
