(* ===== verification/Workflow_Store.thy ===== *)
theory Workflow_Store
  imports Workflow_Nodes Workflow_Policies
begin

text \<open>
  \<^verbatim>\<open>src/prd_agent/storage/memory.py\<close> with \<open>WorkflowSnapshot\<close> of
  \<^verbatim>\<open>domain/entities.py\<close>: the repository of the workflow. Its dictionaries hold deep copies, so
  values of HOL stand for the stored objects. The locks order concurrent starts with one key and
  are not part of the state.
\<close>

section \<open>State\<close>

record Checkpoint =
  cp_task_id :: pystr
  cp_run_id :: pystr
  cp_thread_id :: pystr
  cp_graph_version :: string
  cp_task_version :: int
  cp_current_node :: string

record Repo =
  rp_tasks :: "(pystr, Task) dict"
  rp_runs :: "(pystr, AgentRun) dict"
  rp_briefs :: "(pystr, RequirementBriefVersion list) dict"
  rp_outlines :: "(pystr, OutlineVersion list) dict"
  rp_sections :: "(pystr, PrdSectionVersion list) dict"
  rp_documents :: "(pystr, PrdDocumentVersion list) dict"
  rp_messages :: "(pystr, TaskMessage list) dict"
  rp_quality :: "(pystr, QualityResult list) dict"
  rp_grounding :: "(pystr, GroundingResult list) dict"
  rp_idempotency :: "(pystr \<times> pystr, IdempotencyRecord) dict"
  rp_events :: "(pystr, DomainEvent list) dict"
  rp_checkpoints :: "(pystr, Checkpoint) dict"

definition empty_repo :: Repo where
  "empty_repo = \<lparr>rp_tasks = [], rp_runs = [], rp_briefs = [], rp_outlines = [], rp_sections = [], rp_documents = [],
     rp_messages = [], rp_quality = [], rp_grounding = [], rp_idempotency = [], rp_events = [], rp_checkpoints = []\<rparr>"

record WorkflowSnapshot =
  ss_task :: Task
  ss_run :: AgentRun
  ss_briefs :: "RequirementBriefVersion list"
  ss_outlines :: "OutlineVersion list"
  ss_sections :: "PrdSectionVersion list"
  ss_documents :: "PrdDocumentVersion list"
  ss_messages :: "TaskMessage list"
  ss_quality_results :: "QualityResult list"
  ss_grounding_results :: "GroundingResult list"

definition current_brief :: "WorkflowSnapshot \<Rightarrow> RequirementBriefVersion option" where
  "current_brief s = last_option (ss_briefs s)"

definition active_outline :: "OutlineVersion list \<Rightarrow> OutlineVersion option" where
  "active_outline os = last_option (filter (\<lambda>o'. outline_status o' \<noteq> OS_SUPERSEDED) os)"

definition current_outline :: "WorkflowSnapshot \<Rightarrow> OutlineVersion option" where
  "current_outline s = active_outline (ss_outlines s)"

definition snapshot_markdown :: "WorkflowSnapshot \<Rightarrow> pystr option" where
  "snapshot_markdown s = map_option document_markdown (last_option (ss_documents s))"

section \<open>Operations\<close>

definition get_idempotency :: "Repo \<Rightarrow> pystr \<Rightarrow> pystr \<Rightarrow> IdempotencyRecord option" where
  "get_idempotency r actor key = dict_get (rp_idempotency r) (actor, key)"

definition save_idempotency :: "IdempotencyRecord \<Rightarrow> Repo \<Rightarrow> Repo" where
  "save_idempotency rec r = r\<lparr>rp_idempotency := dict_set (idem_actor_id rec, idem_key rec) rec (rp_idempotency r)\<rparr>"

definition create_task_bundle :: "Task \<Rightarrow> TaskMessage \<Rightarrow> RequirementBriefVersion \<Rightarrow> AgentRun \<Rightarrow> IdempotencyRecord \<Rightarrow> Repo \<Rightarrow> Repo" where
  "create_task_bundle task message brief run rec r =
     save_idempotency rec
       (r\<lparr>rp_tasks := dict_set (task_id task) task (rp_tasks r),
          rp_messages := dict_set (task_id task) [message] (rp_messages r),
          rp_briefs := dict_set (task_id task) [brief] (rp_briefs r),
          rp_outlines := dict_set (task_id task) [] (rp_outlines r),
          rp_sections := dict_set (task_id task) [] (rp_sections r),
          rp_documents := dict_set (task_id task) [] (rp_documents r),
          rp_events := dict_set (task_id task) [] (rp_events r),
          rp_quality := dict_set (task_id task) [] (rp_quality r),
          rp_grounding := dict_set (task_id task) [] (rp_grounding r),
          rp_runs := dict_set (run_id run) run (rp_runs r)\<rparr>)"

definition get_task :: "Repo \<Rightarrow> pystr \<Rightarrow> exn + Task" where
  "get_task r tid = (case dict_get (rp_tasks r) tid of None \<Rightarrow> Inl (NotFound ''task not found: {task_id}'') | Some t \<Rightarrow> Inr t)"

definition list_tasks :: "Repo \<Rightarrow> pystr \<Rightarrow> (time \<times> pystr) option \<Rightarrow> nat \<Rightarrow> Task list" where
  "list_tasks r owner before limit =
     (let values = filter (\<lambda>t. task_owner_id t = owner) (dict_values (rp_tasks r));
          sorted = rev (sort_key (\<lambda>t. (task_updated_at t, task_id t)) (rev values));
          page = (case before of None \<Rightarrow> sorted
                  | Some b \<Rightarrow> filter (\<lambda>t. (task_updated_at t, task_id t) < b) sorted) in
      take limit page)"

definition save_task :: "Task \<Rightarrow> Repo \<Rightarrow> Repo" where
  "save_task t r = r\<lparr>rp_tasks := dict_set (task_id t) t (rp_tasks r)\<rparr>"

definition save_run :: "AgentRun \<Rightarrow> Repo \<Rightarrow> exn + Repo" where
  "save_run run r =
     (if run_status run \<in> ACTIVE_RUN_STATUSES
         \<and> find (\<lambda>x. run_task_id x = run_task_id run \<and> run_id x \<noteq> run_id run \<and> run_status x \<in> ACTIVE_RUN_STATUSES)
             (dict_values (rp_runs r)) \<noteq> None
      then Inl (ActiveRunConflict ''task already has active run: {conflict.run_id}'')
      else Inr (r\<lparr>rp_runs := dict_set (run_id run) run (rp_runs r)\<rparr>))"

text \<open>
  \<open>latest_run\<close>: the last run after sorting by \<open>started_at or ended_at\<close>; with more than one
  run, a run without either cannot be compared.
\<close>

definition run_time :: "AgentRun \<Rightarrow> time option" where
  "run_time run = (case started_at run of Some t \<Rightarrow> Some t | None \<Rightarrow> ended_at run)"

definition task_runs :: "Repo \<Rightarrow> pystr \<Rightarrow> AgentRun list" where
  "task_runs r tid = filter (\<lambda>x. run_task_id x = tid) (dict_values (rp_runs r))"

definition latest_run :: "Repo \<Rightarrow> pystr \<Rightarrow> exn + AgentRun" where
  "latest_run r tid =
     (case task_runs r tid of
        [] \<Rightarrow> Inl (NotFound ''run not found for task: {task_id}'')
      | [run] \<Rightarrow> Inr run
      | runs \<Rightarrow>
          if \<exists>x \<in> set runs. run_time x = None then Inl TypeError
          else Inr (last (sort_key (\<lambda>x. the (run_time x)) runs)))"

definition save_brief :: "RequirementBriefVersion \<Rightarrow> Repo \<Rightarrow> Repo" where
  "save_brief b r = r\<lparr>rp_briefs := dict_set (brief_task_id b) (dict_get_or (rp_briefs r) (brief_task_id b) [] @ [b]) (rp_briefs r)\<rparr>"

definition save_outline :: "OutlineVersion \<Rightarrow> Repo \<Rightarrow> Repo" where
  "save_outline o' r =
     r\<lparr>rp_outlines := dict_set (outline_task_id o') (upsert outline_id o' (dict_get_or (rp_outlines r) (outline_task_id o') []))
         (rp_outlines r)\<rparr>"

definition save_section :: "pystr \<Rightarrow> PrdSectionVersion \<Rightarrow> Repo \<Rightarrow> Repo" where
  "save_section tid s r = r\<lparr>rp_sections := dict_set tid (dict_get_or (rp_sections r) tid [] @ [s]) (rp_sections r)\<rparr>"

definition save_document :: "PrdDocumentVersion \<Rightarrow> Repo \<Rightarrow> Repo" where
  "save_document d r =
     r\<lparr>rp_documents := dict_set (document_task_id d) (upsert document_id d (dict_get_or (rp_documents r) (document_task_id d) []))
         (rp_documents r)\<rparr>"

definition save_message :: "TaskMessage \<Rightarrow> Repo \<Rightarrow> Repo" where
  "save_message m r = r\<lparr>rp_messages := dict_set (message_task_id m) (dict_get_or (rp_messages r) (message_task_id m) [] @ [m]) (rp_messages r)\<rparr>"

definition save_quality_result :: "pystr \<Rightarrow> QualityResult \<Rightarrow> Repo \<Rightarrow> Repo" where
  "save_quality_result tid q r =
     r\<lparr>rp_quality := dict_set tid (upsert quality_run_id q (dict_get_or (rp_quality r) tid [])) (rp_quality r)\<rparr>"

definition save_grounding_result :: "pystr \<Rightarrow> GroundingResult \<Rightarrow> Repo \<Rightarrow> Repo" where
  "save_grounding_result tid g r =
     r\<lparr>rp_grounding := dict_set tid (upsert grounding_run_id g (dict_get_or (rp_grounding r) tid [])) (rp_grounding r)\<rparr>"

definition save_event :: "DomainEvent \<Rightarrow> Repo \<Rightarrow> Repo" where
  "save_event e r = r\<lparr>rp_events := dict_set (event_task_id e) (dict_get_or (rp_events r) (event_task_id e) [] @ [e]) (rp_events r)\<rparr>"

text \<open>\<open>append_event\<close>, given the identifier and time of the new event.\<close>

definition append_event :: "pystr \<Rightarrow> time \<Rightarrow> pystr \<Rightarrow> string \<Rightarrow> EventPayload \<Rightarrow> Repo \<Rightarrow> Repo" where
  "append_event eid now tid ty payload r =
     save_event \<lparr>event_id = eid, event_task_id = tid, event_sequence = length (dict_get_or (rp_events r) tid []) + 1,
                 event_type = ty, event_payload = payload, event_created_at = now\<rparr> r"

definition save_checkpoint :: "pystr \<Rightarrow> Checkpoint \<Rightarrow> Repo \<Rightarrow> Repo" where
  "save_checkpoint thread c r = r\<lparr>rp_checkpoints := dict_set thread c (rp_checkpoints r)\<rparr>"

definition get_checkpoint :: "Repo \<Rightarrow> pystr \<Rightarrow> Checkpoint option" where
  "get_checkpoint r thread = dict_get (rp_checkpoints r) thread"

definition snapshot :: "Repo \<Rightarrow> pystr \<Rightarrow> exn + WorkflowSnapshot" where
  "snapshot r tid =
     bindE (get_task r tid) (\<lambda>t.
     bindE (latest_run r tid) (\<lambda>run.
     Inr \<lparr>ss_task = t, ss_run = run, ss_briefs = dict_get_or (rp_briefs r) tid [],
          ss_outlines = dict_get_or (rp_outlines r) tid [], ss_sections = dict_get_or (rp_sections r) tid [],
          ss_documents = dict_get_or (rp_documents r) tid [], ss_messages = dict_get_or (rp_messages r) tid [],
          ss_quality_results = dict_get_or (rp_quality r) tid [],
          ss_grounding_results = dict_get_or (rp_grounding r) tid []\<rparr>))"

definition snapshot_for_owner :: "Repo \<Rightarrow> pystr \<Rightarrow> pystr \<Rightarrow> exn + WorkflowSnapshot" where
  "snapshot_for_owner r tid owner =
     bindE (get_task r tid) (\<lambda>t.
       if task_owner_id t \<noteq> owner then Inl (NotFound ''task not found: {task_id}'') else snapshot r tid)"

definition list_events :: "Repo \<Rightarrow> pystr \<Rightarrow> pystr \<Rightarrow> nat \<Rightarrow> nat \<Rightarrow> exn + DomainEvent list" where
  "list_events r tid owner after limit =
     bindE (snapshot_for_owner r tid owner) (\<lambda>_.
       Inr (take limit (filter (\<lambda>e. event_sequence e > after) (dict_get_or (rp_events r) tid []))))"

definition latest_event_sequence :: "Repo \<Rightarrow> pystr \<Rightarrow> pystr \<Rightarrow> exn + nat" where
  "latest_event_sequence r tid owner =
     bindE (list_events r tid owner 0 (max (length (dict_get_or (rp_events r) tid [])) 1)) (\<lambda>es.
       Inr (if es \<noteq> [] then event_sequence (last es) else 0))"

section \<open>Stores with identities\<close>

text \<open>Outlines, documents, quality results and grounding results are replaced by identity.\<close>

interpretation outlines: identity_store outline_id "upsert outline_id"
  by unfold_locales (fact upsert_laws)+

interpretation documents: identity_store document_id "upsert document_id"
  by unfold_locales (fact upsert_laws)+

interpretation quality_results: identity_store quality_run_id "upsert quality_run_id"
  by unfold_locales (fact upsert_laws)+

interpretation grounding_results: identity_store grounding_run_id "upsert grounding_run_id"
  by unfold_locales (fact upsert_laws)+

end
