(* ===== verification/Workflow_Service.thy ===== *)
theory Workflow_Service
  imports Workflow_Store
begin

text \<open>
  \<^verbatim>\<open>src/prd_agent/workflow/service.py\<close>: the commands of the workflow. A command is a computation
  on the world: the repository and the counters of what it consumed from outside, that is readings
  of the clock, identifiers drawn, calls of the model and of the investigation. The environment
  holds these sources as functions of the counters, and the configuration of the service.
\<close>

section \<open>The world and the environment\<close>

record World =
  w_repo :: Repo
  w_ticks :: nat
  w_uuids :: nat
  w_calls :: nat
  w_investigations :: nat

type_synonym 'a wf = "(World, exn, 'a) sem"

type_synonym context_provider =
  "nat \<Rightarrow> Task \<Rightarrow> AgentRun \<Rightarrow> OutlineVersion \<Rightarrow> ConfirmationUnit \<Rightarrow> RequirementBrief \<Rightarrow> exn + InvestigationContext option"

record Env =
  env_clock :: "nat \<Rightarrow> time"
  env_uuid :: "nat \<Rightarrow> pystr"
  env_sha256 :: "pystr \<Rightarrow> pystr"
  env_str_of :: "json \<Rightarrow> pystr"
  env_lower :: "pystr \<Rightarrow> pystr"
  env_model :: workflow_model
  env_provider :: "context_provider option"
  env_grounding :: "retry_provider option option"
  env_quality :: bool

definition nowM :: "Env \<Rightarrow> time wf" where
  "nowM env w = (Inr (env_clock env (w_ticks w)), w\<lparr>w_ticks := Suc (w_ticks w)\<rparr>)"

text \<open>\<open>_id\<close>.\<close>

definition make_id :: "Env \<Rightarrow> string \<Rightarrow> nat \<Rightarrow> pystr" where
  "make_id env prefix n = lit prefix @ lit ''-'' @ env_uuid env n"

definition idM :: "Env \<Rightarrow> string \<Rightarrow> pystr wf" where
  "idM env prefix w = (Inr (make_id env prefix (w_uuids w)), w\<lparr>w_uuids := Suc (w_uuids w)\<rparr>)"

definition repoM :: "(Repo \<Rightarrow> Repo) \<Rightarrow> unit wf" where
  "repoM f w = (Inr (), w\<lparr>w_repo := f (w_repo w)\<rparr>)"

definition readR :: "(Repo \<Rightarrow> exn + 'a) \<Rightarrow> 'a wf" where
  "readR f w = (f (w_repo w), w)"

definition save_runM :: "AgentRun \<Rightarrow> unit wf" where
  "save_runM run w = (case save_run run (w_repo w) of Inl e \<Rightarrow> (Inl e, w) | Inr r \<Rightarrow> (Inr (), w\<lparr>w_repo := r\<rparr>))"

definition callM :: "Env \<Rightarrow> ModelRequest \<Rightarrow> (json \<Rightarrow> exn + 'a) \<Rightarrow> 'a wf" where
  "callM env request validator w =
     (case invoke_validated (env_model env) request validator (w_calls w) of (r, n) \<Rightarrow> (r, w\<lparr>w_calls := n\<rparr>))"

definition extractM :: "Env \<Rightarrow> pystr \<Rightarrow> RequirementBrief option \<Rightarrow> RequirementBrief wf" where
  "extractM env message previous w =
     (case extract_requirement_brief (env_str_of env) (env_model env) message previous (w_calls w) of
        (r, n) \<Rightarrow> (r, w\<lparr>w_calls := n\<rparr>))"

definition eventM :: "Env \<Rightarrow> pystr \<Rightarrow> string \<Rightarrow> EventPayload \<Rightarrow> unit wf" where
  "eventM env tid ty payload =
     bindM (idM env ''event'') (\<lambda>eid. bindM (nowM env) (\<lambda>now. repoM (append_event eid now tid ty payload)))"

definition checkpointM :: "Task \<Rightarrow> AgentRun \<Rightarrow> string \<Rightarrow> unit wf" where
  "checkpointM task run node =
     repoM (save_checkpoint (thread_id run)
       \<lparr>cp_task_id = task_id task, cp_run_id = run_id run, cp_thread_id = thread_id run,
        cp_graph_version = graph_version run, cp_task_version = task_version task, cp_current_node = node\<rparr>)"

text \<open>Objects whose fields default to the current time.\<close>

definition new_task :: "Env \<Rightarrow> pystr \<Rightarrow> pystr \<Rightarrow> pystr \<Rightarrow> Task wf" where
  "new_task env tid title owner =
     bindM (nowM env) (\<lambda>created. bindM (nowM env) (\<lambda>updated.
     returnM \<lparr>task_id = tid, task_title = Some title, task_status = TS_DRAFT, task_version = 1,
       current_outline_version = None, current_unit_sequence = None, task_created_at = created,
       task_updated_at = updated, task_owner_id = owner\<rparr>))"

definition new_message :: "Env \<Rightarrow> pystr \<Rightarrow> pystr \<Rightarrow> pystr \<Rightarrow> TaskMessage wf" where
  "new_message env tid actor content =
     bindM (idM env ''message'') (\<lambda>mid. bindM (nowM env) (\<lambda>now.
     returnM \<lparr>message_id = mid, message_task_id = tid, message_actor_id = actor, message_content = content,
       message_created_at = now\<rparr>))"

definition new_brief :: "Env \<Rightarrow> pystr \<Rightarrow> int \<Rightarrow> RequirementBrief \<Rightarrow> bool \<Rightarrow> RequirementBriefVersion wf" where
  "new_brief env tid version b confirmed =
     bindM (nowM env) (\<lambda>now. returnM \<lparr>brief_task_id = tid, brief_version = version, brief_value = b,
       brief_confirmed = confirmed, brief_created_at = now\<rparr>)"

definition new_record :: "Env \<Rightarrow> pystr \<Rightarrow> pystr \<Rightarrow> pystr \<Rightarrow> pystr \<Rightarrow> pystr \<Rightarrow> IdempotencyRecord wf" where
  "new_record env actor key h tid rid =
     bindM (nowM env) (\<lambda>now. returnM \<lparr>idem_actor_id = actor, idem_key = key, idem_input_hash = h, idem_task_id = tid,
       idem_run_id = rid, idem_created_at = now\<rparr>)"

definition make_run :: "pystr \<Rightarrow> pystr \<Rightarrow> pystr \<Rightarrow> RunStatus \<Rightarrow> pystr \<Rightarrow> pystr \<Rightarrow> time \<Rightarrow> time option \<Rightarrow> exn option \<Rightarrow> AgentRun" where
  "make_run rid tid thread status h key started ended err =
     \<lparr>run_id = rid, run_task_id = tid, thread_id = thread, graph_name = ''prd_workflow'', graph_version = ''m0.step6.v1'',
      run_status = status, input_hash = h, run_idempotency_key = key, started_at = Some started, ended_at = ended,
      run_error = err\<rparr>"

definition content_hash :: "Env \<Rightarrow> pystr \<Rightarrow> pystr" where
  "content_hash env v = lit ''sha256:'' @ env_sha256 env v"

section \<open>Replays and ownership\<close>

text \<open>The head of every command: an idempotency record answers with the snapshot or a conflict.\<close>

definition replayM :: "pystr \<Rightarrow> pystr \<Rightarrow> pystr \<Rightarrow> WorkflowSnapshot wf \<Rightarrow> WorkflowSnapshot wf" where
  "replayM actor key h body w =
     (case get_idempotency (w_repo w) actor key of
        Some rec \<Rightarrow>
          if idem_input_hash rec \<noteq> h
          then (Inl (IdempotencyConflict ''idempotency key was already used with different input''), w)
          else (snapshot_for_owner (w_repo w) (idem_task_id rec) actor, w)
      | None \<Rightarrow> body w)"

definition owned_task :: "pystr \<Rightarrow> pystr \<Rightarrow> Task wf" where
  "owned_task tid actor =
     bindM (readR (\<lambda>r. get_task r tid)) (\<lambda>t.
       if task_owner_id t \<noteq> actor then raiseM (NotFound ''task not found: {task_id}'') else returnM t)"

definition owned_snapshot :: "pystr \<Rightarrow> pystr \<Rightarrow> WorkflowSnapshot wf" where
  "owned_snapshot tid actor = readR (\<lambda>r. snapshot_for_owner r tid actor)"

definition show_task :: "pystr \<Rightarrow> pystr \<Rightarrow> WorkflowSnapshot wf" where
  "show_task tid actor = owned_snapshot tid actor"

definition stale_version :: exn where
  "stale_version = VersionConflict ''expected task version {command.expected_task_version}, current version is {task.version}''"

text \<open>Moving a task to a status the policy allows, one version on.\<close>

definition moveM :: "Env \<Rightarrow> Task \<Rightarrow> TaskStatus \<Rightarrow> int \<Rightarrow> Task wf" where
  "moveM env t target expected =
     bindM (liftM (transition (task_status t) target (task_version t) expected)) (\<lambda>st.
     returnM (t\<lparr>task_status := st, task_version := task_version t + 1\<rparr>))"

definition touchM :: "Env \<Rightarrow> Task \<Rightarrow> Task wf" where
  "touchM env t = bindM (nowM env) (\<lambda>now. returnM (t\<lparr>task_updated_at := now\<rparr>))"

section \<open>Generating an outline\<close>

definition node_text :: "Env \<Rightarrow> NodeDraft \<Rightarrow> string \<Rightarrow> exn + pystr" where
  "node_text env d name =
     (case obj_get (nd_fields d) name of None \<Rightarrow> Inl KeyError | Some v \<Rightarrow> Inr (py_str (env_str_of env) v))"

definition make_node :: "Env \<Rightarrow> pystr \<Rightarrow> nat \<Rightarrow> NodeDraft \<Rightarrow> (pystr, pystr) dict \<Rightarrow> exn + OutlineNode" where
  "make_node env nid sequence d ids =
     bindE (node_text env d ''title'') (\<lambda>title.
     bindE (node_text env d ''purpose'') (\<lambda>purpose.
     bindE (bindE (node_text env d ''complexity'') complexity_of) (\<lambda>cx.
     bindE (case obj_get (nd_fields d) ''required_information'' of None \<Rightarrow> Inr [] | Some v \<Rightarrow> py_iter v) (\<lambda>info.
     bindE (case nd_parent_key d of
         Some (c # p) \<Rightarrow> (case dict_get ids (c # p) of None \<Rightarrow> Inl KeyError | Some i \<Rightarrow> Inr (Some i))
       | _ \<Rightarrow> Inr None) (\<lambda>parent.
     Inr \<lparr>node_id = nid, node_sequence = int sequence, node_title = title, node_purpose = purpose, node_complexity = cx,
          required_information = info, parent_id = parent, node_level = nd_level d, stable_key = Some (nd_key d)\<rparr>)))))"

fun make_nodes :: "Env \<Rightarrow> nat \<Rightarrow> NodeDraft list \<Rightarrow> (pystr, pystr) dict \<Rightarrow> (OutlineNode list \<times> (pystr, pystr) dict) wf" where
  "make_nodes env sequence [] ids = returnM ([], ids)"
| "make_nodes env sequence (d # ds) ids =
     bindM (idM env ''node'') (\<lambda>nid.
     let ids' = dict_set (nd_key d) nid ids in
     bindM (liftM (make_node env nid sequence d ids')) (\<lambda>node.
     bindM (make_nodes env (Suc sequence) ds ids') (\<lambda>(nodes, ids'').
     returnM (node # nodes, ids''))))"

fun make_unit_ids :: "Env \<Rightarrow> UnitDraft list \<Rightarrow> (pystr, pystr) dict \<Rightarrow> (pystr, pystr) dict wf" where
  "make_unit_ids env [] ids = returnM ids"
| "make_unit_ids env (d # ds) ids =
     bindM (idM env ''unit'') (\<lambda>uid. make_unit_ids env ds (dict_set (ud_key d) uid ids))"

definition lookup_key :: "(pystr, pystr) dict \<Rightarrow> pystr \<Rightarrow> exn + pystr" where
  "lookup_key ids k = (case dict_get ids k of None \<Rightarrow> Inl KeyError | Some i \<Rightarrow> Inr i)"

definition make_unit :: "pystr \<Rightarrow> nat \<Rightarrow> UnitDraft \<Rightarrow> (pystr, pystr) dict \<Rightarrow> (pystr, pystr) dict \<Rightarrow> exn + ConfirmationUnit" where
  "make_unit oid sequence d node_ids_by_key unit_ids_by_key =
     bindE (lookup_key unit_ids_by_key (ud_key d)) (\<lambda>uid.
     bindE (mapE (lookup_key node_ids_by_key) (ud_node_keys d)) (\<lambda>nids.
     bindE (mapE (lookup_key unit_ids_by_key) (ud_depends_on d)) (\<lambda>deps.
     Inr \<lparr>unit_id = uid, unit_outline_id = oid, unit_sequence = int sequence, unit_title = ud_title d,
          unit_status = US_PENDING, unit_content = None, unit_version = 1, node_ids = nids, depends_on_unit_ids = deps,
          unit_content_hash = None, unit_grounding_run_id = None, unit_quality_run_id = None, section_drafts = []\<rparr>)))"

definition make_units :: "pystr \<Rightarrow> UnitDraft list \<Rightarrow> (pystr, pystr) dict \<Rightarrow> (pystr, pystr) dict \<Rightarrow> exn + ConfirmationUnit list" where
  "make_units oid ds nids uids = mapE (\<lambda>(i, d). make_unit oid i d nids uids) (enumerate 1 ds)"

definition build_outline :: "Env \<Rightarrow> Task \<Rightarrow> OutlineDraft \<Rightarrow> OutlineVersion wf" where
  "build_outline env task draft =
     bindM (idM env ''outline'') (\<lambda>oid.
     bindM (readR (\<lambda>r. snapshot r (task_id task))) (\<lambda>snap.
     let version = max_default 0 (map outline_version (ss_outlines snap)) + 1 in
     bindM (make_nodes env 1 (od_nodes draft) []) (\<lambda>(nodes, nids).
     bindM (make_unit_ids env (od_units draft) []) (\<lambda>uids.
     bindM (liftM (make_units oid (od_units draft) nids uids)) (\<lambda>units.
     bindM (nowM env) (\<lambda>created.
     returnM \<lparr>outline_id = oid, outline_task_id = task_id task, outline_version = version, outline_title = od_title draft,
       outline_status = OS_PENDING_CONFIRMATION, outline_nodes = nodes, confirmation_units = units,
       outline_created_at = created, outline_confirmed_at = None\<rparr>))))))"

definition generate_outline :: "Env \<Rightarrow> Task \<Rightarrow> AgentRun \<Rightarrow> RequirementBrief \<Rightarrow> WorkflowSnapshot wf" where
  "generate_outline env task run b =
     bindM (callM env (GenerateOutline b) (validate_outline (env_str_of env))) (\<lambda>draft.
     bindM (build_outline env task draft) (\<lambda>outline.
     bindM (moveM env task TS_OUTLINE_REVIEW (task_version task)) (\<lambda>task.
     bindM (touchM env (task\<lparr>current_outline_version := Some (outline_version outline)\<rparr>)) (\<lambda>task.
     let run = run\<lparr>run_status := RS_WAITING_USER\<rparr> in
     thenM (repoM (save_outline outline))
     (thenM (repoM (save_task task))
     (thenM (save_runM run)
     (thenM (eventM env (task_id task) ''OutlineGenerated'' (OutlineVersionPayload (outline_version outline)))
     (thenM (checkpointM task run ''WAIT_OUTLINE_CONFIRMATION'')
     (readR (\<lambda>r. snapshot r (task_id task)))))))))))"

section \<open>Generating a unit\<close>

text \<open>
  The objects \<open>_generate_unit\<close> changes in place. Its handler reads them after an exception, so
  they are part of the state of the inner computation.
\<close>

record Gen =
  g_task :: Task
  g_run :: AgentRun
  g_outline :: OutlineVersion
  g_unit :: ConfirmationUnit

type_synonym 'a gen = "(World \<times> Gen, exn, 'a) sem"

definition onW :: "'a wf \<Rightarrow> 'a gen" where
  "onW m s = (case m (fst s) of (r, w) \<Rightarrow> (r, (w, snd s)))"

definition getG :: "(Gen \<Rightarrow> 'a) \<Rightarrow> 'a gen" where
  "getG f s = (Inr (f (snd s)), s)"

definition setG :: "(Gen \<Rightarrow> Gen) \<Rightarrow> unit gen" where
  "setG f s = (Inr (), (fst s, f (snd s)))"

text \<open>\<open>outline.confirmation_units = tuple(unit if item.unit_id == unit.unit_id else item ...)\<close>.\<close>

definition put_unit :: "ConfirmationUnit \<Rightarrow> OutlineVersion \<Rightarrow> OutlineVersion" where
  "put_unit u o' = o'\<lparr>confirmation_units := replace_by unit_id u (confirmation_units o')\<rparr>"

definition put_unitG :: "unit gen" where
  "put_unitG = setG (\<lambda>g. g\<lparr>g_outline := put_unit (g_unit g) (g_outline g)\<rparr>)"

definition save_genG :: "unit gen" where
  "save_genG = bindM (getG (\<lambda>g. g)) (\<lambda>g. thenM (onW (repoM (save_outline (g_outline g)))) (onW (save_runM (g_run g))))"

text \<open>The failure path, which both handlers share: unit, task and run failed, saved, reported.\<close>

definition fail_unit :: "Env \<Rightarrow> exn \<Rightarrow> unit gen" where
  "fail_unit env exc =
     thenM (setG (\<lambda>g. g\<lparr>g_unit := (g_unit g)\<lparr>unit_status := US_FAILED\<rparr>\<rparr>))
     (thenM put_unitG
     (bindM (getG g_task) (\<lambda>t.
     bindM (onW (moveM env t TS_FAILED (task_version t))) (\<lambda>t.
     bindM (onW (touchM env t)) (\<lambda>t.
     thenM (setG (\<lambda>g. g\<lparr>g_task := t\<rparr>))
     (thenM (setG (\<lambda>g. g\<lparr>g_run := (g_run g)\<lparr>run_status := RS_FAILED, run_error := Some exc\<rparr>\<rparr>))
     (bindM (onW (nowM env)) (\<lambda>now.
     thenM (setG (\<lambda>g. g\<lparr>g_run := (g_run g)\<lparr>ended_at := Some now\<rparr>\<rparr>))
     (bindM (getG (\<lambda>g. g)) (\<lambda>g.
     thenM (onW (repoM (save_outline (g_outline g))))
     (thenM (onW (repoM (save_task (g_task g))))
     (thenM (onW (save_runM (g_run g)))
     (thenM (onW (eventM env (task_id (g_task g)) ''RunFailed'' (NodePayload ''GENERATE_FIRST_UNIT'')))
     (onW (checkpointM (g_task g) (g_run g) ''GENERATE_FIRST_UNIT_FAILED'')))))))))))))))"

text \<open>\<open>_contains_unlisted_current_state_claim\<close>.\<close>

definition current_state_markers :: "pystr list" where
  "current_state_markers =
     [[24403, 21069, 31995, 32479], [29616, 26377, 31995, 32479], [30446, 21069, 31995, 32479], [24050, 32463, 23454, 29616], [24403, 21069, 25903, 25345],
      lit ''currently'', lit ''existing system'']"

definition contains_unlisted_current_state_claim :: "Env \<Rightarrow> pystr \<Rightarrow> bool" where
  "contains_unlisted_current_state_claim env v =
     (\<exists>m \<in> set current_state_markers. substr_in m (env_lower env v))"

definition unit_nodes :: "OutlineVersion \<Rightarrow> ConfirmationUnit \<Rightarrow> OutlineNode list" where
  "unit_nodes outline u = filter (\<lambda>n. node_ids u = [] \<or> node_id n \<in> set (node_ids u)) (outline_nodes outline)"

text \<open>\<open>nodes_by_key\<close>: keyed by \<open>stable_key or node_id\<close>.\<close>

definition node_key_of :: "OutlineNode \<Rightarrow> pystr" where
  "node_key_of n = (case stable_key n of Some (c # k) \<Rightarrow> c # k | _ \<Rightarrow> node_id n)"

definition nodes_by_key :: "OutlineVersion \<Rightarrow> ConfirmationUnit \<Rightarrow> (pystr, OutlineNode) dict" where
  "nodes_by_key outline u = dict_by node_key_of (unit_nodes outline u)"

definition draft_of_section :: "Env \<Rightarrow> (pystr, OutlineNode) dict \<Rightarrow> SectionText \<Rightarrow> exn + SectionDraft" where
  "draft_of_section env nodes s =
     (case dict_get nodes (sx_node_key s) of
        None \<Rightarrow> Inl KeyError
      | Some n \<Rightarrow> Inr \<lparr>draft_node_id = Some (node_id n), draft_title = node_title n, draft_content = sx_content s,
                     draft_content_hash = content_hash env (sx_content s)\<rparr>)"

text \<open>The drafts of a generated unit, where the code sets them.\<close>

definition section_drafts_of :: "Env \<Rightarrow> (pystr, OutlineNode) dict \<Rightarrow> ConfirmationUnit \<Rightarrow> UnitContent \<Rightarrow> exn + SectionDraft list" where
  "section_drafts_of env nodes u draft =
     (if uc_sections draft \<noteq> [] then mapE (draft_of_section env nodes) (uc_sections draft)
      else if length nodes = 1 then
        Inr [\<lparr>draft_node_id = Some (node_id (snd (hd nodes))), draft_title = unit_title u, draft_content = uc_content draft,
              draft_content_hash = content_hash env (uc_content draft)\<rparr>]
      else Inr (section_drafts u))"

definition inventory_claims :: "Env \<Rightarrow> UnitContent \<Rightarrow> PrdClaim list" where
  "inventory_claims env draft =
     (if env_grounding env \<noteq> None \<and> uc_claims draft = [] \<and> contains_unlisted_current_state_claim env (uc_content draft)
      then [\<lparr>claim_id = lit ''claim-inventory-'' @ take 16 (drop 7 (content_hash env (uc_content draft))),
             claim_text = uc_content draft, claim_kind = CK_CURRENT_STATE, claim_criticality = CC_CRITICAL,
             claim_fact_ids = [], claim_decision_ids = [], claim_assumption_ids = []\<rparr>]
      else uc_claims draft)"

definition grounding_request :: "pystr \<Rightarrow> Task \<Rightarrow> ConfirmationUnit \<Rightarrow> InvestigationContext option \<Rightarrow> pystr \<Rightarrow> PrdClaim list \<Rightarrow> exn + GroundingRequest" where
  "grounding_request gid task u context content claims =
     (let c = (case context of Some c \<Rightarrow> c
               | None \<Rightarrow> \<lparr>ic_repository_id = None, ic_resolved_commit_sha = None, ic_facts = [], ic_evidence = [], ic_conflicts = []\<rparr>) in
      validate_grounding_request
        \<lparr>gr_grounding_run_id = gid, gr_task_id = task_id task, gr_unit_id = unit_id u,
         gr_repository_id = Some (case ic_repository_id c of None \<Rightarrow> lit ''local'' | Some i \<Rightarrow> i),
         gr_resolved_commit_sha = Some (case ic_resolved_commit_sha c of None \<Rightarrow> replicate 40 48 | Some h \<Rightarrow> h),
         gr_allowed_source_bindings = [], gr_content = content, gr_claims = claims, gr_facts = ic_facts c,
         gr_evidence = ic_evidence c, gr_conflicts = ic_conflicts c, gr_retry_count = 0\<rparr>)"

definition investigateM :: "Env \<Rightarrow> RequirementBrief \<Rightarrow> InvestigationContext option gen" where
  "investigateM env b s =
     (case env_provider env of
        None \<Rightarrow> (Inr None, s)
      | Some provider \<Rightarrow>
          (let w = fst s; g = snd s; n = w_investigations w in
           (provider n (g_task g) (g_run g) (g_outline g) (g_unit g) b, (w\<lparr>w_investigations := Suc n\<rparr>, g))))"

definition is_model_output_error :: "exn \<Rightarrow> bool" where
  "is_model_output_error e = (case e of ModelOutputError _ \<Rightarrow> True | _ \<Rightarrow> False)"

text \<open>The call of the model with its own handler, which records the failure and raises again.\<close>

definition draft_unit :: "Env \<Rightarrow> RequirementBrief \<Rightarrow> InvestigationContext option \<Rightarrow> UnitContent gen" where
  "draft_unit env b context =
     bindM (getG (\<lambda>g. g)) (\<lambda>g.
     let outline = g_outline g; u = g_unit g in
     catchM
       (bindM (onW (readR (\<lambda>r. snapshot r (task_id (g_task g))))) (\<lambda>snap.
        onW (callM env
          (GenerateConfirmationUnit b (outline_title outline) (outline_version outline) (unit_nodes outline u)
             (unit_sequence u) (unit_title u) (build_confirmed_context u (ss_sections snap) 4000) context)
          (validate_unit_draft_for_nodes (env_str_of env) (dict_keys (nodes_by_key outline u))))))
       (\<lambda>exc. if is_model_output_error exc then thenM (fail_unit env exc) (raiseM exc) else raiseM exc))"

text \<open>The grounding gate: a request that is not confirmable blocks the unit; \<open>True\<close> means blocked.\<close>

definition gate_unit :: "Env \<Rightarrow> InvestigationContext option \<Rightarrow> pystr \<Rightarrow> PrdClaim list \<Rightarrow> bool gen" where
  "gate_unit env context content claims =
     (case env_grounding env of
        None \<Rightarrow> returnM False
      | Some retry_provider \<Rightarrow>
          bindM (onW (idM env ''grounding'')) (\<lambda>gid.
          bindM (getG (\<lambda>g. g)) (\<lambda>g.
          bindM (liftM (grounding_request gid (g_task g) (g_unit g) context content claims)) (\<lambda>request.
          bindM (liftM (ground (env_lower env) retry_provider request)) (\<lambda>grounding.
          thenM (onW (repoM (save_grounding_result (task_id (g_task g)) grounding)))
          (thenM (setG (\<lambda>g. g\<lparr>g_unit := (g_unit g)\<lparr>unit_grounding_run_id := Some (grounding_run_id grounding)\<rparr>\<rparr>))
          (if grounding_confirmable grounding then returnM False
           else
             thenM (setG (\<lambda>g. g\<lparr>g_unit := (g_unit g)\<lparr>unit_content := None, unit_content_hash := None, section_drafts := [],
                 unit_status := US_HUMAN_INPUT_REQUIRED, unit_version := unit_version (g_unit g) + 1\<rparr>\<rparr>))
             (thenM put_unitG
             (thenM (setG (\<lambda>g. g\<lparr>g_run := (g_run g)\<lparr>run_status := RS_WAITING_USER\<rparr>\<rparr>))
             (thenM save_genG
             (bindM (getG (\<lambda>g. g)) (\<lambda>g.
             thenM (onW (eventM env (task_id (g_task g)) ''UnitGroundingBlocked''
                 (UnitIssuesPayload (unit_id (g_unit g)) (length (grounding_issues grounding)))))
             (thenM (onW (checkpointM (g_task g) (g_run g) ''WAIT_GROUNDING_INPUT''))
             (returnM True))))))))))))))"

text \<open>What follows a valid draft: the section drafts, the grounding gate, and the unit offered for confirmation.\<close>

definition offer_unit :: "Env \<Rightarrow> UnitContent \<Rightarrow> WorkflowSnapshot gen" where
  "offer_unit env draft =
     thenM (setG (\<lambda>g. g\<lparr>g_unit := (g_unit g)\<lparr>unit_content := Some (uc_content draft),
         unit_content_hash := Some (content_hash env (uc_content draft)), unit_status := US_PENDING_CONFIRMATION,
         unit_version := unit_version (g_unit g) + 1\<rparr>\<rparr>))
     (thenM put_unitG
     (thenM (setG (\<lambda>g. g\<lparr>g_run := (g_run g)\<lparr>run_status := RS_WAITING_USER\<rparr>\<rparr>))
     (thenM save_genG
     (bindM (getG (\<lambda>g. g)) (\<lambda>g.
     thenM (onW (eventM env (task_id (g_task g)) ''UnitGenerated'' (UnitPayload (unit_id (g_unit g)))))
     (thenM (onW (checkpointM (g_task g) (g_run g) ''WAIT_UNIT_CONFIRMATION''))
     (onW (readR (\<lambda>r. snapshot r (task_id (g_task g)))))))))))"

definition accept_draft :: "Env \<Rightarrow> InvestigationContext option \<Rightarrow> UnitContent \<Rightarrow> WorkflowSnapshot gen" where
  "accept_draft env context draft =
     (let claims = inventory_claims env draft in
      bindM (getG (\<lambda>g. g)) (\<lambda>g.
      bindM (liftM (section_drafts_of env (nodes_by_key (g_outline g) (g_unit g)) (g_unit g) draft)) (\<lambda>drafts.
      thenM (setG (\<lambda>g. g\<lparr>g_unit := (g_unit g)\<lparr>section_drafts := drafts\<rparr>\<rparr>))
      (bindM (gate_unit env context (uc_content draft) claims) (\<lambda>blocked.
      if blocked then onW (readR (\<lambda>r. snapshot r (task_id (g_task g)))) else offer_unit env draft)))))"

definition generate_unit_inner :: "Env \<Rightarrow> RequirementBrief \<Rightarrow> WorkflowSnapshot gen" where
  "generate_unit_inner env b =
     bindM (investigateM env b) (\<lambda>context.
     bindM (draft_unit env b context) (\<lambda>draft.
     accept_draft env context draft))"

text \<open>The handler of \<open>_generate_unit\<close>: a failure that was not recorded yet is.\<close>

definition record_failure :: "Env \<Rightarrow> exn \<Rightarrow> WorkflowSnapshot gen" where
  "record_failure env exc =
     bindM (getG g_run) (\<lambda>run.
       if run_status run \<noteq> RS_FAILED then thenM (fail_unit env exc) (raiseM exc) else raiseM exc)"

definition generate_unit :: "Env \<Rightarrow> Task \<Rightarrow> AgentRun \<Rightarrow> OutlineVersion \<Rightarrow> ConfirmationUnit \<Rightarrow> RequirementBrief \<Rightarrow> WorkflowSnapshot wf" where
  "generate_unit env task run outline u b w =
     (case catchM (generate_unit_inner env b) (record_failure env)
         (w, \<lparr>g_task = task, g_run = run, g_outline = outline, g_unit = u\<rparr>) of
        (r, (w', _)) \<Rightarrow> (r, w'))"

section \<open>Commands\<close>

definition jstr :: "string \<Rightarrow> json" where
  "jstr s = JStr (lit s)"

definition hash_of :: "Env \<Rightarrow> (string \<times> json) list \<Rightarrow> pystr" where
  "hash_of env kvs = sha256_json (env_sha256 env) (JObj (map (\<lambda>(k, v). (lit k, v)) kvs))"

definition start_hash :: "Env \<Rightarrow> StartTask \<Rightarrow> pystr" where
  "start_hash env c = hash_of env [(''command'', jstr ''StartTask''), (''message'', JStr (strip (st_message c)))]"

definition txt_extraction_failed :: pystr where
  "txt_extraction_failed = [38656, 27714, 32467, 26500, 21270, 22833, 36133, 65292, 38656, 35201, 29992, 25143, 37325, 35797, 25110, 34917, 20805, 20449, 24687]"

definition bare_brief :: "pystr \<Rightarrow> pystr list \<Rightarrow> RequirementBrief" where
  "bare_brief p qs =
     \<lparr>problem = p, target_users = [], scenarios = [], goals = [], scope_in = [], scope_out = [], product_rules = [],
      success_metrics = [], current_state_fact_ids = [], target_decisions = [], authorized_assumptions = [],
      agent_suggestions = [], open_questions = qs, unknown_item_ids = [], source_conflict_ids = []\<rparr>"

text \<open>The tail of a command whose brief needs clarification.\<close>

definition await_clarification :: "Env \<Rightarrow> Task \<Rightarrow> AgentRun \<Rightarrow> RequirementBrief \<Rightarrow> WorkflowSnapshot wf" where
  "await_clarification env task run b =
     (let run = run\<lparr>run_status := RS_WAITING_USER\<rparr> in
      thenM (save_runM run)
      (thenM (eventM env (task_id task) ''ClarificationRequested'' (QuestionCountPayload (length (open_questions b))))
      (thenM (checkpointM task run ''WAIT_USER_CLARIFICATION'')
      (readR (\<lambda>r. snapshot r (task_id task))))))"

text \<open>\<open>_start_task_locked\<close>, the handler of a failed extraction: a failed task is stored and the error raised.\<close>

definition start_failed :: "Env \<Rightarrow> StartTask \<Rightarrow> pystr \<Rightarrow> pystr \<Rightarrow> pystr \<Rightarrow> pystr \<Rightarrow> time \<Rightarrow> exn \<Rightarrow> WorkflowSnapshot wf" where
  "start_failed env c message tid rid thread now exc =
     bindM (new_task env tid (take 120 message) (st_actor_id c)) (\<lambda>task.
     bindM (moveM env task TS_CLARIFYING (task_version task)) (\<lambda>task.
     bindM (moveM env task TS_FAILED (task_version task)) (\<lambda>task.
     let task = task\<lparr>task_updated_at := now\<rparr>;
         run = make_run rid tid thread RS_FAILED (start_hash env c) (st_idempotency_key c) now (Some now) (Some exc) in
     bindM (new_message env tid (st_actor_id c) message) (\<lambda>msg.
     bindM (new_brief env tid 1 (bare_brief message [txt_extraction_failed]) False) (\<lambda>bv.
     bindM (new_record env (st_actor_id c) (st_idempotency_key c) (start_hash env c) tid rid) (\<lambda>rec.
     thenM (repoM (create_task_bundle task msg bv run rec))
     (thenM (eventM env tid ''RunFailed'' (NodePayload ''EXTRACT_REQUIREMENT_BRIEF''))
     (thenM (checkpointM task run ''EXTRACT_REQUIREMENT_BRIEF_FAILED'')
     (raiseM exc)))))))))"

definition start_extracted :: "Env \<Rightarrow> StartTask \<Rightarrow> pystr \<Rightarrow> pystr \<Rightarrow> pystr \<Rightarrow> pystr \<Rightarrow> time \<Rightarrow> RequirementBrief \<Rightarrow> WorkflowSnapshot wf" where
  "start_extracted env c message tid rid thread now b =
     bindM (new_task env tid (take 120 (problem b)) (st_actor_id c)) (\<lambda>task.
     bindM (moveM env task TS_CLARIFYING (task_version task)) (\<lambda>task.
     let task = task\<lparr>task_updated_at := now\<rparr>;
         run = make_run rid tid thread RS_RUNNING (start_hash env c) (st_idempotency_key c) now None None in
     bindM (new_message env tid (st_actor_id c) message) (\<lambda>msg.
     bindM (new_brief env tid 1 b True) (\<lambda>bv.
     bindM (new_record env (st_actor_id c) (st_idempotency_key c) (start_hash env c) tid rid) (\<lambda>rec.
     thenM (repoM (create_task_bundle task msg bv run rec))
     (thenM (eventM env tid ''TaskStarted'' (RunPayload rid))
     (if needs_clarification b then await_clarification env task run b else generate_outline env task run b)))))))"

definition start_task_locked :: "Env \<Rightarrow> StartTask \<Rightarrow> WorkflowSnapshot wf" where
  "start_task_locked env c =
     (let message = strip (st_message c) in
      thenM (checkM (message \<noteq> []) (InvalidCommand ''start message cannot be empty''))
      (thenM (checkM (strip (st_idempotency_key c) \<noteq> []) (InvalidCommand ''idempotency key cannot be empty''))
      (replayM (st_actor_id c) (st_idempotency_key c) (start_hash env c)
        (bindM (idM env ''task'') (\<lambda>tid.
         bindM (idM env ''run'') (\<lambda>rid.
         bindM (idM env ''thread'') (\<lambda>thread.
         bindM (nowM env) (\<lambda>now.
         bindM (catchM
             (bindM (extractM env message None) (\<lambda>b. returnM (Inr b)))
             (\<lambda>exc. if is_model_output_error exc then returnM (Inl exc) else raiseM exc)) (\<lambda>outcome.
         case outcome of
           Inl exc \<Rightarrow> start_failed env c message tid rid thread now exc
         | Inr b \<Rightarrow> start_extracted env c message tid rid thread now b)))))))))"

definition start_task :: "Env \<Rightarrow> StartTask \<Rightarrow> WorkflowSnapshot wf" where
  "start_task env c =
     thenM (checkM (strip (st_idempotency_key c) \<noteq> []) (InvalidCommand ''idempotency key cannot be empty''))
       (start_task_locked env c)"

text \<open>
  What \<open>reply_to_task\<close>, \<open>confirm_outline\<close> and \<open>confirm_unit\<close> do first: close the latest run
  and open a new one in its thread.
\<close>

definition close_run :: "Env \<Rightarrow> AgentRun \<Rightarrow> unit wf" where
  "close_run env run =
     bindM (nowM env) (\<lambda>now. save_runM (run\<lparr>run_status := RS_SUCCEEDED, ended_at := Some now\<rparr>))"

definition open_run :: "Env \<Rightarrow> pystr \<Rightarrow> pystr \<Rightarrow> pystr \<Rightarrow> pystr \<Rightarrow> AgentRun wf" where
  "open_run env tid thread h key =
     bindM (idM env ''run'') (\<lambda>rid.
     bindM (nowM env) (\<lambda>now.
     returnM (make_run rid tid thread RS_RUNNING h key now None None)))"

definition reply_hash :: "Env \<Rightarrow> ReplyToTask \<Rightarrow> pystr" where
  "reply_hash env c = hash_of env [(''command'', jstr ''ReplyToTask''), (''task_id'', JStr (rt_task_id c)),
     (''message'', JStr (strip (rt_message c))), (''expected_task_version'', JInt (rt_expected_task_version c))]"

definition reply_supersede :: "Env \<Rightarrow> ReplyToTask \<Rightarrow> Task \<Rightarrow> WorkflowSnapshot \<Rightarrow> Task wf" where
  "reply_supersede env c task previous =
     (if task_status task = TS_OUTLINE_REVIEW then
        bindM (moveM env task TS_CLARIFYING (rt_expected_task_version c)) (\<lambda>task.
        bindM (touchM env task) (\<lambda>task.
        thenM (case current_outline previous of
            None \<Rightarrow> returnM ()
          | Some o' \<Rightarrow> repoM (save_outline (o'\<lparr>outline_status := OS_SUPERSEDED\<rparr>)))
        (thenM (repoM (save_task task)) (returnM task))))
      else returnM task)"

definition attribute_error :: exn where
  "attribute_error = OtherError (lit ''AttributeError'')"

text \<open>\<open>reply_to_task\<close> from the extracted brief on.\<close>

definition reply_extracted :: "Env \<Rightarrow> ReplyToTask \<Rightarrow> pystr \<Rightarrow> Task \<Rightarrow> WorkflowSnapshot \<Rightarrow> RequirementBrief \<Rightarrow> WorkflowSnapshot wf" where
  "reply_extracted env c message task previous b =
     bindM (reply_supersede env c task previous) (\<lambda>task.
     thenM (close_run env (ss_run previous))
     (bindM (open_run env (task_id task) (thread_id (ss_run previous)) (reply_hash env c) (rt_idempotency_key c)) (\<lambda>run.
     thenM (save_runM run)
     (bindM (new_message env (task_id task) (rt_actor_id c) message) (\<lambda>msg.
     thenM (repoM (save_message msg))
     (bindM (new_brief env (task_id task) (int (length (ss_briefs previous)) + 1) b True) (\<lambda>bv.
     thenM (repoM (save_brief bv))
     (bindM (new_record env (rt_actor_id c) (rt_idempotency_key c) (reply_hash env c) (task_id task) (run_id run)) (\<lambda>rec.
     thenM (repoM (save_idempotency rec))
     (if needs_clarification b then await_clarification env task run b else generate_outline env task run b))))))))))"

definition reply_to_task :: "Env \<Rightarrow> ReplyToTask \<Rightarrow> WorkflowSnapshot wf" where
  "reply_to_task env c =
     (let message = strip (rt_message c) in
      thenM (checkM (message \<noteq> []) (InvalidCommand ''reply message cannot be empty''))
      (replayM (rt_actor_id c) (rt_idempotency_key c) (reply_hash env c)
        (bindM (owned_task (rt_task_id c) (rt_actor_id c)) (\<lambda>task.
         thenM (checkM (task_version task = rt_expected_task_version c) stale_version)
         (thenM (checkM (task_status task \<in> {TS_CLARIFYING, TS_OUTLINE_REVIEW})
             (InvalidTransition ''reply is only accepted while clarifying or reviewing outline''))
         (bindM (readR (\<lambda>r. snapshot r (task_id task))) (\<lambda>previous.
         bindM (case current_brief previous of None \<Rightarrow> raiseM attribute_error | Some bv \<Rightarrow> returnM (brief_value bv)) (\<lambda>old_brief.
         bindM (extractM env message (Some old_brief)) (\<lambda>b.
         reply_extracted env c message task previous b)))))))))"

definition confirm_outline_hash :: "Env \<Rightarrow> ConfirmOutline \<Rightarrow> pystr" where
  "confirm_outline_hash env c = hash_of env [(''command'', jstr ''ConfirmOutline''), (''task_id'', JStr (co_task_id c)),
     (''outline_version'', JInt (co_outline_version c)), (''expected_task_version'', JInt (co_expected_task_version c))]"

definition set_unit_status :: "UnitStatus \<Rightarrow> ConfirmationUnit \<Rightarrow> ConfirmationUnit" where
  "set_unit_status st u = u\<lparr>unit_status := st\<rparr>"

definition snapshot_brief :: "WorkflowSnapshot \<Rightarrow> RequirementBrief wf" where
  "snapshot_brief snap =
     (case current_brief snap of None \<Rightarrow> raiseM attribute_error | Some bv \<Rightarrow> returnM (brief_value bv))"

text \<open>The outline policy has checked that there is a first unit when it is taken.\<close>

definition confirm_outline :: "Env \<Rightarrow> ConfirmOutline \<Rightarrow> WorkflowSnapshot wf" where
  "confirm_outline env c =
     replayM (co_actor_id c) (co_idempotency_key c) (confirm_outline_hash env c)
       (bindM (owned_snapshot (co_task_id c) (co_actor_id c)) (\<lambda>snap.
        let task = ss_task snap in
        thenM (checkM (task_version task = co_expected_task_version c) stale_version)
        (case (task_status task = TS_OUTLINE_REVIEW, current_outline snap) of
           (True, Some outline) \<Rightarrow>
             thenM (liftM (outline_confirm outline (co_outline_version c)))
             (thenM (close_run env (ss_run snap))
             (bindM (open_run env (task_id task) (thread_id (ss_run snap)) (confirm_outline_hash env c) (co_idempotency_key c)) (\<lambda>run.
             thenM (save_runM run)
             (bindM (new_record env (co_actor_id c) (co_idempotency_key c) (confirm_outline_hash env c) (task_id task) (run_id run)) (\<lambda>rec.
             thenM (repoM (save_idempotency rec))
             (bindM (nowM env) (\<lambda>confirmed_at.
             let u = set_unit_status US_GENERATING (hd (confirmation_units outline));
                 outline = outline\<lparr>outline_status := OS_CONFIRMED, outline_confirmed_at := Some confirmed_at,
                             confirmation_units := u # tl (confirmation_units outline)\<rparr> in
             bindM (moveM env task TS_GENERATING (co_expected_task_version c)) (\<lambda>task.
             bindM (touchM env (task\<lparr>current_unit_sequence := Some 1\<rparr>)) (\<lambda>task.
             thenM (repoM (save_outline outline))
             (thenM (repoM (save_task task))
             (thenM (eventM env (task_id task) ''OutlineConfirmed'' (OutlineVersionPayload (outline_version outline)))
             (bindM (snapshot_brief snap) (\<lambda>b.
             generate_unit env task run outline u b)))))))))))))
         | _ \<Rightarrow> raiseM (InvalidTransition ''task is not waiting for outline confirmation''))))"

subsection \<open>Confirming a unit\<close>

text \<open>\<open>_current_sections\<close>.\<close>

definition current_sections :: "OutlineVersion \<Rightarrow> PrdSectionVersion list \<Rightarrow> PrdSectionVersion list" where
  "current_sections outline sections =
     (let latest = latest_sections sections;
          ordered = List.map_filter (\<lambda>n. dict_get latest (node_id n)) (sort_key node_sequence (outline_nodes outline)) in
      if ordered \<noteq> [] then ordered
      else List.map_filter (\<lambda>u. dict_get latest (unit_id u)) (sort_key unit_sequence (confirmation_units outline)))"

definition confirm_unit_hash :: "Env \<Rightarrow> ConfirmUnit \<Rightarrow> pystr" where
  "confirm_unit_hash env c = hash_of env [(''command'', jstr ''ConfirmUnit''), (''task_id'', JStr (cu_task_id c)),
     (''unit_id'', JStr (cu_unit_id c)), (''expected_task_version'', JInt (cu_expected_task_version c))]"

definition drafts_of_unit :: "Env \<Rightarrow> ConfirmationUnit \<Rightarrow> SectionDraft list" where
  "drafts_of_unit env u =
     (if section_drafts u \<noteq> [] then section_drafts u
      else
        (let content = (case unit_content u of None \<Rightarrow> [] | Some v \<Rightarrow> v) in
         [\<lparr>draft_node_id = (case node_ids u of [] \<Rightarrow> None | n # _ \<Rightarrow> Some n), draft_title = unit_title u,
           draft_content = content,
           draft_content_hash = (case unit_content_hash u of Some (h # hs) \<Rightarrow> h # hs | _ \<Rightarrow> content_hash env content)\<rparr>]))"

definition new_section :: "Env \<Rightarrow> pystr \<Rightarrow> AgentRun \<Rightarrow> ConfirmationUnit \<Rightarrow> PrdSectionVersion list \<Rightarrow> SectionDraft \<Rightarrow> PrdSectionVersion wf" where
  "new_section env actor run u sections d =
     bindM (idM env ''section'') (\<lambda>sid.
     bindM (nowM env) (\<lambda>confirmed_at.
     bindM (nowM env) (\<lambda>created_at.
     returnM \<lparr>section_id = sid, section_unit_id = unit_id u,
       section_version = max_default 0 (map section_version (filter (\<lambda>s. section_node_id s = draft_node_id d) sections)) + 1,
       section_title = draft_title d, section_content = draft_content d, section_created_at = created_at,
       section_node_id = draft_node_id d, section_status = SS_CONFIRMED, section_content_hash = draft_content_hash d,
       source_run_id = Some (run_id run), section_grounding_run_id = None, section_quality_run_id = None,
       supersedes_section_id = None, section_confirmed_by = Some actor, section_confirmed_at = Some confirmed_at\<rparr>)))"

definition next_units :: "OutlineVersion \<Rightarrow> ConfirmationUnit \<Rightarrow> ConfirmationUnit list" where
  "next_units outline u =
     sort_key unit_sequence
       (filter (\<lambda>v. unit_sequence v > unit_sequence u \<and> unit_status v \<in> {US_PENDING, US_REVISION_REQUIRED})
         (confirmation_units outline))"

text \<open>The branch of \<open>confirm_unit\<close> that goes on to the next unit.\<close>

definition generate_next_unit :: "Env \<Rightarrow> WorkflowSnapshot \<Rightarrow> Task \<Rightarrow> AgentRun \<Rightarrow> OutlineVersion \<Rightarrow> ConfirmationUnit \<Rightarrow> WorkflowSnapshot wf" where
  "generate_next_unit env snap task run outline v =
     (let v = set_unit_status US_GENERATING v;
          outline = put_unit v outline in
      bindM (touchM env (task\<lparr>task_version := task_version task + 1, current_unit_sequence := Some (unit_sequence v)\<rparr>)) (\<lambda>task.
      thenM (repoM (save_outline outline))
      (thenM (repoM (save_task task))
      (bindM (snapshot_brief snap) (\<lambda>b.
      generate_unit env task run outline v b)))))"

text \<open>The branch that renders the document, checks it and ends the run.\<close>

definition document_of :: "Env \<Rightarrow> WorkflowSnapshot \<Rightarrow> Task \<Rightarrow> OutlineVersion \<Rightarrow> PrdSectionVersion list \<Rightarrow> PrdDocumentVersion wf" where
  "document_of env snap task outline sections =
     bindM (snapshot_brief snap) (\<lambda>b.
     bindM (liftM (render_evidence_appendix (ss_grounding_results snap))) (\<lambda>appendix.
     bindM (liftM (render_markdown b outline sections appendix)) (\<lambda>markdown.
     bindM (idM env ''document'') (\<lambda>did.
     bindM (nowM env) (\<lambda>created.
     returnM \<lparr>document_id = did, document_task_id = task_id task, document_version = int (length (ss_documents snap)) + 1,
       document_markdown = markdown, document_created_at = created, document_content_hash = content_hash env markdown,
       document_status = DS_FINAL_REVIEW, document_section_ids = map section_id sections,
       document_confirmed_by = None, document_confirmed_at = None\<rparr>)))))"

definition check_qualityM :: "Env \<Rightarrow> Task \<Rightarrow> PrdDocumentVersion \<Rightarrow> OutlineVersion \<Rightarrow> PrdSectionVersion list \<Rightarrow> unit wf" where
  "check_qualityM env task document outline sections =
     (if env_quality env then
        bindM (idM env ''quality'') (\<lambda>qid.
        let quality = check_document (env_sha256 env) qid (task_id task) (document_id document) outline sections in
        thenM (repoM (save_quality_result (task_id task) quality))
        (eventM env (task_id task) ''DocumentQualityChecked''
           (QualityPayload (document_id document) (quality_confirmable quality) (length (quality_issues quality)))))
      else returnM ())"

definition render_document :: "Env \<Rightarrow> ConfirmUnit \<Rightarrow> WorkflowSnapshot \<Rightarrow> Task \<Rightarrow> AgentRun \<Rightarrow> OutlineVersion \<Rightarrow> PrdSectionVersion list \<Rightarrow> WorkflowSnapshot wf" where
  "render_document env c snap task run outline new_sections =
     bindM (moveM env task TS_FINAL_REVIEW (cu_expected_task_version c)) (\<lambda>task.
     bindM (touchM env task) (\<lambda>task.
     thenM (repoM (save_task task))
     (let sections = current_sections outline (ss_sections snap @ new_sections) in
      bindM (document_of env snap task outline sections) (\<lambda>document.
      thenM (repoM (save_document document))
      (thenM (check_qualityM env task document outline sections)
      (thenM (eventM env (task_id task) ''PrdRendered'' (DocumentVersionPayload (length (ss_documents snap) + 1)))
      (bindM (nowM env) (\<lambda>now.
       let run = run\<lparr>run_status := RS_SUCCEEDED, ended_at := Some now\<rparr> in
       thenM (save_runM run)
       (thenM (checkpointM task run ''FINAL_REVIEW'')
       (readR (\<lambda>r. snapshot r (task_id task))))))))))))"

definition confirmed_unit :: "ConfirmationUnit \<Rightarrow> ConfirmationUnit" where
  "confirmed_unit u = u\<lparr>unit_status := US_CONFIRMED, unit_version := unit_version u + 1\<rparr>"

text \<open>The unit policy has found the unit before it is taken again.\<close>

definition confirm_unit :: "Env \<Rightarrow> ConfirmUnit \<Rightarrow> WorkflowSnapshot wf" where
  "confirm_unit env c =
     replayM (cu_actor_id c) (cu_idempotency_key c) (confirm_unit_hash env c)
       (bindM (owned_snapshot (cu_task_id c) (cu_actor_id c)) (\<lambda>snap.
        let task = ss_task snap in
        thenM (checkM (task_version task = cu_expected_task_version c) stale_version)
        (case (task_status task = TS_GENERATING, current_outline snap) of
           (True, Some outline) \<Rightarrow>
             thenM (liftM (unit_confirm outline (cu_unit_id c) (current_unit_sequence task)))
             (thenM (close_run env (ss_run snap))
             (bindM (open_run env (task_id task) (thread_id (ss_run snap)) (confirm_unit_hash env c) (cu_idempotency_key c)) (\<lambda>run.
             thenM (save_runM run)
             (bindM (new_record env (cu_actor_id c) (cu_idempotency_key c) (confirm_unit_hash env c) (task_id task) (run_id run)) (\<lambda>rec.
             thenM (repoM (save_idempotency rec))
             (let u = confirmed_unit (hd (filter (\<lambda>v. unit_id v = cu_unit_id c) (confirmation_units outline)));
                  outline = put_unit u outline in
              bindM (mapM (new_section env (cu_actor_id c) run u (ss_sections snap)) (drafts_of_unit env u)) (\<lambda>new_sections.
              thenM (repoM (save_outline outline))
              (thenM (forM new_sections (\<lambda>s. repoM (save_section (task_id task) s)))
              (thenM (eventM env (task_id task) ''UnitConfirmed'' (UnitPayload (unit_id u)))
              (case next_units outline u of
                 v # _ \<Rightarrow> generate_next_unit env snap task run outline v
               | [] \<Rightarrow> render_document env c snap task run outline new_sections))))))))))
         | _ \<Rightarrow> raiseM (InvalidTransition ''task is not waiting for unit confirmation''))))"

subsection \<open>Reopening units\<close>

text \<open>\<open>_dependent_unit_closure\<close>: one pass over the units, which says whether it added one, and the loop.\<close>

fun closure_pass :: "ConfirmationUnit list \<Rightarrow> pystr list \<Rightarrow> pystr list \<times> bool" where
  "closure_pass [] closure = (closure, False)"
| "closure_pass (u # us) closure =
     (if unit_id u \<in> set closure then closure_pass us closure
      else if \<exists>d \<in> set (depends_on_unit_ids u). d \<in> set closure
      then (fst (closure_pass us (closure @ [unit_id u])), True)
      else closure_pass us closure)"

lemma closure_pass_sub: "set closure \<subseteq> set (fst (closure_pass us closure))"
  by (induction us closure rule: closure_pass.induct) auto

lemma closure_pass_within: "set (fst (closure_pass us closure)) \<subseteq> set closure \<union> unit_id ` set us"
  by (induction us closure rule: closure_pass.induct) auto

lemma closure_pass_adds: "snd (closure_pass us closure) \<Longrightarrow> \<exists>u \<in> set us. unit_id u \<notin> set closure \<and> unit_id u \<in> set (fst (closure_pass us closure))"
proof (induction us closure rule: closure_pass.induct)
  case (2 u us closure)
  then show ?case
    using closure_pass_sub [of "closure @ [unit_id u]" us] by (auto split: if_splits)
qed simp

function closure_loop :: "ConfirmationUnit list \<Rightarrow> pystr list \<Rightarrow> pystr list" where
  "closure_loop units closure =
     (case closure_pass units closure of (c, changed) \<Rightarrow> if changed then closure_loop units c else c)"
  by pat_completeness auto

termination
proof (relation "measure (\<lambda>(units, closure). card (unit_id ` set units - set closure))", goal_cases)
  case (2 units closure c changed)
  then have "snd (closure_pass units closure)" "c = fst (closure_pass units closure)"
    by (metis snd_conv, metis fst_conv)
  then obtain u where "u \<in> set units" "unit_id u \<notin> set closure" "unit_id u \<in> set c"
    using closure_pass_adds by blast
  moreover have "set closure \<subseteq> set c"
    using \<open>c = _\<close> closure_pass_sub by blast
  ultimately show ?case
    by (auto intro!: psubset_card_mono)
qed simp

declare closure_loop.simps [simp del]

definition dependent_unit_closure :: "OutlineVersion \<Rightarrow> pystr list \<Rightarrow> pystr list" where
  "dependent_unit_closure outline selected_ids = closure_loop (confirmation_units outline) (fromkeys selected_ids)"

definition selected_units :: "OutlineVersion \<Rightarrow> pystr list \<Rightarrow> ConfirmationUnit list" where
  "selected_units outline ids = filter (\<lambda>u. unit_id u \<in> set ids) (confirmation_units outline)"

text \<open>
  The reopened units need a revision, and the first of them by sequence is generated at once. The
  callers have checked that there is one.
\<close>

definition reopened_target :: "OutlineVersion \<Rightarrow> pystr list \<Rightarrow> ConfirmationUnit" where
  "reopened_target outline ids = set_unit_status US_GENERATING (hd (sort_key unit_sequence (selected_units outline ids)))"

definition reopen_units :: "OutlineVersion \<Rightarrow> pystr list \<Rightarrow> OutlineVersion" where
  "reopen_units outline ids =
     put_unit (reopened_target outline ids)
       (outline\<lparr>confirmation_units :=
          map (\<lambda>u. if unit_id u \<in> set ids then set_unit_status US_REVISION_REQUIRED u else u) (confirmation_units outline)\<rparr>)"

text \<open>What \<open>approve_revision_plan\<close> and \<open>reopen_prd\<close> do after their checks.\<close>

definition regenerate :: "Env \<Rightarrow> pystr \<Rightarrow> pystr \<Rightarrow> pystr \<Rightarrow> int \<Rightarrow> WorkflowSnapshot \<Rightarrow> OutlineVersion \<Rightarrow> pystr list \<Rightarrow> string \<Rightarrow> EventPayload \<Rightarrow> WorkflowSnapshot wf" where
  "regenerate env actor key h expected snap outline ids event payload =
     (let task = ss_task snap;
          target = reopened_target outline ids;
          outline = reopen_units outline ids in
      bindM (moveM env task TS_GENERATING expected) (\<lambda>task.
      bindM (touchM env (task\<lparr>current_unit_sequence := Some (unit_sequence target)\<rparr>)) (\<lambda>task.
      bindM (open_run env (task_id task) (thread_id (ss_run snap)) h key) (\<lambda>run.
      thenM (save_runM run)
      (thenM (repoM (save_outline outline))
      (thenM (repoM (save_task task))
      (bindM (new_record env actor key h (task_id task) (run_id run)) (\<lambda>rec.
      thenM (repoM (save_idempotency rec))
      (thenM (eventM env (task_id task) event payload)
      (bindM (snapshot_brief snap) (\<lambda>b.
      generate_unit env task run outline target b)))))))))))"

definition approve_hash :: "Env \<Rightarrow> ApproveRevisionPlan \<Rightarrow> pystr" where
  "approve_hash env c = hash_of env [(''command'', jstr ''ApproveRevisionPlan''), (''task_id'', JStr (ar_task_id c)),
     (''document_id'', JStr (ar_document_id c)), (''issue_ids'', JList (map JStr (ar_issue_ids c))),
     (''unit_ids'', JList (map JStr (ar_unit_ids c))), (''expected_task_version'', JInt (ar_expected_task_version c))]"

definition relevant_quality :: "WorkflowSnapshot \<Rightarrow> pystr \<Rightarrow> QualityResult option" where
  "relevant_quality snap did = last_option (filter (\<lambda>q. scope_id q = did) (ss_quality_results snap))"

definition check_revision :: "ApproveRevisionPlan \<Rightarrow> WorkflowSnapshot \<Rightarrow> OutlineVersion \<Rightarrow> exn + pystr list" where
  "check_revision c snap outline =
     bindE (checkE (map_option document_id (last_option (ss_documents snap)) = Some (ar_document_id c))
       (VersionConflict ''revision plan is based on a stale document'')) (\<lambda>_.
     case relevant_quality snap (ar_document_id c) of
       None \<Rightarrow> Inl (InvalidTransition ''document has no quality issues to revise'')
     | Some quality \<Rightarrow>
         (let issues = dict_by issue_id (quality_issues quality) in
          bindE (checkE (ar_issue_ids c \<noteq> [] \<and> (\<forall>i \<in> set (ar_issue_ids c). dict_get issues i \<noteq> None))
            (InvalidTransition ''revision references unknown quality issues'')) (\<lambda>_.
          let allowed_units = concat (map affected_unit_ids (List.map_filter (dict_get issues) (ar_issue_ids c))) in
          bindE (checkE (ar_unit_ids c \<noteq> [] \<and> set (ar_unit_ids c) \<subseteq> set allowed_units)
            (InvalidTransition ''revision units are not affected by approved issues'')) (\<lambda>_.
          let reopen_ids = dependent_unit_closure outline (ar_unit_ids c) in
          bindE (checkE (set (ar_unit_ids c) \<subseteq> unit_id ` set (selected_units outline reopen_ids))
            (InvalidTransition ''revision unit does not belong to current outline'')) (\<lambda>_.
          Inr reopen_ids)))))"

definition approve_revision_plan :: "Env \<Rightarrow> ApproveRevisionPlan \<Rightarrow> WorkflowSnapshot wf" where
  "approve_revision_plan env c =
     replayM (ar_actor_id c) (ar_idempotency_key c) (approve_hash env c)
       (bindM (owned_snapshot (ar_task_id c) (ar_actor_id c)) (\<lambda>snap.
        thenM (checkM (task_version (ss_task snap) = ar_expected_task_version c) stale_version)
        (case (task_status (ss_task snap) = TS_FINAL_REVIEW, current_outline snap) of
           (True, Some outline) \<Rightarrow>
             bindM (liftM (check_revision c snap outline)) (\<lambda>ids.
             regenerate env (ar_actor_id c) (ar_idempotency_key c) (approve_hash env c) (ar_expected_task_version c)
               snap outline ids ''RevisionPlanApproved''
               (RevisionPayload (ar_document_id c) (map unit_id (sort_key unit_sequence (selected_units outline ids)))))
         | _ \<Rightarrow> raiseM (InvalidTransition ''revision can only be approved during final review''))))"

definition reopen_hash :: "Env \<Rightarrow> ReopenPrd \<Rightarrow> pystr" where
  "reopen_hash env c = hash_of env [(''command'', jstr ''ReopenPrd''), (''task_id'', JStr (rp_task_id c)),
     (''unit_ids'', JList (map JStr (rp_unit_ids c))), (''reason'', JStr (strip (rp_reason c))),
     (''expected_task_version'', JInt (rp_expected_task_version c))]"

definition reopen_prd :: "Env \<Rightarrow> ReopenPrd \<Rightarrow> WorkflowSnapshot wf" where
  "reopen_prd env c =
     (let reason = strip (rp_reason c) in
      thenM (checkM (reason \<noteq> []) (InvalidCommand ''reopen reason cannot be empty''))
      (replayM (rp_actor_id c) (rp_idempotency_key c) (reopen_hash env c)
       (bindM (owned_snapshot (rp_task_id c) (rp_actor_id c)) (\<lambda>snap.
        thenM (checkM (task_version (ss_task snap) = rp_expected_task_version c) stale_version)
        (case (task_status (ss_task snap) = TS_COMPLETED, current_outline snap) of
           (True, Some outline) \<Rightarrow>
             thenM (checkM (rp_unit_ids c \<noteq> [] \<and> set (rp_unit_ids c) \<subseteq> unit_id ` set (confirmation_units outline))
               (InvalidTransition ''reopen units must belong to the current outline''))
             (let ids = dependent_unit_closure outline (rp_unit_ids c) in
              regenerate env (rp_actor_id c) (rp_idempotency_key c) (reopen_hash env c) (rp_expected_task_version c)
                snap outline ids ''PrdReopened''
                (ReopenPayload (map unit_id (sort_key unit_sequence (selected_units outline ids))) reason))
         | _ \<Rightarrow> raiseM (InvalidTransition ''only a completed PRD can be reopened''))))))"

subsection \<open>Finalizing\<close>

definition finalize_hash :: "Env \<Rightarrow> FinalizePrd \<Rightarrow> pystr" where
  "finalize_hash env c = hash_of env [(''command'', jstr ''FinalizePrd''), (''task_id'', JStr (fp_task_id c)),
     (''document_id'', JStr (fp_document_id c)), (''content_hash'', JStr (fp_content_hash c)),
     (''expected_task_version'', JInt (fp_expected_task_version c))]"

definition check_final :: "FinalizePrd \<Rightarrow> WorkflowSnapshot \<Rightarrow> exn + PrdDocumentVersion" where
  "check_final c snap =
     (case (task_status (ss_task snap) = TS_FINAL_REVIEW, last_option (ss_documents snap)) of
        (True, Some document) \<Rightarrow>
          bindE (checkE (document_id document = fp_document_id c \<and> document_content_hash document = fp_content_hash c)
            (VersionConflict ''document version or content hash is stale'')) (\<lambda>_.
          bindE (case current_outline snap of None \<Rightarrow> Inl attribute_error | Some outline \<Rightarrow> Inr outline) (\<lambda>outline.
          bindE (checkE (\<forall>u \<in> set (confirmation_units outline). unit_status u = US_CONFIRMED)
            (InvalidTransition ''all confirmation units must be confirmed'')) (\<lambda>_.
          bindE (checkE (case relevant_quality snap (document_id document) of None \<Rightarrow> True | Some q \<Rightarrow> quality_confirmable q)
            (InvalidTransition ''document quality issues must be resolved'')) (\<lambda>_.
          Inr document))))
      | _ \<Rightarrow> Inl (InvalidTransition ''task is not ready for final confirmation''))"

definition finalize_prd :: "Env \<Rightarrow> FinalizePrd \<Rightarrow> WorkflowSnapshot wf" where
  "finalize_prd env c =
     replayM (fp_actor_id c) (fp_idempotency_key c) (finalize_hash env c)
       (bindM (owned_snapshot (fp_task_id c) (fp_actor_id c)) (\<lambda>snap.
        let task = ss_task snap in
        thenM (checkM (task_version task = fp_expected_task_version c) stale_version)
        (bindM (liftM (check_final c snap)) (\<lambda>document.
         bindM (idM env ''run'') (\<lambda>rid.
         bindM (nowM env) (\<lambda>started.
         bindM (nowM env) (\<lambda>ended.
         let run = make_run rid (task_id task) (thread_id (ss_run snap)) RS_SUCCEEDED (finalize_hash env c)
                     (fp_idempotency_key c) started (Some ended) None in
         bindM (nowM env) (\<lambda>confirmed_at.
         let document = document\<lparr>document_status := DS_CONFIRMED, document_confirmed_by := Some (fp_actor_id c),
                          document_confirmed_at := Some confirmed_at\<rparr> in
         bindM (moveM env task TS_COMPLETED (fp_expected_task_version c)) (\<lambda>task.
         bindM (touchM env task) (\<lambda>task.
         thenM (save_runM run)
         (thenM (repoM (save_document document))
         (thenM (repoM (save_task task))
         (bindM (new_record env (fp_actor_id c) (fp_idempotency_key c) (finalize_hash env c) (task_id task) rid) (\<lambda>rec.
         thenM (repoM (save_idempotency rec))
         (thenM (eventM env (task_id task) ''PrdFinalized'' (DocumentPayload (document_id document)))
         (thenM (checkpointM task run ''COMPLETED'')
         (readR (\<lambda>r. snapshot r (task_id task)))))))))))))))))))"

section \<open>The service\<close>

datatype Command =
    CmdStart StartTask
  | CmdReply ReplyToTask
  | CmdConfirmOutline ConfirmOutline
  | CmdConfirmUnit ConfirmUnit
  | CmdApprove ApproveRevisionPlan
  | CmdReopen ReopenPrd
  | CmdFinalize FinalizePrd

fun perform :: "Env \<Rightarrow> Command \<Rightarrow> WorkflowSnapshot wf" where
  "perform env (CmdStart c) = start_task env c"
| "perform env (CmdReply c) = reply_to_task env c"
| "perform env (CmdConfirmOutline c) = confirm_outline env c"
| "perform env (CmdConfirmUnit c) = confirm_unit env c"
| "perform env (CmdApprove c) = approve_revision_plan env c"
| "perform env (CmdReopen c) = reopen_prd env c"
| "perform env (CmdFinalize c) = finalize_prd env c"

definition perform_step :: "Env \<Rightarrow> Command \<Rightarrow> World \<Rightarrow> World" where
  "perform_step env c w = snd (perform env c w)"

definition empty_world :: World where
  "empty_world = \<lparr>w_repo = empty_repo, w_ticks = 0, w_uuids = 0, w_calls = 0, w_investigations = 0\<rparr>"

end
