(* ===== verification/Py_Logic.thy ===== *)
theory Py_Logic
  imports Py_Prelude
begin

text \<open>
  A calculus for stateful code. The weakest precondition \<open>wp\<close> executes a computation
  symbolically, one rule for each construct. A history is a reflexive and transitive relation
  between the states before and after: a computation keeps it if all its primitive steps do,
  whatever they compute.
\<close>

named_theorems wp_rules

section \<open>Weakest preconditions\<close>

definition wp :: "('s, 'e, 'a) sem \<Rightarrow> ('a \<Rightarrow> 's \<Rightarrow> bool) \<Rightarrow> ('e \<Rightarrow> 's \<Rightarrow> bool) \<Rightarrow> 's \<Rightarrow> bool" where
  "wp m Q E s = (case m s of (Inl e, s') \<Rightarrow> E e s' | (Inr x, s') \<Rightarrow> Q x s')"

lemma wp_return [wp_rules]: "wp (returnM x) Q E = Q x"
  by (simp add: fun_eq_iff wp_def returnM_def)

lemma wp_raise [wp_rules]: "wp (raiseM e) Q E = E e"
  by (simp add: fun_eq_iff wp_def raiseM_def)

lemma wp_bind [wp_rules]: "wp (bindM m f) Q E = wp m (\<lambda>x. wp (f x) Q E) E"
  by (simp add: fun_eq_iff wp_def bindM_def split: prod.splits sum.splits)

lemma wp_then [wp_rules]: "wp (thenM m n) Q E = wp m (\<lambda>_. wp n Q E) E"
  by (simp add: thenM_def wp_bind)

lemma wp_catch [wp_rules]: "wp (catchM m h) Q E = wp m Q (\<lambda>e. wp (h e) Q E)"
  by (simp add: fun_eq_iff wp_def catchM_def split: prod.splits sum.splits)

lemma wp_check [wp_rules]: "wp (checkM b e) Q E s = (if b then Q () s else E e s)"
  by (simp add: checkM_def wp_return wp_raise)

lemma wp_lift [wp_rules]: "wp (liftM r) Q E s = (case r of Inl e \<Rightarrow> E e s | Inr x \<Rightarrow> Q x s)"
  by (simp add: wp_def liftM_def split: sum.splits)

lemma wp_Let [wp_rules]: "wp (Let v f) Q E = wp (f v) Q E"
  by simp

lemma wp_If [wp_rules]: "wp (if b then m else n) Q E = (if b then wp m Q E else wp n Q E)"
  by simp

lemma wp_mono:
  assumes "wp m Q' E' s" "\<And>x t. Q' x t \<Longrightarrow> Q x t" "\<And>e t. E' e t \<Longrightarrow> E e t"
  shows "wp m Q E s"
  using assms by (auto simp: wp_def split: prod.splits sum.splits)

lemma wp_conj:
  assumes "wp m Q E s" "wp m Q' E' s"
  shows "wp m (\<lambda>x t. Q x t \<and> Q' x t) (\<lambda>e t. E e t \<and> E' e t) s"
  using assms by (auto simp: wp_def split: prod.splits sum.splits)

lemma wp_result: "wp m (\<lambda>x t. m s = (Inr x, t)) (\<lambda>e t. m s = (Inl e, t)) s"
  by (simp add: wp_def split: prod.splits sum.splits)

lemma wp_Inr: "wp m Q E s \<Longrightarrow> m s = (Inr x, t) \<Longrightarrow> Q x t"
  by (simp add: wp_def)

lemma wp_Inl: "wp m Q E s \<Longrightarrow> m s = (Inl e, t) \<Longrightarrow> E e t"
  by (simp add: wp_def)

lemma wp_snd: "wp m (\<lambda>_. P) (\<lambda>_. P) s \<longleftrightarrow> P (snd (m s))"
  by (simp add: wp_def split: prod.splits sum.splits)

section \<open>Histories\<close>

definition keeps :: "('s \<Rightarrow> 's \<Rightarrow> bool) \<Rightarrow> ('s, 'e, 'a) sem \<Rightarrow> bool" where
  "keeps R m \<longleftrightarrow> (\<forall>s. R s (snd (m s)))"

lemma keepsD: "keeps R m \<Longrightarrow> m s = (r, t) \<Longrightarrow> R s t"
  by (metis keeps_def snd_conv)

lemma keeps_wp:
  assumes "keeps R m" "\<And>x t. R s t \<Longrightarrow> Q x t" "\<And>e t. R s t \<Longrightarrow> E e t"
  shows "wp m Q E s"
  using assms by (auto simp: keeps_def wp_def split: prod.splits sum.splits) (metis snd_conv)+

locale history =
  fixes R :: "'s \<Rightarrow> 's \<Rightarrow> bool"
  assumes hist_refl: "R s s"
    and hist_trans: "R s t \<Longrightarrow> R t u \<Longrightarrow> R s u"
begin

lemma keeps_return: "keeps R (returnM x)"
  by (simp add: keeps_def returnM_def hist_refl)

lemma keeps_raise: "keeps R (raiseM e)"
  by (simp add: keeps_def raiseM_def hist_refl)

lemma keeps_bind:
  assumes "keeps R m" "\<And>x. keeps R (f x)"
  shows "keeps R (bindM m f)"
proof -
  have "R s (snd (bindM m f s))" for s
  proof (cases "m s")
    case (Pair r t)
    with assms(1) have t: "R s t" by (rule keepsD)
    show ?thesis
    proof (cases r)
      case (Inr x)
      have "R t (snd (f x t))" using assms(2) [of x] by (simp add: keeps_def)
      with Pair Inr t show ?thesis by (simp add: bindM_def) (rule hist_trans)
    qed (use Pair t in \<open>simp add: bindM_def\<close>)
  qed
  then show ?thesis by (simp add: keeps_def)
qed

lemma keeps_then: "keeps R m \<Longrightarrow> keeps R n \<Longrightarrow> keeps R (thenM m n)"
  unfolding thenM_def by (rule keeps_bind)

lemma keeps_catch:
  assumes "keeps R m" "\<And>e. keeps R (h e)"
  shows "keeps R (catchM m h)"
proof -
  have "R s (snd (catchM m h s))" for s
  proof (cases "m s")
    case (Pair r t)
    with assms(1) have t: "R s t" by (rule keepsD)
    show ?thesis
    proof (cases r)
      case (Inl e)
      have "R t (snd (h e t))" using assms(2) [of e] by (simp add: keeps_def)
      with Pair Inl t show ?thesis by (simp add: catchM_def) (rule hist_trans)
    qed (use Pair t in \<open>simp add: catchM_def\<close>)
  qed
  then show ?thesis by (simp add: keeps_def)
qed

lemma keeps_check: "keeps R (checkM b e)"
  by (simp add: checkM_def keeps_return keeps_raise)

lemma keeps_lift: "keeps R (liftM r)"
  by (simp add: keeps_def liftM_def hist_refl)

lemma keeps_mapM: "(\<And>x. keeps R (f x)) \<Longrightarrow> keeps R (mapM f xs)"
  by (induction xs) (simp_all add: keeps_return keeps_bind)

lemma keeps_forM: "(\<And>x. x \<in> set xs \<Longrightarrow> keeps R (f x)) \<Longrightarrow> keeps R (forM xs f)"
  by (induction xs) (simp_all add: keeps_return keeps_then)

lemmas keeps_control = keeps_return keeps_raise keeps_bind keeps_then keeps_catch keeps_check keeps_lift keeps_mapM keeps_forM

end

end
