(* ===== verification/Workflow_Logic.thy ===== *)
theory Workflow_Logic
  imports Workflow_Service Py_Logic
begin

text \<open>
  The weakest preconditions of the primitives of the workflow: the clock, the identifiers, reads
  and writes of the repository, and the replay of a key.
\<close>

lemma wp_now [wp_rules]: "wp (nowM env) Q E w = Q (env_clock env (w_ticks w)) (w\<lparr>w_ticks := Suc (w_ticks w)\<rparr>)"
  by (simp add: wp_def nowM_def)

lemma wp_id [wp_rules]:
  "wp (idM env p) Q E w = Q (make_id env p (w_uuids w)) (w\<lparr>w_uuids := Suc (w_uuids w)\<rparr>)"
  by (simp add: wp_def idM_def)

lemma wp_repo [wp_rules]: "wp (repoM f) Q E w = Q () (w\<lparr>w_repo := f (w_repo w)\<rparr>)"
  by (simp add: wp_def repoM_def)

lemma wp_readR [wp_rules]: "wp (readR f) Q E w = (case f (w_repo w) of Inl e \<Rightarrow> E e w | Inr x \<Rightarrow> Q x w)"
  by (simp add: wp_def readR_def split: sum.splits)

lemma wp_save_run [wp_rules]:
  "wp (save_runM run) Q E w = (case save_run run (w_repo w) of Inl e \<Rightarrow> E e w | Inr r \<Rightarrow> Q () (w\<lparr>w_repo := r\<rparr>))"
  by (simp add: wp_def save_runM_def split: sum.splits)

lemma wp_event [wp_rules]:
  "wp (eventM env tid ty payload) Q E w =
     Q () (w\<lparr>w_uuids := Suc (w_uuids w), w_ticks := Suc (w_ticks w),
       w_repo := append_event (make_id env ''event'' (w_uuids w)) (env_clock env (w_ticks w)) tid ty payload (w_repo w)\<rparr>)"
  by (simp add: eventM_def wp_rules)

lemma wp_checkpoint [wp_rules]:
  "wp (checkpointM task run node) Q E w =
     Q () (w\<lparr>w_repo := save_checkpoint (thread_id run)
       \<lparr>cp_task_id = task_id task, cp_run_id = run_id run, cp_thread_id = thread_id run,
        cp_graph_version = graph_version run, cp_task_version = task_version task, cp_current_node = node\<rparr> (w_repo w)\<rparr>)"
  by (simp add: checkpointM_def wp_rules)

lemma wp_replay [wp_rules]:
  "wp (replayM actor key h body) Q E w =
     (case get_idempotency (w_repo w) actor key of
        Some rec \<Rightarrow>
          if idem_input_hash rec \<noteq> h
          then E (IdempotencyConflict ''idempotency key was already used with different input'') w
          else (case snapshot_for_owner (w_repo w) (idem_task_id rec) actor of Inl e \<Rightarrow> E e w | Inr s \<Rightarrow> Q s w)
      | None \<Rightarrow> wp body Q E w)"
  by (simp add: wp_def replayM_def split: option.splits sum.splits)

end
