(* ===== verification/Model_Output.thy ===== *)
theory Model_Output
  imports Workflow_Nodes "HOL-Library.Multiset"
begin

text \<open>
  What the validators of \<^verbatim>\<open>workflow/nodes.py\<close> guarantee of a model's answer, and how many calls
  a validated answer takes. The shape of an accepted outline is what the later steps of the
  workflow rely on.
\<close>

section \<open>Outlines\<close>

definition node_placed :: "NodeDraft list \<Rightarrow> nat \<Rightarrow> bool" where
  "node_placed ds i \<longleftrightarrow> 1 \<le> nd_level (ds ! i) \<and> nd_level (ds ! i) \<le> 3
     \<and> (case nd_parent_key (ds ! i) of
          Some (c # p) \<Rightarrow> (\<exists>j < i. nd_key (ds ! j) = c # p \<and> nd_level (ds ! i) = nd_level (ds ! j) + 1)
        | _ \<Rightarrow> nd_level (ds ! i) = 1)"

lemma validate_node_Inr:
  assumes "validate_node str_of index node levels = Inr d"
  shows "nd_key d \<noteq> []" "dict_get levels (nd_key d) = None" "1 \<le> nd_level d" "nd_level d \<le> 3"
    "case nd_parent_key d of Some (c # p) \<Rightarrow> dict_get levels (c # p) = Some (nd_level d - 1) | _ \<Rightarrow> nd_level d = 1"
proof -
  from assms obtain obj where "node = JObj obj" by (cases node) (simp_all add: validate_node_def)
  with assms obtain inferred where "nd_level d = inferred"
    "nd_key d \<noteq> []" "dict_get levels (nd_key d) = None" "1 \<le> inferred" "inferred \<le> 3"
    "(case nd_parent_key d of Some (c # p) \<Rightarrow> (case dict_get levels (c # p) of None \<Rightarrow> Inl (ModelOutputError ''outline parent must precede its child'')
        | Some l \<Rightarrow> Inr (l + 1)) | _ \<Rightarrow> Inr 1) = Inr inferred"
    by (auto simp: validate_node_def Let_def bindE_Inr split: if_splits)
  then show "nd_key d \<noteq> []" "dict_get levels (nd_key d) = None" "1 \<le> nd_level d" "nd_level d \<le> 3"
    "case nd_parent_key d of Some (c # p) \<Rightarrow> dict_get levels (c # p) = Some (nd_level d - 1) | _ \<Rightarrow> nd_level d = 1"
    by (auto split: option.splits list.splits)
qed

text \<open>The levels the loop has collected after a prefix are those of the prefix.\<close>

lemma validate_nodes_placed:
  assumes "validate_nodes str_of index nodes levels = Inr ds"
    and "distinct (map nd_key pre)"
    and "\<And>k l. dict_get levels k = Some l \<longleftrightarrow> (\<exists>d \<in> set pre. nd_key d = k \<and> nd_level d = l)"
  shows "distinct (map nd_key (pre @ ds))
    \<and> (\<forall>i. length pre \<le> i \<longrightarrow> i < length (pre @ ds) \<longrightarrow> node_placed (pre @ ds) i \<and> nd_key ((pre @ ds) ! i) \<noteq> [])"
  using assms
proof (induction str_of index nodes levels arbitrary: pre ds rule: validate_nodes.induct)
  case (2 str_of index node nodes levels)
  from "2.prems"(1) obtain d ds' where d: "validate_node str_of index node levels = Inr d"
    "validate_nodes str_of (Suc index) nodes (dict_set (nd_key d) (nd_level d) levels) = Inr ds'" "ds = d # ds'"
    by (auto simp: bindE_Inr)
  note v = validate_node_Inr [OF d(1)]
  have new: "nd_key x \<noteq> nd_key d" if "x \<in> set pre" for x
    using that v(2) "2.prems"(3) [of "nd_key d" "nd_level x"] by auto
  have lev: "dict_get (dict_set (nd_key d) (nd_level d) levels) k = Some l
      \<longleftrightarrow> (\<exists>x \<in> set (pre @ [d]). nd_key x = k \<and> nd_level x = l)" for k l
    using new "2.prems"(3) [of k l] by (cases "k = nd_key d") auto
  have IH: "distinct (map nd_key ((pre @ [d]) @ ds'))
    \<and> (\<forall>i. length (pre @ [d]) \<le> i \<longrightarrow> i < length ((pre @ [d]) @ ds') \<longrightarrow>
          node_placed ((pre @ [d]) @ ds') i \<and> nd_key (((pre @ [d]) @ ds') ! i) \<noteq> [])"
    by (rule "2.IH" [OF d(2) _ lev]) (use new "2.prems"(2) in \<open>fastforce\<close>)
  have here: "node_placed (pre @ ds) (length pre)"
  proof -
    have "\<exists>j < length pre. nd_key ((pre @ ds) ! j) = k \<and> nd_level d = nd_level ((pre @ ds) ! j) + 1"
      if "dict_get levels k = Some (nd_level d - 1)" for k
    proof -
      from that "2.prems"(3) obtain x where "x \<in> set pre" "nd_key x = k" "nd_level x = nd_level d - 1" by blast
      moreover from this(1) obtain j where "j < length pre" "pre ! j = x" by (auto simp: in_set_conv_nth)
      ultimately show ?thesis by (intro exI [of _ j]) (simp add: nth_append)
    qed
    with v(3-5) show ?thesis
      unfolding node_placed_def by (simp add: d(3) split: option.splits list.splits)
  qed
  show ?case
  proof (intro conjI allI impI)
    show "distinct (map nd_key (pre @ ds))" using IH d(3) by simp
    fix i assume i: "length pre \<le> i" "i < length (pre @ ds)"
    show "node_placed (pre @ ds) i"
      using IH here i d(3) by (cases "i = length pre") auto
    show "nd_key ((pre @ ds) ! i) \<noteq> []"
      using IH v(1) i d(3) by (cases "i = length pre") auto
  qed
qed simp

lemma validate_unit_Inr:
  assumes "validate_unit str_of index unit node_keys unit_keys = Inr d"
  shows "ud_key d \<noteq> []" "ud_key d \<notin> set unit_keys" "ud_title d \<noteq> []" "ud_node_keys d \<noteq> []"
    "set (ud_depends_on d) \<subseteq> set unit_keys" "set (ud_node_keys d) \<subseteq> set node_keys"
  using assms by (auto simp: validate_unit_def Let_def bindE_Inr split: json.splits if_splits option.splits)

lemma validate_units_ordered:
  assumes "validate_units str_of index units node_keys unit_keys = Inr ds" "distinct unit_keys"
  shows "length ds = length units \<and> distinct (unit_keys @ map ud_key ds)
    \<and> (\<forall>i < length ds. ud_title (ds ! i) \<noteq> [] \<and> ud_node_keys (ds ! i) \<noteq> [] \<and> set (ud_node_keys (ds ! i)) \<subseteq> set node_keys
          \<and> set (ud_depends_on (ds ! i)) \<subseteq> set (unit_keys @ map ud_key (take i ds)))"
  using assms
proof (induction str_of index units node_keys unit_keys arbitrary: ds rule: validate_units.induct)
  case (2 str_of index unit units node_keys unit_keys)
  from "2.prems"(1) obtain d ds' where d: "validate_unit str_of index unit node_keys unit_keys = Inr d"
    "validate_units str_of (Suc index) units node_keys (unit_keys @ [ud_key d]) = Inr ds'" "ds = d # ds'"
    by (auto simp: bindE_Inr)
  note v = validate_unit_Inr [OF d(1)]
  have "distinct (unit_keys @ [ud_key d])" using v(2) "2.prems"(2) by simp
  note IH = "2.IH" [OF d(2) this]
  have "ud_title (ds ! i) \<noteq> [] \<and> ud_node_keys (ds ! i) \<noteq> [] \<and> set (ud_node_keys (ds ! i)) \<subseteq> set node_keys
      \<and> set (ud_depends_on (ds ! i)) \<subseteq> set (unit_keys @ map ud_key (take i ds))" if "i < length ds" for i
    using that IH v by (cases i) (auto simp: d(3))
  with IH d(3) show ?case by auto
qed simp

lemma validate_outline_parts:
  assumes "validate_outline str_of v = Inr d"
  obtains nodes us where "validate_nodes str_of 1 nodes [] = Inr (od_nodes d)" "nodes \<noteq> []"
    "validate_units str_of 1 us (map nd_key (od_nodes d)) [] = Inr (od_units d)" "us \<noteq> []" "length us \<le> 15"
    "sort (concat (map ud_node_keys (od_units d))) = sort (map nd_key (od_nodes d))" "od_title d \<noteq> []"
proof -
  from assms obtain obj where v: "v = JObj obj" by (cases v) (simp_all add: validate_outline_def)
  from assms v obtain n ns where nodes: "obj_get obj ''nodes'' = Some (JList (n # ns))"
    by (auto simp: validate_outline_def Let_def simp del: validate_nodes.simps split: option.splits json.splits list.splits)
  from assms v nodes obtain us where "validate_nodes str_of 1 (n # ns) [] = Inr (od_nodes d)"
    "validate_units str_of 1 us (map nd_key (od_nodes d)) [] = Inr (od_units d)" "us \<noteq> []" "\<not> length us > 15"
    "sort (concat (map ud_node_keys (od_units d))) = sort (map nd_key (od_nodes d))" "od_title d \<noteq> []"
    by (auto simp: validate_outline_def Let_def bindE_Inr simp del: validate_nodes.simps split: if_splits)
  with that [of "n # ns" us] show thesis by simp
qed

lemma validate_outline_shape:
  assumes "validate_outline str_of v = Inr d"
  shows "od_title d \<noteq> []" "od_nodes d \<noteq> []" "distinct (map nd_key (od_nodes d))"
    "i < length (od_nodes d) \<Longrightarrow> node_placed (od_nodes d) i"
    "n \<in> set (od_nodes d) \<Longrightarrow> nd_key n \<noteq> []"
    "od_units d \<noteq> []" "length (od_units d) \<le> 15" "distinct (map ud_key (od_units d))"
    "mset (concat (map ud_node_keys (od_units d))) = mset (map nd_key (od_nodes d))"
    "j < length (od_units d) \<Longrightarrow> set (ud_depends_on (od_units d ! j)) \<subseteq> set (map ud_key (take j (od_units d)))"
proof -
  from assms obtain nodes us where p: "validate_nodes str_of 1 nodes [] = Inr (od_nodes d)" "nodes \<noteq> []"
    "validate_units str_of 1 us (map nd_key (od_nodes d)) [] = Inr (od_units d)" "us \<noteq> []" "length us \<le> 15"
    "sort (concat (map ud_node_keys (od_units d))) = sort (map nd_key (od_nodes d))" "od_title d \<noteq> []"
    by (rule validate_outline_parts)
  from validate_nodes_placed [OF p(1), of "[]"]
  have n: "distinct (map nd_key (od_nodes d)) \<and> (\<forall>i < length (od_nodes d). node_placed (od_nodes d) i \<and> nd_key (od_nodes d ! i) \<noteq> [])"
    by simp
  from validate_units_ordered [OF p(3)]
  have u: "length (od_units d) = length us" "distinct (map ud_key (od_units d))"
    "\<forall>i < length (od_units d). set (ud_depends_on (od_units d ! i)) \<subseteq> set (map ud_key (take i (od_units d)))" by simp_all
  show "od_title d \<noteq> []" by (rule p(7))
  show "od_nodes d \<noteq> []" using p(1,2) by (cases nodes) (auto simp: bindE_Inr)
  show "distinct (map nd_key (od_nodes d))" "i < length (od_nodes d) \<Longrightarrow> node_placed (od_nodes d) i"
    "n \<in> set (od_nodes d) \<Longrightarrow> nd_key n \<noteq> []" using n by (auto simp: in_set_conv_nth)
  show "od_units d \<noteq> []" "length (od_units d) \<le> 15" using u(1) p(4,5) by auto
  show "distinct (map ud_key (od_units d))" by (rule u(2))
  show "mset (concat (map ud_node_keys (od_units d))) = mset (map nd_key (od_nodes d))" using p(6) by (metis mset_sort)
  show "j < length (od_units d) \<Longrightarrow> set (ud_depends_on (od_units d ! j)) \<subseteq> set (map ud_key (take j (od_units d)))"
    using u(3) by blast
qed

definition sample_outline :: json where
  "sample_outline = JObj [(lit ''title'', JStr (lit ''PRD'')), (lit ''nodes'', JList
     [JObj [(lit ''key'', JStr (lit ''a'')), (lit ''title'', JStr (lit ''A'')), (lit ''purpose'', JStr (lit ''p'')), (lit ''complexity'', JStr (lit ''LOW''))],
      JObj [(lit ''key'', JStr (lit ''b'')), (lit ''parent_key'', JStr (lit ''a'')), (lit ''title'', JStr (lit ''B'')), (lit ''purpose'', JStr (lit ''p'')),
            (lit ''complexity'', JStr (lit ''LOW''))]])]"

text \<open>
  C37. An accepted outline is well formed. It has a title, a node and between one and fifteen
  units; node keys and unit keys do not repeat; the nodes form a forest of at most three levels in
  which a parent precedes its children and a child is one level below its parent; the units
  partition the nodes; and a unit depends only on units before it.
\<close>

theorem validate_outline_sound:
  assumes "validate_outline str_of v = Inr d"
  shows "od_title d \<noteq> [] \<and> od_nodes d \<noteq> [] \<and> od_units d \<noteq> [] \<and> length (od_units d) \<le> 15
    \<and> distinct (map nd_key (od_nodes d)) \<and> distinct (map ud_key (od_units d))
    \<and> (\<forall>i < length (od_nodes d). 1 \<le> nd_level (od_nodes d ! i) \<and> nd_level (od_nodes d ! i) \<le> 3
         \<and> (case nd_parent_key (od_nodes d ! i) of
              Some (c # p) \<Rightarrow> (\<exists>j < i. nd_key (od_nodes d ! j) = c # p \<and> nd_level (od_nodes d ! i) = nd_level (od_nodes d ! j) + 1)
            | _ \<Rightarrow> nd_level (od_nodes d ! i) = 1))
    \<and> mset (concat (map ud_node_keys (od_units d))) = mset (map nd_key (od_nodes d))
    \<and> (\<forall>j < length (od_units d). set (ud_depends_on (od_units d ! j)) \<subseteq> set (map ud_key (take j (od_units d))))"
  using validate_outline_shape [OF assms] by (simp add: node_placed_def)

theorem validate_outline_sound_witness:
  "\<exists>d. validate_outline (\<lambda>_. []) sample_outline = Inr d \<and> length (od_nodes d) = 2 \<and> length (od_units d) = 2
     \<and> distinct (map ud_key (od_units d)) \<and> set (ud_depends_on (od_units d ! 1)) \<subseteq> set (map ud_key (take 1 (od_units d)))"
proof -
  have "case validate_outline (\<lambda>_. []) sample_outline of Inl _ \<Rightarrow> False | Inr d \<Rightarrow> length (od_nodes d) = 2 \<and> length (od_units d) = 2"
    by code_simp
  then obtain d where d: "validate_outline (\<lambda>_. []) sample_outline = Inr d" "length (od_nodes d) = 2" "length (od_units d) = 2"
    by (auto split: sum.splits)
  with validate_outline_sound [OF d(1)] show ?thesis by auto
qed

section \<open>Calls\<close>

text \<open>
  A validated answer takes one call or two. The first call is not a repair; the second is made
  only when the first answer was ill-formed, and repeats the request as a repair. What is returned
  is the validated form of the last answer; a second ill-formed answer is a \<open>ModelOutputError\<close>;
  an error of the model itself is passed on at once.
\<close>

theorem invoke_validated_calls:
  "invoke_validated model request validator n =
     (case model n request False of
        Inl e \<Rightarrow> (Inl e, n + 1)
      | Inr first \<Rightarrow>
          (case validator first of
             Inr v \<Rightarrow> (Inr v, n + 1)
           | Inl e \<Rightarrow>
               if \<not> is_format_error e then (Inl e, n + 1)
               else (case bindE (model (n + 1) request True) validator of
                       Inr v \<Rightarrow> (Inr v, n + 2)
                     | Inl e' \<Rightarrow>
                         (if (\<exists>a. model (n + 1) request True = Inr a) \<and> is_format_error e'
                          then Inl (ModelOutputError ''invalid {operation} output after one repair: {first_error}'') else Inl e', n + 2))))"
  by (auto simp: invoke_validated_def split: sum.splits)

section \<open>Unit drafts\<close>

lemma join_str_Nil: "join_str sep (x # xs) = [] \<Longrightarrow> x = []"
  by (cases xs) auto

lemma validate_unit_draft_content:
  assumes "validate_unit_draft str_of v = Inr d"
  shows "uc_content d \<noteq> []"
proof -
  from assms obtain obj where v: "v = JObj obj" by (cases v) (simp_all add: validate_unit_draft_def)
  from assms v obtain raw where raw: "obj_get_or obj ''sections'' (JList []) = JList raw"
    by (auto simp: validate_unit_draft_def split: json.splits)
  from assms v raw obtain sections content where
    c: "(if sections \<noteq> [] then Inr (join_str nl2 (map section_markdown sections)) else validate_unit_content str_of obj) = Inr content"
    and rest: "(case obj_get_or obj ''claims'' (JList []) of
                 JList raw_claims \<Rightarrow>
                   (case mapE validate_claim raw_claims of
                      Inl e \<Rightarrow> Inl (ModelOutputError ''invalid confirmation unit claims: {exc}'')
                    | Inr claims \<Rightarrow> Inr \<lparr>uc_content = content, uc_claims = claims, uc_sections = sections\<rparr>)
               | _ \<Rightarrow> Inl (ModelOutputError ''confirmation unit claims must be an array'')) = Inr d"
    by (auto simp: validate_unit_draft_def bindE_Inr)
  from c have "content \<noteq> []"
    by (cases sections) (auto simp: validate_unit_content_def Let_def section_markdown_def dest!: join_str_Nil split: if_splits)
  moreover from rest have "uc_content d = content" by (auto split: json.splits sum.splits)
  ultimately show ?thesis by simp
qed

text \<open>
  C40. An accepted unit draft has content, and its sections cover the unit. For distinct expected
  nodes, either it has one section for every expected node and no other, or it has none and there
  is at most one node.
\<close>

theorem unit_draft_covers_nodes:
  assumes "validate_unit_draft_for_nodes str_of expected v = Inr d" and "distinct expected"
  shows "uc_content d \<noteq> []
    \<and> (if uc_sections d = [] then length expected \<le> 1 else mset (map sx_node_key (uc_sections d)) = mset expected)"
proof -
  from assms(1) have d: "validate_unit_draft str_of v = Inr d"
    by (auto simp: validate_unit_draft_for_nodes_def bindE_Inr Let_def split: if_splits)
  have "if uc_sections d = [] then length expected \<le> 1
      else distinct (map sx_node_key (uc_sections d)) \<and> set (map sx_node_key (uc_sections d)) = set expected"
    using assms(1) d by (auto simp: validate_unit_draft_for_nodes_def Let_def split: if_splits)
  with validate_unit_draft_content [OF d] assms(2) set_eq_iff_mset_eq_distinct [of "map sx_node_key (uc_sections d)" expected]
  show ?thesis by (simp split: if_splits)
qed

definition sample_draft :: json where
  "sample_draft = JObj [(lit ''sections'', JList [JObj [(lit ''node_key'', JStr (lit ''a'')), (lit ''title'', JStr (lit ''A'')),
     (lit ''content'', JStr (lit ''text''))]])]"

theorem unit_draft_covers_nodes_witness:
  "\<exists>d. validate_unit_draft_for_nodes (\<lambda>_. []) [lit ''a''] sample_draft = Inr d \<and> uc_content d \<noteq> []
     \<and> mset (map sx_node_key (uc_sections d)) = mset [lit ''a'']"
proof -
  have "case validate_unit_draft_for_nodes (\<lambda>_. []) [lit ''a''] sample_draft of Inl _ \<Rightarrow> False | Inr d \<Rightarrow> uc_sections d \<noteq> []"
    by code_simp
  then obtain d where d: "validate_unit_draft_for_nodes (\<lambda>_. []) [lit ''a''] sample_draft = Inr d" "uc_sections d \<noteq> []"
    by (auto split: sum.splits)
  with unit_draft_covers_nodes [OF d(1)] show ?thesis by auto
qed

section \<open>The latest sections\<close>

text \<open>The loop over the sections keeps, for each key, the first section with the greatest version.\<close>

lemma latest_sections_snoc: "latest_sections (ss @ [s]) = keep_latest (latest_sections ss) s"
  by (simp add: latest_sections_def)

lemma dict_wf_latest [simp]: "dict_wf (latest_sections ss)"
  by (induction ss rule: rev_induct)
    (simp_all add: latest_sections_snoc keep_latest_def latest_sections_def split: option.splits)

lemma latest_sections_spec:
  "case dict_get (latest_sections ss) k of
     None \<Rightarrow> filter (\<lambda>s. section_key s = k) ss = []
   | Some s \<Rightarrow> s \<in> set ss \<and> section_key s = k \<and> (\<forall>s' \<in> set ss. section_key s' = k \<longrightarrow> section_version s' \<le> section_version s)"
proof (induction ss rule: rev_induct)
  case Nil
  then show ?case by (simp add: latest_sections_def)
next
  case (snoc s ss)
  then show ?case
    by (auto simp: latest_sections_snoc keep_latest_def filter_empty_conv split: option.splits)
qed

lemma latest_sections_Some:
  "dict_get (latest_sections ss) k = Some s \<Longrightarrow>
     s \<in> set ss \<and> section_key s = k \<and> (\<forall>s' \<in> set ss. section_key s' = k \<longrightarrow> section_version s' \<le> section_version s)"
  using latest_sections_spec [where ss = ss and k = k] by simp

lemma latest_sections_exists: "s \<in> set ss \<Longrightarrow> \<exists>s'. dict_get (latest_sections ss) (section_key s) = Some s'"
  using latest_sections_spec [where ss = ss and k = "section_key s"] by (auto simp: filter_empty_conv split: option.splits)

lemma latest_sections_values:
  "s \<in> set (dict_values (latest_sections ss)) \<longleftrightarrow> dict_get (latest_sections ss) (section_key s) = Some s"
  using latest_sections_Some by (auto simp: set_dict_values)

lemma distinct_latest_keys: "distinct (map section_key (dict_values (latest_sections ss)))"
proof -
  have "map section_key (dict_values (latest_sections ss)) = map fst (latest_sections ss)"
    using latest_sections_Some by (fastforce simp: dict_values_def dict_get_iff)
  then show ?thesis using dict_wf_latest [of ss] by (simp add: dict_wf_def)
qed

definition usable_section :: "ConfirmationUnit \<Rightarrow> PrdSectionVersion \<Rightarrow> bool" where
  "usable_section u s \<longleftrightarrow> section_unit_id s \<in> set (depends_on_unit_ids u) \<and> section_status s = SS_CONFIRMED"

text \<open>
  A unit is generated from confirmed text of its dependencies only, and from the latest
  version of it. The context is made of sections that are confirmed and belong to a unit the
  generated one depends on; of each node it holds one section, none of a later version was left
  out; no node with such a section is missing; and no excerpt is longer than the limit.
\<close>

theorem confirmed_context_latest:
  "\<exists>ss. map (context_of_section limit) ss = build_confirmed_context u sections limit
     \<and> distinct (map section_key ss)
     \<and> list_all (\<lambda>s. s \<in> set sections \<and> usable_section u s
          \<and> list_all (\<lambda>s'. section_version s' \<le> section_version s)
              (filter (\<lambda>s'. usable_section u s' \<and> section_key s' = section_key s) sections)) ss
     \<and> section_key ` set ss = section_key ` {s \<in> set sections. usable_section u s}
     \<and> list_all (\<lambda>c. length (cc_content c) \<le> limit) (build_confirmed_context u sections limit)"
proof -
  let ?us = "filter (usable_section u) sections"
  let ?ss = "sort_key (\<lambda>s. (section_unit_id s, case section_node_id s of None \<Rightarrow> [] | Some n \<Rightarrow> n, section_version s))
         (dict_values (latest_sections ?us))"
  have set_ss: "s \<in> set ?ss \<longleftrightarrow> dict_get (latest_sections ?us) (section_key s) = Some s" for s
    by (simp add: latest_sections_values)
  have "distinct (map section_key ?ss)"
    using distinct_latest_keys [of ?us] by (simp add: distinct_map)
  moreover have "map (context_of_section limit) ?ss = build_confirmed_context u sections limit"
    by (simp add: build_confirmed_context_def usable_section_def [abs_def])
  moreover have "section_key ` set ?ss = section_key ` {s \<in> set sections. usable_section u s}"
  proof (intro set_eqI iffI)
    fix k assume "k \<in> section_key ` set ?ss"
    then obtain s where s: "s \<in> set ?ss" "k = section_key s" by (rule imageE)
    from s(1) have "dict_get (latest_sections ?us) (section_key s) = Some s" by (simp only: set_ss)
    from latest_sections_Some [OF this] have "s \<in> {s \<in> set sections. usable_section u s}" by simp
    then show "k \<in> section_key ` {s \<in> set sections. usable_section u s}" using s(2) by (rule rev_image_eqI)
  next
    fix k assume "k \<in> section_key ` {s \<in> set sections. usable_section u s}"
    then obtain s where "s \<in> set ?us" "section_key s = k" by auto
    with latest_sections_exists [of s ?us] obtain s' where "dict_get (latest_sections ?us) k = Some s'" by auto
    with latest_sections_Some [OF this] have "dict_get (latest_sections ?us) (section_key s') = Some s'" "k = section_key s'" by simp_all
    then show "k \<in> section_key ` set ?ss" by (simp only: set_ss [symmetric] image_eqI)
  qed
  moreover have "s \<in> set sections \<and> usable_section u s
      \<and> list_all (\<lambda>s'. section_version s' \<le> section_version s) (filter (\<lambda>s'. usable_section u s' \<and> section_key s' = section_key s) sections)"
    if "s \<in> set ?ss" for s
  proof -
    from that have "dict_get (latest_sections ?us) (section_key s) = Some s" by (simp only: set_ss)
    from latest_sections_Some [OF this] show ?thesis by (simp add: list_all_iff)
  qed
  moreover have "length (cc_content c) \<le> limit" if "c \<in> set (build_confirmed_context u sections limit)" for c
    using that by (auto simp: build_confirmed_context_def context_of_section_def)
  ultimately show ?thesis
    unfolding list_all_iff by (intro exI [of _ ?ss] conjI ballI) (assumption | blast)+
qed

end
