(* ===== verification/Outline_Building.thy ===== *)
theory Outline_Building
  imports Workflow_Logic Model_Output
begin

text \<open>
  \<open>_generate_outline\<close> turns an accepted draft into an outline with fresh identifiers. The outline
  has the shape of the draft: its units carry the numbers one, two, and so on, they partition the
  nodes, and a unit depends only on units before it.
\<close>

definition outline_wf :: "OutlineVersion \<Rightarrow> bool" where
  "outline_wf ol \<longleftrightarrow>
     (let us = confirmation_units ol in
      us \<noteq> [] \<and> length us \<le> 15 \<and> distinct (map unit_id us) \<and> map unit_sequence us = map int [1..<Suc (length us)]
      \<and> (\<forall>j < length us. set (depends_on_unit_ids (us ! j)) \<subseteq> set (map unit_id (take j us)))
      \<and> outline_nodes ol \<noteq> [] \<and> distinct (map node_id (outline_nodes ol))
      \<and> mset (concat (map node_ids us)) = mset (map node_id (outline_nodes ol)))"

lemma make_id_inj: "inj (env_uuid env) \<Longrightarrow> make_id env p m = make_id env p n \<longleftrightarrow> m = n"
  by (auto simp: make_id_def inj_def)

lemma distinct_make_ids: "inj (env_uuid env) \<Longrightarrow> distinct (map (make_id env p) [m..<n])"
  by (auto simp: distinct_map inj_on_def make_id_inj)

section \<open>Nodes\<close>

lemma make_node_id: "make_node env nid sequence d ids = Inr n \<Longrightarrow> node_id n = nid"
  by (auto simp: make_node_def bindE_Inr)

lemma wp_make_nodes:
  assumes "distinct (map nd_key ds)"
    and "\<And>nodes ids' w'. w_repo w' = w_repo w \<Longrightarrow> w_uuids w' = w_uuids w + length ds \<Longrightarrow> w_ticks w' = w_ticks w
      \<Longrightarrow> map node_id nodes = map (make_id env ''node'') [w_uuids w..<w_uuids w + length ds]
      \<Longrightarrow> (\<And>i. i < length ds \<Longrightarrow> dict_get ids' (nd_key (ds ! i)) = Some (node_id (nodes ! i)))
      \<Longrightarrow> (\<And>k. k \<notin> nd_key ` set ds \<Longrightarrow> dict_get ids' k = dict_get ids k) \<Longrightarrow> Q (nodes, ids') w'"
    and "\<And>e w'. w_repo w' = w_repo w \<Longrightarrow> w_uuids w \<le> w_uuids w' \<Longrightarrow> w_ticks w' = w_ticks w \<Longrightarrow> E e w'"
  shows "wp (make_nodes env sequence ds ids) Q E w"
  using assms
proof (induction env sequence ds ids arbitrary: Q w rule: make_nodes.induct)
  case (1 env sequence ids)
  show ?case using "1.prems"(2) [of w "[]" ids] by (simp add: wp_rules)
next
  case (2 env sequence d ds ids)
  let ?nid = "make_id env ''node'' (w_uuids w)"
  let ?w = "w\<lparr>w_uuids := Suc (w_uuids w)\<rparr>"
  let ?ids = "dict_set (nd_key d) ?nid ids"
  show ?case
  proof (cases "make_node env ?nid sequence d ?ids")
    case (Inl e)
    then show ?thesis using "2.prems"(3) [of ?w] by (simp add: wp_rules)
  next
    case (Inr node)
    have "wp (make_nodes env (Suc sequence) ds ?ids) (\<lambda>x. wp (case x of (nodes, ids'') \<Rightarrow> returnM (node # nodes, ids'')) Q E) E ?w"
    proof (rule "2.IH" [OF refl])
      show "distinct (map nd_key ds)" using "2.prems"(1) by simp
    next
      fix nodes :: "OutlineNode list" and ids' and w' :: World
      assume h: "w_repo w' = w_repo ?w" "w_uuids w' = w_uuids ?w + length ds" "w_ticks w' = w_ticks ?w"
        "map node_id nodes = map (make_id env ''node'') [w_uuids ?w..<w_uuids ?w + length ds]"
        "\<And>i. i < length ds \<Longrightarrow> dict_get ids' (nd_key (ds ! i)) = Some (node_id (nodes ! i))"
        "\<And>k. k \<notin> nd_key ` set ds \<Longrightarrow> dict_get ids' k = dict_get ?ids k"
      have id: "node_id node = ?nid" by (rule make_node_id [OF Inr])
      have "Q (node # nodes, ids') w'"
      proof (rule "2.prems"(2))
        show "map node_id (node # nodes) = map (make_id env ''node'') [w_uuids w..<w_uuids w + length (d # ds)]"
          using h(4) id by (simp add: upt_conv_Cons del: upt_Suc)
        show "dict_get ids' (nd_key ((d # ds) ! i)) = Some (node_id ((node # nodes) ! i))" if "i < length (d # ds)" for i
          using that h(5,6) "2.prems"(1) id by (cases i) auto
        show "dict_get ids' k = dict_get ids k" if "k \<notin> nd_key ` set (d # ds)" for k
          using that h(6) by auto
      qed (use h in simp_all)
      then show "wp (case (nodes, ids') of (nodes, ids'') \<Rightarrow> returnM (node # nodes, ids'')) Q E w'" by (simp add: wp_rules)
    next
      fix e and w' :: World
      assume "w_repo w' = w_repo ?w" "w_uuids ?w \<le> w_uuids w'" "w_ticks w' = w_ticks ?w"
      then show "E e w'" using "2.prems"(3) by simp
    qed
    then show ?thesis using Inr by (simp add: wp_rules)
  qed
qed

section \<open>Units\<close>

lemma wp_make_unit_ids:
  assumes "distinct (map ud_key ds)"
    and "\<And>ids' w'. w_repo w' = w_repo w \<Longrightarrow> w_uuids w' = w_uuids w + length ds \<Longrightarrow> w_ticks w' = w_ticks w
      \<Longrightarrow> (\<And>i. i < length ds \<Longrightarrow> dict_get ids' (ud_key (ds ! i)) = Some (make_id env ''unit'' (w_uuids w + i)))
      \<Longrightarrow> (\<And>k. k \<notin> ud_key ` set ds \<Longrightarrow> dict_get ids' k = dict_get ids k) \<Longrightarrow> Q ids' w'"
  shows "wp (make_unit_ids env ds ids) Q E w"
  using assms
proof (induction env ds ids arbitrary: w rule: make_unit_ids.induct)
  case (1 env ids)
  show ?case using "1.prems"(2) [of w ids] by (simp add: wp_rules)
next
  case (2 env d ds ids)
  let ?w = "w\<lparr>w_uuids := Suc (w_uuids w)\<rparr>"
  let ?ids = "dict_set (ud_key d) (make_id env ''unit'' (w_uuids w)) ids"
  have "wp (make_unit_ids env ds ?ids) Q E ?w"
  proof (rule "2.IH")
    show "distinct (map ud_key ds)" using "2.prems"(1) by simp
  next
    fix ids' and w' :: World
    assume h: "w_repo w' = w_repo ?w" "w_uuids w' = w_uuids ?w + length ds" "w_ticks w' = w_ticks ?w"
      "\<And>i. i < length ds \<Longrightarrow> dict_get ids' (ud_key (ds ! i)) = Some (make_id env ''unit'' (w_uuids ?w + i))"
      "\<And>k. k \<notin> ud_key ` set ds \<Longrightarrow> dict_get ids' k = dict_get ?ids k"
    show "Q ids' w'"
    proof (rule "2.prems"(2))
      show "dict_get ids' (ud_key ((d # ds) ! i)) = Some (make_id env ''unit'' (w_uuids w + i))" if "i < length (d # ds)" for i
        using that h(4,5) "2.prems"(1) by (cases i) auto
      show "dict_get ids' k = dict_get ids k" if "k \<notin> ud_key ` set (d # ds)" for k
        using that h(5) by auto
    qed (use h in simp_all)
  qed
  then show ?case by (simp add: wp_rules)
qed

lemma lookup_key_Inr: "lookup_key ids k = Inr i \<longleftrightarrow> dict_get ids k = Some i"
  by (auto simp: lookup_key_def split: option.splits)

lemma mapE_lookup: "mapE (lookup_key ids) ks = Inr is \<longleftrightarrow> map (dict_get ids) ks = map Some is"
  by (auto simp: mapE_Inr lookup_key_Inr list_all2_conv_all_nth list_eq_iff_nth_eq)

lemma make_unit_Inr:
  assumes "make_unit oid i d nids uids = Inr u"
  shows "dict_get uids (ud_key d) = Some (unit_id u) \<and> unit_sequence u = int i
      \<and> map (dict_get nids) (ud_node_keys d) = map Some (node_ids u)
      \<and> map (dict_get uids) (ud_depends_on d) = map Some (depends_on_unit_ids u) \<and> unit_status u = US_PENDING"
  using assms by (auto simp: make_unit_def bindE_Inr mapE_lookup lookup_key_Inr)

lemma make_units_Inr:
  assumes "make_units oid ds nids uids = Inr us"
  shows "length us = length ds"
    and "\<And>i. i < length ds \<Longrightarrow> dict_get uids (ud_key (ds ! i)) = Some (unit_id (us ! i)) \<and> unit_sequence (us ! i) = int (Suc i)
      \<and> map (dict_get nids) (ud_node_keys (ds ! i)) = map Some (node_ids (us ! i))
      \<and> map (dict_get uids) (ud_depends_on (ds ! i)) = map Some (depends_on_unit_ids (us ! i))
      \<and> unit_status (us ! i) = US_PENDING"
proof -
  from assms have all: "list_all2 (\<lambda>(i, d) u. make_unit oid i d nids uids = Inr u) (enumerate 1 ds) us"
    unfolding make_units_def mapE_Inr by (simp add: case_prod_beta')
  then show len: "length us = length ds" by (auto dest: list_all2_lengthD)
  fix i assume i: "i < length ds"
  with all len have "make_unit oid (Suc i) (ds ! i) nids uids = Inr (us ! i)"
    by (auto simp: list_all2_conv_all_nth nth_enumerate_eq)
  from make_unit_Inr [OF this]
  show "dict_get uids (ud_key (ds ! i)) = Some (unit_id (us ! i)) \<and> unit_sequence (us ! i) = int (Suc i)
      \<and> map (dict_get nids) (ud_node_keys (ds ! i)) = map Some (node_ids (us ! i))
      \<and> map (dict_get uids) (ud_depends_on (ds ! i)) = map Some (depends_on_unit_ids (us ! i))
      \<and> unit_status (us ! i) = US_PENDING" .
qed

text \<open>The identifiers follow the keys, so the outline inherits the shape of the draft.\<close>

lemma built_outline_wf:
  assumes draft: "validate_outline str_of v = Inr draft" and inj: "inj (env_uuid env)"
    and units: "make_units oid (od_units draft) nids uids = Inr us"
    and nodes: "map node_id ns = map (make_id env ''node'') [m..<m + length (od_nodes draft)]"
    and nids: "\<And>i. i < length (od_nodes draft) \<Longrightarrow> dict_get nids (nd_key (od_nodes draft ! i)) = Some (node_id (ns ! i))"
    and uids: "\<And>i. i < length (od_units draft) \<Longrightarrow> dict_get uids (ud_key (od_units draft ! i)) = Some (make_id env ''unit'' (n + i))"
    and ol: "confirmation_units ol = us" "outline_nodes ol = ns"
  shows "outline_wf ol"
proof -
  let ?ds = "od_units draft"
  note shape = validate_outline_shape [OF draft]
  note u = make_units_Inr [OF units]
  have uid: "unit_id (us ! i) = make_id env ''unit'' (n + i)" if "i < length ?ds" for i
    using u(2) [OF that] uids [OF that] by simp
  have ids: "map unit_id us = map (make_id env ''unit'') [n..<n + length ?ds]"
    by (rule nth_equalityI) (simp_all add: u(1) uid)
  have len: "length ns = length (od_nodes draft)" using arg_cong [OF nodes, of length] by simp
  have keys: "map (dict_get nids) (map nd_key (od_nodes draft)) = map Some (map node_id ns)"
    by (rule nth_equalityI) (simp_all add: len nids)
  have seq: "map unit_sequence us = map int [1..<Suc (length us)]"
    by (rule nth_equalityI) (simp_all add: u del: upt_Suc)
  have deps: "set (depends_on_unit_ids (us ! j)) \<subseteq> set (map unit_id (take j us))" if j: "j < length us" for j
  proof
    fix x assume "x \<in> set (depends_on_unit_ids (us ! j))"
    then have "Some x \<in> set (map (dict_get uids) (ud_depends_on (?ds ! j)))" using u j by auto
    then obtain k where k: "k \<in> set (ud_depends_on (?ds ! j))" "dict_get uids k = Some x" by auto
    from shape(10) [of j] j u(1) k(1) have "k \<in> set (map ud_key (take j ?ds))" by auto
    then obtain i where i: "i < j" "k = ud_key (?ds ! i)" using j u(1) by (auto simp: in_set_conv_nth)
    with k(2) uids [of i] j u(1) have "x = unit_id (us ! i)" by (simp add: uid)
    moreover have "us ! i \<in> set (take j us)" using i(1) j by (auto simp: in_set_conv_nth intro!: exI [of _ i])
    ultimately show "x \<in> set (map unit_id (take j us))" by simp
  qed
  have "map (dict_get nids) (concat (map ud_node_keys ?ds)) = map Some (concat (map node_ids us))"
  proof -
    have "map (map (dict_get nids) \<circ> ud_node_keys) ?ds = map (map Some \<circ> node_ids) us"
      by (rule nth_equalityI) (simp_all add: u)
    then show ?thesis by (simp add: map_concat)
  qed
  then have "image_mset Some (mset (concat (map node_ids us))) = image_mset (dict_get nids) (mset (concat (map ud_node_keys ?ds)))"
    by (metis mset_map)
  also have "\<dots> = image_mset Some (mset (map node_id ns))"
    unfolding shape(9) mset_map [symmetric] keys ..
  finally have "mset (concat (map node_ids us)) = mset (map node_id ns)"
    by (rule multiset.inj_map_strong [rotated]) simp
  with ids seq deps shape(2,6,7) u(1) len nodes ol distinct_make_ids [OF inj] show ?thesis
    by (auto simp: outline_wf_def Let_def)
qed

end
