(* ===== verification/Workflow_History.thy ===== *)
theory Workflow_History
  imports Workflow_Logic
begin

text \<open>
  What holds between the worlds before and after any command because it holds of every primitive
  step: the readings of the clock and the identifiers drawn only grow, and the events of a task
  stay numbered from one.
\<close>

text \<open>What a command answers for: the actor, the key and the hash it stores with its record.\<close>

fun command_actor :: "Command \<Rightarrow> pystr" where
  "command_actor (CmdStart c) = st_actor_id c"
| "command_actor (CmdReply c) = rt_actor_id c"
| "command_actor (CmdConfirmOutline c) = co_actor_id c"
| "command_actor (CmdConfirmUnit c) = cu_actor_id c"
| "command_actor (CmdApprove c) = ar_actor_id c"
| "command_actor (CmdReopen c) = rp_actor_id c"
| "command_actor (CmdFinalize c) = fp_actor_id c"

fun command_key :: "Command \<Rightarrow> pystr" where
  "command_key (CmdStart c) = st_idempotency_key c"
| "command_key (CmdReply c) = rt_idempotency_key c"
| "command_key (CmdConfirmOutline c) = co_idempotency_key c"
| "command_key (CmdConfirmUnit c) = cu_idempotency_key c"
| "command_key (CmdApprove c) = ar_idempotency_key c"
| "command_key (CmdReopen c) = rp_idempotency_key c"
| "command_key (CmdFinalize c) = fp_idempotency_key c"

fun command_hash :: "Env \<Rightarrow> Command \<Rightarrow> pystr" where
  "command_hash env (CmdStart c) = start_hash env c"
| "command_hash env (CmdReply c) = reply_hash env c"
| "command_hash env (CmdConfirmOutline c) = confirm_outline_hash env c"
| "command_hash env (CmdConfirmUnit c) = confirm_unit_hash env c"
| "command_hash env (CmdApprove c) = approve_hash env c"
| "command_hash env (CmdReopen c) = reopen_hash env c"
| "command_hash env (CmdFinalize c) = finalize_hash env c"

definition issued :: "Env \<Rightarrow> Command \<Rightarrow> IdempotencyRecord \<Rightarrow> bool" where
  "issued env c rec \<longleftrightarrow> idem_actor_id rec = command_actor c \<and> idem_key rec = command_key c \<and> idem_input_hash rec = command_hash env c"

inductive repo_write :: "(IdempotencyRecord \<Rightarrow> bool) \<Rightarrow> (Repo \<Rightarrow> Repo) \<Rightarrow> bool" for P where
  "repo_write P (save_task t)"
| "repo_write P (save_outline ol)"
| "repo_write P (\<lambda>r. r\<lparr>rp_runs := dict_set (run_id run) run (rp_runs r)\<rparr>)"
| "repo_write P (append_event eid now tid ty payload)"
| "repo_write P (save_checkpoint thread c)"
| "repo_write P (save_grounding_result tid g)"
| "repo_write P (save_section tid s)"
| "repo_write P (save_document d)"
| "repo_write P (save_message m)"
| "repo_write P (save_brief b)"
| "repo_write P (save_quality_result tid q)"
| "P rec \<Longrightarrow> repo_write P (save_idempotency rec)"
| "P rec \<Longrightarrow> repo_write P (create_task_bundle task msg b run rec)"

locale world_history =
  fixes R :: "World \<Rightarrow> World \<Rightarrow> bool" and P :: "IdempotencyRecord \<Rightarrow> bool"
  assumes world_refl: "R w w"
    and world_trans: "R w w' \<Longrightarrow> R w' w'' \<Longrightarrow> R w w''"
    and step_tick: "R w (w\<lparr>w_ticks := Suc (w_ticks w)\<rparr>)"
    and step_uuid: "R w (w\<lparr>w_uuids := Suc (w_uuids w)\<rparr>)"
    and step_call: "R w (w\<lparr>w_calls := n\<rparr>)"
    and step_investigation: "R w (w\<lparr>w_investigations := n\<rparr>)"
    and step_write: "repo_write P f \<Longrightarrow> R w (w\<lparr>w_repo := f (w_repo w)\<rparr>)"
begin

sublocale hw: history R
  by unfold_locales (blast intro: world_refl world_trans)+

sublocale hg: history "\<lambda>s s'. R (fst s) (fst s')"
  by unfold_locales (blast intro: world_refl world_trans)+

lemma keeps_now: "keeps R (nowM env)"
  by (simp add: keeps_def nowM_def step_tick)

lemma keeps_id: "keeps R (idM env p)"
  by (simp add: keeps_def idM_def step_uuid)

lemma keeps_repo: "repo_write P f \<Longrightarrow> keeps R (repoM f)"
  by (simp add: keeps_def repoM_def step_write)

lemma keeps_read: "keeps R (readR f)"
  by (simp add: keeps_def readR_def world_refl)

lemma keeps_save_run: "keeps R (save_runM run)"
  using step_write [OF repo_write.intros(3)]
  by (auto simp: keeps_def save_runM_def save_run_def world_refl split: sum.splits if_splits)

lemma keeps_call: "keeps R (callM env request validator)"
  by (simp add: keeps_def callM_def step_call split: prod.splits)

lemma keeps_extract: "keeps R (extractM env message previous)"
  by (simp add: keeps_def extractM_def step_call split: prod.splits)

lemma keeps_replay: "keeps R body \<Longrightarrow> keeps R (replayM actor key h body)"
  by (simp add: keeps_def replayM_def world_refl split: option.splits)

lemma keeps_onW: "keeps R m \<Longrightarrow> keeps (\<lambda>s s'. R (fst s) (fst s')) (onW m)"
  by (simp add: keeps_def onW_def split: prod.splits) (metis snd_conv)

lemma keeps_getG: "keeps (\<lambda>s s'. R (fst s) (fst s')) (getG f)"
  by (simp add: keeps_def getG_def world_refl)

lemma keeps_setG: "keeps (\<lambda>s s'. R (fst s) (fst s')) (setG f)"
  by (simp add: keeps_def setG_def world_refl)

lemma keeps_investigate: "keeps (\<lambda>s s'. R (fst s) (fst s')) (investigateM env b)"
  by (simp add: keeps_def investigateM_def Let_def world_refl step_investigation split: option.splits)

lemmas keeps_world = hw.keeps_control keeps_now keeps_id keeps_repo keeps_read keeps_save_run keeps_call keeps_extract keeps_replay repo_write.intros

lemmas keeps_gen = hg.keeps_control keeps_onW keeps_getG keeps_setG keeps_investigate

lemma keeps_event: "keeps R (eventM env tid ty payload)"
  unfolding eventM_def by (intro keeps_world)

lemma keeps_checkpoint: "keeps R (checkpointM task run node)"
  unfolding checkpointM_def by (intro keeps_world)

lemma keeps_move: "keeps R (moveM env t target expected)"
  unfolding moveM_def by (intro keeps_world)

lemma keeps_touch: "keeps R (touchM env t)"
  unfolding touchM_def by (intro keeps_world)

lemma keeps_new_task: "keeps R (new_task env tid title owner)"
  unfolding new_task_def by (intro keeps_world)

lemma keeps_new_message: "keeps R (new_message env tid actor content)"
  unfolding new_message_def by (intro keeps_world)

lemma keeps_new_brief: "keeps R (new_brief env tid version b confirmed)"
  unfolding new_brief_def by (intro keeps_world)

lemma keeps_new_record: "keeps R (new_record env actor key h tid rid)"
  unfolding new_record_def by (intro keeps_world)

lemmas keeps_steps = keeps_event keeps_checkpoint keeps_move keeps_touch keeps_new_task keeps_new_message keeps_new_brief keeps_new_record

lemma keeps_make_nodes: "keeps R (make_nodes env sequence ds ids)"
proof (induction env sequence ds ids rule: make_nodes.induct)
  case (2 env sequence d ds ids)
  show ?case by (simp add: Let_def) (intro keeps_world 2 | simp split: prod.split add: hw.keeps_return)+
qed (simp add: keeps_world)

lemma keeps_make_unit_ids: "keeps R (make_unit_ids env ds ids)"
  by (induction env ds ids rule: make_unit_ids.induct) (simp_all add: keeps_world)

lemma keeps_build_outline: "keeps R (build_outline env task draft)"
  unfolding build_outline_def Let_def
  by (intro keeps_world) (auto intro!: keeps_world keeps_make_nodes keeps_make_unit_ids)

lemma keeps_generate_outline: "keeps R (generate_outline env task run b)"
  unfolding generate_outline_def Let_def by (intro keeps_world keeps_steps keeps_build_outline)

lemma keeps_fail_unit: "keeps (\<lambda>s s'. R (fst s) (fst s')) (fail_unit env exc)"
  unfolding fail_unit_def put_unitG_def by (intro keeps_gen keeps_world keeps_steps)

lemma keeps_gate_unit: "keeps (\<lambda>s s'. R (fst s) (fst s')) (gate_unit env context content claims)"
  unfolding gate_unit_def put_unitG_def save_genG_def
  by (auto split: option.split intro!: keeps_gen keeps_world keeps_steps)

lemma keeps_generate_unit_inner: "keeps (\<lambda>s s'. R (fst s) (fst s')) (generate_unit_inner env b)"
  unfolding generate_unit_inner_def draft_unit_def accept_draft_def offer_unit_def put_unitG_def save_genG_def Let_def
  by (auto intro!: keeps_gen keeps_world keeps_steps keeps_fail_unit keeps_gate_unit)

lemma keeps_generate_unit: "keeps R (generate_unit env task run outline u b)"
proof -
  have "keeps (\<lambda>s s'. R (fst s) (fst s')) (catchM (generate_unit_inner env b) (record_failure env))"
    unfolding record_failure_def by (auto intro!: keeps_gen keeps_generate_unit_inner keeps_fail_unit)
  then show ?thesis
    by (auto simp: keeps_def generate_unit_def split: prod.splits) (metis fst_conv snd_conv)
qed

lemma keeps_await: "keeps R (await_clarification env task run b)"
  unfolding await_clarification_def Let_def by (intro keeps_world keeps_steps)

lemma keeps_start_failed: "(\<And>rec. issued env (CmdStart c) rec \<Longrightarrow> P rec) \<Longrightarrow> keeps R (start_failed env c message tid rid thread now exc)"
  unfolding start_failed_def Let_def new_record_def bindM_assoc bindM_returnM
  by (intro keeps_world keeps_steps) (simp add: issued_def)

lemma keeps_start_extracted: "(\<And>rec. issued env (CmdStart c) rec \<Longrightarrow> P rec) \<Longrightarrow> keeps R (start_extracted env c message tid rid thread now b)"
  unfolding start_extracted_def Let_def new_record_def bindM_assoc bindM_returnM
  by (auto simp: issued_def intro!: keeps_world keeps_steps keeps_await keeps_generate_outline)

lemma keeps_start: "(\<And>rec. issued env (CmdStart c) rec \<Longrightarrow> P rec) \<Longrightarrow> keeps R (start_task env c)"
  unfolding start_task_def start_task_locked_def Let_def
  by (auto intro!: keeps_world keeps_start_failed keeps_start_extracted split: sum.split)

lemma keeps_close_run: "keeps R (close_run env run)"
  unfolding close_run_def by (intro keeps_world)

lemma keeps_open_run: "keeps R (open_run env tid thread h key)"
  unfolding open_run_def by (intro keeps_world)

lemma keeps_owned: "keeps R (owned_task tid actor)" "keeps R (owned_snapshot tid actor)"
  unfolding owned_task_def owned_snapshot_def by (auto intro!: keeps_world)

lemma keeps_snapshot_brief: "keeps R (snapshot_brief snap)"
  unfolding snapshot_brief_def by (auto intro!: keeps_world split: option.split)

lemma keeps_reply_supersede: "keeps R (reply_supersede env c task previous)"
  unfolding reply_supersede_def by (auto intro!: keeps_world keeps_steps split: option.split)

lemmas keeps_parts = keeps_close_run keeps_open_run keeps_owned keeps_snapshot_brief keeps_reply_supersede keeps_await
  keeps_generate_outline keeps_generate_unit

lemma keeps_reply: "(\<And>rec. issued env (CmdReply c) rec \<Longrightarrow> P rec) \<Longrightarrow> keeps R (reply_to_task env c)"
  unfolding reply_to_task_def reply_extracted_def Let_def new_record_def bindM_assoc bindM_returnM
  by (auto simp: issued_def intro!: keeps_world keeps_steps keeps_parts split: option.split)

lemma keeps_confirm_outline: "(\<And>rec. issued env (CmdConfirmOutline c) rec \<Longrightarrow> P rec) \<Longrightarrow> keeps R (confirm_outline env c)"
  unfolding confirm_outline_def Let_def new_record_def bindM_assoc bindM_returnM
  by (auto simp: issued_def intro!: keeps_world keeps_steps keeps_parts split: option.split bool.split)

lemma keeps_generate_next_unit: "keeps R (generate_next_unit env snap task run outline v)"
  unfolding generate_next_unit_def Let_def by (intro keeps_world keeps_steps keeps_parts)

lemma keeps_render_document: "keeps R (render_document env c snap task run outline new_sections)"
  unfolding render_document_def document_of_def check_qualityM_def Let_def
  by (auto intro!: keeps_world keeps_steps keeps_parts)

lemma keeps_new_section: "keeps R (new_section env actor run u sections d)"
  unfolding new_section_def by (intro keeps_world)

lemma keeps_confirm_unit: "(\<And>rec. issued env (CmdConfirmUnit c) rec \<Longrightarrow> P rec) \<Longrightarrow> keeps R (confirm_unit env c)"
  unfolding confirm_unit_def Let_def new_record_def bindM_assoc bindM_returnM
  by (auto simp: issued_def intro!: keeps_world keeps_steps keeps_parts keeps_new_section keeps_generate_next_unit keeps_render_document
      split: option.split bool.split list.split)

lemma keeps_regenerate:
  "(\<And>rec. idem_actor_id rec = actor \<Longrightarrow> idem_key rec = key \<Longrightarrow> idem_input_hash rec = h \<Longrightarrow> P rec) \<Longrightarrow> keeps R (regenerate env actor key h expected snap outline ids event payload)"
  unfolding regenerate_def Let_def new_record_def bindM_assoc bindM_returnM
  by (intro keeps_world keeps_steps keeps_parts) simp

lemma keeps_approve: "(\<And>rec. issued env (CmdApprove c) rec \<Longrightarrow> P rec) \<Longrightarrow> keeps R (approve_revision_plan env c)"
  unfolding approve_revision_plan_def
  by (auto simp: issued_def intro!: keeps_world keeps_steps keeps_parts keeps_regenerate split: option.split bool.split)

lemma keeps_reopen: "(\<And>rec. issued env (CmdReopen c) rec \<Longrightarrow> P rec) \<Longrightarrow> keeps R (reopen_prd env c)"
  unfolding reopen_prd_def Let_def
  by (auto simp: issued_def intro!: keeps_world keeps_steps keeps_parts keeps_regenerate split: option.split bool.split)

lemma keeps_finalize: "(\<And>rec. issued env (CmdFinalize c) rec \<Longrightarrow> P rec) \<Longrightarrow> keeps R (finalize_prd env c)"
  unfolding finalize_prd_def Let_def new_record_def bindM_assoc bindM_returnM
  by (intro keeps_world keeps_steps keeps_parts) (simp add: issued_def)

theorem keeps_perform: "(\<And>rec. issued env c rec \<Longrightarrow> P rec) \<Longrightarrow> keeps R (perform env c)"
  by (cases c) (simp_all add: keeps_start keeps_reply keeps_confirm_outline keeps_confirm_unit keeps_approve keeps_reopen keeps_finalize)

lemma keeps_step: "(\<And>rec. issued env c rec \<Longrightarrow> P rec) \<Longrightarrow> R w (perform_step env c w)"
  using keeps_perform [of env c] by (simp add: keeps_def perform_step_def)

lemma keeps_run_commands:
  assumes "\<And>rec. P rec"
  shows "R w (run_commands (perform_step env) cs w)"
proof (induction cs arbitrary: w)
  case (Cons c cs)
  show ?case using world_trans [OF keeps_step Cons.IH] assms by simp
qed (simp add: world_refl)

end

section \<open>Counters\<close>

interpretation counters: world_history "\<lambda>w w'. w_uuids w \<le> w_uuids w' \<and> w_ticks w \<le> w_ticks w'" "\<lambda>_. True"
  by unfold_locales auto

section \<open>Events\<close>

definition events_of :: "Repo \<Rightarrow> pystr \<Rightarrow> DomainEvent list" where
  "events_of r tid = dict_get_or (rp_events r) tid []"

definition numbered :: "DomainEvent list \<Rightarrow> bool" where
  "numbered es \<longleftrightarrow> map event_sequence es = [1..<Suc (length es)]"

lemma numbered_snoc: "numbered es \<Longrightarrow> event_sequence e = length es + 1 \<Longrightarrow> numbered (es @ [e])"
  by (simp add: numbered_def)

lemma numbered_Nil [simp]: "numbered []"
  by (simp add: numbered_def)

lemma write_numbered:
  assumes "repo_write P f" "\<forall>tid. numbered (events_of r tid)"
  shows "numbered (events_of (f r) tid)"
  using assms
  by (cases rule: repo_write.cases)
    (auto simp: events_of_def append_event_def save_event_def save_task_def save_outline_def save_checkpoint_def save_grounding_result_def
      save_section_def save_document_def save_message_def save_brief_def save_quality_result_def save_idempotency_def create_task_bundle_def
      numbered_snoc)

interpretation event_log: world_history
  "\<lambda>w w'. (\<forall>tid. numbered (events_of (w_repo w) tid)) \<longrightarrow> (\<forall>tid. numbered (events_of (w_repo w') tid))" "\<lambda>_. True"
  by unfold_locales (auto intro: write_numbered)

end
