(* ===== verification/Workflow_Effects.thy ===== *)
theory Workflow_Effects
  imports Outline_Building Workflow_History
begin

text \<open>
  What the blocks of the workflow write. Generating an outline or a unit changes the task, its
  outline and its run and nothing else that a later command reads; the lemmas here say exactly
  how, on the path that succeeds and on the path that fails.
\<close>

section \<open>Reading the repository\<close>

definition unwritten where
  "unwritten r = (rp_idempotency r, rp_briefs r, rp_sections r, rp_documents r, rp_messages r, rp_quality r)"

definition effect :: "Repo \<Rightarrow> Repo \<Rightarrow> (pystr, Task) dict \<Rightarrow> (pystr, AgentRun) dict \<Rightarrow> (pystr, OutlineVersion list) dict \<Rightarrow> bool" where
  "effect r r' ts rs os \<longleftrightarrow> rp_tasks r' = ts \<and> rp_runs r' = rs \<and> rp_outlines r' = os \<and> unwritten r' = unwritten r"

definition outlines_of :: "Repo \<Rightarrow> pystr \<Rightarrow> OutlineVersion list" where
  "outlines_of r tid = dict_get_or (rp_outlines r) tid []"

definition timed_runs :: "Repo \<Rightarrow> pystr \<Rightarrow> bool" where
  "timed_runs r tid \<longleftrightarrow> (\<forall>x \<in> set (task_runs r tid). run_time x \<noteq> None)"

definition lone_run :: "AgentRun \<Rightarrow> Repo \<Rightarrow> bool" where
  "lone_run run r \<longleftrightarrow> (\<forall>x \<in> set (dict_values (rp_runs r)).
     run_task_id x = run_task_id run \<and> run_status x \<in> ACTIVE_RUN_STATUSES \<longrightarrow> run_id x = run_id run)"

lemma save_run_lone: "lone_run run r \<Longrightarrow> save_run run r = Inr (r\<lparr>rp_runs := dict_set (run_id run) run (rp_runs r)\<rparr>)"
  by (auto simp: save_run_def lone_run_def find_None_iff)

lemma save_run_inactive:
  "run_status run \<notin> ACTIVE_RUN_STATUSES \<Longrightarrow> save_run run r = Inr (r\<lparr>rp_runs := dict_set (run_id run) run (rp_runs r)\<rparr>)"
  by (simp add: save_run_def)

lemma save_run_Inr: "save_run run r = Inr r' \<Longrightarrow> r' = r\<lparr>rp_runs := dict_set (run_id run) run (rp_runs r)\<rparr>"
  by (auto simp: save_run_def split: if_splits)

lemma latest_run_eq:
  assumes "task_runs r tid \<noteq> []" "timed_runs r tid"
  shows "latest_run r tid = Inr (last (sort_key (\<lambda>x. the (run_time x)) (task_runs r tid)))"
proof -
  have no: "\<not> (\<exists>x \<in> set (task_runs r tid). run_time x = None)"
    using assms(2) by (simp add: timed_runs_def)
  show ?thesis
  proof (cases "task_runs r tid")
    case (Cons a as)
    then show ?thesis
      using no by (cases as) (simp_all add: latest_run_def)
  qed (use assms(1) in simp)
qed

lemma latest_run_total:
  assumes "task_runs r tid \<noteq> []" "timed_runs r tid"
  shows "\<exists>run. latest_run r tid = Inr run \<and> run \<in> set (task_runs r tid)"
proof -
  have "last (sort_key (\<lambda>x. the (run_time x)) (task_runs r tid)) \<in> set (task_runs r tid)"
    using assms(1) by (metis last_in_set length_0_conv length_sort set_sort)
  with latest_run_eq [OF assms] show ?thesis by blast
qed

lemma snapshot_total:
  assumes "dict_get (rp_tasks r) tid = Some t" "task_runs r tid \<noteq> []" "timed_runs r tid"
  shows "\<exists>s. snapshot r tid = Inr s"
  using latest_run_total [OF assms(2,3)] assms(1) by (auto simp: snapshot_def get_task_def)

section \<open>Generating a unit\<close>

lemma wp_onW [wp_rules]: "wp (onW m) Q E s = wp m (\<lambda>x w. Q x (w, snd s)) (\<lambda>e w. E e (w, snd s)) (fst s)"
  by (simp add: wp_def onW_def split: prod.splits sum.splits)

lemma wp_getG [wp_rules]: "wp (getG f) Q E s = Q (f (snd s)) s"
  by (simp add: wp_def getG_def)

lemma wp_setG [wp_rules]: "wp (setG f) Q E s = Q () (fst s, f (snd s))"
  by (simp add: wp_def setG_def)

lemma wp_call [wp_rules]:
  "wp (callM env request validator) Q E w =
     (case invoke_validated (env_model env) request validator (w_calls w) of
        (Inl e, n) \<Rightarrow> E e (w\<lparr>w_calls := n\<rparr>) | (Inr x, n) \<Rightarrow> Q x (w\<lparr>w_calls := n\<rparr>))"
  by (simp add: wp_def callM_def split: prod.splits sum.splits)

lemma wp_extract [wp_rules]:
  "wp (extractM env message previous) Q E w =
     (case extract_requirement_brief (env_str_of env) (env_model env) message previous (w_calls w) of
        (Inl e, n) \<Rightarrow> E e (w\<lparr>w_calls := n\<rparr>) | (Inr x, n) \<Rightarrow> Q x (w\<lparr>w_calls := n\<rparr>))"
  by (simp add: wp_def extractM_def split: prod.splits sum.splits)

lemma wp_move [wp_rules]:
  "wp (moveM env t target expected) Q E w =
     (case transition (task_status t) target (task_version t) expected of
        Inl e \<Rightarrow> E e w | Inr st \<Rightarrow> Q (t\<lparr>task_status := st, task_version := task_version t + 1\<rparr>) w)"
  by (simp only: moveM_def wp_bind wp_lift wp_return)

lemma wp_touch [wp_rules]:
  "wp (touchM env t) Q E w = Q (t\<lparr>task_updated_at := env_clock env (w_ticks w)\<rparr>) (w\<lparr>w_ticks := Suc (w_ticks w)\<rparr>)"
  by (simp add: touchM_def wp_rules)

definition unit_kept :: "ConfirmationUnit \<Rightarrow> ConfirmationUnit \<Rightarrow> bool" where
  "unit_kept u u' \<longleftrightarrow> unit_id u' = unit_id u \<and> unit_sequence u' = unit_sequence u \<and> node_ids u' = node_ids u
     \<and> depends_on_unit_ids u' = depends_on_unit_ids u"

text \<open>A unit that waits for the user: with content to confirm, or because grounding blocked it.\<close>

definition awaiting :: "ConfirmationUnit \<Rightarrow> bool" where
  "awaiting u \<longleftrightarrow> unit_status u = US_HUMAN_INPUT_REQUIRED
     \<or> unit_status u = US_PENDING_CONFIRMATION \<and> unit_content u \<notin> {None, Some []}"

definition generated :: "AgentRun \<Rightarrow> OutlineVersion \<Rightarrow> ConfirmationUnit \<Rightarrow> Repo \<Rightarrow> Repo \<Rightarrow> bool" where
  "generated run outline u r r' \<longleftrightarrow>
     (\<exists>u'. unit_kept u u' \<and> awaiting u'
        \<and> effect r r' (rp_tasks r) (dict_set (run_id run) (run\<lparr>run_status := RS_WAITING_USER\<rparr>) (rp_runs r))
            (rp_outlines (save_outline (put_unit u' outline) r)))"

lemma generatedI:
  assumes "unit_kept u u'" "awaiting u'"
    and "rp_tasks r' = rp_tasks r" "rp_runs r' = dict_set (run_id run) (run\<lparr>run_status := RS_WAITING_USER\<rparr>) (rp_runs r)"
    and "rp_outlines r' = rp_outlines (save_outline (put_unit u' outline) r)" "unwritten r' = unwritten r"
  shows "generated run outline u r r'"
  using assms by (auto simp: generated_def effect_def)

definition generation_failed :: "Task \<Rightarrow> AgentRun \<Rightarrow> OutlineVersion \<Rightarrow> ConfirmationUnit \<Rightarrow> Repo \<Rightarrow> Repo \<Rightarrow> bool" where
  "generation_failed task run outline u r r' \<longleftrightarrow>
     (\<exists>u' now exc ended. unit_kept u u' \<and> unit_status u' = US_FAILED
        \<and> effect r r'
            (dict_set (task_id task) (task\<lparr>task_status := TS_FAILED, task_version := task_version task + 1, task_updated_at := now\<rparr>) (rp_tasks r))
            (dict_set (run_id run) (run\<lparr>run_status := RS_FAILED, run_error := Some exc, ended_at := Some ended\<rparr>) (rp_runs r))
            (rp_outlines (save_outline (put_unit u' outline) r)))"

lemma append_event_fields [simp]:
  "rp_tasks (append_event eid now tid ty p r) = rp_tasks r" "rp_runs (append_event eid now tid ty p r) = rp_runs r"
  "rp_outlines (append_event eid now tid ty p r) = rp_outlines r" "unwritten (append_event eid now tid ty p r) = unwritten r"
  by (simp_all add: append_event_def save_event_def unwritten_def)

lemma save_checkpoint_fields [simp]:
  "rp_tasks (save_checkpoint th c r) = rp_tasks r" "rp_runs (save_checkpoint th c r) = rp_runs r"
  "rp_outlines (save_checkpoint th c r) = rp_outlines r" "unwritten (save_checkpoint th c r) = unwritten r"
  by (simp_all add: save_checkpoint_def unwritten_def)

lemma save_task_fields [simp]:
  "rp_tasks (save_task t r) = dict_set (task_id t) t (rp_tasks r)" "rp_runs (save_task t r) = rp_runs r"
  "rp_outlines (save_task t r) = rp_outlines r" "unwritten (save_task t r) = unwritten r"
  by (simp_all add: save_task_def unwritten_def)

lemma save_outline_fields [simp]:
  "rp_tasks (save_outline ol r) = rp_tasks r" "rp_runs (save_outline ol r) = rp_runs r"
  "unwritten (save_outline ol r) = unwritten r"
  "rp_outlines (save_outline ol r) =
     dict_set (outline_task_id ol) (upsert outline_id ol (dict_get_or (rp_outlines r) (outline_task_id ol) [])) (rp_outlines r)"
  by (simp_all add: save_outline_def unwritten_def)

lemma save_grounding_fields [simp]:
  "rp_tasks (save_grounding_result tid g r) = rp_tasks r" "rp_runs (save_grounding_result tid g r) = rp_runs r"
  "rp_outlines (save_grounding_result tid g r) = rp_outlines r" "unwritten (save_grounding_result tid g r) = unwritten r"
  by (simp_all add: save_grounding_result_def unwritten_def)

lemma rp_runs_update_fields [simp]: "unwritten (r\<lparr>rp_runs := rs\<rparr>) = unwritten r"
  by (simp add: unwritten_def)

text \<open>The failure path, whichever handler takes it.\<close>

lemma wp_fail_unit:
  assumes "task_status (g_task g) = TS_GENERATING"
    and post: "\<And>w' g'. generation_failed (g_task g) (g_run g) (g_outline g) (g_unit g) (w_repo w) (w_repo w')
      \<Longrightarrow> run_status (g_run g') = RS_FAILED \<Longrightarrow> Q () (w', g')"
  shows "wp (fail_unit env exc) Q E (w, g)"
  using assms(1)
  by (auto simp: fail_unit_def put_unitG_def wp_rules transition_def save_run_inactive generation_failed_def effect_def unit_kept_def
      intro!: post exI [of _ "(g_unit g)\<lparr>unit_status := US_FAILED\<rparr>"]) blast+

lemma wp_investigate [wp_rules]:
  "wp (investigateM env b) Q E s =
     (case env_provider env of
        None \<Rightarrow> Q None s
      | Some provider \<Rightarrow>
          (case provider (w_investigations (fst s)) (g_task (snd s)) (g_run (snd s)) (g_outline (snd s)) (g_unit (snd s)) b of
             Inl e \<Rightarrow> E e ((fst s)\<lparr>w_investigations := Suc (w_investigations (fst s))\<rparr>, snd s)
           | Inr c \<Rightarrow> Q c ((fst s)\<lparr>w_investigations := Suc (w_investigations (fst s))\<rparr>, snd s)))"
  by (simp add: wp_def investigateM_def Let_def split: option.splits sum.splits)

lemma validated_content:
  assumes "invoke_validated model request (validate_unit_draft_for_nodes str_of expected) n = (Inr d, n')"
  shows "uc_content d \<noteq> []"
proof -
  from assms obtain v where "validate_unit_draft_for_nodes str_of expected v = Inr d"
    by (auto simp: invoke_validated_def split: sum.splits if_splits)
  then show ?thesis
    using validate_unit_draft_content [of str_of v d] by (auto simp: validate_unit_draft_for_nodes_def bindE_Inr Let_def split: if_splits)
qed

lemma wp_draft_unit:
  assumes "task_status (g_task g) = TS_GENERATING" "run_status (g_run g) = RS_RUNNING"
    and "\<And>x w'. w_repo w' = w_repo w \<Longrightarrow> uc_content x \<noteq> [] \<Longrightarrow> Q x (w', g)"
    and "\<And>e w'. w_repo w' = w_repo w \<Longrightarrow> E e (w', g)"
    and "\<And>e w' g'. generation_failed (g_task g) (g_run g) (g_outline g) (g_unit g) (w_repo w) (w_repo w')
      \<Longrightarrow> run_status (g_run g') = RS_FAILED \<Longrightarrow> E e (w', g')"
  shows "wp (draft_unit env b c) Q E (w, g)"
  using assms by (auto simp: draft_unit_def wp_rules Let_def intro!: wp_fail_unit dest: validated_content split: sum.splits prod.splits)

definition same_repo :: "Repo \<Rightarrow> Repo \<Rightarrow> bool" where
  "same_repo r r' \<longleftrightarrow> effect r r' (rp_tasks r) (rp_runs r) (rp_outlines r)"

lemma same_repo_refl [simp]: "same_repo r r"
  by (simp add: same_repo_def effect_def)

lemma wp_gate_unit:
  assumes "lone_run (g_run g) (w_repo w)"
    and pass: "\<And>w' u'. same_repo (w_repo w) (w_repo w') \<Longrightarrow> unit_kept (g_unit g) u' \<Longrightarrow> Q False (w', g\<lparr>g_unit := u'\<rparr>)"
    and block: "\<And>w' g'. generated (g_run g) (g_outline g) (g_unit g) (w_repo w) (w_repo w') \<Longrightarrow> g_task g' = g_task g \<Longrightarrow> Q True (w', g')"
    and err: "\<And>e w'. w_repo w' = w_repo w \<Longrightarrow> E e (w', g)"
  shows "wp (gate_unit env context content claims) Q E (w, g)"
proof -
  have lone: "save_run ((g_run g)\<lparr>run_status := RS_WAITING_USER\<rparr>) (save_outline ol (save_grounding_result tid gr (w_repo w)))
      = Inr ((save_outline ol (save_grounding_result tid gr (w_repo w)))\<lparr>rp_runs :=
          dict_set (run_id (g_run g)) ((g_run g)\<lparr>run_status := RS_WAITING_USER\<rparr>) (rp_runs (w_repo w))\<rparr>)" for ol tid gr
    using save_run_lone [of "(g_run g)\<lparr>run_status := RS_WAITING_USER\<rparr>" "save_outline ol (save_grounding_result tid gr (w_repo w))"]
      assms(1) by (simp add: lone_run_def)
  show ?thesis
  proof (cases "env_grounding env")
    case None
    then show ?thesis
      using pass [of w "g_unit g"] by (simp add: gate_unit_def wp_rules unit_kept_def)
  next
    case (Some retry)
    let ?w = "w\<lparr>w_uuids := Suc (w_uuids w)\<rparr>"
    let ?req = "grounding_request (make_id env ''grounding'' (w_uuids w)) (g_task g) (g_unit g) context content claims"
    show ?thesis
    proof (cases ?req)
      case (Inl e)
      then show ?thesis using Some err [of ?w] by (simp add: gate_unit_def wp_rules)
    next
      case (Inr req)
      show ?thesis
      proof (cases "ground (env_lower env) retry req")
        case (Inl e)
        then show ?thesis using Some Inr err [of ?w] by (simp add: gate_unit_def wp_rules)
      next
        case res: (Inr gr)
        show ?thesis
        proof (cases "grounding_confirmable gr")
          case True
          then show ?thesis using Some Inr res
            by (simp add: gate_unit_def wp_rules) (rule pass; simp add: same_repo_def effect_def unit_kept_def)
        next
          case False
          then show ?thesis using Some Inr res
            by (simp add: gate_unit_def put_unitG_def save_genG_def wp_rules lone)
              (rule block, rule generatedI [where u' = "(g_unit g)\<lparr>unit_grounding_run_id := Some (grounding_run_id gr),
                 unit_content := None, unit_content_hash := None, section_drafts := [],
                 unit_status := US_HUMAN_INPUT_REQUIRED, unit_version := unit_version (g_unit g) + 1\<rparr>"],
               simp_all add: unit_kept_def awaiting_def)
        qed
      qed
    qed
  qed
qed

lemma dict_set_value: "v \<in> set (dict_values (dict_set k v d))"
  by (induction k v d rule: dict_set.induct) (auto simp: dict_values_def)

lemma task_runs_save:
  "rp_runs r' = dict_set (run_id run) run (rp_runs r) \<Longrightarrow> run \<in> set (task_runs r' (run_task_id run))"
  by (simp add: task_runs_def dict_set_value)

lemma dict_set_values_sub: "set (dict_values (dict_set k v d)) \<subseteq> insert v (set (dict_values d))"
  by (induction k v d rule: dict_set.induct) (auto simp: dict_values_def)

lemma timed_runs_save:
  assumes "rp_runs r' = dict_set (run_id run) run (rp_runs r)" "timed_runs r tid" "run_time run \<noteq> None"
  shows "timed_runs r' tid"
  using assms dict_set_values_sub [of "run_id run" run "rp_runs r"] by (auto simp: timed_runs_def task_runs_def)

lemma run_time_status [simp]: "run_time (run\<lparr>run_status := st\<rparr>) = run_time run"
  by (simp add: run_time_def split: option.split)

definition ready :: "Task \<Rightarrow> AgentRun \<Rightarrow> Repo \<Rightarrow> bool" where
  "ready task run r \<longleftrightarrow> task_status task = TS_GENERATING \<and> run_status run = RS_RUNNING \<and> lone_run run r
     \<and> run_task_id run = task_id task \<and> run_time run \<noteq> None \<and> timed_runs r (task_id task)
     \<and> (\<exists>t. dict_get (rp_tasks r) (task_id task) = Some t)"

lemma snapshot_generated:
  assumes "ready task run r" "generated run outline u r r'"
  shows "\<exists>s. snapshot r' (task_id task) = Inr s"
proof -
  let ?run = "run\<lparr>run_status := RS_WAITING_USER\<rparr>"
  have runs: "rp_runs r' = dict_set (run_id ?run) ?run (rp_runs r)" and ts: "rp_tasks r' = rp_tasks r"
    using assms(2) by (auto simp: generated_def effect_def)
  have "?run \<in> set (task_runs r' (task_id task))"
    using task_runs_save [OF runs] assms(1) by (simp add: ready_def)
  moreover have "timed_runs r' (task_id task)"
    by (rule timed_runs_save [OF runs]) (use assms(1) in \<open>simp_all add: ready_def\<close>)
  ultimately show ?thesis
    using snapshot_total [of r' "task_id task"] assms(1) ts by (force simp: ready_def)
qed

lemma unit_kept_trans: "unit_kept u v \<Longrightarrow> unit_kept v v' \<Longrightarrow> unit_kept u v'"
  by (simp add: unit_kept_def)

lemma generated_same:
  assumes "same_repo r r0" "unit_kept u v" "generated run outline v r0 r'"
  shows "generated run outline u r r'"
  using assms by (auto simp: generated_def same_repo_def effect_def intro: unit_kept_trans)

lemma generation_failed_same:
  assumes "same_repo r r0" "unit_kept u v" "generation_failed task run outline v r0 r'"
  shows "generation_failed task run outline u r r'"
proof -
  from assms(3) obtain u' now exc ended where v: "unit_kept v u'" "unit_status u' = US_FAILED"
    "effect r0 r' (dict_set (task_id task) (task\<lparr>task_status := TS_FAILED, task_version := task_version task + 1, task_updated_at := now\<rparr>) (rp_tasks r0))
       (dict_set (run_id run) (run\<lparr>run_status := RS_FAILED, run_error := Some exc, ended_at := Some ended\<rparr>) (rp_runs r0))
       (rp_outlines (save_outline (put_unit u' outline) r0))"
    unfolding generation_failed_def by blast
  show ?thesis
    unfolding generation_failed_def
    by (rule exI [of _ u'], rule exI [of _ now], rule exI [of _ exc], rule exI [of _ ended])
      (use v assms(1) unit_kept_trans [OF assms(2) v(1)] in \<open>simp add: effect_def same_repo_def\<close>)
qed

lemma ready_same: "same_repo r r' \<Longrightarrow> ready task run r' = ready task run r"
  by (simp add: same_repo_def effect_def ready_def lone_run_def timed_runs_def task_runs_def)

lemma wp_offer_unit:
  assumes rdy: "ready (g_task g) (g_run g) (w_repo w)" and content: "uc_content draft \<noteq> []"
    and gen: "\<And>x w' g'. generated (g_run g) (g_outline g) (g_unit g) (w_repo w) (w_repo w') \<Longrightarrow> Q x (w', g')"
  shows "wp (offer_unit env draft) Q E (w, g)"
proof -
  let ?u = "(g_unit g)\<lparr>unit_content := Some (uc_content draft), unit_content_hash := Some (content_hash env (uc_content draft)),
      unit_status := US_PENDING_CONFIRMATION, unit_version := unit_version (g_unit g) + 1\<rparr>"
  let ?run = "(g_run g)\<lparr>run_status := RS_WAITING_USER\<rparr>"
  have lone: "save_run ?run (save_outline ol (w_repo w))
      = Inr ((save_outline ol (w_repo w))\<lparr>rp_runs := dict_set (run_id (g_run g)) ?run (rp_runs (w_repo w))\<rparr>)" for ol
    using save_run_lone [of ?run "save_outline ol (w_repo w)"] rdy by (simp add: lone_run_def ready_def)
  have g: "generated (g_run g) (g_outline g) (g_unit g) (w_repo w) r'"
    if "rp_tasks r' = rp_tasks (w_repo w)" "rp_runs r' = dict_set (run_id (g_run g)) ?run (rp_runs (w_repo w))"
      "rp_outlines r' = rp_outlines (save_outline (put_unit ?u (g_outline g)) (w_repo w))" "unwritten r' = unwritten (w_repo w)" for r'
    by (rule generatedI [where u' = ?u]) (use that content in \<open>simp_all add: unit_kept_def awaiting_def\<close>)
  let ?r = "save_checkpoint (thread_id (g_run g))
       \<lparr>cp_task_id = task_id (g_task g), cp_run_id = run_id (g_run g), cp_thread_id = thread_id (g_run g),
        cp_graph_version = graph_version (g_run g), cp_task_version = task_version (g_task g), cp_current_node = ''WAIT_UNIT_CONFIRMATION''\<rparr>
       (append_event (make_id env ''event'' (w_uuids w)) (env_clock env (w_ticks w)) (task_id (g_task g)) ''UnitGenerated''
         (UnitPayload (unit_id (g_unit g)))
         ((save_outline (put_unit ?u (g_outline g)) (w_repo w))\<lparr>rp_runs := dict_set (run_id (g_run g)) ?run (rp_runs (w_repo w))\<rparr>))"
  have gr: "generated (g_run g) (g_outline g) (g_unit g) (w_repo w) ?r" by (rule g) simp_all
  obtain s where "snapshot ?r (task_id (g_task g)) = Inr s" using snapshot_generated [OF rdy gr] by blast
  then show ?thesis
    by (simp add: offer_unit_def put_unitG_def save_genG_def wp_rules lone) (rule gen, use gr in simp)
qed

lemma wp_accept_draft:
  assumes rdy: "ready (g_task g) (g_run g) (w_repo w)" and content: "uc_content draft \<noteq> []"
    and gen: "\<And>x w' g'. generated (g_run g) (g_outline g) (g_unit g) (w_repo w) (w_repo w') \<Longrightarrow> Q x (w', g')"
    and err: "\<And>e w' u'. same_repo (w_repo w) (w_repo w') \<Longrightarrow> unit_kept (g_unit g) u' \<Longrightarrow> E e (w', g\<lparr>g_unit := u'\<rparr>)"
  shows "wp (accept_draft env context draft) Q E (w, g)"
proof (cases "section_drafts_of env (nodes_by_key (g_outline g) (g_unit g)) (g_unit g) draft")
  case (Inl e)
  then show ?thesis
    using err [of w "g_unit g" e] by (simp add: accept_draft_def wp_rules unit_kept_def)
next
  case (Inr drafts)
  let ?u = "(g_unit g)\<lparr>section_drafts := drafts\<rparr>"
  let ?g = "g\<lparr>g_unit := ?u\<rparr>"
  have kept: "unit_kept (g_unit g) ?u" by (simp add: unit_kept_def)
  have "wp (gate_unit env context (uc_content draft) (inventory_claims env draft))
     (\<lambda>blocked. wp (if blocked then onW (readR (\<lambda>r. snapshot r (task_id (g_task g)))) else offer_unit env draft) Q E) E (w, ?g)"
  proof (rule wp_gate_unit)
    show "lone_run (g_run ?g) (w_repo w)" using rdy by (simp add: ready_def)
  next
    fix w' :: World and u'
    assume s: "same_repo (w_repo w) (w_repo w')" and k: "unit_kept (g_unit ?g) u'"
    have "wp (offer_unit env draft) Q E (w', ?g\<lparr>g_unit := u'\<rparr>)"
    proof (rule wp_offer_unit)
      show "ready (g_task (?g\<lparr>g_unit := u'\<rparr>)) (g_run (?g\<lparr>g_unit := u'\<rparr>)) (w_repo w')"
        using rdy ready_same [OF s] by simp
      show "uc_content draft \<noteq> []" by (rule content)
    next
      fix x and w'' :: World and g''
      assume "generated (g_run (?g\<lparr>g_unit := u'\<rparr>)) (g_outline (?g\<lparr>g_unit := u'\<rparr>)) (g_unit (?g\<lparr>g_unit := u'\<rparr>)) (w_repo w') (w_repo w'')"
      then show "Q x (w'', g'')"
        using generated_same [OF s] k kept gen unit_kept_trans by fastforce
    qed
    then show "wp (if False then onW (readR (\<lambda>r. snapshot r (task_id (g_task g)))) else offer_unit env draft) Q E (w', ?g\<lparr>g_unit := u'\<rparr>)"
      by simp
  next
    fix w' :: World and g'
    assume a: "generated (g_run ?g) (g_outline ?g) (g_unit ?g) (w_repo w) (w_repo w')"
    then have b: "generated (g_run g) (g_outline g) (g_unit g) (w_repo w) (w_repo w')"
      using generated_same [OF same_repo_refl kept] by simp
    obtain s where "snapshot (w_repo w') (task_id (g_task g)) = Inr s" using snapshot_generated [OF rdy b] by blast
    then show "wp (if True then onW (readR (\<lambda>r. snapshot r (task_id (g_task g)))) else offer_unit env draft) Q E (w', g')"
      using gen [OF b] by (simp add: wp_rules)
  next
    fix e and w' :: World
    assume "w_repo w' = w_repo w"
    then show "E e (w', ?g)" using err [of w' ?u] kept by simp
  qed
  then show ?thesis
    unfolding accept_draft_def Let_def wp_bind wp_then wp_getG wp_lift wp_setG fst_conv snd_conv Inr sum.case .
qed

lemma wp_generate_unit:
  assumes rdy: "ready task run (w_repo w)"
    and gen: "\<And>x w'. generated run outline u (w_repo w) (w_repo w') \<Longrightarrow> Q x w'"
    and failed: "\<And>e w'. generation_failed task run outline u (w_repo w) (w_repo w') \<Longrightarrow> E e w'"
  shows "wp (generate_unit env task run outline u b) Q E w"
proof -
  let ?g = "\<lparr>g_task = task, g_run = run, g_outline = outline, g_unit = u\<rparr>"
  let ?Q = "\<lambda>x s. Q x (fst s)"
  let ?E = "\<lambda>e s. E e (fst s)"
  let ?H = "record_failure env"
  have failing: "wp (?H e) ?Q ?E (w', ?g\<lparr>g_unit := u'\<rparr>)" if s: "same_repo (w_repo w) (w_repo w')" and k: "unit_kept u u'"
    for e and w' :: World and u'
  proof -
    let ?g' = "?g\<lparr>g_unit := u'\<rparr>"
    have "wp (fail_unit env e) (\<lambda>_. ?E e) ?E (w', ?g')"
      by (rule wp_fail_unit) (use rdy failed generation_failed_same [OF s k] in \<open>simp_all add: ready_def\<close>)
    moreover have "run_status run \<noteq> RS_FAILED" using rdy by (simp add: ready_def)
    ultimately show ?thesis by (simp add: record_failure_def wp_rules)
  qed
  have caught: "wp (?H e) ?Q ?E (w', g')"
    if "generation_failed task run outline u (w_repo w) (w_repo w')" "run_status (g_run g') = RS_FAILED" for e and w' :: World and g'
    using that failed by (simp add: record_failure_def wp_rules)
  have unchanged: "wp (?H e) ?Q ?E (w', ?g)" if "w_repo w' = w_repo w" for e and w' :: World
    using failing [of w' u e] that by (simp add: unit_kept_def)
  have drafted: "wp (draft_unit env b c) (\<lambda>draft. wp (accept_draft env c draft) ?Q (\<lambda>e. wp (?H e) ?Q ?E)) (\<lambda>e. wp (?H e) ?Q ?E) (w0, ?g)"
    if w0: "w_repo w0 = w_repo w" for c w0
  proof (rule wp_draft_unit)
    fix draft :: UnitContent and w' :: World
    assume "w_repo w' = w_repo w0" "uc_content draft \<noteq> []"
    then show "wp (accept_draft env c draft) ?Q (\<lambda>e. wp (?H e) ?Q ?E) (w', ?g)"
      by (intro wp_accept_draft) (use rdy w0 gen failing in simp_all)
  qed (use rdy w0 unchanged caught in \<open>simp_all add: ready_def\<close>)
  have "wp (catchM (generate_unit_inner env b) ?H) ?Q ?E (w, ?g)"
    unfolding wp_catch generate_unit_inner_def wp_bind wp_investigate
    by (auto intro!: unchanged drafted split: option.splits sum.splits)
  then show ?thesis
    by (auto simp: wp_def generate_unit_def split: prod.splits sum.splits)
qed

section \<open>Generating an outline\<close>

lemma invoke_validated_Inr: "invoke_validated model request validator n = (Inr x, n') \<Longrightarrow> \<exists>a. validator a = Inr x"
  by (auto simp: invoke_validated_def split: sum.splits if_splits)

lemma wp_build_outline_wf:
  assumes draft: "validate_outline str_of v = Inr draft" and inj: "inj (env_uuid env)"
    and ok: "\<And>ol w'. w_repo w' = w_repo w \<Longrightarrow> outline_wf ol \<Longrightarrow> outline_status ol = OS_PENDING_CONFIRMATION
      \<Longrightarrow> outline_task_id ol = task_id task \<Longrightarrow> outline_id ol = make_id env ''outline'' (w_uuids w)
      \<Longrightarrow> (\<forall>u \<in> set (confirmation_units ol). unit_status u = US_PENDING) \<Longrightarrow> Q ol w'"
    and err: "\<And>e w'. w_repo w' = w_repo w \<Longrightarrow> E e w'"
  shows "wp (build_outline env task draft) Q E w"
proof -
  note shape = validate_outline_shape [OF draft]
  let ?w = "w\<lparr>w_uuids := Suc (w_uuids w)\<rparr>"
  let ?oid = "make_id env ''outline'' (w_uuids w)"
  have units: "wp (bindM (make_unit_ids env (od_units draft) []) (\<lambda>uids.
      bindM (liftM (make_units ?oid (od_units draft) nids uids)) (\<lambda>units.
      bindM (nowM env) (\<lambda>created.
      returnM \<lparr>outline_id = ?oid, outline_task_id = task_id task, outline_version = version, outline_title = od_title draft,
       outline_status = OS_PENDING_CONFIRMATION, outline_nodes = nodes, confirmation_units = units,
       outline_created_at = created, outline_confirmed_at = None\<rparr>)))) Q E w1"
    if w1: "w_repo w1 = w_repo w"
      and nodes: "map node_id nodes = map (make_id env ''node'') [m..<m + length (od_nodes draft)]"
      and nids: "\<And>i. i < length (od_nodes draft) \<Longrightarrow> dict_get nids (nd_key (od_nodes draft ! i)) = Some (node_id (nodes ! i))"
    for nids nodes version m w1
    unfolding wp_bind
  proof (rule wp_make_unit_ids [OF shape(8)], goal_cases)
    case (1 uids w2)
    show ?case
    proof (cases "make_units ?oid (od_units draft) nids uids")
      case (Inl e)
      then show ?thesis using err [of w2] "1"(1) w1 by (simp add: wp_rules)
    next
      case (Inr us)
      have "\<forall>u \<in> set us. unit_status u = US_PENDING" using make_units_Inr [OF Inr] by (auto simp: in_set_conv_nth)
      with Inr "1"(1) w1 built_outline_wf [OF draft inj Inr nodes nids "1"(4)] show ?thesis
        by (simp add: wp_rules) (rule ok; simp)
    qed
  qed
  show ?thesis
  proof (cases "snapshot (w_repo w) (task_id task)")
    case (Inl e)
    then show ?thesis using err [of ?w] by (simp add: build_outline_def wp_rules)
  next
    case (Inr snap)
    have "wp (make_nodes env 1 (od_nodes draft) []) (\<lambda>x. wp (case x of (nodes, nids) \<Rightarrow>
        bindM (make_unit_ids env (od_units draft) []) (\<lambda>uids.
        bindM (liftM (make_units ?oid (od_units draft) nids uids)) (\<lambda>units.
        bindM (nowM env) (\<lambda>created.
        returnM \<lparr>outline_id = ?oid, outline_task_id = task_id task,
          outline_version = max_default 0 (map outline_version (ss_outlines snap)) + 1, outline_title = od_title draft,
          outline_status = OS_PENDING_CONFIRMATION, outline_nodes = nodes, confirmation_units = units,
          outline_created_at = created, outline_confirmed_at = None\<rparr>)))) Q E) E ?w"
    proof (rule wp_make_nodes [OF shape(3)], goal_cases)
      case (1 nodes nids w1)
      then show ?case using units [of w1 nodes "w_uuids ?w" nids] by simp
    next
      case (2 e w1)
      then show ?case using err [of w1] by simp
    qed
    with Inr show ?thesis by (simp add: build_outline_def wp_bind wp_id wp_readR wp_Let)
  qed
qed

lemma wp_build_outline_drawn: "wp (build_outline env task draft) (\<lambda>_ w'. w_uuids w < w_uuids w') (\<lambda>_ _. True) w"
  unfolding build_outline_def wp_bind [of "idM env ''outline''"] wp_id
  by (rule keeps_wp [where R = "\<lambda>w w'. w_uuids w \<le> w_uuids w' \<and> w_ticks w \<le> w_ticks w'"])
    (auto simp: Let_def intro!: counters.keeps_world counters.keeps_make_nodes counters.keeps_make_unit_ids)

definition new_outline :: "Env \<Rightarrow> nat \<Rightarrow> pystr \<Rightarrow> OutlineVersion \<Rightarrow> bool" where
  "new_outline env n tid ol \<longleftrightarrow> outline_wf ol \<and> outline_status ol = OS_PENDING_CONFIRMATION \<and> outline_task_id ol = tid
     \<and> outline_id ol = make_id env ''outline'' n \<and> (\<forall>u \<in> set (confirmation_units ol). unit_status u = US_PENDING)"

lemma wp_build_outline:
  assumes draft: "validate_outline str_of v = Inr draft" and inj: "inj (env_uuid env)"
    and ok: "\<And>ol w'. w_repo w' = w_repo w \<Longrightarrow> new_outline env (w_uuids w) (task_id task) ol \<Longrightarrow> w_uuids w < w_uuids w' \<Longrightarrow> Q ol w'"
    and err: "\<And>e w'. w_repo w' = w_repo w \<Longrightarrow> E e w'"
  shows "wp (build_outline env task draft) Q E w"
proof -
  have "wp (build_outline env task draft) (\<lambda>ol w'. w_repo w' = w_repo w \<and> new_outline env (w_uuids w) (task_id task) ol)
      (\<lambda>_ w'. w_repo w' = w_repo w) w"
    by (rule wp_build_outline_wf [OF draft inj]) (simp_all add: new_outline_def)
  from wp_conj [OF this wp_build_outline_drawn] show ?thesis
    by (rule wp_mono) (use ok err in auto)
qed

definition outlined :: "Env \<Rightarrow> nat \<Rightarrow> Task \<Rightarrow> AgentRun \<Rightarrow> Repo \<Rightarrow> Repo \<Rightarrow> bool" where
  "outlined env n task run r r' \<longleftrightarrow>
     (\<exists>ol now. new_outline env n (task_id task) ol
        \<and> effect r r'
            (dict_set (task_id task) (task\<lparr>task_status := TS_OUTLINE_REVIEW, task_version := task_version task + 1,
               current_outline_version := Some (outline_version ol), task_updated_at := now\<rparr>) (rp_tasks r))
            (dict_set (run_id run) (run\<lparr>run_status := RS_WAITING_USER\<rparr>) (rp_runs r))
            (rp_outlines (save_outline ol r)))"

lemma outlinedI:
  assumes "new_outline env n (task_id task) ol"
    and "rp_tasks r' = dict_set (task_id task) (task\<lparr>task_status := TS_OUTLINE_REVIEW, task_version := task_version task + 1,
               current_outline_version := Some (outline_version ol), task_updated_at := now\<rparr>) (rp_tasks r)"
    and "rp_runs r' = dict_set (run_id run) (run\<lparr>run_status := RS_WAITING_USER\<rparr>) (rp_runs r)"
    and "rp_outlines r' = rp_outlines (save_outline ol r)" "unwritten r' = unwritten r"
  shows "outlined env n task run r r'"
  using assms unfolding outlined_def effect_def by blast

lemma save_run_waiting:
  assumes "lone_run run r" "rp_runs r0 = rp_runs r"
  shows "save_run (run\<lparr>run_status := st\<rparr>) r0 = Inr (r0\<lparr>rp_runs := dict_set (run_id run) (run\<lparr>run_status := st\<rparr>) (rp_runs r)\<rparr>)"
  using save_run_lone [of "run\<lparr>run_status := st\<rparr>" r0] assms by (simp add: lone_run_def)

lemma wp_generate_outline:
  assumes st: "task_status task = TS_CLARIFYING" and lone: "lone_run run (w_repo w)" and inj: "inj (env_uuid env)"
    and ok: "\<And>x w'. outlined env (w_uuids w) task run (w_repo w) (w_repo w') \<Longrightarrow> w_uuids w < w_uuids w' \<Longrightarrow> Q x w'"
    and late: "\<And>e w'. outlined env (w_uuids w) task run (w_repo w) (w_repo w') \<Longrightarrow> w_uuids w < w_uuids w' \<Longrightarrow> E e w'"
    and err: "\<And>e w'. w_repo w' = w_repo w \<Longrightarrow> E e w'"
  shows "wp (generate_outline env task run b) Q E w"
proof -
  obtain res n where res: "invoke_validated (env_model env) (GenerateOutline b) (validate_outline (env_str_of env)) (w_calls w) = (res, n)"
    by (cases "invoke_validated (env_model env) (GenerateOutline b) (validate_outline (env_str_of env)) (w_calls w)")
  let ?w = "w\<lparr>w_calls := n\<rparr>"
  show ?thesis
  proof (cases res)
    case (Inl e)
    then show ?thesis using res err [of ?w] by (simp add: generate_outline_def wp_rules)
  next
    case (Inr draft)
    from invoke_validated_Inr [OF res [unfolded Inr]]
    obtain v where v: "validate_outline (env_str_of env) v = Inr draft" by blast
    have "wp (build_outline env task draft) (\<lambda>outline. wp
       (bindM (moveM env task TS_OUTLINE_REVIEW (task_version task)) (\<lambda>task.
        bindM (touchM env (task\<lparr>current_outline_version := Some (outline_version outline)\<rparr>)) (\<lambda>task.
        let run = run\<lparr>run_status := RS_WAITING_USER\<rparr> in
        thenM (repoM (save_outline outline))
        (thenM (repoM (save_task task))
        (thenM (save_runM run)
        (thenM (eventM env (task_id task) ''OutlineGenerated'' (OutlineVersionPayload (outline_version outline)))
        (thenM (checkpointM task run ''WAIT_OUTLINE_CONFIRMATION'')
        (readR (\<lambda>r. snapshot r (task_id task)))))))))) Q E) E ?w"
    proof (rule wp_build_outline [OF v inj], goal_cases)
      case (1 ol w')
      have new: "new_outline env (w_uuids w) (task_id task) ol" using 1(2) by simp
      have run: "save_run (run\<lparr>run_status := RS_WAITING_USER\<rparr>) (save_task t (save_outline ol (w_repo w)))
          = Inr ((save_task t (save_outline ol (w_repo w)))\<lparr>rp_runs := dict_set (run_id run) (run\<lparr>run_status := RS_WAITING_USER\<rparr>) (rp_runs (w_repo w))\<rparr>)" for t
        by (rule save_run_waiting [OF lone]) simp
      show ?case
        using st 1(1,3) by (auto simp: wp_rules transition_def run intro!: ok late outlinedI [OF new] split: sum.splits)
    next
      case (2 e w')
      then show ?case using err by simp
    qed
    with res Inr show ?thesis by (simp add: generate_outline_def wp_bind wp_call)
  qed
qed

section \<open>Waiting for an answer\<close>

definition waiting :: "AgentRun \<Rightarrow> Repo \<Rightarrow> Repo \<Rightarrow> bool" where
  "waiting run r r' \<longleftrightarrow>
     effect r r' (rp_tasks r) (dict_set (run_id run) (run\<lparr>run_status := RS_WAITING_USER\<rparr>) (rp_runs r)) (rp_outlines r)"

lemma wp_await_clarification:
  assumes lone: "lone_run run (w_repo w)"
    and ok: "\<And>x w'. waiting run (w_repo w) (w_repo w') \<Longrightarrow> Q x w'"
    and late: "\<And>e w'. waiting run (w_repo w) (w_repo w') \<Longrightarrow> E e w'"
  shows "wp (await_clarification env task run b) Q E w"
  using save_run_waiting [OF lone refl]
  by (auto simp: await_clarification_def wp_rules waiting_def effect_def intro!: ok late split: sum.splits)

end
