(* ===== verification/Workflow_Invariant.thy ===== *)
theory Workflow_Invariant
  imports Workflow_Effects Workflow_History
begin

text \<open>
  The invariant of the repository: entities are stored under their own identifiers, identifiers
  were drawn from the generator, a task has at most one active run, and the outline and the units
  of a task are where its status says they are. Every command keeps it, also when it raises.
\<close>

section \<open>Units in sequence\<close>

lemma sort_key_empty [simp]: "sort_key f xs = [] \<longleftrightarrow> xs = []"
  by (metis length_0_conv length_sort)

lemma sort_key_least:
  assumes "sort_key f xs = y # ys"
  shows "y \<in> set xs" and "x \<in> set xs \<Longrightarrow> f y \<le> f x"
proof -
  have "set xs = set (y # ys)" by (metis assms set_sort)
  moreover have "sorted (map f (y # ys))" by (metis assms sorted_sort_key)
  ultimately show "y \<in> set xs" and "x \<in> set xs \<Longrightarrow> f y \<le> f x" by auto
qed

definition live :: "OutlineVersion list \<Rightarrow> OutlineVersion list" where
  "live os = filter (\<lambda>ol. outline_status ol \<noteq> OS_SUPERSEDED) os"

text \<open>The cursor stands at a unit; the units before it are confirmed, those after it untouched, confirmed or to be revised.\<close>

definition at_unit :: "OutlineVersion \<Rightarrow> ConfirmationUnit \<Rightarrow> bool" where
  "at_unit ol u \<longleftrightarrow> u \<in> set (confirmation_units ol)
     \<and> (\<forall>v \<in> set (confirmation_units ol). unit_sequence v < unit_sequence u \<longrightarrow> unit_status v = US_CONFIRMED)
     \<and> (\<forall>v \<in> set (confirmation_units ol). unit_sequence v > unit_sequence u \<longrightarrow>
          unit_status v \<in> {US_PENDING, US_REVISION_REQUIRED, US_CONFIRMED})"

definition all_confirmed :: "OutlineVersion \<Rightarrow> bool" where
  "all_confirmed ol \<longleftrightarrow> (\<forall>u \<in> set (confirmation_units ol). unit_status u = US_CONFIRMED)"

fun stage_ok :: "TaskStatus \<Rightarrow> int option \<Rightarrow> OutlineVersion list \<Rightarrow> bool" where
  "stage_ok TS_CLARIFYING cur os = (live os = [])"
| "stage_ok TS_OUTLINE_REVIEW cur os =
     (\<exists>ol. live os = [ol] \<and> outline_wf ol \<and> outline_status ol = OS_PENDING_CONFIRMATION
        \<and> (\<forall>u \<in> set (confirmation_units ol). unit_status u = US_PENDING))"
| "stage_ok TS_GENERATING cur os =
     (\<exists>ol u. live os = [ol] \<and> outline_wf ol \<and> outline_status ol = OS_CONFIRMED \<and> at_unit ol u \<and> cur = Some (unit_sequence u)
        \<and> awaiting u)"
| "stage_ok TS_FINAL_REVIEW cur os = (\<exists>ol. live os = [ol] \<and> outline_wf ol \<and> outline_status ol = OS_CONFIRMED \<and> all_confirmed ol)"
| "stage_ok TS_COMPLETED cur os = (\<exists>ol. live os = [ol] \<and> outline_wf ol \<and> outline_status ol = OS_CONFIRMED \<and> all_confirmed ol)"
| "stage_ok TS_FAILED cur os = True"
| "stage_ok _ cur os = False"

subsection \<open>Steps of the cursor\<close>

lemma outline_wf_sequences:
  assumes "outline_wf ol" "i < length (confirmation_units ol)"
  shows "unit_sequence (confirmation_units ol ! i) = int (Suc i)"
proof -
  have "map unit_sequence (confirmation_units ol) ! i = map int [1..<Suc (length (confirmation_units ol))] ! i"
    using assms(1) by (simp add: outline_wf_def Let_def del: upt_Suc)
  then show ?thesis using assms(2) by (simp del: upt_Suc)
qed

lemma outline_wf_unit_eq:
  assumes "outline_wf ol" "u \<in> set (confirmation_units ol)" "v \<in> set (confirmation_units ol)"
  shows "unit_id u = unit_id v \<Longrightarrow> u = v" and "unit_sequence u = unit_sequence v \<Longrightarrow> u = v"
proof -
  show "unit_id u = unit_id v \<Longrightarrow> u = v"
    using assms by (auto simp: outline_wf_def Let_def distinct_map inj_on_def)
  from assms obtain i j where "i < length (confirmation_units ol)" "j < length (confirmation_units ol)"
    "u = confirmation_units ol ! i" "v = confirmation_units ol ! j" by (metis in_set_conv_nth)
  then show "unit_sequence u = unit_sequence v \<Longrightarrow> u = v"
    using outline_wf_sequences [OF assms(1)] by simp
qed

text \<open>Well-formedness depends on what the workflow never changes in a unit.\<close>

lemma outline_wf_kept:
  assumes "outline_wf ol" "list_all2 unit_kept (confirmation_units ol) (confirmation_units ol')" "outline_nodes ol' = outline_nodes ol"
  shows "outline_wf ol'"
proof -
  let ?us = "confirmation_units ol" and ?vs = "confirmation_units ol'"
  have len: "length ?vs = length ?us" using assms(2) by (simp add: list_all2_lengthD)
  have k: "unit_kept (?us ! i) (?vs ! i)" if "i < length ?us" for i
    using assms(2) that by (simp add: list_all2_conv_all_nth)
  have m: "map unit_id ?vs = map unit_id ?us" "map unit_sequence ?vs = map unit_sequence ?us" "map node_ids ?vs = map node_ids ?us"
    by (rule nth_equalityI; use k len in \<open>simp add: unit_kept_def\<close>)+
  have t: "map unit_id (take j ?vs) = map unit_id (take j ?us)" for j
    by (metis m(1) take_map)
  have "set (depends_on_unit_ids (?vs ! j)) \<subseteq> set (map unit_id (take j ?vs))" if "j < length ?vs" for j
    using that assms(1) k [of j] len unfolding t by (auto simp: outline_wf_def Let_def unit_kept_def)
  with assms(1,3) len show ?thesis
    unfolding outline_wf_def Let_def m by auto
qed

lemma unit_kept_refl [simp]: "unit_kept u u"
  by (simp add: unit_kept_def)

lemma put_unit_kept:
  assumes "outline_wf ol" "u \<in> set (confirmation_units ol)" "unit_kept u u'"
  shows "list_all2 unit_kept (confirmation_units ol) (confirmation_units (put_unit u' ol))"
proof -
  have "unit_kept v (if unit_id v = unit_id u' then u' else v)" if "v \<in> set (confirmation_units ol)" for v
    using assms outline_wf_unit_eq(1) [OF assms(1) that assms(2)] by (auto simp: unit_kept_def)
  then show ?thesis
    by (auto simp: put_unit_def replace_by_def list_all2_conv_all_nth)
qed

lemma put_unit_wf:
  assumes "outline_wf ol" "u \<in> set (confirmation_units ol)" "unit_kept u u'"
  shows "outline_wf (put_unit u' ol)"
  by (rule outline_wf_kept [OF assms(1) put_unit_kept [OF assms]]) (simp add: put_unit_def)

lemma put_unit_set:
  assumes "outline_wf ol" "u \<in> set (confirmation_units ol)" "unit_kept u u'"
  shows "set (confirmation_units (put_unit u' ol)) = insert u' (set (confirmation_units ol) - {u})"
proof -
  have "(if unit_id v = unit_id u' then u' else v) = (if v = u then u' else v)" if "v \<in> set (confirmation_units ol)" for v
    using assms outline_wf_unit_eq(1) [OF assms(1) that assms(2)] by (auto simp: unit_kept_def)
  then have "set (confirmation_units (put_unit u' ol)) = (\<lambda>v. if v = u then u' else v) ` set (confirmation_units ol)"
    by (auto simp: put_unit_def replace_by_def)
  with assms(2) show ?thesis by auto
qed

lemma put_unit_fields [simp]:
  "outline_id (put_unit u ol) = outline_id ol" "outline_task_id (put_unit u ol) = outline_task_id ol"
  "outline_status (put_unit u ol) = outline_status ol"
  by (simp_all add: put_unit_def)

lemma at_unit_put:
  assumes "outline_wf ol" "at_unit ol u" "unit_kept u u'"
  shows "at_unit (put_unit u' ol) u'"
  using assms put_unit_set [OF assms(1) _ assms(3)] unfolding at_unit_def by (auto simp: unit_kept_def)

text \<open>Confirming the outline puts the cursor at the first unit.\<close>

lemma first_unit:
  fixes stamp :: "time option"
  assumes wf: "outline_wf ol" and pend: "\<forall>u \<in> set (confirmation_units ol). unit_status u = US_PENDING"
  defines "u \<equiv> set_unit_status US_GENERATING (hd (confirmation_units ol))"
  defines "ol' \<equiv> ol\<lparr>outline_status := OS_CONFIRMED, outline_confirmed_at := stamp, confirmation_units := u # tl (confirmation_units ol)\<rparr>"
  shows "outline_wf ol'" "at_unit ol' u" "unit_sequence u = 1" "unit_status u = US_GENERATING"
proof -
  obtain v vs where us: "confirmation_units ol = v # vs"
    using wf by (cases "confirmation_units ol") (simp_all add: outline_wf_def)
  have k: "unit_kept v u" by (simp add: u_def us unit_kept_def set_unit_status_def)
  show wf': "outline_wf ol'"
    by (rule outline_wf_kept [OF wf]) (simp_all add: ol'_def us k list.rel_refl)
  show seq: "unit_sequence u = 1"
    using outline_wf_sequences [OF wf, of 0] k by (simp add: us unit_kept_def)
  have "unit_sequence x > 1 \<and> unit_status x = US_PENDING" if "x \<in> set vs" for x
  proof -
    from that obtain i where "i < length vs" "x = vs ! i" by (metis in_set_conv_nth)
    then show ?thesis using outline_wf_sequences [OF wf, of "Suc i"] pend us by auto
  qed
  with seq show "at_unit ol' u" by (force simp: at_unit_def ol'_def us)
  show "unit_status u = US_GENERATING" by (simp add: u_def set_unit_status_def)
qed

lemma set_unit_status_kept [simp]: "unit_kept u (set_unit_status st u)"
  by (simp add: unit_kept_def set_unit_status_def)

lemma confirmed_unit_kept [simp]: "unit_kept u (confirmed_unit u)"
  by (simp add: unit_kept_def confirmed_unit_def)

lemma confirmed_unit_status [simp]: "unit_status (confirmed_unit u) = US_CONFIRMED"
  by (simp add: confirmed_unit_def)

text \<open>Confirming a unit moves the cursor to the next open unit, or every unit is confirmed.\<close>

lemma next_unit:
  assumes wf: "outline_wf ol" and cur: "at_unit ol u" and nxt: "next_units (put_unit (confirmed_unit u) ol) (confirmed_unit u) = v # vs"
  defines "ol1 \<equiv> put_unit (confirmed_unit u) ol"
  defines "v' \<equiv> set_unit_status US_GENERATING v"
  shows "outline_wf (put_unit v' ol1)" "at_unit (put_unit v' ol1) v'"
proof -
  have u: "u \<in> set (confirmation_units ol)" using cur by (simp add: at_unit_def)
  have wf1: "outline_wf ol1" unfolding ol1_def by (rule put_unit_wf [OF wf u]) simp
  have us1: "set (confirmation_units ol1) = insert (confirmed_unit u) (set (confirmation_units ol) - {u})"
    unfolding ol1_def by (rule put_unit_set [OF wf u]) simp
  let ?open = "filter (\<lambda>x. unit_sequence x > unit_sequence (confirmed_unit u) \<and> unit_status x \<in> {US_PENDING, US_REVISION_REQUIRED})
         (confirmation_units ol1)"
  have srt: "sort_key unit_sequence ?open = v # vs" using nxt by (simp add: next_units_def ol1_def)
  note v = sort_key_least(1) [OF srt] and least = sort_key_least(2) [OF srt]
  have seq: "unit_sequence (confirmed_unit u) = unit_sequence u" by (simp add: confirmed_unit_def)
  have "at_unit ol1 v"
    unfolding at_unit_def
  proof (intro conjI ballI impI)
    show "v \<in> set (confirmation_units ol1)" using v by simp
  next
    fix x assume x: "x \<in> set (confirmation_units ol1)" "unit_sequence x < unit_sequence v"
    show "unit_status x = US_CONFIRMED"
    proof (cases "x = confirmed_unit u")
      case False
      with x us1 have x': "x \<in> set (confirmation_units ol)" "x \<noteq> u" by auto
      then have "unit_sequence x \<noteq> unit_sequence u" using outline_wf_unit_eq(2) [OF wf _ u] by blast
      moreover have "x \<notin> set ?open" using least x(2) by force
      ultimately show ?thesis using x x' cur seq by (force simp: at_unit_def)
    qed simp
  next
    fix x assume x: "x \<in> set (confirmation_units ol1)" "unit_sequence v < unit_sequence x"
    then have "unit_sequence x > unit_sequence u" using v seq by simp
    then have "x \<in> set (confirmation_units ol)" using x us1 seq by auto
    with \<open>unit_sequence x > unit_sequence u\<close> show "unit_status x \<in> {US_PENDING, US_REVISION_REQUIRED, US_CONFIRMED}"
      using cur by (simp add: at_unit_def)
  qed
  then show "at_unit (put_unit v' ol1) v'" unfolding v'_def by (rule at_unit_put [OF wf1]) simp
  show "outline_wf (put_unit v' ol1)" unfolding v'_def using v by (intro put_unit_wf [OF wf1, of v]) simp_all
qed

lemma no_next_unit:
  assumes wf: "outline_wf ol" and cur: "at_unit ol u" and nxt: "next_units (put_unit (confirmed_unit u) ol) (confirmed_unit u) = []"
  shows "outline_wf (put_unit (confirmed_unit u) ol)" "all_confirmed (put_unit (confirmed_unit u) ol)"
proof -
  let ?ol = "put_unit (confirmed_unit u) ol"
  have u: "u \<in> set (confirmation_units ol)" using cur by (simp add: at_unit_def)
  show "outline_wf ?ol" by (rule put_unit_wf [OF wf u]) simp
  have us: "set (confirmation_units ?ol) = insert (confirmed_unit u) (set (confirmation_units ol) - {u})"
    by (rule put_unit_set [OF wf u]) simp
  have none: "\<not> (unit_sequence x > unit_sequence (confirmed_unit u) \<and> unit_status x \<in> {US_PENDING, US_REVISION_REQUIRED})"
    if "x \<in> set (confirmation_units ?ol)" for x
  proof -
    have "filter (\<lambda>x. unit_sequence x > unit_sequence (confirmed_unit u) \<and> unit_status x \<in> {US_PENDING, US_REVISION_REQUIRED})
         (confirmation_units ?ol) = []"
      using nxt unfolding next_units_def sort_key_empty .
    with that show ?thesis by (simp add: filter_empty_conv)
  qed
  have seq: "unit_sequence (confirmed_unit u) = unit_sequence u" by (simp add: confirmed_unit_def)
  have "unit_status x = US_CONFIRMED" if x: "x \<in> set (confirmation_units ol)" "x \<noteq> u" for x
  proof -
    have "unit_sequence x \<noteq> unit_sequence u" using outline_wf_unit_eq(2) [OF wf x(1) u] x(2) by blast
    then consider "unit_sequence x < unit_sequence u" | "unit_sequence x > unit_sequence u" by linarith
    then show ?thesis
    proof cases
      case 2
      then show ?thesis using none [of x] x us cur seq by (auto simp: at_unit_def)
    qed (use cur x(1) in \<open>simp add: at_unit_def\<close>)
  qed
  then show "all_confirmed ?ol" by (auto simp: all_confirmed_def us)
qed

text \<open>Reopening units of a finished outline puts the cursor at the first of them.\<close>

lemma reopened:
  assumes wf: "outline_wf ol" and conf: "all_confirmed ol" and sel: "selected_units ol ids \<noteq> []"
  shows "outline_wf (reopen_units ol ids)" "at_unit (reopen_units ol ids) (reopened_target ol ids)"
    "outline_status (reopen_units ol ids) = outline_status ol" "outline_id (reopen_units ol ids) = outline_id ol"
    "outline_task_id (reopen_units ol ids) = outline_task_id ol" "unit_status (reopened_target ol ids) = US_GENERATING"
proof -
  let ?f = "\<lambda>u. if unit_id u \<in> set ids then set_unit_status US_REVISION_REQUIRED u else u"
  let ?ol = "ol\<lparr>confirmation_units := map ?f (confirmation_units ol)\<rparr>"
  obtain t ts where srt: "sort_key unit_sequence (selected_units ol ids) = t # ts"
    using sel by (cases "sort_key unit_sequence (selected_units ol ids)") auto
  from sort_key_least(1) [OF srt] have tin: "t \<in> set (confirmation_units ol)" "unit_id t \<in> set ids" by (simp_all add: selected_units_def)
  note least = sort_key_least(2) [OF srt]
  have target: "reopened_target ol ids = set_unit_status US_GENERATING t" by (simp add: reopened_target_def srt)
  have wf1: "outline_wf ?ol"
    by (rule outline_wf_kept [OF wf]) (simp_all add: list_all2_conv_all_nth)
  have ft: "?f t \<in> set (confirmation_units ?ol)" using tin(1) by auto
  have k: "unit_kept (?f t) (reopened_target ol ids)" by (simp add: target unit_kept_def set_unit_status_def)
  have "at_unit ?ol (?f t)"
    unfolding at_unit_def
  proof (intro conjI ballI impI)
    show "?f t \<in> set (confirmation_units ?ol)" by (rule ft)
  next
    fix x assume x: "x \<in> set (confirmation_units ?ol)" "unit_sequence x < unit_sequence (?f t)"
    then obtain y where y: "y \<in> set (confirmation_units ol)" "x = ?f y" by auto
    with x(2) have "unit_sequence y < unit_sequence t" by (auto simp: set_unit_status_def split: if_splits)
    with y(1) least have "unit_id y \<notin> set ids" by (force simp: selected_units_def)
    with y conf show "unit_status x = US_CONFIRMED" by (simp add: all_confirmed_def)
  next
    fix x assume "x \<in> set (confirmation_units ?ol)"
    with conf show "unit_status x \<in> {US_PENDING, US_REVISION_REQUIRED, US_CONFIRMED}"
      by (auto simp: all_confirmed_def set_unit_status_def)
  qed
  then show "at_unit (reopen_units ol ids) (reopened_target ol ids)"
    unfolding reopen_units_def by (rule at_unit_put [OF wf1 _ k])
  show "outline_wf (reopen_units ol ids)"
    unfolding reopen_units_def by (rule put_unit_wf [OF wf1 ft k])
qed (simp_all add: reopen_units_def reopened_target_def set_unit_status_def)

subsection \<open>The list of outlines\<close>

lemma live_replace:
  assumes "live os = [ol]" "distinct (map outline_id os)" "outline_id ol' = outline_id ol"
  shows "live (upsert outline_id ol' os) = (if outline_status ol' = OS_SUPERSEDED then [] else [ol'])"
  using assms
proof (induction os)
  case (Cons x os)
  show ?case
  proof (cases "outline_id x = outline_id ol'")
    case True
    with Cons.prems have "ol \<notin> set os" by (auto simp: image_iff)
    moreover have mem: "ol \<in> set (live (x # os))" using Cons.prems(1) by simp
    ultimately have "ol = x" by (auto simp: live_def split: if_splits)
    moreover from mem have "outline_status ol \<noteq> OS_SUPERSEDED" by (auto simp: live_def split: if_splits)
    ultimately have "live os = []" using Cons.prems(1) by (simp add: live_def)
    then show ?thesis using True by (simp add: live_def)
  qed (use Cons in \<open>auto simp: live_def split: if_splits\<close>)
qed (simp add: live_def)

lemma live_append:
  assumes "live os = []" "outline_id ol \<notin> outline_id ` set os" "outline_status ol \<noteq> OS_SUPERSEDED"
  shows "live (upsert outline_id ol os) = [ol]"
  using assms by (simp add: upsert_save_new live_def)

lemma active_outline_live: "active_outline os = last_option (live os)"
  by (simp add: active_outline_def live_def)

section \<open>Runs\<close>

definition runs_keyed :: "Env \<Rightarrow> nat \<Rightarrow> (pystr, AgentRun) dict \<Rightarrow> bool" where
  "runs_keyed env n rs \<longleftrightarrow> dict_wf rs \<and> (\<forall>k x. dict_get rs k = Some x \<longrightarrow>
     run_id x = k \<and> run_time x \<noteq> None \<and> (\<exists>i < n. k = make_id env ''run'' i))"

definition one_active :: "(pystr, AgentRun) dict \<Rightarrow> bool" where
  "one_active rs \<longleftrightarrow> (\<forall>k k' x y. dict_get rs k = Some x \<longrightarrow> dict_get rs k' = Some y \<longrightarrow> run_task_id x = run_task_id y
     \<longrightarrow> run_status x \<in> ACTIVE_RUN_STATUSES \<longrightarrow> run_status y \<in> ACTIVE_RUN_STATUSES \<longrightarrow> k = k')"

text \<open>What a command on one task does to the runs: those of other tasks stay, and some run of the task is there.\<close>

definition runs_touched :: "pystr \<Rightarrow> (pystr, AgentRun) dict \<Rightarrow> (pystr, AgentRun) dict \<Rightarrow> bool" where
  "runs_touched tid rs rs' \<longleftrightarrow>
     (\<forall>k x. run_task_id x \<noteq> tid \<longrightarrow> dict_get rs' k = Some x \<longleftrightarrow> dict_get rs k = Some x)"

lemma runs_touched_refl [simp]: "runs_touched tid rs rs"
  by (simp add: runs_touched_def)

lemma runs_touched_set:
  assumes "runs_touched tid rs rs'" "run_task_id run = tid"
    and "\<And>x. dict_get rs' (run_id run) = Some x \<Longrightarrow> run_task_id x = tid"
  shows "runs_touched tid rs (dict_set (run_id run) run rs')"
  using assms by (auto simp: runs_touched_def)

lemma runs_keyed_set:
  assumes "runs_keyed env n rs" "run_time run \<noteq> None" "run_id run = make_id env ''run'' i" "i < n'" "n \<le> n'"
  shows "runs_keyed env n' (dict_set (run_id run) run rs)"
  using assms unfolding runs_keyed_def by (auto simp: less_le_trans) (metis less_le_trans)+

lemma runs_keyed_mono: "runs_keyed env n rs \<Longrightarrow> n \<le> n' \<Longrightarrow> runs_keyed env n' rs"
  unfolding runs_keyed_def by (meson less_le_trans)

lemma one_active_set:
  assumes "one_active rs" "runs_keyed env n rs"
    and "run_status run \<notin> ACTIVE_RUN_STATUSES \<or>
      (\<forall>x \<in> set (dict_values rs). run_task_id x = run_task_id run \<and> run_status x \<in> ACTIVE_RUN_STATUSES \<longrightarrow> run_id x = run_id run)"
  shows "one_active (dict_set (run_id run) run rs)"
proof -
  have key: "k = run_id run" if "dict_get rs k = Some x" "run_task_id x = run_task_id run" "run_status x \<in> ACTIVE_RUN_STATUSES"
      "run_status run \<in> ACTIVE_RUN_STATUSES" for k x
    using that assms(2,3) dict_get_SomeD [OF that(1)] by (auto simp: runs_keyed_def)
  show ?thesis
    unfolding one_active_def
  proof (intro allI impI)
    fix k k' x y
    assume h: "dict_get (dict_set (run_id run) run rs) k = Some x" "dict_get (dict_set (run_id run) run rs) k' = Some y"
      "run_task_id x = run_task_id y" "run_status x \<in> ACTIVE_RUN_STATUSES" "run_status y \<in> ACTIVE_RUN_STATUSES"
    then show "k = k'"
      using assms(1) key [of k x] key [of k' y] unfolding one_active_def
      by (auto split: if_splits)
  qed
qed

lemma save_run_lone_after:
  assumes "save_run run r = Inr r'" "run_status run \<in> ACTIVE_RUN_STATUSES"
  shows "lone_run run r"
  using assms by (auto simp: save_run_def lone_run_def find_None_iff split: if_splits)

section \<open>The invariant\<close>

definition outline_list_ok :: "Env \<Rightarrow> nat \<Rightarrow> pystr \<Rightarrow> OutlineVersion list \<Rightarrow> bool" where
  "outline_list_ok env n tid os \<longleftrightarrow> distinct (map outline_id os)
     \<and> (\<forall>ol \<in> set os. outline_task_id ol = tid \<and> (\<exists>i < n. outline_id ol = make_id env ''outline'' i))"

definition briefs_of :: "Repo \<Rightarrow> pystr \<Rightarrow> RequirementBriefVersion list" where
  "briefs_of r tid = dict_get_or (rp_briefs r) tid []"

definition has_run :: "(pystr, AgentRun) dict \<Rightarrow> pystr \<Rightarrow> bool" where
  "has_run rs tid \<longleftrightarrow> (\<exists>k x. dict_get rs k = Some x \<and> run_task_id x = tid)"

definition task_ok :: "Env \<Rightarrow> nat \<Rightarrow> Repo \<Rightarrow> pystr \<Rightarrow> Task \<Rightarrow> bool" where
  "task_ok env n r tid t \<longleftrightarrow> task_id t = tid \<and> (\<exists>i < n. tid = make_id env ''task'' i) \<and> briefs_of r tid \<noteq> []
     \<and> has_run (rp_runs r) tid \<and> stage_ok (task_status t) (current_unit_sequence t) (outlines_of r tid)"

definition workflow_invar :: "Env \<Rightarrow> World \<Rightarrow> bool" where
  "workflow_invar env w \<longleftrightarrow> inj (env_uuid env)
     \<and> dict_wf (rp_tasks (w_repo w)) \<and> runs_keyed env (w_uuids w) (rp_runs (w_repo w)) \<and> one_active (rp_runs (w_repo w))
     \<and> (\<forall>tid. outline_list_ok env (w_uuids w) tid (outlines_of (w_repo w) tid))
     \<and> (\<forall>tid. dict_get (rp_tasks (w_repo w)) tid = None \<longrightarrow> \<not> has_run (rp_runs (w_repo w)) tid \<and> outlines_of (w_repo w) tid = [])
     \<and> (\<forall>tid t. dict_get (rp_tasks (w_repo w)) tid = Some t \<longrightarrow> task_ok env (w_uuids w) (w_repo w) tid t)"

text \<open>
  How a task may change: it keeps its identity and its owner, a task with the same version is the
  same task, and its status makes at most one allowed transition for every new version.
\<close>

definition task_grows :: "Task \<Rightarrow> Task \<Rightarrow> bool" where
  "task_grows t t' \<longleftrightarrow> task_id t' = task_id t \<and> task_owner_id t' = task_owner_id t \<and> task_created_at t' = task_created_at t
     \<and> (t' = t \<or> task_version t < task_version t')
     \<and> (\<exists>k. int k \<le> task_version t' - task_version t \<and> (task_status t, task_status t') \<in> {(a, b). b \<in> allowed a} ^^ k)"

lemma task_grows_refl [simp]: "task_grows t t"
  by (auto simp: task_grows_def intro!: exI [of _ "0 :: nat"])

lemma task_grows_step:
  assumes "task_id t' = task_id t" "task_owner_id t' = task_owner_id t" "task_created_at t' = task_created_at t"
    "task_version t' = task_version t + 1" "task_status t' = task_status t \<or> task_status t' \<in> allowed (task_status t)"
  shows "task_grows t t'"
proof -
  let ?E = "{(a, b). b \<in> allowed a}"
  have "\<exists>k. int k \<le> 1 \<and> (task_status t, task_status t') \<in> ?E ^^ k"
    using assms(5) by (auto intro: exI [of _ "0 :: nat"] exI [of _ "1 :: nat"])
  then show ?thesis using assms(1-4) by (simp add: task_grows_def)
qed

lemma task_grows_trans:
  assumes "task_grows t t'" "task_grows t' t''"
  shows "task_grows t t''"
proof -
  let ?E = "{(a, b). b \<in> allowed a}"
  obtain j k where "int j \<le> task_version t' - task_version t" "(task_status t, task_status t') \<in> ?E ^^ j"
    "int k \<le> task_version t'' - task_version t'" "(task_status t', task_status t'') \<in> ?E ^^ k"
    using assms unfolding task_grows_def by blast
  then have "int (j + k) \<le> task_version t'' - task_version t" "(task_status t, task_status t'') \<in> ?E ^^ (j + k)"
    by (auto simp: relpow_add)
  then have "\<exists>k. int k \<le> task_version t'' - task_version t \<and> (task_status t, task_status t'') \<in> ?E ^^ k" by blast
  then show ?thesis using assms unfolding task_grows_def by (elim conjE disjE) simp_all
qed

definition tasks_grow :: "Repo \<Rightarrow> Repo \<Rightarrow> bool" where
  "tasks_grow r r' \<longleftrightarrow> (\<forall>tid t. dict_get (rp_tasks r) tid = Some t \<longrightarrow> (\<exists>t'. dict_get (rp_tasks r') tid = Some t' \<and> task_grows t t'))"

lemma tasks_grow_refl [simp]: "tasks_grow r r"
  by (simp add: tasks_grow_def)

lemma tasks_grow_trans: "tasks_grow r r' \<Longrightarrow> tasks_grow r' r'' \<Longrightarrow> tasks_grow r r''"
  unfolding tasks_grow_def by (meson task_grows_trans)

text \<open>What every command establishes.\<close>

definition sound_step :: "Env \<Rightarrow> World \<Rightarrow> World \<Rightarrow> bool" where
  "sound_step env w w' \<longleftrightarrow> workflow_invar env w' \<and> tasks_grow (w_repo w) (w_repo w')"

lemma sound_step_refl: "workflow_invar env w \<Longrightarrow> sound_step env w w"
  by (simp add: sound_step_def)

text \<open>
  The part of the invariant that holds at every moment of a command on one task, between the
  writes too. What is missing is the place of the outline for the status of the task.
\<close>

definition framed :: "Env \<Rightarrow> pystr \<Rightarrow> Repo \<Rightarrow> nat \<Rightarrow> Repo \<Rightarrow> bool" where
  "framed env tid r0 n r \<longleftrightarrow>
     dict_wf (rp_tasks r) \<and> (\<forall>k. k \<noteq> tid \<longrightarrow> dict_get (rp_tasks r) k = dict_get (rp_tasks r0) k)
     \<and> runs_keyed env n (rp_runs r) \<and> one_active (rp_runs r) \<and> runs_touched tid (rp_runs r0) (rp_runs r)
     \<and> (\<forall>k. k \<noteq> tid \<longrightarrow> outlines_of r k = outlines_of r0 k) \<and> outline_list_ok env n tid (outlines_of r tid)
     \<and> (\<forall>k. k \<noteq> tid \<longrightarrow> briefs_of r k = briefs_of r0 k)
     \<and> has_run (rp_runs r) tid \<and> briefs_of r tid \<noteq> [] \<and> (\<exists>i < n. tid = make_id env ''task'' i)
     \<and> (\<forall>t. dict_get (rp_tasks r0) tid = Some t \<longrightarrow> (\<exists>t'. dict_get (rp_tasks r) tid = Some t' \<and> task_grows t t'))"

lemma framed_start:
  assumes "workflow_invar env w" "dict_get (rp_tasks (w_repo w)) tid = Some t"
  shows "framed env tid (w_repo w) (w_uuids w) (w_repo w)"
  using assms by (simp add: workflow_invar_def framed_def task_ok_def)

lemma outline_list_ok_mono: "outline_list_ok env n tid os \<Longrightarrow> n \<le> n' \<Longrightarrow> outline_list_ok env n' tid os"
  unfolding outline_list_ok_def by (meson less_le_trans)

lemma framed_mono: "framed env tid r0 n r \<Longrightarrow> n \<le> n' \<Longrightarrow> framed env tid r0 n' r"
  unfolding framed_def by (auto intro: runs_keyed_mono outline_list_ok_mono less_le_trans)

lemma framed_cong:
  assumes "rp_tasks r = rp_tasks r'" "rp_runs r = rp_runs r'" "rp_outlines r = rp_outlines r'" "rp_briefs r = rp_briefs r'"
  shows "framed env tid r0 n r = framed env tid r0 n r'"
  using assms by (simp add: framed_def outlines_of_def briefs_of_def)

lemma has_run_set: "has_run rs tid \<Longrightarrow> run_task_id run = tid \<Longrightarrow> has_run (dict_set (run_id run) run rs) tid"
  unfolding has_run_def by (rule exI [of _ "run_id run"]) auto

lemma framed_task:
  assumes "framed env tid r0 n r" "task_id t = tid" "dict_get (rp_tasks r) tid = Some t1" "task_grows t1 t"
  shows "framed env tid r0 n (save_task t r)"
proof -
  have "task_grows t0 t" if "dict_get (rp_tasks r0) tid = Some t0" for t0
    using assms that task_grows_trans by (fastforce simp: framed_def)
  with assms(1,2) show ?thesis by (simp add: framed_def outlines_of_def briefs_of_def save_task_def)
qed

lemma framed_brief: "framed env tid r0 n r \<Longrightarrow> brief_task_id b = tid \<Longrightarrow> framed env tid r0 n (save_brief b r)"
  by (simp add: framed_def outlines_of_def briefs_of_def save_brief_def)

lemma framed_run:
  assumes "framed env tid r0 n r" "run_task_id run = tid" "run_time run \<noteq> None" "run_id run = make_id env ''run'' i" "i < n"
    and "\<And>x. dict_get (rp_runs r) (run_id run) = Some x \<Longrightarrow> run_task_id x = tid"
    and "run_status run \<notin> ACTIVE_RUN_STATUSES \<or> lone_run run r"
  shows "framed env tid r0 n (r\<lparr>rp_runs := dict_set (run_id run) run (rp_runs r)\<rparr>)"
proof -
  have "runs_keyed env n (dict_set (run_id run) run (rp_runs r))"
    by (rule runs_keyed_set [of env n]) (use assms in \<open>simp_all add: framed_def\<close>)
  moreover have "one_active (dict_set (run_id run) run (rp_runs r))"
    by (rule one_active_set [of _ env n]) (use assms in \<open>simp_all add: framed_def lone_run_def\<close>)
  moreover have "runs_touched tid (rp_runs r0) (dict_set (run_id run) run (rp_runs r))"
    by (rule runs_touched_set) (use assms in \<open>simp_all add: framed_def\<close>)
  ultimately show ?thesis
    using assms(1,2) by (simp add: framed_def outlines_of_def briefs_of_def has_run_set)
qed

lemma framed_outline:
  assumes "framed env tid r0 n r" "outline_task_id ol = tid"
    and "outline_id ol \<in> outline_id ` set (outlines_of r tid) \<or> (\<exists>i < n. outline_id ol = make_id env ''outline'' i)"
  shows "framed env tid r0 n (save_outline ol r)"
proof -
  let ?os = "upsert outline_id ol (outlines_of r tid)"
  have ok: "outline_list_ok env n tid (outlines_of r tid)" using assms(1) by (simp add: framed_def)
  then have id: "\<exists>i < n. outline_id ol = make_id env ''outline'' i" using assms(3) by (auto simp: outline_list_ok_def)
  have "outline_list_ok env n tid ?os"
    unfolding outline_list_ok_def
  proof
    show "distinct (map outline_id ?os)"
      using ok by (simp add: outline_list_ok_def outlines.distinct_save)
    show "\<forall>x \<in> set ?os. outline_task_id x = tid \<and> (\<exists>i < n. outline_id x = make_id env ''outline'' i)"
      using ok id assms(2) upsert_save_sub [of outline_id ol "outlines_of r tid"] unfolding outline_list_ok_def by blast
  qed
  with assms(1,2) show ?thesis
    by (simp add: framed_def outlines_of_def briefs_of_def save_outline_def)
qed

lemma outlines_of_save: "outline_task_id ol = tid \<Longrightarrow> outlines_of (save_outline ol r) tid = upsert outline_id ol (outlines_of r tid)"
  by (simp add: outlines_of_def)

lemma has_run_touched: "runs_touched tid rs rs' \<Longrightarrow> k \<noteq> tid \<Longrightarrow> has_run rs' k = has_run rs k"
  unfolding runs_touched_def has_run_def by metis

lemma framed_finish:
  assumes inv: "workflow_invar env w" and fr: "framed env tid (w_repo w) n (w_repo w')" and n: "w_uuids w \<le> n" "w_uuids w' = n"
    and t: "dict_get (rp_tasks (w_repo w')) tid = Some t" "task_id t = tid"
    and st: "stage_ok (task_status t) (current_unit_sequence t) (outlines_of (w_repo w') tid)"
  shows "sound_step env w w'"
proof -
  let ?r = "w_repo w" and ?r' = "w_repo w'"
  have others: "dict_get (rp_tasks ?r') k = dict_get (rp_tasks ?r) k" "outlines_of ?r' k = outlines_of ?r k" "briefs_of ?r' k = briefs_of ?r k"
    "has_run (rp_runs ?r') k = has_run (rp_runs ?r) k" if "k \<noteq> tid" for k
    using fr that has_run_touched [of tid "rp_runs ?r" "rp_runs ?r'" k] by (simp_all add: framed_def)
  have "outline_list_ok env (w_uuids w') k (outlines_of ?r' k)" for k
    using fr n inv others [of k] by (cases "k = tid") (auto simp: framed_def workflow_invar_def intro: outline_list_ok_mono)
  moreover have "\<not> has_run (rp_runs ?r') k \<and> outlines_of ?r' k = []" if "dict_get (rp_tasks ?r') k = None" for k
    using that t inv others [of k] by (cases "k = tid") (auto simp: workflow_invar_def)
  moreover have "task_ok env (w_uuids w') ?r' k x" if "dict_get (rp_tasks ?r') k = Some x" for k x
  proof (cases "k = tid")
    case True
    with that t st fr n show ?thesis by (simp add: task_ok_def framed_def)
  next
    case False
    with that inv others [of k] have "task_ok env (w_uuids w) ?r k x" by (simp add: workflow_invar_def)
    with others [OF False] n show ?thesis unfolding task_ok_def by (metis less_le_trans)
  qed
  ultimately have "workflow_invar env w'"
    using inv fr n by (simp add: workflow_invar_def framed_def)
  moreover have "tasks_grow ?r ?r'"
    unfolding tasks_grow_def
  proof (intro allI impI)
    fix k x assume "dict_get (rp_tasks ?r) k = Some x"
    then show "\<exists>t'. dict_get (rp_tasks ?r') k = Some t' \<and> task_grows x t'"
      using fr others(1) [of k] by (cases "k = tid") (simp_all add: framed_def)
  qed
  ultimately show ?thesis by (simp add: sound_step_def)
qed

section \<open>The run a command opens\<close>

definition opened :: "pystr \<Rightarrow> AgentRun \<Rightarrow> Repo \<Rightarrow> bool" where
  "opened tid run r \<longleftrightarrow> run_task_id run = tid \<and> run_status run = RS_RUNNING \<and> dict_get (rp_runs r) (run_id run) = Some run"

lemma framed_keyed: "framed env tid r0 n r \<Longrightarrow> dict_get (rp_runs r) k = Some x \<Longrightarrow> run_id x = k \<and> run_time x \<noteq> None \<and> (\<exists>i < n. k = make_id env ''run'' i)"
  by (simp add: framed_def runs_keyed_def)

lemma framed_values:
  assumes "framed env tid r0 n r" "x \<in> set (dict_values (rp_runs r))"
  shows "dict_get (rp_runs r) (run_id x) = Some x"
  using assms set_dict_values [of "rp_runs r" x] framed_keyed [OF assms(1)] by (auto simp: framed_def runs_keyed_def)

lemma opened_lone:
  assumes fr: "framed env tid r0 n r" and op: "opened tid run r"
  shows "lone_run run r"
  unfolding lone_run_def
proof (intro ballI impI, elim conjE)
  fix x assume "x \<in> set (dict_values (rp_runs r))" "run_task_id x = run_task_id run" "run_status x \<in> ACTIVE_RUN_STATUSES"
  moreover have "one_active (rp_runs r)" using fr by (simp add: framed_def)
  ultimately show "run_id x = run_id run"
    using op framed_values [OF fr] unfolding one_active_def opened_def ACTIVE_RUN_STATUSES_def by (metis insertCI)
qed

lemma opened_timed: "framed env tid r0 n r \<Longrightarrow> timed_runs r k"
  using framed_values framed_keyed by (fastforce simp: timed_runs_def task_runs_def)

lemma opened_ready:
  assumes "framed env tid r0 n r" "opened tid run r" "task_status task = TS_GENERATING" "task_id task = tid" "dict_get (rp_tasks r) tid = Some t"
  shows "ready task run r"
  using assms opened_lone [OF assms(1,2)] opened_timed [OF assms(1)] framed_keyed [OF assms(1)] by (auto simp: ready_def opened_def)

lemma framed_update_run:
  assumes fr: "framed env tid r0 n r" and op: "opened tid run r"
    and run': "run_id run' = run_id run" "run_task_id run' = run_task_id run" "run_time run' \<noteq> None"
  shows "framed env tid r0 n (r\<lparr>rp_runs := dict_set (run_id run) run' (rp_runs r)\<rparr>)"
proof -
  obtain i where "i < n" "run_id run = make_id env ''run'' i" using framed_keyed [OF fr] op by (auto simp: opened_def)
  moreover have "lone_run run' r" using opened_lone [OF fr op] run' by (simp add: lone_run_def)
  ultimately show ?thesis
    using framed_run [OF fr, of run' i] op run' by (simp add: opened_def)
qed

end
