(* ===== verification/Workflow_Preservation.thy ===== *)
theory Workflow_Preservation
  imports Workflow_Invariant
begin

text \<open>
  Every command of the service keeps the invariant of the repository, whether it returns or raises.
\<close>

section \<open>The ends of the commands\<close>

lemma rp_briefs_writes [simp]:
  "rp_briefs (save_outline ol r) = rp_briefs r" "rp_briefs (save_task t r) = rp_briefs r"
  "rp_briefs (append_event eid now tid ty p r) = rp_briefs r" "rp_briefs (save_checkpoint th c r) = rp_briefs r"
  by (simp_all add: save_outline_def save_task_def append_event_def save_event_def save_checkpoint_def)

lemma live_mem: "live os = ol # ols \<Longrightarrow> ol \<in> set os"
  by (metis filter_is_subset list.set_intros(1) live_def subsetD)

lemma wp_uuids:
  assumes "keeps (\<lambda>w w'. w_uuids w \<le> w_uuids w' \<and> w_ticks w \<le> w_ticks w') m"
    and "wp m (\<lambda>x w'. w_uuids w \<le> w_uuids w' \<longrightarrow> Q x w') (\<lambda>e w'. w_uuids w \<le> w_uuids w' \<longrightarrow> E e w') w"
  shows "wp m Q E w"
proof -
  have "wp m (\<lambda>_ w'. w_uuids w \<le> w_uuids w') (\<lambda>_ w'. w_uuids w \<le> w_uuids w') w"
    by (rule keeps_wp [OF assms(1)]) simp_all
  from wp_conj [OF this assms(2)] show ?thesis by (rule wp_mono) simp_all
qed

lemma framed_generated:
  assumes fr: "framed env tid r0 n r" and op: "opened tid run r" and ol: "outline_task_id ol = tid" "outline_id ol \<in> outline_id ` set (outlines_of r tid)"
    and gen: "generated run ol u r r'"
  obtains u' where "framed env tid r0 n r'" "rp_tasks r' = rp_tasks r" "unit_kept u u'"
    "awaiting u'"
    "outlines_of r' tid = upsert outline_id (put_unit u' ol) (outlines_of r tid)"
proof -
  from gen obtain u' where u': "unit_kept u u'" "awaiting u'"
    and e: "effect r r' (rp_tasks r) (dict_set (run_id run) (run\<lparr>run_status := RS_WAITING_USER\<rparr>) (rp_runs r))
            (rp_outlines (save_outline (put_unit u' ol) r))"
    unfolding generated_def by blast
  let ?r = "r\<lparr>rp_runs := dict_set (run_id run) (run\<lparr>run_status := RS_WAITING_USER\<rparr>) (rp_runs r)\<rparr>"
  have "framed env tid r0 n ?r"
    by (rule framed_update_run [OF fr op]) (use framed_keyed [OF fr] op in \<open>auto simp: opened_def\<close>)
  then have "framed env tid r0 n (save_outline (put_unit u' ol) ?r)"
    by (rule framed_outline) (use ol in \<open>simp_all add: outlines_of_def\<close>)
  then have "framed env tid r0 n r'"
    by (rule framed_cong [THEN iffD1, rotated -1]) (use e in \<open>simp_all add: effect_def unwritten_def\<close>)
  moreover have "outlines_of r' tid = upsert outline_id (put_unit u' ol) (outlines_of r tid)"
    using e ol by (simp add: effect_def outlines_of_def)
  ultimately show ?thesis using that u' e by (simp add: effect_def)
qed

lemma framed_failed:
  assumes fr: "framed env tid r0 n r" and op: "opened tid run r" and ol: "outline_task_id ol = tid" "outline_id ol \<in> outline_id ` set (outlines_of r tid)"
    and task: "dict_get (rp_tasks r) tid = Some task" "task_id task = tid" "task_status task = TS_GENERATING"
    and gen: "generation_failed task run ol u r r'"
  obtains t where "framed env tid r0 n r'" "dict_get (rp_tasks r') tid = Some t" "task_id t = tid" "task_status t = TS_FAILED"
proof -
  from gen obtain u' now exc ended where e: "effect r r'
       (dict_set (task_id task) (task\<lparr>task_status := TS_FAILED, task_version := task_version task + 1, task_updated_at := now\<rparr>) (rp_tasks r))
       (dict_set (run_id run) (run\<lparr>run_status := RS_FAILED, run_error := Some exc, ended_at := Some ended\<rparr>) (rp_runs r))
       (rp_outlines (save_outline (put_unit u' ol) r))"
    unfolding generation_failed_def by blast
  let ?t = "task\<lparr>task_status := TS_FAILED, task_version := task_version task + 1, task_updated_at := now\<rparr>"
  let ?r = "r\<lparr>rp_runs := dict_set (run_id run) (run\<lparr>run_status := RS_FAILED, run_error := Some exc, ended_at := Some ended\<rparr>) (rp_runs r)\<rparr>"
  have "framed env tid r0 n ?r"
    by (rule framed_update_run [OF fr op]) (simp_all add: run_time_def split: option.split)
  then have "framed env tid r0 n (save_outline (put_unit u' ol) ?r)"
    by (rule framed_outline) (use ol in \<open>simp_all add: outlines_of_def\<close>)
  then have "framed env tid r0 n (save_task ?t (save_outline (put_unit u' ol) ?r))"
    by (rule framed_task [where ?t1.0 = task]) (use task in \<open>auto intro: task_grows_step\<close>)
  then have "framed env tid r0 n r'"
    by (rule framed_cong [THEN iffD1, rotated -1]) (use e in \<open>simp_all add: effect_def unwritten_def\<close>)
  then show ?thesis by (rule that [where t = ?t]) (use e task in \<open>simp_all add: effect_def\<close>)
qed

lemma invar_generate_unit:
  assumes inv: "workflow_invar env w0" and fr: "framed env tid (w_repo w0) (w_uuids w) (w_repo w)" and n: "w_uuids w0 \<le> w_uuids w"
    and op: "opened tid run (w_repo w)"
    and task: "dict_get (rp_tasks (w_repo w)) tid = Some task" "task_id task = tid" "task_status task = TS_GENERATING"
      "current_unit_sequence task = Some (unit_sequence u)"
    and ol: "live (outlines_of (w_repo w) tid) = [ol]" "outline_wf ol" "outline_status ol = OS_CONFIRMED" "at_unit ol u"
  shows "wp (generate_unit env task run ol u b) (\<lambda>_. sound_step env w0) (\<lambda>_. sound_step env w0) w"
proof (rule wp_uuids [OF counters.keeps_generate_unit], rule wp_generate_unit [OF opened_ready [OF fr op task(3,2,1)]])
  have mem: "ol \<in> set (outlines_of (w_repo w) tid)" using ol(1) by (rule live_mem)
  have lok: "outline_list_ok env (w_uuids w) tid (outlines_of (w_repo w) tid)" using fr by (simp add: framed_def)
  have tid: "outline_task_id ol = tid" "outline_id ol \<in> outline_id ` set (outlines_of (w_repo w) tid)"
    using mem lok by (auto simp: outline_list_ok_def)
  {
    fix w' :: World assume "generated run ol u (w_repo w) (w_repo w')"
    from framed_generated [OF fr op tid this] obtain u' where g: "framed env tid (w_repo w0) (w_uuids w) (w_repo w')"
      "rp_tasks (w_repo w') = rp_tasks (w_repo w)" "unit_kept u u'" "awaiting u'"
      "outlines_of (w_repo w') tid = upsert outline_id (put_unit u' ol) (outlines_of (w_repo w) tid)" .
    have lv: "live (outlines_of (w_repo w') tid) = [put_unit u' ol]"
      using live_replace [OF ol(1), of "put_unit u' ol"] lok ol(3) g(5) by (simp add: outline_list_ok_def)
    have u: "u \<in> set (confirmation_units ol)" using ol(4) by (simp add: at_unit_def)
    have "stage_ok (task_status task) (current_unit_sequence task) (outlines_of (w_repo w') tid)"
      using lv put_unit_wf [OF ol(2) u g(3)] at_unit_put [OF ol(2,4) g(3)] ol(3) g(3,4) task(3,4)
      by (auto simp: unit_kept_def)
    then show "w_uuids w \<le> w_uuids w' \<longrightarrow> sound_step env w0 w'" for x
      using framed_finish [OF inv framed_mono [OF g(1)]] n task g(2) by simp
  next
    fix w' :: World assume "generation_failed task run ol u (w_repo w) (w_repo w')"
    from framed_failed [OF fr op tid task(1,2,3) this] obtain t where g: "framed env tid (w_repo w0) (w_uuids w) (w_repo w')"
      "dict_get (rp_tasks (w_repo w')) tid = Some t" "task_id t = tid" "task_status t = TS_FAILED" .
    then show "w_uuids w \<le> w_uuids w' \<longrightarrow> sound_step env w0 w'" for e
      using framed_finish [OF inv framed_mono [OF g(1)]] n by simp
  }
qed

lemma framed_new_id: "framed env tid r0 n r \<Longrightarrow> inj (env_uuid env) \<Longrightarrow> make_id env ''outline'' n \<notin> outline_id ` set (outlines_of r tid)"
  by (auto simp: framed_def outline_list_ok_def make_id_inj)

lemma framed_outlined:
  assumes inj: "inj (env_uuid env)" and fr: "framed env tid r0 n r" and op: "opened tid run r"
    and task: "dict_get (rp_tasks r) tid = Some task" "task_id task = tid" "task_status task = TS_CLARIFYING"
    and lv: "live (outlines_of r tid) = []" and out: "outlined env n task run r r'"
  obtains t where "framed env tid r0 (Suc n) r'" "dict_get (rp_tasks r') tid = Some t" "task_id t = tid"
    "stage_ok (task_status t) (current_unit_sequence t) (outlines_of r' tid)"
proof -
  from out obtain ol now where new: "new_outline env n (task_id task) ol"
    and e: "effect r r' (dict_set (task_id task) (task\<lparr>task_status := TS_OUTLINE_REVIEW, task_version := task_version task + 1,
               current_outline_version := Some (outline_version ol), task_updated_at := now\<rparr>) (rp_tasks r))
            (dict_set (run_id run) (run\<lparr>run_status := RS_WAITING_USER\<rparr>) (rp_runs r)) (rp_outlines (save_outline ol r))"
    unfolding outlined_def by blast
  let ?t = "task\<lparr>task_status := TS_OUTLINE_REVIEW, task_version := task_version task + 1,
               current_outline_version := Some (outline_version ol), task_updated_at := now\<rparr>"
  let ?r = "r\<lparr>rp_runs := dict_set (run_id run) (run\<lparr>run_status := RS_WAITING_USER\<rparr>) (rp_runs r)\<rparr>"
  have ol: "outline_task_id ol = tid" using new task by (simp add: new_outline_def)
  have "framed env tid r0 (Suc n) ?r"
    by (rule framed_mono [OF framed_update_run [OF fr op]]) (use framed_keyed [OF fr] op in \<open>auto simp: opened_def\<close>)
  then have "framed env tid r0 (Suc n) (save_outline ol ?r)"
    by (rule framed_outline) (use ol new in \<open>auto simp: new_outline_def\<close>)
  then have "framed env tid r0 (Suc n) (save_task ?t (save_outline ol ?r))"
    by (rule framed_task [where ?t1.0 = task]) (use task in \<open>auto intro: task_grows_step\<close>)
  then have fr': "framed env tid r0 (Suc n) r'"
    by (rule framed_cong [THEN iffD1, rotated -1]) (use e in \<open>simp_all add: effect_def unwritten_def\<close>)
  have "live (outlines_of r' tid) = live (upsert outline_id ol (outlines_of r tid))"
    using e ol by (simp add: effect_def outlines_of_def)
  also have "\<dots> = [ol]"
    by (rule live_append [OF lv]) (use new framed_new_id [OF fr inj] in \<open>simp_all add: new_outline_def\<close>)
  finally have "stage_ok (task_status ?t) (current_unit_sequence ?t) (outlines_of r' tid)"
    using new by (simp add: new_outline_def)
  with fr' show ?thesis by (rule_tac that [where t = ?t]) (use e task in \<open>simp_all add: effect_def\<close>)
qed

lemma invar_generate_outline:
  assumes inv: "workflow_invar env w0" and fr: "framed env tid (w_repo w0) (w_uuids w) (w_repo w)" and n: "w_uuids w0 \<le> w_uuids w"
    and op: "opened tid run (w_repo w)"
    and task: "dict_get (rp_tasks (w_repo w)) tid = Some task" "task_id task = tid" "task_status task = TS_CLARIFYING"
    and lv: "live (outlines_of (w_repo w) tid) = []"
  shows "wp (generate_outline env task run b) (\<lambda>_. sound_step env w0) (\<lambda>_. sound_step env w0) w"
proof (rule wp_uuids [OF counters.keeps_generate_outline])
  have inj: "inj (env_uuid env)" using inv by (simp add: workflow_invar_def)
  have 1: "sound_step env w0 w'" if out: "outlined env (w_uuids w) task run (w_repo w) (w_repo w')" and lt: "w_uuids w < w_uuids w'" for w' :: World
  proof -
    from framed_outlined [OF inj fr op task lv out] obtain t where t: "framed env tid (w_repo w0) (Suc (w_uuids w)) (w_repo w')"
      "dict_get (rp_tasks (w_repo w')) tid = Some t" "task_id t = tid"
      "stage_ok (task_status t) (current_unit_sequence t) (outlines_of (w_repo w') tid)" .
    show ?thesis by (rule framed_finish [OF inv framed_mono [OF t(1)] _ _ t(2,3,4)]) (use n lt in simp_all)
  qed
  have 2: "sound_step env w0 w'" if "w_repo w' = w_repo w" "w_uuids w \<le> w_uuids w'" for w' :: World
    by (rule framed_finish [OF inv framed_mono [OF fr [folded that(1)]], where t = task]) (use that n task lv in simp_all)
  show "wp (generate_outline env task run b) (\<lambda>_ w'. w_uuids w \<le> w_uuids w' \<longrightarrow> sound_step env w0 w')
      (\<lambda>_ w'. w_uuids w \<le> w_uuids w' \<longrightarrow> sound_step env w0 w') w"
    by (rule wp_generate_outline [OF task(3) opened_lone [OF fr op] inj]) (simp_all add: 1 2)
qed

lemma invar_await:
  assumes inv: "workflow_invar env w0" and fr: "framed env tid (w_repo w0) (w_uuids w) (w_repo w)" and n: "w_uuids w0 \<le> w_uuids w"
    and op: "opened tid run (w_repo w)"
    and task: "dict_get (rp_tasks (w_repo w)) tid = Some task" "task_id task = tid" "task_status task = TS_CLARIFYING"
    and lv: "live (outlines_of (w_repo w) tid) = []"
  shows "wp (await_clarification env task run b) (\<lambda>_. sound_step env w0) (\<lambda>_. sound_step env w0) w"
proof (rule wp_uuids [OF counters.keeps_await])
  let ?r = "(w_repo w)\<lparr>rp_runs := dict_set (run_id run) (run\<lparr>run_status := RS_WAITING_USER\<rparr>) (rp_runs (w_repo w))\<rparr>"
  have "framed env tid (w_repo w0) (w_uuids w) ?r"
    by (rule framed_update_run [OF fr op]) (use framed_keyed [OF fr] op in \<open>auto simp: opened_def\<close>)
  then have fr': "framed env tid (w_repo w0) (w_uuids w) r'" if "waiting run (w_repo w) r'" for r'
    by (rule framed_cong [THEN iffD1, rotated -1]) (use that in \<open>simp_all add: waiting_def effect_def unwritten_def\<close>)
  have 1: "sound_step env w0 w'" if wt: "waiting run (w_repo w) (w_repo w')" and le: "w_uuids w \<le> w_uuids w'" for w' :: World
    by (rule framed_finish [OF inv framed_mono [OF fr' [OF wt]], where t = task])
      (use wt le n task lv in \<open>simp_all add: waiting_def effect_def outlines_of_def\<close>)
  show "wp (await_clarification env task run b) (\<lambda>_ w'. w_uuids w \<le> w_uuids w' \<longrightarrow> sound_step env w0 w')
      (\<lambda>_ w'. w_uuids w \<le> w_uuids w' \<longrightarrow> sound_step env w0 w') w"
    by (rule wp_await_clarification [OF opened_lone [OF fr op]]) (simp_all add: 1)
qed

section \<open>Changing runs\<close>

definition runs_only :: "Repo \<Rightarrow> Repo \<Rightarrow> bool" where
  "runs_only r r' \<longleftrightarrow> (\<exists>rs. r' = r\<lparr>rp_runs := rs\<rparr>)"

lemma runs_only_fields:
  "runs_only r r' \<Longrightarrow> rp_tasks r' = rp_tasks r" "runs_only r r' \<Longrightarrow> outlines_of r' = outlines_of r"
  "runs_only r r' \<Longrightarrow> rp_outlines r' = rp_outlines r" "runs_only r r' \<Longrightarrow> rp_briefs r' = rp_briefs r"
  by (auto simp: runs_only_def outlines_of_def)

lemma framed_new_run:
  assumes "framed env tid r0 n r" "inj (env_uuid env)"
  shows "dict_get (rp_runs r) (make_id env ''run'' n) = None"
proof (rule ccontr)
  assume "dict_get (rp_runs r) (make_id env ''run'' n) \<noteq> None"
  then obtain x where "dict_get (rp_runs r) (make_id env ''run'' n) = Some x" by blast
  from framed_keyed [OF assms(1) this] show False by (auto simp: make_id_inj [OF assms(2)])
qed

lemma wp_new_run:
  assumes inj: "inj (env_uuid env)" and fr: "framed env tid r0 (w_uuids w) (w_repo w)"
    and ok: "\<And>run w'. opened tid run (w_repo w') \<Longrightarrow> framed env tid r0 (w_uuids w') (w_repo w') \<Longrightarrow> w_uuids w' = Suc (w_uuids w) \<Longrightarrow> runs_only (w_repo w) (w_repo w')
      \<Longrightarrow> wp (k run) Q E w'"
    and err: "\<And>e w'. w_repo w' = w_repo w \<Longrightarrow> w_uuids w' = Suc (w_uuids w) \<Longrightarrow> E e w'"
  shows "wp (bindM (open_run env tid thread h key) (\<lambda>run. thenM (save_runM run) (k run))) Q E w"
proof -
  let ?run = "make_run (make_id env ''run'' (w_uuids w)) tid thread RS_RUNNING h key (env_clock env (w_ticks w)) None None"
  let ?w = "w\<lparr>w_uuids := Suc (w_uuids w), w_ticks := Suc (w_ticks w)\<rparr>"
  let ?r = "(w_repo w)\<lparr>rp_runs := dict_set (run_id ?run) ?run (rp_runs (w_repo w))\<rparr>"
  have f [simp]: "run_id ?run = make_id env ''run'' (w_uuids w)" "run_task_id ?run = tid" "run_status ?run = RS_RUNNING" "run_time ?run \<noteq> None"
    by (simp_all add: make_run_def run_time_def)
  show ?thesis
  proof (cases "save_run ?run (w_repo w)")
    case (Inl e)
    then show ?thesis using err [of ?w] by (simp add: open_run_def wp_rules)
  next
    case (Inr r)
    then have r: "r = ?r" by (rule save_run_Inr)
    have lone: "lone_run ?run (w_repo w)" by (rule save_run_lone_after [OF Inr]) (simp add: ACTIVE_RUN_STATUSES_def)
    have "framed env tid r0 (Suc (w_uuids w)) ?r"
      by (rule framed_run [OF framed_mono [OF fr], where i = "w_uuids w"]) (use lone framed_new_run [OF fr inj] in simp_all)
    then have "wp (k ?run) Q E (?w\<lparr>w_repo := ?r\<rparr>)"
      by (intro ok) (auto simp: opened_def runs_only_def)
    then show ?thesis using Inr by (simp add: open_run_def wp_rules r)
  qed
qed

lemma framed_close_run:
  assumes fr: "framed env tid r0 n r" and old: "dict_get (rp_runs r) (run_id old) = Some old" "run_task_id old = tid"
  shows "framed env tid r0 n (r\<lparr>rp_runs := dict_set (run_id old) (old\<lparr>run_status := RS_SUCCEEDED, ended_at := Some now\<rparr>) (rp_runs r)\<rparr>)"
proof -
  let ?old = "old\<lparr>run_status := RS_SUCCEEDED, ended_at := Some now\<rparr>"
  obtain i where "i < n" "run_id old = make_id env ''run'' i" using framed_keyed [OF fr old(1)] by blast
  then have "framed env tid r0 n (r\<lparr>rp_runs := dict_set (run_id ?old) ?old (rp_runs r)\<rparr>)"
    by (intro framed_run [OF fr, where i = i])
      (use old in \<open>auto simp: run_time_def ACTIVE_RUN_STATUSES_def split: option.split\<close>)
  then show ?thesis by simp
qed

text \<open>Closing the latest run and opening the next one.\<close>

lemma wp_switch_run:
  assumes inj: "inj (env_uuid env)" and fr: "framed env tid r0 (w_uuids w) (w_repo w)"
    and old: "dict_get (rp_runs (w_repo w)) (run_id old) = Some old" "run_task_id old = tid"
    and ok: "\<And>run w'. opened tid run (w_repo w') \<Longrightarrow> framed env tid r0 (w_uuids w') (w_repo w') \<Longrightarrow> w_uuids w' = Suc (w_uuids w) \<Longrightarrow> runs_only (w_repo w) (w_repo w')
      \<Longrightarrow> wp (k run) Q E w'"
    and err: "\<And>e w'. framed env tid r0 (w_uuids w') (w_repo w') \<Longrightarrow> runs_only (w_repo w) (w_repo w') \<Longrightarrow> w_uuids w' = Suc (w_uuids w) \<Longrightarrow> E e w'"
  shows "wp (thenM (close_run env old) (bindM (open_run env tid thread h key) (\<lambda>run. thenM (save_runM run) (k run)))) Q E w"
proof -
  let ?old = "old\<lparr>run_status := RS_SUCCEEDED, ended_at := Some (env_clock env (w_ticks w))\<rparr>"
  let ?r = "(w_repo w)\<lparr>rp_runs := dict_set (run_id old) ?old (rp_runs (w_repo w))\<rparr>"
  let ?w = "w\<lparr>w_ticks := Suc (w_ticks w), w_repo := ?r\<rparr>"
  have fr': "framed env tid r0 (w_uuids w) ?r" by (rule framed_close_run [OF fr old])
  have ro: "runs_only (w_repo w) r" if "runs_only ?r r" for r
    using that by (auto simp: runs_only_def)
  have "wp (bindM (open_run env tid thread h key) (\<lambda>run. thenM (save_runM run) (k run))) Q E ?w"
  proof (rule wp_new_run [OF inj])
    show "framed env tid r0 (w_uuids ?w) (w_repo ?w)" using fr' by simp
  next
    fix run and w' :: World
    assume "opened tid run (w_repo w')" "framed env tid r0 (w_uuids w') (w_repo w')" "w_uuids w' = Suc (w_uuids ?w)" "runs_only (w_repo ?w) (w_repo w')"
    then show "wp (k run) Q E w'" by (intro ok ro) simp_all
  next
    fix e and w' :: World
    assume "w_repo w' = w_repo ?w" "w_uuids w' = Suc (w_uuids ?w)"
    then show "E e w'" using fr' by (intro err) (auto simp: runs_only_def intro: framed_mono)
  qed
  moreover have "save_run ?old (w_repo w) = Inr ?r"
    using save_run_inactive [of ?old "w_repo w"] by (simp add: ACTIVE_RUN_STATUSES_def)
  ultimately show ?thesis by (simp add: close_run_def wp_then wp_bind wp_now wp_save_run)
qed

section \<open>The beginnings of the commands\<close>

definition reads :: "pystr \<Rightarrow> WorkflowSnapshot \<Rightarrow> Repo \<Rightarrow> bool" where
  "reads tid snap r \<longleftrightarrow> dict_get (rp_tasks r) tid = Some (ss_task snap) \<and> task_id (ss_task snap) = tid
     \<and> dict_get (rp_runs r) (run_id (ss_run snap)) = Some (ss_run snap) \<and> run_task_id (ss_run snap) = tid
     \<and> ss_outlines snap = outlines_of r tid \<and> ss_briefs snap = briefs_of r tid
     \<and> stage_ok (task_status (ss_task snap)) (current_unit_sequence (ss_task snap)) (outlines_of r tid)"

lemma latest_run_mem:
  assumes "latest_run r tid = Inr run"
  shows "run \<in> set (task_runs r tid)"
proof -
  have "task_runs r tid \<noteq> []" using assms by (auto simp: latest_run_def)
  then have "last (sort_key (\<lambda>x. the (run_time x)) (task_runs r tid)) \<in> set (task_runs r tid)"
    by (metis last_in_set set_sort sort_key_empty)
  moreover have "run = last (sort_key (\<lambda>x. the (run_time x)) (task_runs r tid)) \<or> task_runs r tid = [run]"
    using assms by (simp add: latest_run_def split: list.splits if_splits)
  ultimately show ?thesis by auto
qed

lemma invar_reads:
  assumes inv: "workflow_invar env w" and snap: "snapshot (w_repo w) tid = Inr snap"
  shows "reads tid snap (w_repo w)"
proof -
  let ?r = "w_repo w"
  from snap obtain t run where t: "dict_get (rp_tasks ?r) tid = Some t" and run: "latest_run ?r tid = Inr run"
    and s: "ss_task snap = t" "ss_run snap = run" "ss_outlines snap = outlines_of ?r tid" "ss_briefs snap = briefs_of ?r tid"
    by (auto simp: snapshot_def get_task_def outlines_of_def briefs_of_def bindE_Inr split: option.splits)
  have fr: "framed env tid ?r (w_uuids w) ?r" by (rule framed_start [OF inv t])
  from latest_run_mem [OF run] have "run \<in> set (dict_values (rp_runs ?r))" "run_task_id run = tid" by (auto simp: task_runs_def)
  moreover have "task_ok env (w_uuids w) ?r tid t" using inv t by (simp add: workflow_invar_def)
  ultimately show ?thesis using t s framed_values [OF fr] by (simp add: reads_def task_ok_def)
qed

lemma snapshot_for_owner_Inr: "snapshot_for_owner r tid actor = Inr snap \<Longrightarrow> snapshot r tid = Inr snap"
  by (auto simp: snapshot_for_owner_def bindE_Inr split: if_splits)

lemma invar_replay:
  assumes "workflow_invar env w" "wp body (\<lambda>_. sound_step env w) (\<lambda>_. sound_step env w) w"
  shows "wp (replayM actor key h body) (\<lambda>_. sound_step env w) (\<lambda>_. sound_step env w) w"
  using assms sound_step_refl by (simp add: wp_replay split: option.splits sum.splits)

lemma invar_owned:
  assumes inv: "workflow_invar env w"
    and "\<And>snap. reads tid snap (w_repo w) \<Longrightarrow> wp (k snap) (\<lambda>_. sound_step env w) (\<lambda>_. sound_step env w) w"
  shows "wp (bindM (owned_snapshot tid actor) k) (\<lambda>_. sound_step env w) (\<lambda>_. sound_step env w) w"
  using assms sound_step_refl invar_reads [OF inv snapshot_for_owner_Inr] by (simp add: owned_snapshot_def wp_bind wp_readR split: sum.split)

lemma reads_current_outline: "reads tid snap r \<Longrightarrow> live (outlines_of r tid) = [ol] \<Longrightarrow> current_outline snap = Some ol"
  by (simp add: reads_def current_outline_def active_outline_live last_option_def)

lemma framed_writes [simp]:
  "framed env tid r0 n (append_event eid now k ty p r) = framed env tid r0 n r"
  "framed env tid r0 n (save_checkpoint th c r) = framed env tid r0 n r"
  "framed env tid r0 n (save_idempotency rec r) = framed env tid r0 n r"
  "framed env tid r0 n (save_message m r) = framed env tid r0 n r"
  "framed env tid r0 n (save_section k sec r) = framed env tid r0 n r"
  "framed env tid r0 n (save_document d r) = framed env tid r0 n r"
  "framed env tid r0 n (save_quality_result k q r) = framed env tid r0 n r"
  by (rule framed_cong; simp add: save_idempotency_def save_message_def save_section_def save_document_def save_quality_result_def)+

lemma outlines_of_writes [simp]:
  "outlines_of (append_event eid now k ty p r) = outlines_of r" "outlines_of (save_checkpoint th c r) = outlines_of r"
  "outlines_of (save_idempotency rec r) = outlines_of r" "outlines_of (save_message m r) = outlines_of r"
  "outlines_of (save_section k sec r) = outlines_of r" "outlines_of (save_document d r) = outlines_of r"
  "outlines_of (save_quality_result k q r) = outlines_of r" "outlines_of (save_task t r) = outlines_of r"
  "outlines_of (save_brief b r) = outlines_of r" "outlines_of (r\<lparr>rp_runs := rs\<rparr>) = outlines_of r"
  by (simp_all add: fun_eq_iff outlines_of_def save_idempotency_def save_message_def save_section_def save_document_def
      save_quality_result_def save_brief_def)

lemma tasks_writes [simp]:
  "rp_tasks (save_idempotency rec r) = rp_tasks r" "rp_tasks (save_message m r) = rp_tasks r"
  "rp_tasks (save_section k sec r) = rp_tasks r" "rp_tasks (save_document d r) = rp_tasks r"
  "rp_tasks (save_quality_result k q r) = rp_tasks r" "rp_tasks (save_brief b r) = rp_tasks r"
  by (simp_all add: save_idempotency_def save_message_def save_section_def save_document_def save_quality_result_def save_brief_def)

lemma runs_writes [simp]:
  "rp_runs (save_idempotency rec r) = rp_runs r" "rp_runs (save_message m r) = rp_runs r"
  "rp_runs (save_section k sec r) = rp_runs r" "rp_runs (save_document d r) = rp_runs r"
  "rp_runs (save_quality_result k q r) = rp_runs r" "rp_runs (save_brief b r) = rp_runs r"
  by (simp_all add: save_idempotency_def save_message_def save_section_def save_document_def save_quality_result_def save_brief_def)

lemmas wp_guard = wp_then [where m = "checkM b e" for b e] wp_check wp_then [where m = "liftM r" for r] wp_bind [where m = "liftM r" for r] wp_lift wp_raise

lemma opened_cong: "rp_runs r' = rp_runs r \<Longrightarrow> opened tid run r' = opened tid run r"
  by (simp add: opened_def)

lemma wp_snapshot_brief: "ss_briefs snap \<noteq> [] \<Longrightarrow> wp (snapshot_brief snap) Q E w = Q (brief_value (last (ss_briefs snap))) w"
  by (simp add: snapshot_brief_def current_brief_def last_option_def wp_return)

text \<open>Every command that generates a unit stores its outline and its task first.\<close>

definition stored :: "Task \<Rightarrow> OutlineVersion \<Rightarrow> Repo \<Rightarrow> Repo \<Rightarrow> bool" where
  "stored task ol r r' \<longleftrightarrow> rp_tasks r' = dict_set (task_id task) task (rp_tasks r) \<and> rp_runs r' = rp_runs r
     \<and> rp_outlines r' = rp_outlines (save_outline ol r) \<and> rp_briefs r' = rp_briefs r"

lemma framed_stored:
  assumes fr: "framed env tid r0 n r" and lv: "live (outlines_of r tid) = [ol]"
    and ol: "outline_id ol' = outline_id ol" "outline_task_id ol' = outline_task_id ol" "outline_status ol' \<noteq> OS_SUPERSEDED"
    and st: "stored task ol' r r'" "task_id task = tid" and old: "dict_get (rp_tasks r) tid = Some t1" "task_grows t1 task"
  shows "framed env tid r0 n r'" "live (outlines_of r' tid) = [ol']"
proof -
  have oltid: "outline_task_id ol = tid" and dist: "distinct (map outline_id (outlines_of r tid))"
    using live_mem [OF lv] fr by (simp_all add: framed_def outline_list_ok_def)
  have "framed env tid r0 n (save_task task (save_outline ol' r))"
    by (rule framed_task [where ?t1.0 = t1], rule framed_outline [OF fr]) (use ol st(2) oltid live_mem [OF lv] old in auto)
  then show "framed env tid r0 n r'"
    by (rule framed_cong [THEN iffD1, rotated -1]) (use st(1) in \<open>simp_all add: stored_def\<close>)
  have "outlines_of r' tid = upsert outline_id ol' (outlines_of r tid)"
    using st(1) ol(2) oltid by (simp add: stored_def outlines_of_def)
  then show "live (outlines_of r' tid) = [ol']"
    using live_replace [OF lv dist ol(1)] ol(3) by simp
qed

lemma invar_generate_stored:
  assumes inv: "workflow_invar env w0" and fr: "framed env tid (w_repo w0) (w_uuids w1) (w_repo w1)" and n: "w_uuids w0 \<le> w_uuids w1" "w_uuids w1 \<le> w_uuids w"
    and op: "opened tid run (w_repo w1)" and lv: "live (outlines_of (w_repo w1) tid) = [ol]"
    and ol: "outline_id ol' = outline_id ol" "outline_task_id ol' = outline_task_id ol" "outline_status ol' = OS_CONFIRMED" "outline_wf ol'" "at_unit ol' u"
    and task: "task_id task = tid" "task_status task = TS_GENERATING" "current_unit_sequence task = Some (unit_sequence u)"
    and old: "dict_get (rp_tasks (w_repo w1)) tid = Some t1" "task_grows t1 task"
    and st: "stored task ol' (w_repo w1) (w_repo w)"
  shows "wp (generate_unit env task run ol' u b) (\<lambda>_. sound_step env w0) (\<lambda>_. sound_step env w0) w"
proof -
  have "framed env tid (w_repo w0) (w_uuids w1) (w_repo w)" and lv': "live (outlines_of (w_repo w) tid) = [ol']"
    using framed_stored [OF fr lv ol(1,2) _ st task(1) old] ol(3) by simp_all
  then have "framed env tid (w_repo w0) (w_uuids w) (w_repo w)" using n(2) framed_mono by blast
  then show ?thesis
    by (rule invar_generate_unit [OF inv]) (use n op task st ol lv' in \<open>simp_all add: stored_def opened_def\<close>)
qed

section \<open>The commands\<close>

lemma invar_confirm_outline:
  assumes inv: "workflow_invar env w"
  shows "wp (confirm_outline env c) (\<lambda>_. sound_step env w) (\<lambda>_. sound_step env w) w"
  unfolding confirm_outline_def
proof (rule invar_replay [OF inv], rule invar_owned [OF inv], goal_cases)
  case (1 snap)
  note inj = inv [unfolded workflow_invar_def, THEN conjunct1]
  let ?tid = "co_task_id c" and ?t = "ss_task snap"
  have t: "dict_get (rp_tasks (w_repo w)) ?tid = Some ?t" "task_id ?t = ?tid" and run: "dict_get (rp_runs (w_repo w)) (run_id (ss_run snap)) = Some (ss_run snap)" "run_task_id (ss_run snap) = ?tid"
    and st: "stage_ok (task_status ?t) (current_unit_sequence ?t) (outlines_of (w_repo w) ?tid)" using 1 by (simp_all add: reads_def)
  have fr: "framed env ?tid (w_repo w) (w_uuids w) (w_repo w)" by (rule framed_start [OF inv t(1)])
  have bs: "ss_briefs snap \<noteq> []" using 1 fr by (simp add: reads_def framed_def)
  show ?case
  proof (cases "task_version ?t = co_expected_task_version c \<and> task_status ?t = TS_OUTLINE_REVIEW")
    case False
    then show ?thesis using sound_step_refl [OF inv] by (auto simp: wp_guard Let_def)
  next
    case True
    then have ver: "task_version ?t = co_expected_task_version c" and status: "task_status ?t = TS_OUTLINE_REVIEW" by simp_all
    with st obtain ol where ol: "live (outlines_of (w_repo w) ?tid) = [ol]" "outline_wf ol"
      "\<forall>u \<in> set (confirmation_units ol). unit_status u = US_PENDING" by auto
    note cur = reads_current_outline [OF 1 ol(1)]
    show ?thesis
    proof (cases "outline_confirm ol (co_outline_version c)")
      case (Inl e)
      then show ?thesis using True cur sound_step_refl [OF inv] by (simp add: wp_guard Let_def)
    next
      case (Inr x)
      show ?thesis
      proof (simp add: ver status cur Inr t wp_guard Let_def del: outline_confirm_Inr, rule wp_switch_run [OF inj fr run], goal_cases)
        case (1 run w')
        note rest = runs_only_fields [OF 1(4)]
        show ?case
          by (simp add: wp_rules new_record_def transition_def ver status t wp_snapshot_brief [OF bs])
            (rule invar_generate_stored [OF inv 1(2) _ _ 1(1), where ?t1.0 = ?t],
             use 1(3) ol t rest first_unit [OF ol(2,3)] in \<open>auto simp: stored_def save_idempotency_def ver status intro: task_grows_step\<close>)
      next
        case (2 e w')
        then show ?case
          using framed_finish [OF inv 2(1), where t = ?t] t st by (simp add: runs_only_fields)
      qed
    qed
  qed
qed

lemma invar_regenerate:
  assumes inv: "workflow_invar env w" and rd: "reads tid snap (w_repo w)"
    and st: "task_status (ss_task snap) \<in> {TS_FINAL_REVIEW, TS_COMPLETED}" and ver: "task_version (ss_task snap) = expected"
    and cur: "current_outline snap = Some ol" and sel: "selected_units ol ids \<noteq> []"
  shows "wp (regenerate env actor key h expected snap ol ids event payload) (\<lambda>_. sound_step env w) (\<lambda>_. sound_step env w) w"
proof -
  note inj = inv [unfolded workflow_invar_def, THEN conjunct1]
  let ?t = "ss_task snap"
  have t: "dict_get (rp_tasks (w_repo w)) tid = Some ?t" "task_id ?t = tid" using rd by (simp_all add: reads_def)
  have fr: "framed env tid (w_repo w) (w_uuids w) (w_repo w)" by (rule framed_start [OF inv t(1)])
  have bs: "ss_briefs snap \<noteq> []" using rd fr by (simp add: reads_def framed_def)
  obtain ol' where ol': "live (outlines_of (w_repo w) tid) = [ol']" "outline_wf ol'" "outline_status ol' = OS_CONFIRMED" "all_confirmed ol'"
    using rd st by (auto simp: reads_def)
  with reads_current_outline [OF rd ol'(1)] cur have ol: "live (outlines_of (w_repo w) tid) = [ol]" "outline_wf ol" "outline_status ol = OS_CONFIRMED" "all_confirmed ol"
    by simp_all
  note re = reopened [OF ol(2,4) sel]
  have mv: "transition (task_status ?t) TS_GENERATING (task_version ?t) expected = Inr TS_GENERATING"
    using st ver by (auto simp: transition_def)
  have fr': "framed env tid (w_repo w) (w_uuids (w\<lparr>w_ticks := Suc (w_ticks w)\<rparr>)) (w_repo (w\<lparr>w_ticks := Suc (w_ticks w)\<rparr>))"
    using fr by simp
  show ?thesis
    unfolding regenerate_def Let_def
  proof (simp add: wp_bind [where m = "moveM env x y z" for x y z] wp_move mv wp_bind [where m = "touchM env x" for x] wp_touch t,
      rule wp_new_run [OF inj fr'], goal_cases)
    case (1 run w')
    have ro: "runs_only (w_repo w) (w_repo w')" using 1(4) by simp
    show ?case
      by (simp add: wp_rules new_record_def t wp_snapshot_brief [OF bs])
        (rule invar_generate_stored [OF inv 1(2) _ _ 1(1), where ?t1.0 = ?t],
          use 1(3) ol t runs_only_fields [OF ro] re ver st in \<open>auto simp: stored_def save_idempotency_def intro!: task_grows_step\<close>)
  next
    case (2 e w')
    have "framed env tid (w_repo w) (w_uuids w') (w_repo w')" using framed_mono [OF fr] 2 by simp
    from framed_finish [OF inv this, where t = ?t] 2 rd show ?case by (simp add: reads_def)
  qed
qed

lemma closure_loop_sub: "set closure \<subseteq> set (closure_loop units closure)"
proof (induction units closure rule: closure_loop.induct)
  case (1 units closure)
  obtain c changed where p: "closure_pass units closure = (c, changed)" by fastforce
  have "set closure \<subseteq> set c" using closure_pass_sub [of closure units] p by simp
  with 1 [OF p [symmetric]] show ?case
    by (subst closure_loop.simps) (auto simp: p)
qed

lemma selected_closure:
  assumes "ids \<noteq> []" "set ids \<subseteq> unit_id ` set (confirmation_units ol)"
  shows "selected_units ol (dependent_unit_closure ol ids) \<noteq> []"
proof -
  have "hd ids \<in> set (dependent_unit_closure ol ids)"
    using hd_in_set [OF assms(1)] closure_loop_sub [of "fromkeys ids" "confirmation_units ol"]
    by (auto simp: dependent_unit_closure_def)
  moreover obtain u where "u \<in> set (confirmation_units ol)" "unit_id u = hd ids" using assms by (cases ids) auto
  ultimately have "u \<in> set (selected_units ol (dependent_unit_closure ol ids))" by (simp add: selected_units_def)
  then show ?thesis by auto
qed

lemma invar_reopen:
  assumes inv: "workflow_invar env w"
  shows "wp (reopen_prd env c) (\<lambda>_. sound_step env w) (\<lambda>_. sound_step env w) w"
  unfolding reopen_prd_def
  by (auto simp: wp_guard Let_def sound_step_refl [OF inv] selected_closure split: option.split bool.split
      intro!: invar_replay [OF inv] invar_owned [OF inv] invar_regenerate [OF inv])

lemma check_revision_selects:
  assumes "check_revision c snap ol = Inr ids"
  shows "selected_units ol ids \<noteq> []"
  using assms by (fastforce simp: check_revision_def bindE_Inr checkE_def Let_def split: option.splits if_splits)

lemma invar_approve:
  assumes inv: "workflow_invar env w"
  shows "wp (approve_revision_plan env c) (\<lambda>_. sound_step env w) (\<lambda>_. sound_step env w) w"
  unfolding approve_revision_plan_def
  by (auto simp: wp_guard Let_def sound_step_refl [OF inv] split: option.split sum.split bool.split
      intro!: invar_replay [OF inv] invar_owned [OF inv] invar_regenerate [OF inv] dest: check_revision_selects)

lemma check_final_status: "check_final c snap = Inr d \<Longrightarrow> task_status (ss_task snap) = TS_FINAL_REVIEW"
  by (simp add: check_final_def split: bool.splits option.splits)

lemma framed_finished_run:
  assumes fr: "framed env tid r0 n r" and inj: "inj (env_uuid env)"
    and run: "run_id run = make_id env ''run'' n" "run_task_id run = tid" "run_time run \<noteq> None" "run_status run \<notin> ACTIVE_RUN_STATUSES"
  shows "framed env tid r0 (Suc n) (r\<lparr>rp_runs := dict_set (run_id run) run (rp_runs r)\<rparr>)"
  by (rule framed_run [OF framed_mono [OF fr], where i = n]) (use run framed_new_run [OF fr inj] in simp_all)

lemma invar_finalize:
  assumes inv: "workflow_invar env w"
  shows "wp (finalize_prd env c) (\<lambda>_. sound_step env w) (\<lambda>_. sound_step env w) w"
  unfolding finalize_prd_def
proof (rule invar_replay [OF inv], rule invar_owned [OF inv], goal_cases)
  case (1 snap)
  note inj = inv [unfolded workflow_invar_def, THEN conjunct1]
  let ?tid = "fp_task_id c" and ?t = "ss_task snap"
  have t: "dict_get (rp_tasks (w_repo w)) ?tid = Some ?t" "task_id ?t = ?tid"
    and st: "stage_ok (task_status ?t) (current_unit_sequence ?t) (outlines_of (w_repo w) ?tid)" using 1 by (simp_all add: reads_def)
  have fr: "framed env ?tid (w_repo w) (w_uuids w) (w_repo w)" by (rule framed_start [OF inv t(1)])
  show ?case
  proof (cases "task_version ?t = fp_expected_task_version c")
    case ver: True
    show ?thesis
    proof (cases "check_final c snap")
      case (Inl e)
      then show ?thesis using sound_step_refl [OF inv] ver by (simp add: wp_guard Let_def)
    next
      case (Inr d)
      note status = check_final_status [OF Inr]
      let ?run = "make_run (make_id env ''run'' (w_uuids w)) ?tid (thread_id (ss_run snap)) RS_SUCCEEDED (finalize_hash env c)
        (fp_idempotency_key c) (env_clock env (w_ticks w)) (Some (env_clock env (Suc (w_ticks w)))) None"
      have run: "run_id ?run = make_id env ''run'' (w_uuids w)" "run_task_id ?run = ?tid" "run_time ?run \<noteq> None" "run_status ?run \<notin> ACTIVE_RUN_STATUSES"
        by (simp_all add: make_run_def run_time_def ACTIVE_RUN_STATUSES_def)
      note fr' = framed_finished_run [OF fr inj run]
      have fin: "sound_step env w w'" if "w_uuids w' = Suc (Suc (w_uuids w))"
        "w_repo w' = save_checkpoint th cp (append_event eid now ?tid ty p (save_idempotency rec (save_task t' (save_document d'
           ((w_repo w)\<lparr>rp_runs := dict_set (run_id ?run) ?run (rp_runs (w_repo w))\<rparr>)))))"
        "task_id t' = ?tid" "task_status t' = TS_COMPLETED" "task_grows ?t t'" for w' :: World and th cp eid now ty p rec t' d'
        by (rule framed_finish [OF inv, where tid = ?tid and t = t']) (use that st status in \<open>simp_all add: framed_task [where ?t1.0 = ?t] framed_mono [OF fr'] t\<close>)
      show ?thesis
        using ver status Inr t save_run_inactive [OF run(4), of "w_repo w"]
        by (simp add: wp_rules new_record_def transition_def Let_def) (auto split: sum.splits intro!: fin task_grows_step)
    qed
  qed (use sound_step_refl [OF inv] in \<open>simp add: wp_guard Let_def\<close>)
qed

text \<open>A reply first takes the task back to clarification.\<close>

definition clarifying :: "pystr \<Rightarrow> Task \<Rightarrow> Repo \<Rightarrow> bool" where
  "clarifying tid task r \<longleftrightarrow> dict_get (rp_tasks r) tid = Some task \<and> task_id task = tid \<and> task_status task = TS_CLARIFYING \<and> live (outlines_of r tid) = []"

lemma clarifying_stage: "clarifying tid t r \<Longrightarrow> stage_ok (task_status t) (current_unit_sequence t) (outlines_of r tid)"
  by (simp add: clarifying_def)

lemma wp_reply_supersede:
  assumes fr: "framed env tid r0 (w_uuids w) (w_repo w)" and rd: "reads tid snap (w_repo w)"
    and st: "task_status (ss_task snap) \<in> {TS_CLARIFYING, TS_OUTLINE_REVIEW}" and ver: "task_version (ss_task snap) = rt_expected_task_version c"
    and ok: "\<And>t w'. clarifying tid t (w_repo w') \<Longrightarrow> framed env tid r0 (w_uuids w') (w_repo w') \<Longrightarrow> w_uuids w' = w_uuids w
      \<Longrightarrow> rp_runs (w_repo w') = rp_runs (w_repo w) \<Longrightarrow> rp_briefs (w_repo w') = rp_briefs (w_repo w) \<Longrightarrow> Q t w'"
  shows "wp (reply_supersede env c (ss_task snap) snap) Q E w"
proof (cases "task_status (ss_task snap) = TS_OUTLINE_REVIEW")
  case False
  then have "clarifying tid (ss_task snap) (w_repo w)" using st rd by (auto simp: clarifying_def reads_def)
  then have "Q (ss_task snap) w" using fr by (rule ok) simp_all
  with False show ?thesis by (simp add: reply_supersede_def wp_return)
next
  case True
  then obtain ol where ol: "live (outlines_of (w_repo w) tid) = [ol]" using rd by (auto simp: reads_def)
  note cur = reads_current_outline [OF rd ol]
  have t: "task_id (ss_task snap) = tid" using rd by (simp add: reads_def)
  have oltid: "outline_task_id ol = tid" and dist: "distinct (map outline_id (outlines_of (w_repo w) tid))"
    using live_mem [OF ol] fr by (simp_all add: framed_def outline_list_ok_def)
  let ?ol = "ol\<lparr>outline_status := OS_SUPERSEDED\<rparr>"
  have "live (outlines_of (save_outline ?ol (w_repo w)) tid) = []"
    using live_replace [OF ol dist, of ?ol] oltid by (simp add: outlines_of_save)
  moreover have "framed env tid r0 (w_uuids w) (save_outline ?ol (w_repo w))"
    by (rule framed_outline [OF fr]) (use oltid live_mem [OF ol] in auto)
  ultimately show ?thesis
    using True t ver by (auto simp: reply_supersede_def wp_rules cur transition_def clarifying_def rd [unfolded reads_def]
      intro!: ok framed_task [where ?t1.0 = "ss_task snap"] task_grows_step)
qed

lemma invar_reply_extracted:
  assumes inv: "workflow_invar env w" and w1: "w_repo w1 = w_repo w" "w_uuids w1 = w_uuids w" and rd: "reads tid snap (w_repo w)"
    and st: "task_status (ss_task snap) \<in> {TS_CLARIFYING, TS_OUTLINE_REVIEW}" and ver: "task_version (ss_task snap) = rt_expected_task_version c"
  shows "wp (reply_extracted env c message (ss_task snap) snap b) (\<lambda>_. sound_step env w) (\<lambda>_. sound_step env w) w1"
proof -
  note inj = inv [unfolded workflow_invar_def, THEN conjunct1]
  have fr: "framed env tid (w_repo w) (w_uuids w1) (w_repo w1)"
    using framed_start [OF inv] rd w1 by (simp add: reads_def)
  have rd1: "reads tid snap (w_repo w1)" using rd w1 by simp
  show ?thesis
    unfolding reply_extracted_def wp_bind [of "reply_supersede env c (ss_task snap) snap"]
  proof (rule wp_reply_supersede [OF fr rd1 st ver], goal_cases)
    case (1 task w2)
    note cl = 1(1)
    have t: "task_id task = tid" using cl by (simp add: clarifying_def)
    have n2: "w_uuids w \<le> w_uuids w2" using 1(3) w1 by simp
    have run: "dict_get (rp_runs (w_repo w2)) (run_id (ss_run snap)) = Some (ss_run snap)" "run_task_id (ss_run snap) = tid"
      using rd1 1(4) by (simp_all add: reads_def)
    show ?case
      unfolding t
    proof (rule wp_switch_run [OF inj 1(2) run], goal_cases)
      case (1 run w3)
      let ?I = "\<lambda>_. sound_step env w"
      have "wp (if needs_clarification b then await_clarification env task run b else generate_outline env task run b) ?I ?I
          (w3\<lparr>w_uuids := Suc (w_uuids w3), w_ticks := k, w_repo := save_idempotency rec (save_brief bv (save_message msg (w_repo w3)))\<rparr>)"
        if "brief_task_id bv = tid" for k rec bv msg
        using that invar_await [OF inv, of tid _ run task b] invar_generate_outline [OF inv, of tid _ run task b]
          cl 1 n2 framed_mono [OF 1(2)] runs_only_fields [OF 1(4)]
        by (simp add: clarifying_def framed_brief opened_def)
      then show ?case
        by (simp add: wp_bind wp_then wp_id wp_now wp_return wp_repo new_message_def new_brief_def new_record_def)
    next
      case (2 e w3)
      show ?case
        by (rule framed_finish [OF inv 2(1), where t = task]) (use 2 n2 cl clarifying_stage [OF cl] in \<open>simp_all add: runs_only_fields clarifying_def\<close>)
    qed
  qed
qed

lemma invar_reply:
  assumes inv: "workflow_invar env w"
  shows "wp (reply_to_task env c) (\<lambda>_. sound_step env w) (\<lambda>_. sound_step env w) w"
proof -
  have same: "sound_step env w (w\<lparr>w_calls := n\<rparr>)" for n
    using inv by (simp add: sound_step_def workflow_invar_def)
  show ?thesis
    unfolding reply_to_task_def Let_def wp_then wp_check
  proof (split if_split, intro conjI impI, rule invar_replay [OF inv], goal_cases)
    case 1
    show ?case
    proof (cases "get_task (w_repo w) (rt_task_id c)")
      case (Inr task)
      have tid: "task_id task = rt_task_id c" using Inr inv by (auto simp: get_task_def workflow_invar_def task_ok_def split: option.splits)
      show ?thesis
      proof (cases "snapshot (w_repo w) (rt_task_id c)")
        case snap: (Inr snap)
        have rd: "reads (rt_task_id c) snap (w_repo w)" by (rule invar_reads [OF inv snap])
        then have "ss_task snap = task" using Inr by (simp add: reads_def get_task_def split: option.splits)
        then show ?thesis
          using Inr snap tid sound_step_refl [OF inv] same rd
          by (auto simp: owned_task_def wp_bind wp_then wp_check wp_readR wp_raise wp_return wp_extract
              intro!: invar_reply_extracted [OF inv _ _ rd] split: option.splits sum.splits prod.splits)
      qed (use Inr tid sound_step_refl [OF inv] in \<open>auto simp: owned_task_def wp_rules\<close>)
    qed (use sound_step_refl [OF inv] in \<open>simp add: owned_task_def wp_rules\<close>)
  qed (use sound_step_refl [OF inv] in simp)
qed

subsection \<open>Confirming a unit\<close>

lemma wp_new_section:
  assumes "\<And>x w'. w_repo w' = w_repo w \<Longrightarrow> w_uuids w \<le> w_uuids w' \<Longrightarrow> Q x w'"
  shows "wp (new_section env actor run u sections d) Q E w"
  by (simp add: new_section_def wp_rules assms)

lemma wp_new_sections:
  assumes "\<And>xs w'. w_repo w' = w_repo w \<Longrightarrow> w_uuids w \<le> w_uuids w' \<Longrightarrow> Q xs w'"
  shows "wp (mapM (new_section env actor run u sections) ds) Q E w"
  using assms
proof (induction ds arbitrary: w Q)
  case Nil
  then show ?case by (simp add: wp_return)
next
  case (Cons d ds)
  show ?case
    unfolding mapM.simps wp_bind wp_return
    by (rule wp_new_section, rule Cons.IH) (use Cons.prems in simp)
qed

lemma wp_save_sections:
  assumes "\<And>ss. Q () (w\<lparr>w_repo := (w_repo w)\<lparr>rp_sections := ss\<rparr>\<rparr>)"
  shows "wp (forM xs (\<lambda>s. repoM (save_section tid s))) Q E w"
  using assms
proof (induction xs arbitrary: w)
  case Nil
  from Nil [of "rp_sections (w_repo w)"] show ?case by (simp add: wp_return)
next
  case (Cons x xs)
  show ?case
    by (simp add: wp_then wp_repo, rule Cons.IH) (use Cons.prems in \<open>simp add: save_section_def\<close>)
qed

lemma invar_generate_next_unit:
  assumes inv: "workflow_invar env w0" and fr: "framed env tid (w_repo w0) (w_uuids w) (w_repo w)" and n: "w_uuids w0 \<le> w_uuids w"
    and op: "opened tid run (w_repo w)" and lv: "live (outlines_of (w_repo w) tid) = [put_unit (confirmed_unit u) ol]"
    and ol: "outline_wf ol" "at_unit ol u" "outline_status ol = OS_CONFIRMED"
    and nxt: "next_units (put_unit (confirmed_unit u) ol) (confirmed_unit u) = v # vs"
    and task: "dict_get (rp_tasks (w_repo w)) tid = Some task" "task_id task = tid" "task_status task = TS_GENERATING" and bs: "ss_briefs snap \<noteq> []"
  shows "wp (generate_next_unit env snap task run (put_unit (confirmed_unit u) ol) v) (\<lambda>_. sound_step env w0) (\<lambda>_. sound_step env w0) w"
  unfolding generate_next_unit_def Let_def
  by (simp add: wp_rules wp_snapshot_brief [OF bs], rule invar_generate_stored [OF inv fr n _ op lv, where ?t1.0 = task])
    (use next_unit [OF ol(1,2) nxt] ol(3) task in \<open>auto simp: stored_def intro: task_grows_step\<close>)

text \<open>Documents and their checks do not touch what the invariant reads.\<close>

definition quiet :: "Repo \<Rightarrow> Repo \<Rightarrow> bool" where
  "quiet r r' \<longleftrightarrow> rp_tasks r' = rp_tasks r \<and> rp_runs r' = rp_runs r \<and> rp_outlines r' = rp_outlines r \<and> rp_briefs r' = rp_briefs r"

lemma quiet_refl [simp]: "quiet r r"
  by (simp add: quiet_def)

lemma framed_quiet: "quiet r r' \<Longrightarrow> framed env tid r0 n r \<Longrightarrow> framed env tid r0 n r'"
  using framed_cong [of r' r] by (simp add: quiet_def)

lemma wp_document_of:
  assumes "\<And>x w'. w_repo w' = w_repo w \<Longrightarrow> w_uuids w \<le> w_uuids w' \<Longrightarrow> Q x w'" "\<And>e. E e w"
  shows "wp (document_of env snap task ol sections) Q E w"
  using assms by (auto simp: document_of_def snapshot_brief_def wp_rules split: sum.splits option.splits)

lemma wp_check_quality:
  assumes "\<And>w'. quiet (w_repo w) (w_repo w') \<Longrightarrow> w_uuids w \<le> w_uuids w' \<Longrightarrow> Q () w'"
  shows "wp (check_qualityM env task d ol sections) Q E w"
  using assms by (simp add: check_qualityM_def wp_rules Let_def quiet_def save_quality_result_def)

lemma invar_render_document:
  assumes inv: "workflow_invar env w0" and fr: "framed env tid (w_repo w0) (w_uuids w) (w_repo w)" and n: "w_uuids w0 \<le> w_uuids w"
    and op: "opened tid run (w_repo w)" and lv: "live (outlines_of (w_repo w) tid) = [ol]"
    and ol: "outline_wf ol" "all_confirmed ol" "outline_status ol = OS_CONFIRMED"
    and task: "dict_get (rp_tasks (w_repo w)) tid = Some task" "task_id task = tid" "task_status task = TS_GENERATING"
      "task_version task = cu_expected_task_version c" and bs: "ss_briefs snap \<noteq> []"
  shows "wp (render_document env c snap task run ol new_sections) (\<lambda>_. sound_step env w0) (\<lambda>_. sound_step env w0) w"
proof -
  let ?t = "\<lambda>now. task\<lparr>task_status := TS_FINAL_REVIEW, task_version := task_version task + 1, task_updated_at := now\<rparr>"
  have fin: "sound_step env w0 w'" if "framed env tid (w_repo w0) (w_uuids w') (w_repo w')" "w_uuids w \<le> w_uuids w'"
    "dict_get (rp_tasks (w_repo w')) tid = Some (?t now)" "outlines_of (w_repo w') tid = outlines_of (w_repo w) tid" for w' :: World and now
    by (rule framed_finish [OF inv that(1), where t = "?t now"]) (use that n task lv ol in simp_all)
  have run: "framed env tid (w_repo w0) k (r\<lparr>rp_runs := dict_set (run_id run) (run\<lparr>run_status := RS_SUCCEEDED, ended_at := Some e\<rparr>) (rp_runs r)\<rparr>)"
    if "framed env tid (w_repo w0) (w_uuids w) r" "rp_runs r = rp_runs (w_repo w)" "w_uuids w \<le> k" for r e k
    by (rule framed_mono [OF framed_update_run [OF that(1)] that(3)])
      (use op that(2) in \<open>simp_all add: opened_def run_time_def split: option.split\<close>)
  have frt: "framed env tid (w_repo w0) k (save_task (?t now) (w_repo w))" if "w_uuids w \<le> k" for k now
    by (rule framed_task [OF framed_mono [OF fr that], where ?t1.0 = task]) (use task in \<open>auto intro: task_grows_step\<close>)
  show ?thesis
    unfolding render_document_def Let_def
  proof (simp add: wp_bind wp_move wp_touch wp_then wp_repo transition_def task, rule wp_document_of, goal_cases)
    case (1 d w1)
    show ?case
      unfolding wp_repo
    proof (rule wp_check_quality, goal_cases)
      case q: (1 w2)
      let ?now = "env_clock env (w_ticks w)"
      have w2: "quiet (save_task (?t ?now) (w_repo w)) (w_repo w2)" and n2: "w_uuids w \<le> w_uuids w2"
        using 1 q by (simp_all add: quiet_def save_document_def task)
      have sv: "save_run (run\<lparr>run_status := RS_SUCCEEDED, ended_at := Some e\<rparr>) r
          = Inr (r\<lparr>rp_runs := dict_set (run_id run) (run\<lparr>run_status := RS_SUCCEEDED, ended_at := Some e\<rparr>) (rp_runs r)\<rparr>)" for e r
        using save_run_inactive [of "run\<lparr>run_status := RS_SUCCEEDED, ended_at := Some e\<rparr>" r] by (simp add: ACTIVE_RUN_STATUSES_def)
      have "sound_step env w0 w3" if "w_uuids w3 = Suc (w_uuids w2)"
        "w_repo w3 = save_checkpoint th cp (r\<lparr>rp_runs := dict_set (run_id run) (run\<lparr>run_status := RS_SUCCEEDED, ended_at := Some e\<rparr>) (rp_runs r)\<rparr>)"
        "r = append_event eid now tid ty p (w_repo w2)" for w3 :: World and th cp e eid now ty p r
      proof (rule fin [where now = ?now])
        have "framed env tid (w_repo w0) (w_uuids w) r" using that(3) framed_quiet [OF w2 frt] by simp
        from run [OF this, of "w_uuids w3" e] show "framed env tid (w_repo w0) (w_uuids w3) (w_repo w3)"
          using that w2 n2 by (simp add: quiet_def)
      qed (use that w2 n2 task in \<open>simp_all add: quiet_def outlines_of_def\<close>)
      then show ?case
        by (auto simp: wp_rules sv split: sum.splits)
    qed
  next
    case (2 e)
    show ?case by (rule fin [where now = "env_clock env (w_ticks w)"]) (use frt [of "w_uuids w"] task in simp_all)
  qed
qed

lemma invar_confirm_unit:
  assumes inv: "workflow_invar env w"
  shows "wp (confirm_unit env c) (\<lambda>_. sound_step env w) (\<lambda>_. sound_step env w) w"
  unfolding confirm_unit_def
proof (rule invar_replay [OF inv], rule invar_owned [OF inv], goal_cases)
  case (1 snap)
  note inj = inv [unfolded workflow_invar_def, THEN conjunct1]
  let ?tid = "cu_task_id c" and ?t = "ss_task snap" and ?I = "\<lambda>_. sound_step env w"
  have t: "dict_get (rp_tasks (w_repo w)) ?tid = Some ?t" "task_id ?t = ?tid" and run: "dict_get (rp_runs (w_repo w)) (run_id (ss_run snap)) = Some (ss_run snap)" "run_task_id (ss_run snap) = ?tid"
    and st: "stage_ok (task_status ?t) (current_unit_sequence ?t) (outlines_of (w_repo w) ?tid)" using 1 by (simp_all add: reads_def)
  have fr: "framed env ?tid (w_repo w) (w_uuids w) (w_repo w)" by (rule framed_start [OF inv t(1)])
  have bs: "ss_briefs snap \<noteq> []" using 1 fr by (simp add: reads_def framed_def)
  show ?case
  proof (cases "task_version ?t = cu_expected_task_version c \<and> task_status ?t = TS_GENERATING")
    case False
    then show ?thesis using sound_step_refl [OF inv] by (auto simp: wp_guard Let_def)
  next
    case True
    then have ver: "task_version ?t = cu_expected_task_version c" and status: "task_status ?t = TS_GENERATING" by simp_all
    with st obtain ol u where ol: "live (outlines_of (w_repo w) ?tid) = [ol]" "outline_wf ol" "outline_status ol = OS_CONFIRMED"
      and u: "at_unit ol u" "current_unit_sequence ?t = Some (unit_sequence u)" by auto
    note cur = reads_current_outline [OF 1 ol(1)]
    have oltid: "outline_task_id ol = ?tid" and dist: "distinct (map outline_id (outlines_of (w_repo w) ?tid))"
      using live_mem [OF ol(1)] fr by (simp_all add: framed_def outline_list_ok_def)
    let ?ol = "put_unit (confirmed_unit u) ol"
    show ?thesis
    proof (cases "unit_confirm ol (cu_unit_id c) (current_unit_sequence ?t)")
      case (Inl e)
      then show ?thesis using True cur sound_step_refl [OF inv] by (simp add: wp_guard Let_def)
    next
      case (Inr x)
      then obtain v vs where v: "filter (\<lambda>u. unit_id u = cu_unit_id c) (confirmation_units ol) = v # vs" "unit_sequence v = unit_sequence u"
        using u(2) by (elim unit_confirm_Inr) auto
      then have "v \<in> set (confirmation_units ol)" by (metis filter_is_subset list.set_intros(1) subsetD)
      then have hd: "hd (filter (\<lambda>u. unit_id u = cu_unit_id c) (confirmation_units ol)) = u"
        using v outline_wf_unit_eq(2) [OF ol(2)] u(1) by (auto simp: at_unit_def)
      show ?thesis
      proof (simp add: ver status cur Inr t hd wp_guard Let_def, rule wp_switch_run [OF inj fr run], goal_cases)
        case (1 run w')
        note rest = runs_only_fields [OF 1(4)]
        have mem: "outline_id ol \<in> outline_id ` set (outlines_of (w_repo w') ?tid)" using live_mem [OF ol(1)] rest by simp
        have "live (upsert outline_id ?ol (outlines_of (w_repo w') ?tid)) = [?ol]"
          using live_replace [OF ol(1) dist, of ?ol] ol(3) rest by simp
        then have lv: "live (outlines_of (save_outline ?ol (w_repo w')) ?tid) = [?ol]" using oltid by (simp add: outlines_of_save)
        have fr': "framed env ?tid (w_repo w) (w_uuids w') (save_outline ?ol (w_repo w'))"
          by (rule framed_outline [OF 1(2)]) (use oltid mem in simp_all)
        have stored: "dict_get (rp_tasks (w_repo w')) ?tid = Some ?t" using t rest by simp
        have onward: "wp (case next_units ?ol (confirmed_unit u) of [] \<Rightarrow> render_document env c snap ?t run ?ol ns
            | v # x \<Rightarrow> generate_next_unit env snap ?t run ?ol v) ?I ?I w2"
          if q: "quiet (save_outline ?ol (w_repo w')) (w_repo w2)" and n: "w_uuids w' \<le> w_uuids w2" for w2 ns
        proof -
          have w2: "framed env ?tid (w_repo w) (w_uuids w2) (w_repo w2)" "w_uuids w \<le> w_uuids w2" "opened ?tid run (w_repo w2)"
              "live (outlines_of (w_repo w2) ?tid) = [?ol]"
            using framed_quiet [OF q framed_mono [OF fr' n]] n 1(1,3) lv q by (simp_all add: quiet_def opened_def outlines_of_def)
          show ?thesis
            using invar_render_document [OF inv w2] invar_generate_next_unit [OF inv w2 ol(2) u(1) ol(3)] no_next_unit [OF ol(2) u(1)]
              ol(3) t stored status ver bs q by (auto simp: quiet_def split: list.split)
        qed
        show ?case
          by (simp add: wp_bind wp_then wp_now wp_return wp_repo new_record_def, rule wp_new_sections,
              simp add: wp_repo, rule wp_save_sections, simp add: wp_event, rule onward)
            (simp_all add: quiet_def save_idempotency_def)
      next
        case (2 e w')
        then show ?case
          using framed_finish [OF inv 2(1), where t = ?t] t st by (simp add: runs_only_fields)
      qed
    qed
  qed
qed

subsection \<open>Starting a task\<close>

lemma invar_fresh_task:
  assumes inv: "workflow_invar env w" and i: "w_uuids w \<le> i"
  shows "dict_get (rp_tasks (w_repo w)) (make_id env ''task'' i) = None"
proof (rule ccontr)
  assume "dict_get (rp_tasks (w_repo w)) (make_id env ''task'' i) \<noteq> None"
  then obtain t where "dict_get (rp_tasks (w_repo w)) (make_id env ''task'' i) = Some t" by blast
  then have "\<exists>k < w_uuids w. make_id env ''task'' i = make_id env ''task'' k" using inv by (simp add: workflow_invar_def task_ok_def)
  with inv i show False by (auto simp: workflow_invar_def make_id_inj)
qed

lemma framed_create:
  assumes inv: "workflow_invar env w" and ids: "tid = make_id env ''task'' i" "run_id run = make_id env ''run'' j" "w_uuids w \<le> i" "w_uuids w \<le> j" "i < n" "j < n"
    and run: "run_task_id run = tid" "run_time run \<noteq> None" and t: "task_id t = tid"
  shows "framed env tid (w_repo w) n (create_task_bundle t msg b run rec (w_repo w))"
proof -
  let ?r = "w_repo w"
  have none: "dict_get (rp_tasks ?r) tid = None" using invar_fresh_task [OF inv ids(3)] ids(1) by simp
  then have no: "\<not> has_run (rp_runs ?r) tid" using inv by (simp add: workflow_invar_def)
  have keyed: "runs_keyed env (w_uuids w) (rp_runs ?r)" and act: "one_active (rp_runs ?r)" and wf: "dict_wf (rp_tasks ?r)" and inj: "inj (env_uuid env)"
    using inv by (simp_all add: workflow_invar_def)
  have fresh: "dict_get (rp_runs ?r) (run_id run) \<noteq> Some x" for x
  proof
    assume "dict_get (rp_runs ?r) (run_id run) = Some x"
    then have "\<exists>k < w_uuids w. run_id run = make_id env ''run'' k" using keyed by (simp add: runs_keyed_def)
    with ids show False by (auto simp: make_id_inj [OF inj])
  qed
  have "run_task_id x \<noteq> tid" if "x \<in> set (dict_values (rp_runs ?r))" for x
    using that no keyed set_dict_values [of "rp_runs ?r" x] by (auto simp: has_run_def runs_keyed_def)
  then have "one_active (dict_set (run_id run) run (rp_runs ?r))"
    by (intro one_active_set [OF act keyed]) (use run in auto)
  moreover have "runs_keyed env n (dict_set (run_id run) run (rp_runs ?r))"
    by (rule runs_keyed_set [OF keyed, where i = j]) (use ids run in simp_all)
  moreover have "runs_touched tid (rp_runs ?r) (dict_set (run_id run) run (rp_runs ?r))"
    by (rule runs_touched_set) (use run fresh in simp_all)
  moreover have "has_run (dict_set (run_id run) run (rp_runs ?r)) tid"
    using run by (auto simp: has_run_def intro!: exI [of _ "run_id run"])
  ultimately show ?thesis
    using wf ids t none by (auto simp: framed_def create_task_bundle_def save_idempotency_def outlines_of_def briefs_of_def outline_list_ok_def)
qed

lemma create_task_bundle_fields:
  "rp_tasks (create_task_bundle t msg b run rec r) = dict_set (task_id t) t (rp_tasks r)"
  "rp_runs (create_task_bundle t msg b run rec r) = dict_set (run_id run) run (rp_runs r)"
  "outlines_of (create_task_bundle t msg b run rec r) (task_id t) = []"
  by (simp_all add: create_task_bundle_def save_idempotency_def outlines_of_def)

lemma invar_mono:
  assumes inv: "workflow_invar env w" and same: "w_repo w' = w_repo w" "w_uuids w \<le> w_uuids w'"
  shows "workflow_invar env w'"
proof -
  have "task_ok env (w_uuids w') r tid t" if "task_ok env (w_uuids w) r tid t" for r tid t
    using that same(2) unfolding task_ok_def by (metis less_le_trans)
  then show ?thesis
    using inv same runs_keyed_mono [OF _ same(2)] outline_list_ok_mono [OF _ same(2)] by (simp add: workflow_invar_def)
qed

lemma sound_mono: "workflow_invar env w \<Longrightarrow> w_repo w' = w_repo w \<Longrightarrow> w_uuids w \<le> w_uuids w' \<Longrightarrow> sound_step env w w'"
  by (simp add: sound_step_def invar_mono)

lemma invar_start_failed:
  assumes inv: "workflow_invar env w" and w1: "w_repo w1 = w_repo w" "w_uuids w1 = Suc (Suc (Suc (w_uuids w)))"
  shows "wp (start_failed env c message (make_id env ''task'' (w_uuids w)) (make_id env ''run'' (Suc (w_uuids w))) thread now exc)
    (\<lambda>_. sound_step env w) (\<lambda>_. sound_step env w) w1"
proof -
  let ?tid = "make_id env ''task'' (w_uuids w)" and ?rid = "make_id env ''run'' (Suc (w_uuids w))"
  have fin: "sound_step env w w'" if "w_uuids w + 3 \<le> w_uuids w'"
    "w_repo w' = save_checkpoint th cp (append_event eid now' ?tid ty p (create_task_bundle t msg b run rec (w_repo w)))"
    "task_id t = ?tid" "task_status t = TS_FAILED" "run_id run = ?rid" "run_task_id run = ?tid" "run_time run \<noteq> None"
    for w' :: World and th cp eid now' ty p t msg b run rec
    by (rule framed_finish [OF inv, where tid = ?tid and t = t])
      (use that framed_create [OF inv refl that(5), where n = "w_uuids w'" and t = t] in \<open>simp_all add: create_task_bundle_fields\<close>)
  show ?thesis
    using w1 by (simp add: start_failed_def wp_rules new_task_def new_message_def new_brief_def new_record_def Let_def transition_def)
      (rule fin, simp, simp, simp_all add: make_run_def run_time_def)
qed

lemma invar_start_extracted:
  assumes inv: "workflow_invar env w" and w1: "w_repo w1 = w_repo w" "w_uuids w1 = Suc (Suc (Suc (w_uuids w)))"
  shows "wp (start_extracted env c message (make_id env ''task'' (w_uuids w)) (make_id env ''run'' (Suc (w_uuids w))) thread now b)
    (\<lambda>_. sound_step env w) (\<lambda>_. sound_step env w) w1"
proof -
  let ?tid = "make_id env ''task'' (w_uuids w)" and ?rid = "make_id env ''run'' (Suc (w_uuids w))" and ?I = "\<lambda>_. sound_step env w"
  have onward: "wp (if needs_clarification b then await_clarification env t run b else generate_outline env t run b) ?I ?I w'"
    if "w_uuids w + 3 \<le> w_uuids w'" "w_repo w' = append_event eid now' ?tid ty p (create_task_bundle t msg bv run rec (w_repo w))"
      "task_id t = ?tid" "task_status t = TS_CLARIFYING" "run_id run = ?rid" "run_task_id run = ?tid" "run_time run \<noteq> None" "run_status run = RS_RUNNING"
    for w' :: World and eid now' ty p t msg bv run rec
  proof -
    have fr: "framed env ?tid (w_repo w) (w_uuids w') (w_repo w')"
      using that framed_create [OF inv refl that(5), where n = "w_uuids w'" and t = t] by simp
    have "opened ?tid run (w_repo w')" "dict_get (rp_tasks (w_repo w')) ?tid = Some t" "live (outlines_of (w_repo w') ?tid) = []"
      using that create_task_bundle_fields [of t msg bv run rec "w_repo w"] by (simp_all add: opened_def live_def)
    then show ?thesis
      using invar_await [OF inv fr, of run t b] invar_generate_outline [OF inv fr, of run t b] that by simp
  qed
  show ?thesis
    using w1 by (simp add: start_extracted_def wp_bind wp_then wp_id wp_now wp_return wp_repo wp_move wp_event new_task_def new_message_def new_brief_def
        new_record_def Let_def transition_def split del: if_split)
      (rule onward, simp, simp, simp_all add: make_run_def run_time_def)
qed

lemma invar_start:
  assumes inv: "workflow_invar env w"
  shows "wp (start_task env c) (\<lambda>_. sound_step env w) (\<lambda>_. sound_step env w) w"
  unfolding start_task_def start_task_locked_def Let_def wp_then wp_check
  by (auto simp: sound_step_refl [OF inv] wp_bind wp_id wp_now wp_catch wp_extract wp_return wp_If wp_raise split: sum.split prod.split
      intro!: invar_replay [OF inv] invar_start_failed [OF inv] invar_start_extracted [OF inv] sound_mono [OF inv])

section \<open>Every command\<close>

theorem invar_perform:
  assumes "workflow_invar env w"
  shows "wp (perform env c) (\<lambda>_. sound_step env w) (\<lambda>_. sound_step env w) w"
  using invar_start [OF assms] invar_reply [OF assms] invar_confirm_outline [OF assms] invar_confirm_unit [OF assms]
    invar_approve [OF assms] invar_reopen [OF assms] invar_finalize [OF assms]
  by (cases c) simp_all

lemma invar_empty: "inj (env_uuid env) \<Longrightarrow> workflow_invar env empty_world"
  by (simp add: workflow_invar_def empty_world_def empty_repo_def runs_keyed_def one_active_def outline_list_ok_def outlines_of_def has_run_def dict_get_or_def)

interpretation workflow: invariant_system "\<lambda>w. inj (env_uuid env) \<and> w = empty_world" "perform_step env" "workflow_invar env" for env
  using invar_perform invar_empty by unfold_locales (auto simp: perform_step_def wp_snd sound_step_def)

end
