(* ===== verification/Workflow_Idempotency.thy ===== *)
theory Workflow_Idempotency
  imports Workflow_History
begin

text \<open>
  Idempotency keys. A command that returns has stored a record under its actor and key; records
  are never changed; so a command sent again, at any later time, is a read of the task it
  recorded, and another input under the same key is refused.
\<close>

section \<open>Records stay\<close>

lemma get_idempotency_writes:
  assumes "repo_write P f"
  shows "(\<exists>rec. P rec \<and> get_idempotency (f r) actor key = Some rec \<and> idem_actor_id rec = actor \<and> idem_key rec = key)
    \<or> get_idempotency (f r) actor key = get_idempotency r actor key"
  using assms
  by (cases rule: repo_write.cases)
    (auto simp: get_idempotency_def append_event_def save_event_def save_task_def save_outline_def save_checkpoint_def save_grounding_result_def
      save_section_def save_document_def save_message_def save_brief_def save_quality_result_def save_idempotency_def create_task_bundle_def)

interpretation other_keys: world_history
  "\<lambda>w w'. get_idempotency (w_repo w') actor key = get_idempotency (w_repo w) actor key"
  "\<lambda>rec. (idem_actor_id rec, idem_key rec) \<noteq> (actor, key)" for actor key
proof (unfold_locales, goal_cases)
  case (7 f w)
  then show ?case using get_idempotency_writes [OF 7, of "w_repo w" actor key] by auto
qed simp_all

definition recorded :: "Env \<Rightarrow> Command \<Rightarrow> pystr \<Rightarrow> World \<Rightarrow> bool" where
  "recorded env c tid w \<longleftrightarrow> (\<exists>rec. get_idempotency (w_repo w) (command_actor c) (command_key c) = Some rec
     \<and> idem_input_hash rec = command_hash env c \<and> idem_task_id rec = tid)"

interpretation no_record: world_history
  "\<lambda>w w'. recorded env c tid w \<longrightarrow> recorded env c tid w'" "\<lambda>rec. False" for env c tid
proof (unfold_locales, goal_cases)
  case (7 f w)
  then show ?case
    using get_idempotency_writes [OF 7, of "w_repo w" "command_actor c" "command_key c"] by (auto simp: recorded_def)
qed (simp_all add: recorded_def)

section \<open>What a command returns\<close>

text \<open>
  Every command that returns ends in reading a snapshot. \<open>returns R m\<close>: what holds of the
  result and the world when \<open>m\<close> returns; \<open>ends tid\<close>: the result is the snapshot of that task.
\<close>

definition returns :: "('a \<Rightarrow> World \<Rightarrow> bool) \<Rightarrow> 'a wf \<Rightarrow> bool" where
  "returns R m \<longleftrightarrow> (\<forall>w x w'. m w = (Inr x, w') \<longrightarrow> R x w')"

abbreviation ends :: "pystr \<Rightarrow> WorkflowSnapshot wf \<Rightarrow> bool" where
  "ends tid \<equiv> returns (\<lambda>snap w. snapshot (w_repo w) tid = Inr snap)"

lemma returns_skip: "(\<And>x. returns R (f x)) \<Longrightarrow> returns R (bindM m f)"
  unfolding returns_def bindM_def by (fastforce split: prod.splits sum.splits)

lemma returns_skip_then: "returns R n \<Longrightarrow> returns R (thenM m n)"
  unfolding thenM_def by (rule returns_skip)

lemma returns_raise: "returns R (raiseM e)"
  by (simp add: returns_def raiseM_def)

lemma returns_bind:
  assumes "returns Q m" and "\<And>x w. Q x w \<Longrightarrow> returns R (f x)"
  shows "returns R (bindM m f)"
  using assms unfolding returns_def bindM_def by (fastforce split: prod.splits sum.splits)

lemma returns_move: "(\<And>t'. task_id t' = task_id t \<Longrightarrow> returns R (f t')) \<Longrightarrow> returns R (bindM (moveM env t st v) f)"
  by (rule returns_bind [where Q = "\<lambda>t' _. task_id t' = task_id t"])
    (auto simp: returns_def moveM_def bindM_def liftM_def returnM_def split: prod.splits sum.splits)

lemma returns_touch: "(\<And>t'. task_id t' = task_id t \<Longrightarrow> returns R (f t')) \<Longrightarrow> returns R (bindM (touchM env t) f)"
  by (rule returns_bind [where Q = "\<lambda>t' _. task_id t' = task_id t"])
    (auto simp: returns_def touchM_def bindM_def returnM_def split: prod.splits sum.splits)

lemma returns_new_task: "(\<And>t. task_id t = tid \<Longrightarrow> returns R (f t)) \<Longrightarrow> returns R (bindM (new_task env tid title owner) f)"
  by (rule returns_bind [where Q = "\<lambda>t _. task_id t = tid"])
    (auto simp: returns_def new_task_def bindM_def returnM_def split: prod.splits sum.splits)

lemma returns_supersede:
  assumes "\<And>t'. task_id t' = task_id t \<Longrightarrow> returns R (f t')"
  shows "returns R (bindM (reply_supersede env c t previous) f)"
proof (rule returns_bind)
  have ret: "task_id t' = i \<Longrightarrow> returns (\<lambda>t' _. task_id t' = i) (returnM t')" for t' i
    by (simp add: returns_def returnM_def)
  show "returns (\<lambda>t' _. task_id t' = task_id t) (reply_supersede env c t previous)"
    unfolding reply_supersede_def
    by (cases "task_status t = TS_OUTLINE_REVIEW") (simp, (rule ret returns_move returns_touch returns_skip_then | simp)+)
qed (rule assms)

lemma ends_read: "tid = tid' \<Longrightarrow> ends tid (readR (\<lambda>r. snapshot r tid'))"
  by (auto simp: returns_def readR_def)

lemmas ends_rules = ends_read returns_raise returns_move returns_touch returns_skip_then returns_skip

lemma ends_await: "tid = task_id task \<Longrightarrow> ends tid (await_clarification env task run b)"
  unfolding await_clarification_def Let_def by (rule ends_rules | simp)+

lemma ends_outline: "tid = task_id task \<Longrightarrow> ends tid (generate_outline env task run b)"
  unfolding generate_outline_def Let_def by (rule ends_rules | simp)+

lemma ends_document: "tid = task_id task \<Longrightarrow> ends tid (render_document env c snap task run outline new_sections)"
  unfolding render_document_def Let_def by (rule ends_rules | simp)+

subsection \<open>The unit in generation\<close>

text \<open>
  While a unit is generated the task in hand stays the same: \<open>same_task\<close> says so of a step that
  returns, and \<open>endsG\<close> that the computation reads the snapshot of the task it began with.
\<close>

definition same_task :: "'a gen \<Rightarrow> bool" where
  "same_task m \<longleftrightarrow> (\<forall>s x s'. m s = (Inr x, s') \<longrightarrow> task_id (g_task (snd s')) = task_id (g_task (snd s)))"

definition endsG :: "pystr \<Rightarrow> WorkflowSnapshot gen \<Rightarrow> bool" where
  "endsG tid m \<longleftrightarrow> (\<forall>s x s'. task_id (g_task (snd s)) = tid \<longrightarrow> m s = (Inr x, s') \<longrightarrow> snapshot (w_repo (fst s')) tid = Inr x)"

lemma same_taskD: "same_task m \<Longrightarrow> m s = (Inr x, s') \<Longrightarrow> task_id (g_task (snd s')) = task_id (g_task (snd s))"
  unfolding same_task_def by blast

lemma endsGD: "endsG tid m \<Longrightarrow> m s = (Inr x, s') \<Longrightarrow> task_id (g_task (snd s)) = tid \<Longrightarrow> snapshot (w_repo (fst s')) tid = Inr x"
  unfolding endsG_def by blast

lemma same_task_bind: "same_task m \<Longrightarrow> (\<And>x. same_task (f x)) \<Longrightarrow> same_task (bindM m f)"
  unfolding same_task_def bindM_def by (fastforce split: prod.splits sum.splits)

lemma same_task_then: "same_task m \<Longrightarrow> same_task n \<Longrightarrow> same_task (thenM m n)"
  unfolding thenM_def by (rule same_task_bind)

lemma same_task_basic:
  "same_task (onW m)" "same_task (getG f)" "same_task (liftM v)" "same_task (returnM a)" "same_task (raiseM e)"
  "(\<And>g. task_id (g_task (h g)) = task_id (g_task g)) \<Longrightarrow> same_task (setG h)"
  by (auto simp: same_task_def onW_def getG_def setG_def liftM_def returnM_def raiseM_def split: prod.splits)

lemma same_task_catch:
  assumes "same_task m" "\<And>e s. \<exists>e' s'. h e s = (Inl e', s')"
  shows "same_task (catchM m h)"
  unfolding same_task_def
proof (intro allI impI)
  fix s x s' assume eq: "catchM m h s = (Inr x, s')"
  show "task_id (g_task (snd s')) = task_id (g_task (snd s))"
  proof (cases "fst (m s)")
    case (Inl e)
    with eq assms(2) [of e "snd (m s)"] show ?thesis by (auto simp: catchM_def split: prod.splits sum.splits)
  next
    case (Inr y)
    with eq have "m s = (Inr x, s')" by (auto simp: catchM_def split: prod.splits sum.splits)
    then show ?thesis by (rule same_taskD [OF assms(1)])
  qed
qed

lemma then_raise_raises: "\<exists>e' s'. thenM m (raiseM e) s = (Inl e', s')"
  by (cases "m s") (auto simp: thenM_def bindM_def raiseM_def split: sum.splits)

lemma raise_raises: "\<exists>e' s'. raiseM e s = (Inl e', s')"
  by (simp add: raiseM_def)

lemma raises_if:
  "\<exists>e' s'. m s = (Inl e', s') \<Longrightarrow> \<exists>e' s'. n s = (Inl e', s') \<Longrightarrow> \<exists>e' s'. (if b then m else n) s = (Inl e', s')"
  by simp

lemmas same_task_rules = same_task_basic same_task_then same_task_bind

lemma same_task_investigate: "same_task (investigateM env b)"
  by (auto simp: same_task_def investigateM_def Let_def split: option.splits)

lemma same_task_draft: "same_task (draft_unit env b context)"
  unfolding draft_unit_def Let_def
  by (rule same_task_rules same_task_catch | rule raises_if then_raise_raises raise_raises)+

lemma same_task_gate: "same_task (gate_unit env context content claims)"
  unfolding gate_unit_def put_unitG_def save_genG_def
  by (rule same_task_rules | simp split: option.split | intro conjI impI allI)+

lemma endsG_bind:
  assumes "same_task m" and "\<And>x. endsG tid (f x)"
  shows "endsG tid (bindM m f)"
  unfolding endsG_def
proof (intro allI impI)
  fix s x s' assume s: "task_id (g_task (snd s)) = tid" and eq: "bindM m f s = (Inr x, s')"
  obtain y s1 where "m s = (Inr y, s1)" "f y s1 = (Inr x, s')"
    using eq by (auto simp: bindM_def split: prod.splits sum.splits)
  with s same_taskD [OF assms(1)] endsGD [OF assms(2)] show "snapshot (w_repo (fst s')) tid = Inr x" by metis
qed

lemma endsG_get: "(\<And>g. task_id (g_task g) = tid \<Longrightarrow> endsG tid (k g)) \<Longrightarrow> endsG tid (bindM (getG (\<lambda>g. g)) k)"
  by (auto simp: endsG_def bindM_def getG_def)

lemma endsG_then: "same_task m \<Longrightarrow> endsG tid n \<Longrightarrow> endsG tid (thenM m n)"
  unfolding thenM_def by (rule endsG_bind)

lemma endsG_read: "tid = tid' \<Longrightarrow> endsG tid (onW (readR (\<lambda>r. snapshot r tid')))"
  by (auto simp: endsG_def onW_def readR_def)

lemma endsG_offer: "endsG tid (offer_unit env draft)"
  unfolding offer_unit_def put_unitG_def save_genG_def
  by (rule endsG_read endsG_get endsG_then same_task_rules | simp)+

lemma endsG_accept: "endsG tid (accept_draft env context draft)"
  unfolding accept_draft_def Let_def
  by (rule endsG_read endsG_get endsG_then endsG_offer same_task_gate same_task_basic endsG_bind | simp | intro conjI impI)+

lemma endsG_generate: "endsG tid (generate_unit_inner env b)"
  unfolding generate_unit_inner_def
  by (rule endsG_accept same_task_draft same_task_investigate endsG_bind)+

lemma record_failure_raises: "\<exists>e' s'. record_failure env e s = (Inl e', s')"
  using then_raise_raises [of "fail_unit env e" e s] by (auto simp: record_failure_def bindM_def getG_def raiseM_def)

lemma ends_unit:
  assumes "tid = task_id task"
  shows "ends tid (generate_unit env task run outline u b)"
  unfolding returns_def
proof (intro allI impI)
  fix w x w' assume eq: "generate_unit env task run outline u b w = (Inr x, w')"
  let ?s = "(w, \<lparr>g_task = task, g_run = run, g_outline = outline, g_unit = u\<rparr>)"
  obtain g where "catchM (generate_unit_inner env b) (record_failure env) ?s = (Inr x, (w', g))"
    using eq by (auto simp: generate_unit_def split: prod.splits)
  then have "generate_unit_inner env b ?s = (Inr x, (w', g))"
    using record_failure_raises [of env] by (auto simp: catchM_def split: prod.splits sum.splits) (metis Pair_inject sum.distinct(1))
  then show "snapshot (w_repo w') tid = Inr x"
    using endsGD [OF endsG_generate, of env b ?s x "(w', g)" tid] assms by simp
qed

lemma ends_next_unit: "tid = task_id task \<Longrightarrow> ends tid (generate_next_unit env snap task run outline v)"
  unfolding generate_next_unit_def Let_def by (rule ends_unit ends_rules | simp)+

section \<open>A command that returns has recorded itself\<close>

text \<open>The record names the task whose snapshot is returned.\<close>

definition filed :: "Env \<Rightarrow> Command \<Rightarrow> pystr \<Rightarrow> WorkflowSnapshot \<Rightarrow> World \<Rightarrow> bool" where
  "filed env c tid snap w \<longleftrightarrow> recorded env c tid w \<and> snapshot (w_repo w) tid = Inr snap"

lemma filed_before:
  assumes "\<And>w. recorded env c tid (w\<lparr>w_repo := f (w_repo w)\<rparr>)"
    and "keeps (\<lambda>w w'. recorded env c tid w \<longrightarrow> recorded env c tid w') n" and "ends tid n"
  shows "returns (filed env c tid) (thenM (repoM f) n)"
  unfolding returns_def
proof (intro allI impI)
  fix w :: World and x w'
  let ?w = "w\<lparr>w_repo := f (w_repo w)\<rparr>"
  assume "thenM (repoM f) n w = (Inr x, w')"
  then have n: "n ?w = (Inr x, w')" by (simp add: thenM_def bindM_def repoM_def)
  from keepsD [OF assms(2) n] assms(1,3) n show "filed env c tid x w'" by (auto simp: filed_def returns_def)
qed

lemma filed_save:
  "issued env c rec \<and> idem_task_id rec = tid \<Longrightarrow> keeps (\<lambda>w w'. recorded env c tid w \<longrightarrow> recorded env c tid w') n \<Longrightarrow> ends tid n
    \<Longrightarrow> returns (filed env c tid) (thenM (repoM (save_idempotency rec)) n)"
  by (rule filed_before) (auto simp: recorded_def issued_def get_idempotency_def save_idempotency_def)

lemma filed_create:
  "issued env c rec \<and> idem_task_id rec = tid \<Longrightarrow> keeps (\<lambda>w w'. recorded env c tid w \<longrightarrow> recorded env c tid w') n \<Longrightarrow> ends tid n
    \<Longrightarrow> returns (filed env c tid) (thenM (repoM (create_task_bundle t msg b run rec)) n)"
  by (rule filed_before) (auto simp: recorded_def issued_def get_idempotency_def save_idempotency_def create_task_bundle_def)

lemmas filed_rules = filed_save filed_create returns_raise returns_new_task returns_supersede returns_move returns_touch returns_skip_then returns_skip

lemmas later_keeps = no_record.keeps_world no_record.keeps_steps no_record.keeps_parts
  no_record.keeps_new_section no_record.keeps_generate_next_unit no_record.keeps_render_document

lemmas later_ends = ends_read ends_await ends_outline ends_document ends_unit ends_next_unit

lemma filed_regenerate:
  assumes "\<And>rec. idem_actor_id rec = actor \<Longrightarrow> idem_key rec = key \<Longrightarrow> idem_input_hash rec = h \<Longrightarrow> issued env c rec"
  shows "returns (filed env c (task_id (ss_task snap))) (regenerate env actor key h expected snap outline ids event payload)"
  unfolding regenerate_def Let_def new_record_def bindM_assoc bindM_returnM
  by (rule filed_rules later_ends | simp add: assms | intro later_keeps)+

lemma filed_start: "returns (filed env (CmdStart c) tid) (start_extracted env c message tid rid thread now b)"
  unfolding start_extracted_def Let_def new_record_def bindM_assoc bindM_returnM
  by (rule filed_rules | (simp add: issued_def; fail) | intro later_keeps conjI impI later_ends returns_skip_then | simp split: if_split)+

lemma filed_start_failed: "returns (filed env (CmdStart c) tid) (start_failed env c message tid rid thread now exc)"
  unfolding start_failed_def Let_def new_record_def bindM_assoc bindM_returnM
  by (rule filed_rules | simp add: issued_def | intro later_keeps)+

lemma filed_reply: "returns (filed env (CmdReply c) (task_id task)) (reply_extracted env c message task previous b)"
  unfolding reply_extracted_def Let_def new_record_def bindM_assoc bindM_returnM
  by (rule filed_rules | (simp add: issued_def; fail) | intro later_keeps conjI impI later_ends returns_skip_then | simp split: if_split)+

section \<open>The shape of every command\<close>

text \<open>What a command checks before it looks for its record.\<close>

fun accepted :: "Command \<Rightarrow> bool" where
  "accepted (CmdStart c) = (strip (st_message c) \<noteq> [] \<and> strip (st_idempotency_key c) \<noteq> [])"
| "accepted (CmdReply c) = (strip (rt_message c) \<noteq> [])"
| "accepted (CmdReopen c) = (strip (rp_reason c) \<noteq> [])"
| "accepted _ = True"

lemma perform_rejected: "\<not> accepted c \<Longrightarrow> \<exists>msg. perform env c w = (Inl (InvalidCommand msg), w)"
  by (cases c) (auto simp: start_task_def start_task_locked_def reply_to_task_def reopen_prd_def Let_def thenM_def checkM_def raiseM_def)

fun command_task :: "Command \<Rightarrow> pystr option" where
  "command_task (CmdStart c) = None"
| "command_task (CmdReply c) = Some (rt_task_id c)"
| "command_task (CmdConfirmOutline c) = Some (co_task_id c)"
| "command_task (CmdConfirmUnit c) = Some (cu_task_id c)"
| "command_task (CmdApprove c) = Some (ar_task_id c)"
| "command_task (CmdReopen c) = Some (rp_task_id c)"
| "command_task (CmdFinalize c) = Some (fp_task_id c)"

text \<open>
  Then it replays its record or runs a body that stores one, for the task whose snapshot it
  returns: the task stored under the identifier the command names, where it names one.
\<close>

definition files :: "Env \<Rightarrow> Command \<Rightarrow> WorkflowSnapshot wf \<Rightarrow> bool" where
  "files env c body \<longleftrightarrow>
     (\<forall>w snap w'. body w = (Inr snap, w') \<longrightarrow>
        (\<exists>tid. filed env c tid snap w' \<and> (\<forall>t. command_task c = Some t \<longrightarrow> (\<exists>task. get_task (w_repo w) t = Inr task \<and> tid = task_id task))))"

definition recording :: "Env \<Rightarrow> Command \<Rightarrow> WorkflowSnapshot wf \<Rightarrow> bool" where
  "recording env c body \<longleftrightarrow>
     (accepted c \<longrightarrow> perform env c = replayM (command_actor c) (command_key c) (command_hash env c) body)
     \<and> files env c body"

lemma recordingI:
  "(accepted c \<Longrightarrow> perform env c = replayM (command_actor c) (command_key c) (command_hash env c) body)
    \<Longrightarrow> files env c body \<Longrightarrow> \<exists>body. recording env c body"
  by (auto simp: recording_def)

lemma files_new: "command_task c = None \<Longrightarrow> returns (\<lambda>snap w. \<exists>tid. filed env c tid snap w) body \<Longrightarrow> files env c body"
  by (fastforce simp: files_def returns_def)

lemma filed_some: "returns (filed env c tid) m \<Longrightarrow> returns (\<lambda>snap w. \<exists>tid. filed env c tid snap w) m"
  by (auto simp: returns_def)

lemma files_task:
  assumes "command_task c = Some t" "\<And>task. returns (filed env c (task_id task)) (k task)"
  shows "files env c (bindM (owned_task t actor) k)"
  unfolding files_def
proof (intro allI impI)
  fix w snap w' assume "bindM (owned_task t actor) k w = (Inr snap, w')"
  then obtain task where task: "get_task (w_repo w) t = Inr task" "k task w = (Inr snap, w')"
    by (auto simp: bindM_def owned_task_def readR_def raiseM_def returnM_def split: prod.splits sum.splits if_splits)
  with assms show "\<exists>tid. filed env c tid snap w' \<and> (\<forall>t. command_task c = Some t \<longrightarrow> (\<exists>task. get_task (w_repo w) t = Inr task \<and> tid = task_id task))"
    by (intro exI [of _ "task_id task"]) (auto simp: returns_def)
qed

lemma snapshot_task: "snapshot r tid = Inr snap \<Longrightarrow> get_task r tid = Inr (ss_task snap)"
  by (auto simp: snapshot_def bindE_def split: sum.splits)

lemma owner_snapshot: "snapshot_for_owner r tid actor = Inr snap \<Longrightarrow> snapshot r tid = Inr snap"
  by (auto simp: snapshot_for_owner_def bindE_def split: sum.splits if_splits)

lemma files_snapshot:
  assumes "command_task c = Some t" "\<And>snap. returns (filed env c (task_id (ss_task snap))) (k snap)"
  shows "files env c (bindM (owned_snapshot t actor) k)"
  unfolding files_def
proof (intro allI impI)
  fix w snap w' assume "bindM (owned_snapshot t actor) k w = (Inr snap, w')"
  then obtain s0 where s0: "snapshot_for_owner (w_repo w) t actor = Inr s0" "k s0 w = (Inr snap, w')"
    by (auto simp: bindM_def owned_snapshot_def readR_def split: prod.splits sum.splits)
  with assms snapshot_task [OF owner_snapshot [OF s0(1)]]
  show "\<exists>tid. filed env c tid snap w' \<and> (\<forall>t. command_task c = Some t \<longrightarrow> (\<exists>task. get_task (w_repo w) t = Inr task \<and> tid = task_id task))"
    by (intro exI [of _ "task_id (ss_task s0)"]) (auto simp: returns_def)
qed

lemma thenM_checked [simp]: "thenM (checkM True e) m = m"
  by (simp add: thenM_def checkM_def)

lemma perform_shape: "\<exists>body. recording env c body"
proof (cases c)
  case (CmdStart x)
  show ?thesis unfolding CmdStart
    by (rule recordingI, simp add: start_task_def start_task_locked_def Let_def, rule files_new, simp)
      (rule filed_some filed_start filed_start_failed returns_skip | simp split: sum.split | intro conjI impI allI)+
next
  case (CmdReply x)
  show ?thesis unfolding CmdReply
    by (rule recordingI, simp add: reply_to_task_def Let_def, rule files_task, simp) (rule filed_reply filed_rules)+
next
  case (CmdConfirmOutline x)
  show ?thesis unfolding CmdConfirmOutline
    by (rule recordingI, simp add: confirm_outline_def, rule files_snapshot, simp)
      (rule filed_rules later_ends | simp add: issued_def new_record_def bindM_assoc Let_def split: option.split bool.split list.split | intro conjI impI allI later_keeps)+
next
  case (CmdConfirmUnit x)
  show ?thesis unfolding CmdConfirmUnit
    by (rule recordingI, simp add: confirm_unit_def, rule files_snapshot, simp)
      (rule filed_rules later_ends | simp add: issued_def new_record_def bindM_assoc Let_def split: option.split bool.split list.split | intro conjI impI allI later_keeps)+
next
  case (CmdApprove x)
  show ?thesis unfolding CmdApprove
    by (rule recordingI, simp add: approve_revision_plan_def, rule files_snapshot, simp)
      (rule filed_regenerate filed_rules | simp add: issued_def Let_def split: option.split bool.split | intro conjI impI allI)+
next
  case (CmdReopen x)
  show ?thesis unfolding CmdReopen
    by (rule recordingI, simp add: reopen_prd_def Let_def, rule files_snapshot, simp)
      (rule filed_regenerate filed_rules | simp add: issued_def Let_def split: option.split bool.split | intro conjI impI allI)+
next
  case (CmdFinalize x)
  show ?thesis unfolding CmdFinalize
    by (rule recordingI, simp add: finalize_prd_def, rule files_snapshot, simp)
      (rule filed_rules later_ends | simp add: issued_def new_record_def bindM_assoc Let_def split: option.split bool.split list.split | intro conjI impI allI later_keeps)+
qed

section \<open>Sending a command again\<close>

lemma perform_accepted: "perform env c w = (Inr snap, w') \<Longrightarrow> accepted c"
  using perform_rejected [of c env w] by auto

lemma perform_filed:
  assumes "perform env c w = (Inr snap, w')"
  shows "\<exists>tid. filed env c tid snap w' \<and>
    (get_idempotency (w_repo w) (command_actor c) (command_key c) = None \<longrightarrow>
      (\<forall>t. command_task c = Some t \<longrightarrow> (\<exists>task. get_task (w_repo w) t = Inr task \<and> tid = task_id task)))"
proof -
  obtain body where body: "recording env c body" using perform_shape by blast
  then have eq: "perform env c w = replayM (command_actor c) (command_key c) (command_hash env c) body w" and files: "files env c body"
    using perform_accepted [OF assms] by (simp_all add: recording_def)
  show ?thesis
  proof (cases "get_idempotency (w_repo w) (command_actor c) (command_key c)")
    case None
    with assms eq have "body w = (Inr snap, w')" by (simp add: replayM_def)
    with files None show ?thesis by (auto simp: files_def)
  next
    case (Some rec)
    with assms eq owner_snapshot [of "w_repo w" "idem_task_id rec" "command_actor c" snap]
    show ?thesis by (auto simp: replayM_def filed_def recorded_def split: if_splits)
  qed
qed

lemma record_stays:
  assumes "get_idempotency (w_repo w) actor key = Some rec"
  shows "get_idempotency (w_repo (perform_step env c w)) actor key = Some rec"
proof (cases "(command_actor c, command_key c) = (actor, key)")
  case True
  obtain body where body: "recording env c body" using perform_shape by blast
  have "perform_step env c w = w"
  proof (cases "accepted c")
    case False
    then show ?thesis using perform_rejected [OF False, of env w] by (auto simp: perform_step_def)
  next
    case acc: True
    with body assms True show ?thesis by (auto simp: recording_def perform_step_def replayM_def)
  qed
  with assms show ?thesis by simp
next
  case False
  then show ?thesis using assms other_keys.keeps_step [of env c actor key w] by (auto simp: issued_def)
qed

lemma record_stays_for_ever:
  "get_idempotency (w_repo w) actor key = Some rec \<Longrightarrow> get_idempotency (w_repo (run_commands (perform_step env) cs w)) actor key = Some rec"
  by (induction cs arbitrary: w) (simp_all add: record_stays)

text \<open>A recorded command is a read of the task of its record, at any later time.\<close>

lemma recorded_replays:
  assumes "accepted c" "recorded env c tid w'" "w = run_commands (perform_step env) cs w'"
  shows "perform env c w = show_task tid (command_actor c) w"
    and "accepted d \<Longrightarrow> command_actor d = command_actor c \<Longrightarrow> command_key d = command_key c \<Longrightarrow> command_hash env d \<noteq> command_hash env c
      \<Longrightarrow> perform env d w = (Inl (IdempotencyConflict ''idempotency key was already used with different input''), w)"
proof -
  obtain rec where rec: "get_idempotency (w_repo w') (command_actor c) (command_key c) = Some rec"
      "idem_input_hash rec = command_hash env c" "idem_task_id rec = tid"
    using assms(2) by (auto simp: recorded_def)
  note kept = record_stays_for_ever [OF rec(1), of env cs, folded assms(3)]
  obtain body where "recording env c body" using perform_shape by blast
  with assms(1) kept rec(2,3) show "perform env c w = show_task tid (command_actor c) w"
    by (simp add: recording_def replayM_def show_task_def owned_snapshot_def readR_def)
  show "perform env d w = (Inl (IdempotencyConflict ''idempotency key was already used with different input''), w)"
    if "accepted d" "command_actor d = command_actor c" "command_key d = command_key c" "command_hash env d \<noteq> command_hash env c"
  proof -
    obtain body where "recording env d body" using perform_shape by blast
    with that kept rec(2) show ?thesis by (simp add: recording_def replayM_def)
  qed
qed

end
