(* ===== verification/Workflow_Example.thy ===== *)
theory Workflow_Example
  imports Workflow_Service
begin

text \<open>
  A concrete environment and a session with it, from the first message to the finished document.
  The facts about the commands are instantiated at its worlds.
\<close>

definition demo_outline :: json where
  "demo_outline = JObj [(lit ''title'', JStr (lit ''PRD'')), (lit ''nodes'', JList
     [JObj [(lit ''key'', JStr (lit ''a'')), (lit ''title'', JStr (lit ''A'')), (lit ''purpose'', JStr (lit ''p'')), (lit ''complexity'', JStr (lit ''LOW''))],
      JObj [(lit ''key'', JStr (lit ''b'')), (lit ''title'', JStr (lit ''B'')), (lit ''purpose'', JStr (lit ''p'')), (lit ''complexity'', JStr (lit ''LOW''))]]),
     (lit ''units'', JList
     [JObj [(lit ''key'', JStr (lit ''u'')), (lit ''title'', JStr (lit ''U'')), (lit ''node_keys'', JList [JStr (lit ''a'')])],
      JObj [(lit ''key'', JStr (lit ''v'')), (lit ''title'', JStr (lit ''V'')), (lit ''node_keys'', JList [JStr (lit ''b'')]),
            (lit ''depends_on_unit_keys'', JList [JStr (lit ''u'')])]])]"

fun demo_model :: workflow_model where
  "demo_model n (ExtractRequirementBrief message previous) repair =
     Inr (JObj [(lit ''problem'', JStr message), (lit ''target_users'', JList [JStr (lit ''u'')]), (lit ''goals'', JList [JStr (lit ''g'')]),
       (lit ''scenarios'', JList [JStr (lit ''s'')]), (lit ''scope_in'', JList [JStr (lit ''i'')]), (lit ''success_metrics'', JList [JStr (lit ''m'')])])"
| "demo_model n (GenerateOutline b) repair = Inr demo_outline"
| "demo_model n (GenerateConfirmationUnit b tid version nodes seq title confirmed context) repair =
     Inr (JObj [(lit ''sections'', JList (map (\<lambda>n. JObj [(lit ''node_key'', JStr (node_key_of n)), (lit ''title'', JStr (node_title n)),
        (lit ''content'', JStr (lit ''text''))]) nodes))])"

definition demo_env :: Env where
  "demo_env = \<lparr>env_clock = int, env_uuid = (\<lambda>n. [n]), env_sha256 = (\<lambda>x. x), env_str_of = (\<lambda>_. []), env_lower = (\<lambda>x. x),
     env_model = demo_model, env_provider = None, env_grounding = None, env_quality = True\<rparr>"

definition demo_task :: pystr where
  "demo_task = make_id demo_env ''task'' 0"

definition demo_start :: Command where
  "demo_start = CmdStart \<lparr>st_message = lit ''hi'', st_idempotency_key = lit ''k1'', st_actor_id = lit ''me''\<rparr>"

definition demo_confirm :: Command where
  "demo_confirm = CmdConfirmOutline \<lparr>co_task_id = demo_task, co_outline_version = 1, co_expected_task_version = 3,
     co_idempotency_key = lit ''k2'', co_actor_id = lit ''me''\<rparr>"

definition demo_commands :: "Command list" where
  "demo_commands = [demo_start, demo_confirm]"

section \<open>Executing a command\<close>

text \<open>
  Symbolic execution evaluates the first part of a sequence, then what follows; the congruence
  rules keep the continuations as they are until their turn.
\<close>

named_theorems execute_simps
named_theorems execute_congs

lemma run_bind [execute_simps]: "m s = (r, s') \<Longrightarrow> bindM m f s = (case r of Inl e \<Rightarrow> (Inl e, s') | Inr x \<Rightarrow> f x s')"
  by (simp add: bindM_def)

lemma run_then [execute_simps]: "m s = (r, s') \<Longrightarrow> thenM m n s = (case r of Inl e \<Rightarrow> (Inl e, s') | Inr x \<Rightarrow> n s')"
  by (simp add: thenM_def bindM_def)

lemma run_catch [execute_simps]: "m s = (r, s') \<Longrightarrow> catchM m h s = (case r of Inl e \<Rightarrow> h e s' | Inr x \<Rightarrow> (Inr x, s'))"
  by (simp add: catchM_def)

lemma run_let [execute_simps]: "v = v' \<Longrightarrow> Let v f = f v'"
  by simp

lemma run_let_state [execute_simps]: "v = v' \<Longrightarrow> Let v f s = f v' s"
  by simp

lemma cong_bind [execute_congs]: "bindM m f s = bindM m f s" ..

lemma cong_then [execute_congs]: "thenM m n s = thenM m n s" ..

lemma cong_catch [execute_congs]: "catchM m h s = catchM m h s" ..

lemma cong_let [execute_congs]: "Let v f = Let v f" ..

lemmas prims = returnM_def raiseM_def checkM_def liftM_def nowM_def idM_def repoM_def readR_def save_runM_def callM_def extractM_def
  eventM_def checkpointM_def replayM_def moveM_def touchM_def new_task_def new_message_def new_brief_def new_record_def owned_task_def owned_snapshot_def

lemma demo_env_sel [simp]: "env_clock demo_env = int" "env_uuid demo_env = (\<lambda>n. [n])" "env_sha256 demo_env = (\<lambda>x. x)" "env_str_of demo_env = (\<lambda>_. [])"
  "env_lower demo_env = (\<lambda>x. x)" "env_model demo_env = demo_model" "env_provider demo_env = None" "env_grounding demo_env = None" "env_quality demo_env = True"
  by (simp_all add: demo_env_def)

lemma demo_brief: "\<exists>b. extract_requirement_brief (\<lambda>_. []) demo_model (lit ''hi'') None 0 = (Inr b, 1) \<and> \<not> needs_clarification b"
proof -
  have "case extract_requirement_brief (\<lambda>_. []) demo_model (lit ''hi'') None 0 of (Inr b, n) \<Rightarrow> n = 1 \<and> \<not> needs_clarification b | _ \<Rightarrow> False" by code_simp
  then show ?thesis by (auto split: prod.splits sum.splits)
qed

definition demo_draft :: OutlineDraft where
  "demo_draft = \<lparr>od_title = [80, 82, 68],
        od_nodes =
          [\<lparr>nd_fields =
              [([107, 101, 121], JStr [97]),
               ([116, 105, 116, 108, 101], JStr [65]),
               ([112, 117, 114, 112, 111, 115, 101], JStr [112]),
               ([99, 111, 109, 112, 108, 101, 120, 105, 116, 121],
                JStr [76, 79, 87])],
              nd_key = [97], nd_parent_key = None, nd_level = 1\<rparr>,
           \<lparr>nd_fields =
              [([107, 101, 121], JStr [98]),
               ([116, 105, 116, 108, 101], JStr [66]),
               ([112, 117, 114, 112, 111, 115, 101], JStr [112]),
               ([99, 111, 109, 112, 108, 101, 120, 105, 116, 121],
                JStr [76, 79, 87])],
              nd_key = [98], nd_parent_key = None, nd_level = 1\<rparr>],
        od_units =
          [\<lparr>ud_key = [117], ud_title = [85], ud_node_keys = [[97]],
              ud_depends_on = []\<rparr>,
           \<lparr>ud_key = [118], ud_title = [86], ud_node_keys = [[98]],
              ud_depends_on = [[117]]\<rparr>]\<rparr>"

lemma demo_drafted: "validate_outline (\<lambda>_. []) demo_outline = Inr demo_draft" by code_simp

lemma demo_invoked: "invoke_validated demo_model (GenerateOutline b) (validate_outline (\<lambda>_. [])) n = (Inr demo_draft, Suc n)"
  by (simp add: invoke_validated_def demo_drafted)

lemma demo_nodes: "make_node demo_env nid k \<lparr>nd_fields =
              [([107, 101, 121], JStr [a]),
               ([116, 105, 116, 108, 101], JStr [b]),
               ([112, 117, 114, 112, 111, 115, 101], JStr [112]),
               ([99, 111, 109, 112, 108, 101, 120, 105, 116, 121],
                JStr [76, 79, 87])],
              nd_key = [a], nd_parent_key = None, nd_level = 1\<rparr> ids
   = Inr \<lparr>node_id = nid, node_sequence = int k, node_title = [b], node_purpose = [112], node_complexity = CX_LOW,
          required_information = [], parent_id = None, node_level = 1, stable_key = Some [a]\<rparr>"
  by (simp add: make_node_def node_text_def obj_get_def lit_def dict_get_def complexity_of_def)

lemma strip_hi: "strip [104, 105] = [104, 105]" "strip [107, 49] = [107, 49]" by code_simp+

lemma demo_unit:
  "validate_unit_draft_for_nodes (\<lambda>_. []) [[97]] (JObj
     [([115, 101, 99, 116, 105, 111, 110, 115], JList [JObj [([110, 111, 100, 101, 95, 107, 101, 121], JStr [97]), ([116, 105, 116, 108, 101], JStr [65]), ([99, 111, 110, 116, 101, 110, 116], JStr [116, 101, 120, 116])]])])
   = Inr \<lparr>uc_content = [35, 35, 35, 32, 65, 10, 10, 116, 101, 120, 116], uc_claims = [], uc_sections = [\<lparr>sx_node_key = [97], sx_title = [65], sx_content = [116, 101, 120, 116]\<rparr>]\<rparr>"
  by code_simp

lemma demo_invoked_unit:
  "validator (JObj [(lit ''sections'', JList (map (\<lambda>n. JObj [(lit ''node_key'', JStr (node_key_of n)), (lit ''title'', JStr (node_title n)),
        (lit ''content'', JStr (lit ''text''))]) nodes))]) = Inr x
   \<Longrightarrow> invoke_validated demo_model (GenerateConfirmationUnit b tid version nodes seq title confirmed context) validator n = (Inr x, Suc n)"
  by (simp add: invoke_validated_def)

lemmas demo_eval = demo_task_def start_task_def strip_hi start_task_locked_def execute_simps prims start_extracted_def generate_outline_def build_outline_def
   demo_invoked demo_draft_def demo_nodes make_unit_def make_units_def lookup_key_def get_idempotency_def empty_world_def empty_repo_def dict_get_def transition_def
   snapshot_def get_task_def latest_run_def task_runs_def create_task_bundle_def save_idempotency_def make_run_def dict_values_def append_event_def save_event_def dict_get_or_def
   save_run_def save_outline_def save_task_def save_checkpoint_def ACTIVE_RUN_STATUSES_def perform_step_def
   confirm_outline_def snapshot_for_owner_def current_outline_def active_outline_def last_option_def close_run_def open_run_def run_time_def
   snapshot_brief_def current_brief_def set_unit_status_def
   max_default_def outline_confirm_def make_id_def generate_unit_def generate_unit_inner_def investigateM_def draft_unit_def getG_def setG_def onW_def unit_nodes_def nodes_by_key_def node_key_of_def
   demo_invoked_unit demo_unit accept_draft_def section_drafts_of_def draft_of_section_def gate_unit_def offer_unit_def put_unitG_def save_genG_def put_unit_def replace_by_def
   dict_by_def dict_comp_def dict_keys_def

section \<open>The session\<close>

lemma demo_generating:
  "\<exists>t. dict_get (rp_tasks (w_repo (run_commands (perform_step demo_env) demo_commands empty_world))) demo_task = Some t
     \<and> task_status t = TS_GENERATING \<and> task_version t = 4 \<and> task_owner_id t = lit ''me''"
proof -
  obtain b where b: "extract_requirement_brief (\<lambda>_. []) demo_model (lit ''hi'') None 0 = (Inr b, 1)" "\<not> needs_clarification b"
    using demo_brief by blast
  then show ?thesis
    by (simp add: demo_commands_def demo_start_def demo_confirm_def demo_eval cong: execute_congs)
qed

lemma demo_confirmed:
  "\<exists>snap w. perform demo_env demo_confirm (run_commands (perform_step demo_env) [demo_start] empty_world) = (Inr snap, w)
     \<and> task_id (ss_task snap) = demo_task"
proof -
  obtain b where b: "extract_requirement_brief (\<lambda>_. []) demo_model (lit ''hi'') None 0 = (Inr b, 1)" "\<not> needs_clarification b"
    using demo_brief by blast
  then show ?thesis
    by (simp add: demo_start_def demo_confirm_def demo_eval cong: execute_congs)
qed

lemma demo_only:
  "dict_get (rp_tasks (w_repo (run_commands (perform_step demo_env) demo_commands empty_world))) (lit ''other'') = None"
proof -
  obtain b where b: "extract_requirement_brief (\<lambda>_. []) demo_model (lit ''hi'') None 0 = (Inr b, 1)" "\<not> needs_clarification b"
    using demo_brief by blast
  then show ?thesis
    by (simp add: demo_commands_def demo_start_def demo_confirm_def demo_eval cong: execute_congs)
qed

lemma demo_other_hash:
  "confirm_outline_hash demo_env \<lparr>co_task_id = demo_task, co_outline_version = 2, co_expected_task_version = 3, co_idempotency_key = lit ''k2'', co_actor_id = lit ''me''\<rparr>
   \<noteq> confirm_outline_hash demo_env \<lparr>co_task_id = demo_task, co_outline_version = 1, co_expected_task_version = 3, co_idempotency_key = lit ''k2'', co_actor_id = lit ''me''\<rparr>"
  by code_simp

lemma demo_inj: "inj (env_uuid demo_env)"
  by (simp add: inj_def)

end
