(* ===== verification/Workflow_Safety.thy ===== *)
theory Workflow_Safety
  imports Workflow_Preservation Workflow_Idempotency Workflow_Example
begin

text \<open>
  What the workflow guarantees of every repository that commands can produce from the empty one,
  for every environment that draws distinct identifiers.
\<close>

definition world_after :: "Env \<Rightarrow> Command list \<Rightarrow> World" where
  "world_after env cs = run_commands (perform_step env) cs empty_world"

definition after :: "Env \<Rightarrow> Command list \<Rightarrow> Repo" where
  "after env cs = w_repo (world_after env cs)"

lemma after_invar: "inj (env_uuid env) \<Longrightarrow> workflow_invar env (world_after env cs)"
  unfolding world_after_def by (rule workflow.invar_run) (rule invar_empty)

lemma after_task_ok:
  assumes "inj (env_uuid env)" "dict_get (rp_tasks (after env cs)) tid = Some t"
  shows "\<exists>n. task_ok env n (after env cs) tid t"
  using after_invar [OF assms(1), of cs] assms(2) unfolding workflow_invar_def after_def by blast

section \<open>The stage of a task\<close>

lemma live_single: "live os = [ol] \<Longrightarrow> active_outline os = Some ol"
  by (simp add: active_outline_live last_option_def)

lemma dependencies_before:
  assumes "outline_wf ol" "u \<in> set (confirmation_units ol)" "d \<in> set (depends_on_unit_ids u)"
  shows "\<exists>v \<in> set (confirmation_units ol). unit_id v = d \<and> unit_sequence v < unit_sequence u"
proof -
  obtain j where j: "j < length (confirmation_units ol)" "u = confirmation_units ol ! j" using assms(2) by (metis in_set_conv_nth)
  then have "d \<in> unit_id ` set (take j (confirmation_units ol))" using assms(1,3) by (auto simp: outline_wf_def Let_def)
  then obtain i where i: "i < j" "d = unit_id (confirmation_units ol ! i)" using j(1) by (auto simp: in_set_conv_nth)
  with j outline_wf_sequences [OF assms(1)] show ?thesis
    by (intro bexI [of _ "confirmation_units ol ! i"]) auto
qed

text \<open>
  C1. Units are written and confirmed in order. While a task is generating there is one current
  outline, it is confirmed, the cursor of the task stands at one of its units, that unit waits for
  the user, every unit before it is confirmed, and so is every unit it depends on. A task under
  final review or completed has a confirmed outline with all its units confirmed; a task under
  outline review has an outline that waits for confirmation and whose units are untouched; a task
  in clarification has no current outline. No task is ever stored as a draft, stopped or being
  deleted.
\<close>

theorem units_confirmed_in_order:
  assumes "inj (env_uuid env)" and "dict_get (rp_tasks (after env cs)) tid = Some t"
  shows "case (task_status t, active_outline (dict_get_or (rp_outlines (after env cs)) tid [])) of
      (TS_CLARIFYING, None) \<Rightarrow> True
    | (TS_OUTLINE_REVIEW, Some ol) \<Rightarrow> outline_status ol = OS_PENDING_CONFIRMATION
        \<and> list_all (\<lambda>u. unit_status u = US_PENDING) (confirmation_units ol)
    | (TS_GENERATING, Some ol) \<Rightarrow> outline_status ol = OS_CONFIRMED
        \<and> (\<exists>u \<in> set (confirmation_units ol). current_unit_sequence t = Some (unit_sequence u)
             \<and> unit_status u \<in> {US_PENDING_CONFIRMATION, US_HUMAN_INPUT_REQUIRED}
             \<and> (\<forall>v \<in> set (confirmation_units ol). unit_sequence v < unit_sequence u \<longrightarrow> unit_status v = US_CONFIRMED)
             \<and> (\<forall>d \<in> set (depends_on_unit_ids u). \<exists>v \<in> set (confirmation_units ol). unit_id v = d \<and> unit_status v = US_CONFIRMED))
    | (TS_FINAL_REVIEW, Some ol) \<Rightarrow> outline_status ol = OS_CONFIRMED \<and> list_all (\<lambda>u. unit_status u = US_CONFIRMED) (confirmation_units ol)
    | (TS_COMPLETED, Some ol) \<Rightarrow> outline_status ol = OS_CONFIRMED \<and> list_all (\<lambda>u. unit_status u = US_CONFIRMED) (confirmation_units ol)
    | (TS_FAILED, _) \<Rightarrow> True
    | _ \<Rightarrow> False"
proof -
  let ?os = "outlines_of (after env cs) tid"
  have st: "stage_ok (task_status t) (current_unit_sequence t) ?os" using after_task_ok [OF assms] by (auto simp: task_ok_def)
  show ?thesis
  proof (cases "task_status t")
    case TS_CLARIFYING
    with st show ?thesis by (simp add: active_outline_live last_option_def outlines_of_def)
  next
    case TS_GENERATING
    with st obtain ol u where ol: "live ?os = [ol]" "outline_wf ol" "outline_status ol = OS_CONFIRMED" and u: "at_unit ol u"
      "current_unit_sequence t = Some (unit_sequence u)" "awaiting u" by auto
    have "\<exists>v \<in> set (confirmation_units ol). unit_id v = d \<and> unit_status v = US_CONFIRMED" if "d \<in> set (depends_on_unit_ids u)" for d
      using dependencies_before [OF ol(2) _ that] u(1) by (auto simp: at_unit_def)
    with u have "\<exists>u \<in> set (confirmation_units ol). current_unit_sequence t = Some (unit_sequence u)
             \<and> unit_status u \<in> {US_PENDING_CONFIRMATION, US_HUMAN_INPUT_REQUIRED}
             \<and> (\<forall>v \<in> set (confirmation_units ol). unit_sequence v < unit_sequence u \<longrightarrow> unit_status v = US_CONFIRMED)
             \<and> (\<forall>d \<in> set (depends_on_unit_ids u). \<exists>v \<in> set (confirmation_units ol). unit_id v = d \<and> unit_status v = US_CONFIRMED)"
      by (intro bexI [of _ u]) (auto simp: at_unit_def awaiting_def)
    with TS_GENERATING live_single [OF ol(1)] ol(3) show ?thesis by (simp add: outlines_of_def)
  qed (use st in \<open>auto dest!: live_single simp: outlines_of_def list_all_iff all_confirmed_def\<close>)
qed

theorem units_confirmed_in_order_witness:
  "\<exists>t ol. dict_get (rp_tasks (after demo_env demo_commands)) demo_task = Some t \<and> task_status t = TS_GENERATING
     \<and> active_outline (dict_get_or (rp_outlines (after demo_env demo_commands)) demo_task []) = Some ol \<and> outline_status ol = OS_CONFIRMED"
proof -
  obtain t where t: "dict_get (rp_tasks (after demo_env demo_commands)) demo_task = Some t" "task_status t = TS_GENERATING"
    using demo_generating by (auto simp: after_def world_after_def)
  from units_confirmed_in_order [OF demo_inj t(1)] t show ?thesis by (auto split: option.splits)
qed

section \<open>Progress\<close>

lemma filter_unit_id: "distinct (map unit_id us) \<Longrightarrow> u \<in> set us \<Longrightarrow> filter (\<lambda>v. unit_id v = unit_id u) us = [u]"
proof (induction us)
  case (Cons a us)
  then show ?case by (cases "a = u") (auto simp: filter_empty_conv image_iff)
qed simp

text \<open>
  C8. What the workflow offers to the user can be accepted. The outline of a task under outline
  review passes the outline policy, and the unit at the cursor of a generating task passes the
  unit policy as soon as it has been written: its outline is confirmed, it is the next one, it has
  content, and all its dependencies are confirmed.
\<close>

theorem offers_can_be_accepted:
  assumes "inj (env_uuid env)" and "dict_get (rp_tasks (after env cs)) tid = Some t"
  shows "(task_status t = TS_OUTLINE_REVIEW \<longrightarrow>
      (\<exists>ol. active_outline (dict_get_or (rp_outlines (after env cs)) tid []) = Some ol \<and> outline_confirm ol (outline_version ol) = Inr ()))
    \<and> (task_status t = TS_GENERATING \<longrightarrow>
      (\<exists>ol. active_outline (dict_get_or (rp_outlines (after env cs)) tid []) = Some ol
         \<and> (\<exists>u \<in> set (confirmation_units ol). current_unit_sequence t = Some (unit_sequence u)
              \<and> (if unit_status u = US_PENDING_CONFIRMATION then unit_confirm ol (unit_id u) (current_unit_sequence t) = Inr ()
                 else unit_status u = US_HUMAN_INPUT_REQUIRED))))"
proof -
  let ?os = "outlines_of (after env cs) tid"
  have st: "stage_ok (task_status t) (current_unit_sequence t) ?os" using after_task_ok [OF assms] by (auto simp: task_ok_def)
  have review: "\<exists>ol. active_outline ?os = Some ol \<and> outline_confirm ol (outline_version ol) = Inr ()" if "task_status t = TS_OUTLINE_REVIEW"
  proof -
    from st that obtain ol where ol: "live ?os = [ol]" "outline_wf ol" "outline_status ol = OS_PENDING_CONFIRMATION" by auto
    then have "outline_confirm ol (outline_version ol) = Inr ()" by (simp add: outline_wf_def Let_def)
    with live_single [OF ol(1)] show ?thesis by blast
  qed
  have unit: "\<exists>ol. active_outline ?os = Some ol
         \<and> (\<exists>u \<in> set (confirmation_units ol). current_unit_sequence t = Some (unit_sequence u)
              \<and> (if unit_status u = US_PENDING_CONFIRMATION then unit_confirm ol (unit_id u) (current_unit_sequence t) = Inr ()
                 else unit_status u = US_HUMAN_INPUT_REQUIRED))" if "task_status t = TS_GENERATING"
  proof -
    from st that obtain ol u where ol: "live ?os = [ol]" "outline_wf ol" "outline_status ol = OS_CONFIRMED" and u: "at_unit ol u"
      "current_unit_sequence t = Some (unit_sequence u)" "awaiting u" by auto
    have deps: "\<exists>v \<in> set (confirmation_units ol). unit_id v = d \<and> unit_status v = US_CONFIRMED" if "d \<in> set (depends_on_unit_ids u)" for d
      using dependencies_before [OF ol(2) _ that] u(1) by (auto simp: at_unit_def)
    have mem: "u \<in> set (confirmation_units ol)" using u(1) by (simp add: at_unit_def)
    have "filter (\<lambda>v. unit_id v = unit_id u) (confirmation_units ol) = [u]"
      using ol(2) mem by (intro filter_unit_id) (simp_all add: outline_wf_def Let_def)
    then have "unit_confirm ol (unit_id u) (current_unit_sequence t) = Inr ()" if "unit_status u = US_PENDING_CONFIRMATION"
      using that u ol deps by (auto simp: unit_confirm_def awaiting_def)
    with u mem live_single [OF ol(1)] show ?thesis by (auto simp: awaiting_def)
  qed
  show ?thesis using review unit by (auto simp: outlines_of_def)
qed

theorem offers_can_be_accepted_witness:
  "\<exists>t ol. dict_get (rp_tasks (after demo_env demo_commands)) demo_task = Some t \<and> task_status t = TS_GENERATING
     \<and> active_outline (dict_get_or (rp_outlines (after demo_env demo_commands)) demo_task []) = Some ol
     \<and> (\<exists>u \<in> set (confirmation_units ol). current_unit_sequence t = Some (unit_sequence u)
          \<and> unit_status u \<in> {US_PENDING_CONFIRMATION, US_HUMAN_INPUT_REQUIRED})"
proof -
  obtain t where t: "dict_get (rp_tasks (after demo_env demo_commands)) demo_task = Some t" "task_status t = TS_GENERATING"
    using demo_generating by (auto simp: after_def world_after_def)
  with offers_can_be_accepted [OF demo_inj t(1)] show ?thesis by (auto split: if_splits)
qed

section \<open>Runs\<close>

text \<open>
  C9. A task has at most one active run. In every repository the commands produce, a run is stored
  under its own identifier and belongs to a stored task, every stored task has a run, and two
  active runs of one task are the same run.
\<close>

theorem one_active_run:
  assumes "inj (env_uuid env)" and "dict_get (rp_runs (after env cs)) k = Some x"
  shows "run_id x = k \<and> (\<exists>t. dict_get (rp_tasks (after env cs)) (run_task_id x) = Some t)
    \<and> (\<forall>k' y. dict_get (rp_runs (after env cs)) k' = Some y \<and> run_task_id y = run_task_id x
          \<and> run_status x \<in> ACTIVE_RUN_STATUSES \<and> run_status y \<in> ACTIVE_RUN_STATUSES \<longrightarrow> k' = k \<and> y = x)"
proof -
  let ?r = "after env cs"
  have inv: "runs_keyed env n (rp_runs ?r)" "one_active (rp_runs ?r)"
    "\<forall>tid. dict_get (rp_tasks ?r) tid = None \<longrightarrow> \<not> has_run (rp_runs ?r) tid" if "n = w_uuids (world_after env cs)" for n
    using after_invar [OF assms(1), of cs] that by (auto simp: workflow_invar_def after_def)
  have "run_id x = k" using inv(1) [OF refl] assms(2) by (simp add: runs_keyed_def)
  moreover have "\<exists>t. dict_get (rp_tasks ?r) (run_task_id x) = Some t"
    using inv(3) [OF refl] assms(2) by (metis has_run_def option.exhaust)
  moreover have "k' = k \<and> y = x" if "dict_get (rp_runs ?r) k' = Some y" "run_task_id y = run_task_id x"
    "run_status x \<in> ACTIVE_RUN_STATUSES" "run_status y \<in> ACTIVE_RUN_STATUSES" for k' y
  proof -
    have "k' = k" using inv(2) [OF refl] that assms(2) unfolding one_active_def by blast
    with that(1) assms(2) show ?thesis by simp
  qed
  ultimately show ?thesis by blast
qed

theorem one_active_run_witness:
  "\<exists>k x. dict_get (rp_runs (after demo_env demo_commands)) k = Some x \<and> run_task_id x = demo_task \<and> run_id x = k"
proof -
  obtain t where "dict_get (rp_tasks (after demo_env demo_commands)) demo_task = Some t"
    using demo_generating by (auto simp: after_def world_after_def)
  from after_task_ok [OF demo_inj this] obtain k x where "dict_get (rp_runs (after demo_env demo_commands)) k = Some x" "run_task_id x = demo_task"
    by (auto simp: task_ok_def has_run_def)
  with one_active_run [OF demo_inj this(1)] show ?thesis by blast
qed

section \<open>Reading and guarding\<close>

fun command_version :: "Command \<Rightarrow> int option" where
  "command_version (CmdStart c) = None"
| "command_version (CmdReply c) = Some (rt_expected_task_version c)"
| "command_version (CmdConfirmOutline c) = Some (co_expected_task_version c)"
| "command_version (CmdConfirmUnit c) = Some (cu_expected_task_version c)"
| "command_version (CmdApprove c) = Some (ar_expected_task_version c)"
| "command_version (CmdReopen c) = Some (rp_expected_task_version c)"
| "command_version (CmdFinalize c) = Some (fp_expected_task_version c)"

lemma after_snapshot:
  assumes inj: "inj (env_uuid env)" and t: "dict_get (rp_tasks (after env cs)) tid = Some t"
  shows "\<exists>snap. snapshot (after env cs) tid = Inr snap \<and> ss_task snap = t"
proof -
  let ?w = "world_after env cs"
  note inv = after_invar [OF inj, of cs]
  have fr: "framed env tid (w_repo ?w) (w_uuids ?w) (w_repo ?w)" by (rule framed_start [OF inv]) (use t in \<open>simp add: after_def\<close>)
  have "has_run (rp_runs (w_repo ?w)) tid" using fr by (simp add: framed_def)
  then have "task_runs (w_repo ?w) tid \<noteq> []"
    using dict_get_SomeD by (fastforce simp: has_run_def task_runs_def filter_empty_conv)
  with snapshot_total [OF _ _ opened_timed [OF fr]] t obtain snap where "snapshot (after env cs) tid = Inr snap" by (auto simp: after_def)
  with t show ?thesis by (auto simp: snapshot_def get_task_def bindE_Inr)
qed

lemma perform_guarded:
  assumes "accepted c" "get_idempotency (w_repo w) (command_actor c) (command_key c) = None" "command_task c = Some tid"
  shows "get_task (w_repo w) tid = Inl e \<Longrightarrow> perform env c w = (Inl e, w)"
    and "get_task (w_repo w) tid = Inr t \<Longrightarrow> task_owner_id t \<noteq> command_actor c \<Longrightarrow> perform env c w = (Inl (NotFound ''task not found: {task_id}''), w)"
    and "snapshot (w_repo w) tid = Inr snap \<Longrightarrow> task_owner_id (ss_task snap) = command_actor c \<Longrightarrow> command_version c \<noteq> Some (task_version (ss_task snap))
      \<Longrightarrow> perform env c w = (Inl stale_version, w)"
proof -
  note defs = reply_to_task_def confirm_outline_def confirm_unit_def approve_revision_plan_def reopen_prd_def finalize_prd_def Let_def
    replayM_def owned_snapshot_def owned_task_def snapshot_for_owner_def bindM_def thenM_def checkM_def readR_def raiseM_def returnM_def
  show "get_task (w_repo w) tid = Inl e \<Longrightarrow> perform env c w = (Inl e, w)"
    using assms by (cases c) (simp_all add: defs)
  show "get_task (w_repo w) tid = Inr t \<Longrightarrow> task_owner_id t \<noteq> command_actor c \<Longrightarrow> perform env c w = (Inl (NotFound ''task not found: {task_id}''), w)"
    using assms by (cases c) (simp_all add: defs)
  assume s: "snapshot (w_repo w) tid = Inr snap" "task_owner_id (ss_task snap) = command_actor c" "command_version c \<noteq> Some (task_version (ss_task snap))"
  then have "get_task (w_repo w) tid = Inr (ss_task snap)" by (auto simp: snapshot_def bindE_Inr)
  with s assms show "perform env c w = (Inl stale_version, w)" by (cases c) (simp_all add: defs)
qed

text \<open>
  C11. The owner of a task can always read it, and gets its current state; for everyone else a task
  is exactly as if it did not exist, whether they read it or page through its events. Reading
  changes nothing.
\<close>

theorem owner_alone_reads:
  assumes "inj (env_uuid env)"
  shows "case dict_get (rp_tasks (after env cs)) tid of
      None \<Rightarrow> show_task tid actor (world_after env cs) = (Inl (NotFound ''task not found: {task_id}''), world_after env cs)
    | Some t \<Rightarrow>
        if task_owner_id t = actor
        then (\<exists>snap. show_task tid actor (world_after env cs) = (Inr snap, world_after env cs) \<and> ss_task snap = t)
        else show_task tid actor (world_after env cs) = (Inl (NotFound ''task not found: {task_id}''), world_after env cs)
          \<and> list_events (after env cs) tid actor seen limit = Inl (NotFound ''task not found: {task_id}'')"
  using after_snapshot [OF assms, of cs tid]
  by (auto simp: after_def show_task_def owned_snapshot_def readR_def snapshot_for_owner_def get_task_def list_events_def split: option.split)

theorem owner_alone_reads_witness:
  "\<exists>snap. show_task demo_task (lit ''me'') (world_after demo_env demo_commands) = (Inr snap, world_after demo_env demo_commands)
     \<and> task_status (ss_task snap) = TS_GENERATING"
proof -
  obtain t where t: "dict_get (rp_tasks (after demo_env demo_commands)) demo_task = Some t" "task_status t = TS_GENERATING" "task_owner_id t = lit ''me''"
    using demo_generating by (auto simp: after_def world_after_def)
  with owner_alone_reads [OF demo_inj, where cs = demo_commands and tid = demo_task and actor = "lit ''me''"] show ?thesis by auto
qed

text \<open>
  C10. An accepted command (one whose message, key or reason is not blank where that is required)
  with a new idempotency key is checked before it does anything. On a task that does not exist or
  belongs to another actor it is refused as not found, and on a task of the actor with a version
  other than the expected one as stale; a refused command changes nothing at all.
\<close>

theorem commands_checked_first:
  assumes "inj (env_uuid env)" and "accepted c" and "command_task c = Some tid"
    and "get_idempotency (after env cs) (command_actor c) (command_key c) = None"
  shows "case dict_get (rp_tasks (after env cs)) tid of
         None \<Rightarrow> perform env c (world_after env cs) = (Inl (NotFound ''task not found: {task_id}''), world_after env cs)
       | Some t \<Rightarrow>
           if task_owner_id t \<noteq> command_actor c
           then perform env c (world_after env cs) = (Inl (NotFound ''task not found: {task_id}''), world_after env cs)
           else command_version c = Some (task_version t) \<or> perform env c (world_after env cs) = (Inl stale_version, world_after env cs)"
proof (cases "dict_get (rp_tasks (after env cs)) tid")
  case None
  with perform_guarded(1) [OF assms(2) _ assms(3)] assms(4) show ?thesis by (simp add: after_def get_task_def)
next
  case (Some t)
  note g = perform_guarded [OF assms(2) assms(4) [unfolded after_def] assms(3), where env = env]
  obtain snap where snap: "snapshot (w_repo (world_after env cs)) tid = Inr snap" "ss_task snap = t"
    using after_snapshot [OF assms(1) Some] by (auto simp: after_def)
  from Some g(2) [of t] g(3) [OF snap(1)] snap(2) show ?thesis by (auto simp: after_def get_task_def)
qed

lemma demo_unused:
  assumes "key \<noteq> lit ''k1''" "key \<noteq> lit ''k2''"
  shows "get_idempotency (after demo_env demo_commands) actor key = None"
proof -
  have key: "issued demo_env demo_start rec \<Longrightarrow> (idem_actor_id rec, idem_key rec) \<noteq> (actor, key)"
    "issued demo_env demo_confirm rec \<Longrightarrow> (idem_actor_id rec, idem_key rec) \<noteq> (actor, key)" for rec
    using assms by (auto simp: issued_def demo_start_def demo_confirm_def)
  have "get_idempotency (w_repo (perform_step demo_env demo_confirm (perform_step demo_env demo_start empty_world))) actor key
      = get_idempotency (w_repo empty_world) actor key"
    using other_keys.keeps_step [of demo_env demo_confirm actor key "perform_step demo_env demo_start empty_world"]
      other_keys.keeps_step [of demo_env demo_start actor key empty_world] key by simp
  then show ?thesis
    by (simp add: after_def world_after_def demo_commands_def) (simp add: empty_world_def empty_repo_def get_idempotency_def dict_get_def)
qed

abbreviation demo_unit_confirm :: "pystr \<Rightarrow> pystr \<Rightarrow> int \<Rightarrow> Command" where
  "demo_unit_confirm tid actor v \<equiv>
     CmdConfirmUnit \<lparr>cu_task_id = tid, cu_unit_id = lit ''u'', cu_expected_task_version = v, cu_idempotency_key = lit ''k3'', cu_actor_id = actor\<rparr>"

theorem commands_checked_first_witness:
  "perform demo_env (demo_unit_confirm (lit ''other'') (lit ''me'') 4) (world_after demo_env demo_commands)
     = (Inl (NotFound ''task not found: {task_id}''), world_after demo_env demo_commands)
   \<and> perform demo_env (demo_unit_confirm demo_task (lit ''you'') 4) (world_after demo_env demo_commands)
     = (Inl (NotFound ''task not found: {task_id}''), world_after demo_env demo_commands)
   \<and> perform demo_env (demo_unit_confirm demo_task (lit ''me'') 3) (world_after demo_env demo_commands)
     = (Inl stale_version, world_after demo_env demo_commands)"
proof -
  obtain t where t: "dict_get (rp_tasks (after demo_env demo_commands)) demo_task = Some t" "task_version t = 4" "task_owner_id t = lit ''me''"
    using demo_generating by (auto simp: after_def world_after_def)
  have other: "dict_get (rp_tasks (after demo_env demo_commands)) (lit ''other'') = None"
    using demo_only by (simp add: after_def world_after_def)
  have new: "get_idempotency (after demo_env demo_commands) actor (lit ''k3'') = None" for actor by (rule demo_unused) simp_all
  note checked = commands_checked_first [OF demo_inj, where cs = demo_commands]
  show ?thesis
    using checked [of "demo_unit_confirm (lit ''other'') (lit ''me'') 4" "lit ''other''"] checked [of "demo_unit_confirm demo_task (lit ''you'') 4" demo_task]
      checked [of "demo_unit_confirm demo_task (lit ''me'') 3" demo_task] t other new by simp
qed

section \<open>Sending a command again\<close>

lemma run_commands_append: "run_commands step (cs @ ds) s = run_commands step ds (run_commands step cs s)"
  by (induction cs arbitrary: s) simp_all

lemma after_task_id:
  assumes "inj (env_uuid env)" "get_task (after env cs) tid = Inr t"
  shows "task_id t = tid"
  using after_task_ok [OF assms(1), of cs tid t] assms(2) by (auto simp: get_task_def task_ok_def split: option.splits)

text \<open>
  C2. A command that returned is never executed again. Sent again after any commands, it is a read
  of the task whose snapshot it returned, for its actor, and leaves everything as it is. That task
  is the one the command names, where it names one and its key was new. Every other accepted
  command with its actor and key but another input hash is refused with an idempotency conflict
  and leaves everything as it is.
\<close>

theorem retry_is_a_read:
  assumes "inj (env_uuid env)" and "perform env c (world_after env cs) = (Inr snap, w')"
  shows "(get_idempotency (after env cs) (command_actor c) (command_key c) = None \<longrightarrow> command_task c \<in> {None, Some (task_id (ss_task snap))})
    \<and> (\<forall>ds. perform env c (run_commands (perform_step env) ds w') =
            show_task (task_id (ss_task snap)) (command_actor c) (run_commands (perform_step env) ds w')
       \<and> {d. accepted d \<and> command_actor d = command_actor c \<and> command_key d = command_key c \<and> command_hash env d \<noteq> command_hash env c}
         \<subseteq> {d. perform env d (run_commands (perform_step env) ds w') =
              (Inl (IdempotencyConflict ''idempotency key was already used with different input''), run_commands (perform_step env) ds w')})"
proof -
  have w': "w_repo w' = after env (cs @ [c])"
    using assms(2) by (simp add: after_def world_after_def run_commands_append perform_step_def)
  obtain tid where tid: "recorded env c tid w'" "snapshot (w_repo w') tid = Inr snap"
      "get_idempotency (after env cs) (command_actor c) (command_key c) = None \<Longrightarrow> command_task c = Some t
        \<Longrightarrow> \<exists>task. get_task (after env cs) t = Inr task \<and> tid = task_id task" for t
    using perform_filed [OF assms(2)] by (auto simp: filed_def after_def)
  have "tid = task_id (ss_task snap)"
    using after_task_id [OF assms(1)] snapshot_task [OF tid(2)] by (simp add: w')
  moreover have "command_task c \<in> {None, Some tid}" if "get_idempotency (after env cs) (command_actor c) (command_key c) = None"
    using tid(3) [OF that] after_task_id [OF assms(1)] by (cases "command_task c") auto
  ultimately show ?thesis
    using recorded_replays [OF perform_accepted [OF assms(2)] tid(1) refl] by auto
qed

theorem retry_is_a_read_witness:
  "\<exists>snap w. perform demo_env demo_confirm (world_after demo_env [demo_start]) = (Inr snap, w) \<and> task_id (ss_task snap) = demo_task
     \<and> perform demo_env demo_confirm w = show_task demo_task (lit ''me'') w
     \<and> perform demo_env (CmdConfirmOutline \<lparr>co_task_id = demo_task, co_outline_version = 2, co_expected_task_version = 3,
         co_idempotency_key = lit ''k2'', co_actor_id = lit ''me''\<rparr>) w
       = (Inl (IdempotencyConflict ''idempotency key was already used with different input''), w)"
proof -
  let ?d = "CmdConfirmOutline \<lparr>co_task_id = demo_task, co_outline_version = 2, co_expected_task_version = 3, co_idempotency_key = lit ''k2'', co_actor_id = lit ''me''\<rparr>"
  obtain snap w where c: "perform demo_env demo_confirm (world_after demo_env [demo_start]) = (Inr snap, w)" "task_id (ss_task snap) = demo_task"
    using demo_confirmed by (auto simp: world_after_def)
  have d: "accepted ?d \<and> command_actor ?d = command_actor demo_confirm \<and> command_key ?d = command_key demo_confirm
      \<and> command_hash demo_env ?d \<noteq> command_hash demo_env demo_confirm"
    using demo_other_hash by (simp add: demo_confirm_def)
  note r = conjunct2 [OF retry_is_a_read [OF demo_inj c(1)], rule_format, of "[]"]
  have again: "perform demo_env demo_confirm w = show_task demo_task (lit ''me'') w"
    using conjunct1 [OF r] c(2) by (simp add: demo_confirm_def)
  have "perform demo_env ?d w = (Inl (IdempotencyConflict ''idempotency key was already used with different input''), w)"
    using subsetD [OF conjunct2 [OF r], of ?d] d by (simp only: mem_Collect_eq run_commands.simps simp_thms)
  with c again show ?thesis by blast
qed

section \<open>History of a task\<close>

lemma step_sound: "workflow_invar env w \<Longrightarrow> sound_step env w (perform_step env c w)"
  using invar_perform [of env w c] by (simp add: perform_step_def wp_snd)

lemma run_sound: "workflow_invar env w \<Longrightarrow> sound_step env w (run_commands (perform_step env) cs w)"
proof (induction cs arbitrary: w)
  case (Cons c cs)
  have a: "sound_step env w (perform_step env c w)" by (rule step_sound [OF Cons.prems])
  then have "sound_step env (perform_step env c w) (run_commands (perform_step env) cs (perform_step env c w))"
    by (intro Cons.IH) (simp add: sound_step_def)
  with a show ?case by (auto simp: sound_step_def intro: tasks_grow_trans)
qed (simp add: sound_step_refl)

text \<open>
  C7. A stored task never disappears. It keeps its identifier, its owner and its creation time. Its
  status only moves along the transitions the task policy allows, and by at most one of them for
  each new version: a version that is one higher is at most one allowed transition away. The
  version never decreases, and as long as it is the same, the task is the same, so a version that
  still matches proves that nothing about the task has changed.
\<close>

theorem tasks_evolve:
  assumes "inj (env_uuid env)" and "dict_get (rp_tasks (after env cs)) tid = Some t"
  shows "\<exists>t'. dict_get (rp_tasks (after env (cs @ ds))) tid = Some t'
    \<and> task_id t' = task_id t \<and> task_owner_id t' = task_owner_id t \<and> task_created_at t' = task_created_at t
    \<and> (t' = t \<or> task_version t < task_version t')
    \<and> (\<exists>k. int k \<le> task_version t' - task_version t \<and> (task_status t, task_status t') \<in> {(a, b). b \<in> allowed a} ^^ k)"
  using run_sound [OF after_invar [OF assms(1)], of cs ds] assms(2)
  by (simp add: sound_step_def tasks_grow_def task_grows_def after_def world_after_def run_commands_append)

theorem tasks_evolve_witness:
  "\<exists>t. dict_get (rp_tasks (after demo_env (demo_commands @ [demo_confirm]))) demo_task = Some t \<and> task_owner_id t = lit ''me'' \<and> 4 \<le> task_version t"
proof -
  obtain t where t: "dict_get (rp_tasks (after demo_env demo_commands)) demo_task = Some t" "task_version t = 4" "task_owner_id t = lit ''me''"
    using demo_generating by (auto simp: after_def world_after_def)
  from tasks_evolve [OF demo_inj t(1), of "[demo_confirm]"] t show ?thesis by force
qed

section \<open>Events\<close>

lemma after_numbered: "numbered (events_of (after env cs) tid)"
  using event_log.keeps_run_commands [of empty_world env cs]
  by (simp add: after_def world_after_def events_of_def empty_world_def empty_repo_def dict_get_or_def)

lemma numbered_filter: "numbered es \<Longrightarrow> filter (\<lambda>e. n < event_sequence e) es = drop n es"
proof (induction es rule: rev_induct)
  case (snoc e es)
  then have es: "numbered es" and e: "event_sequence e = Suc (length es)" by (simp_all add: numbered_def)
  with snoc.IH show ?case by (cases "n \<le> length es") simp_all
qed simp

text \<open>
  C20. The events of a task are numbered from one without a gap, whatever commands were performed.
  So the owner who has seen the first \<open>seen\<close> events gets exactly the next ones, at most
  \<open>limit\<close> of them and in order, and the latest sequence number is the number of events.
\<close>

theorem events_paged:
  assumes "inj (env_uuid env)" and "dict_get (rp_tasks (after env cs)) tid = Some t"
  shows "list_events (after env cs) tid (task_owner_id t) seen limit = Inr (take limit (drop seen (events_of (after env cs) tid)))
    \<and> latest_event_sequence (after env cs) tid (task_owner_id t) = Inr (length (events_of (after env cs) tid))
    \<and> map event_sequence (events_of (after env cs) tid) = [1..<Suc (length (events_of (after env cs) tid))]"
proof -
  let ?es = "events_of (after env cs) tid"
  obtain snap where "snapshot (after env cs) tid = Inr snap" "ss_task snap = t" using after_snapshot [OF assms] by blast
  then have own: "snapshot_for_owner (after env cs) tid (task_owner_id t) = Inr snap"
    using assms(2) by (simp add: snapshot_for_owner_def get_task_def)
  have num: "numbered ?es" by (rule after_numbered)
  have paged: "list_events (after env cs) tid (task_owner_id t) n m = Inr (take m (drop n ?es))" for n m
    using numbered_filter [OF num, of n] by (simp add: list_events_def own events_of_def)
  have last: "event_sequence (last ?es) = length ?es" if "?es \<noteq> []"
  proof -
    have "event_sequence (last ?es) = last (map event_sequence ?es)" using that by (simp add: last_map)
    moreover have "Suc 0 \<le> length ?es" using that by (simp add: Suc_le_eq)
    ultimately show ?thesis using num by (simp add: numbered_def)
  qed
  have "latest_event_sequence (after env cs) tid (task_owner_id t) = Inr (length ?es)"
    using last by (simp add: latest_event_sequence_def paged flip: events_of_def)
  with paged num show ?thesis by (simp add: numbered_def)
qed

theorem events_paged_witness:
  "list_events (after demo_env demo_commands) demo_task (lit ''me'') 1 5 = Inr (take 5 (drop 1 (events_of (after demo_env demo_commands) demo_task)))"
proof -
  obtain t where "dict_get (rp_tasks (after demo_env demo_commands)) demo_task = Some t" "task_owner_id t = lit ''me''"
    using demo_generating by (auto simp: after_def world_after_def)
  with events_paged [OF demo_inj this(1), of 1 5] show ?thesis by simp
qed

section \<open>Closing a set of units under dependency\<close>

lemma closure_pass_done:
  "\<not> snd (closure_pass us closure) \<Longrightarrow> fst (closure_pass us closure) = closure
     \<and> (\<forall>u \<in> set us. set (depends_on_unit_ids u) \<inter> set closure \<noteq> {} \<longrightarrow> unit_id u \<in> set closure)"
proof (induction us closure rule: closure_pass.induct)
  case (2 u us closure)
  consider "unit_id u \<in> set closure" | "unit_id u \<notin> set closure" "\<not> (\<exists>d \<in> set (depends_on_unit_ids u). d \<in> set closure)"
    | "unit_id u \<notin> set closure" "\<exists>d \<in> set (depends_on_unit_ids u). d \<in> set closure" by blast
  then show ?case
  proof cases
    case 1
    with 2(1) 2(4) show ?thesis by simp
  next
    case 2
    with "2.IH"(3) "2.prems" show ?thesis by (simp add: disjoint_iff)
  next
    case 3
    with "2.prems" show ?thesis by simp
  qed
qed simp

lemma closure_pass_least:
  assumes "\<And>u. u \<in> set us \<Longrightarrow> \<exists>d \<in> set (depends_on_unit_ids u). d \<in> S \<Longrightarrow> unit_id u \<in> S" "set closure \<subseteq> S"
  shows "set (fst (closure_pass us closure)) \<subseteq> S"
  using assms
proof (induction us closure rule: closure_pass.induct)
  case (2 u us closure)
  show ?case
  proof (cases "unit_id u \<in> set closure \<or> \<not> (\<exists>d \<in> set (depends_on_unit_ids u). d \<in> set closure)")
    case True
    with 2 show ?thesis by auto
  next
    case False
    then have "unit_id u \<in> S" using 2(4) [of u] 2(5) by auto
    with False 2 show ?thesis by auto
  qed
qed simp

lemma closure_loop_closed:
  "u \<in> set us \<Longrightarrow> set (depends_on_unit_ids u) \<inter> set (closure_loop us closure) \<noteq> {} \<Longrightarrow> unit_id u \<in> set (closure_loop us closure)"
proof (induction us closure rule: closure_loop.induct)
  case (1 us closure)
  obtain c changed where p: "closure_pass us closure = (c, changed)" by fastforce
  show ?case
  proof (cases changed)
    case True
    with 1 p show ?thesis by (simp add: closure_loop.simps [of us closure])
  next
    case False
    with 1(2,3) p closure_pass_done [of us closure] show ?thesis by (simp add: closure_loop.simps [of us closure])
  qed
qed

lemma closure_loop_least:
  "\<lbrakk>\<And>u. u \<in> set us \<Longrightarrow> \<exists>d \<in> set (depends_on_unit_ids u). d \<in> S \<Longrightarrow> unit_id u \<in> S; set closure \<subseteq> S\<rbrakk> \<Longrightarrow> set (closure_loop us closure) \<subseteq> S"
proof (induction us closure rule: closure_loop.induct)
  case (1 us closure)
  obtain c changed where p: "closure_pass us closure = (c, changed)" by fastforce
  have "set (fst (closure_pass us closure)) \<subseteq> S" by (rule closure_pass_least) (use 1 in auto)
  with p have "set c \<subseteq> S" by simp
  with 1 p show ?case by (simp add: closure_loop.simps [of us closure])
qed

text \<open>
  C19. Reopening closes the selected units under dependency. The loop ends, and the identifiers it
  returns are the least set that contains the selected ones and, with the identifier of a unit,
  those of all the units that depend on it.
\<close>

theorem closure_is_least:
  "set (dependent_unit_closure outline selected_ids) =
     \<Inter> {S. set selected_ids \<subseteq> S \<and> {unit_id u |u. u \<in> set (confirmation_units outline) \<and> set (depends_on_unit_ids u) \<inter> S \<noteq> {}} \<subseteq> S}"
    (is "?c = \<Inter> ?F")
proof
  let ?us = "confirmation_units outline"
  have "set (closure_loop ?us (fromkeys selected_ids)) \<subseteq> S" if "S \<in> ?F" for S
    by (rule closure_loop_least) (use that in auto)
  then show "?c \<subseteq> \<Inter> ?F" by (auto simp: dependent_unit_closure_def)
  have "unit_id u \<in> ?c" if "u \<in> set ?us" "set (depends_on_unit_ids u) \<inter> ?c \<noteq> {}" for u
    using closure_loop_closed [OF that(1), of "fromkeys selected_ids"] that(2) by (auto simp: dependent_unit_closure_def)
  moreover have "set selected_ids \<subseteq> ?c"
    using closure_loop_sub [of "fromkeys selected_ids" ?us] by (simp add: dependent_unit_closure_def)
  ultimately have "?c \<in> ?F" by blast
  then show "\<Inter> ?F \<subseteq> ?c" by blast
qed

end
