(* ===== verification/Run_Dispatch.thy ===== *)
theory Run_Dispatch
  imports Domain_Model
begin

text \<open>
  \<^verbatim>\<open>src/prd_agent/production/dispatch.py\<close>: the production control store that admits runs
  under global and per-owner limits, leases them to workers with fencing tokens, hands messages
  to publishers through an outbox with leases and back-off, and recovers runs whose lease
  expired; the publisher, the reconciler and the executor that use it. The store's methods hold
  one lock, so each is one step on the store.

  Times are microseconds. \<open>uuid_hex n\<close> is the \<open>n\<close>-th value \<open>uuid.uuid4().hex\<close>
  yields; the store counts the values drawn.
\<close>

section \<open>Data\<close>

datatype ProductionRunStatus = PR_WAITING_CAPACITY | PR_WAITING_PROVIDER | PR_QUEUED | PR_RUNNING
  | PR_WAITING_USER | PR_SUCCEEDED | PR_FAILED | PR_STOPPING | PR_STOPPED

definition TERMINAL_RUN_STATUSES :: "ProductionRunStatus set" where
  "TERMINAL_RUN_STATUSES = {PR_SUCCEEDED, PR_FAILED, PR_STOPPED}"

text \<open>Exceptions. \<open>DE_Diverges\<close> is the result of a loop that has not ended within its fuel.\<close>

datatype DispatchError = DE_KeyError | DE_StopIteration | DE_PermissionError string
  | DE_ValueError string | DE_LostLease string | DE_Diverges

record RunCommand =
  rc_message_id :: pystr
  rc_payload_version :: int
  rc_run_id :: pystr
  rc_reason :: pystr

record OutboxMessage =
  outbox_id :: pystr
  aggregate_id :: pystr
  aggregate_version :: int
  om_topic :: string
  payload_version :: int
  om_command :: RunCommand
  available_at :: time
  om_attempts :: nat
  published_at :: "time option"
  msg_lease_owner :: "pystr option"
  msg_lease_expires_at :: "time option"
  quarantined_at :: "time option"

record ProductionRun =
  pr_run_id :: pystr
  pr_task_id :: pystr
  pr_owner_id :: pystr
  pr_status :: ProductionRunStatus
  queue_slot_acquired :: bool
  fencing_token :: nat
  lease_owner :: "pystr option"
  lease_expires_at :: "time option"
  attempt_count :: nat
  cancellation_requested_at :: "time option"

record LeaseGrant =
  lg_run_id :: pystr
  lg_worker_id :: pystr
  lg_fencing_token :: nat
  lg_expires_at :: time

record QueuePolicy =
  max_global_runnable :: int
  max_runnable_per_owner :: int

text \<open>\<open>QueuePolicy.__post_init__\<close>.\<close>

definition make_queue_policy :: "int \<Rightarrow> int \<Rightarrow> DispatchError + QueuePolicy" where
  "make_queue_policy g o' =
     (if g < 1 then Inl (DE_ValueError ''max_global_runnable must be positive'')
      else if o' < 1 then Inl (DE_ValueError ''max_runnable_per_owner must be positive'')
      else Inr \<lparr>max_global_runnable = g, max_runnable_per_owner = o'\<rparr>)"

record ControlStore =
  cs_runs :: "(pystr, ProductionRun) dict"
  cs_outbox :: "(pystr, OutboxMessage) dict"
  cs_inbox :: "(pystr \<times> pystr) list"
  cs_command_idempotency :: "(pystr \<times> pystr, pystr \<times> pystr) dict"
  queue_policy :: QueuePolicy
  created_order :: "(pystr, int) dict"
  next_created_order :: int
  owner_last_admitted :: "(pystr, int) dict"
  admission_turn :: int
  cs_uuids :: nat

definition empty_store :: "QueuePolicy \<Rightarrow> ControlStore" where
  "empty_store policy =
     \<lparr>cs_runs = [], cs_outbox = [], cs_inbox = [], cs_command_idempotency = [], queue_policy = policy,
      created_order = [], next_created_order = 0, owner_last_admitted = [], admission_turn = 0, cs_uuids = 0\<rparr>"

type_synonym 'a store_op = "ControlStore \<Rightarrow> (DispatchError + 'a) \<times> ControlStore"

definition seconds :: "int \<Rightarrow> int" where
  "seconds n = n * 1000000"

section \<open>Admission\<close>

definition is_runnable :: "ProductionRun \<Rightarrow> bool" where
  "is_runnable r \<longleftrightarrow> queue_slot_acquired r \<and> pr_status r \<in> {PR_QUEUED, PR_RUNNING}"

definition runnable_runs :: "ControlStore \<Rightarrow> ProductionRun list" where
  "runnable_runs s = filter is_runnable (dict_values (cs_runs s))"

definition can_admit :: "ControlStore \<Rightarrow> pystr \<Rightarrow> bool" where
  "can_admit s owner \<longleftrightarrow>
     int (length (runnable_runs s)) < max_global_runnable (queue_policy s)
     \<and> int (length (filter (\<lambda>r. pr_owner_id r = owner) (runnable_runs s))) < max_runnable_per_owner (queue_policy s)"

definition new_outbox :: "pystr \<Rightarrow> pystr \<Rightarrow> int \<Rightarrow> pystr \<Rightarrow> time \<Rightarrow> OutboxMessage" where
  "new_outbox mid rid version reason now =
     \<lparr>outbox_id = mid, aggregate_id = rid, aggregate_version = version, om_topic = ''agent.run'', payload_version = 1,
      om_command = \<lparr>rc_message_id = mid, rc_payload_version = 1, rc_run_id = rid, rc_reason = reason\<rparr>,
      available_at = now, om_attempts = 0, published_at = None, msg_lease_owner = None,
      msg_lease_expires_at = None, quarantined_at = None\<rparr>"

definition new_run :: "pystr \<Rightarrow> pystr \<Rightarrow> pystr \<Rightarrow> bool \<Rightarrow> ProductionRun" where
  "new_run rid tid owner admitted =
     \<lparr>pr_run_id = rid, pr_task_id = tid, pr_owner_id = owner,
      pr_status = (if admitted then PR_QUEUED else PR_WAITING_CAPACITY), queue_slot_acquired = admitted,
      fencing_token = 0, lease_owner = None, lease_expires_at = None, attempt_count = 0,
      cancellation_requested_at = None\<rparr>"

definition outbox_uuid :: "(nat \<Rightarrow> pystr) \<Rightarrow> nat \<Rightarrow> pystr" where
  "outbox_uuid uuid_hex n = lit ''outbox-'' @ uuid_hex n"

definition create_run_dispatch ::
  "(nat \<Rightarrow> pystr) \<Rightarrow> pystr \<Rightarrow> pystr \<Rightarrow> pystr \<Rightarrow> pystr \<Rightarrow> time \<Rightarrow> OutboxMessage store_op" where
  "create_run_dispatch uuid_hex rid tid owner reason now s =
     (case dict_get (cs_runs s) rid of
        Some _ \<Rightarrow>
          (case find (\<lambda>m. aggregate_id m = rid) (dict_values (cs_outbox s)) of
             None \<Rightarrow> (Inl DE_StopIteration, s)
           | Some m \<Rightarrow> (Inr m, s))
      | None \<Rightarrow>
          (let mid = outbox_uuid uuid_hex (cs_uuids s);
               outbox = new_outbox mid rid 1 reason now;
               admitted = can_admit s owner;
               order = next_created_order s + 1;
               turn = (if admitted then admission_turn s + 1 else admission_turn s) in
           (Inr outbox,
            s\<lparr>cs_uuids := cs_uuids s + 1,
              next_created_order := order,
              created_order := dict_set rid order (created_order s),
              admission_turn := turn,
              owner_last_admitted :=
                (if admitted then dict_set owner turn (owner_last_admitted s) else owner_last_admitted s),
              cs_runs := dict_set rid (new_run rid tid owner admitted) (cs_runs s),
              cs_outbox := dict_set mid outbox (cs_outbox s)\<rparr>)))"

section \<open>The outbox\<close>

definition get_outbox :: "pystr \<Rightarrow> OutboxMessage store_op" where
  "get_outbox mid s = (case dict_get (cs_outbox s) mid of None \<Rightarrow> (Inl DE_KeyError, s) | Some m \<Rightarrow> (Inr m, s))"

text \<open>The condition under which the claiming loop takes a message.\<close>

definition claimable :: "time \<Rightarrow> ProductionRun \<Rightarrow> OutboxMessage \<Rightarrow> bool" where
  "claimable now run m \<longleftrightarrow>
     \<not> (published_at m \<noteq> None \<or> quarantined_at m \<noteq> None \<or> available_at m > now
        \<or> (case msg_lease_expires_at m of None \<Rightarrow> False | Some t \<Rightarrow> t > now)
        \<or> pr_status run \<noteq> PR_QUEUED)"

definition leased :: "pystr \<Rightarrow> time \<Rightarrow> int \<Rightarrow> OutboxMessage \<Rightarrow> OutboxMessage" where
  "leased publisher now ttl m = m\<lparr>msg_lease_owner := Some publisher, msg_lease_expires_at := Some (now + ttl)\<rparr>"

fun claim_loop :: "pystr \<Rightarrow> time \<Rightarrow> int \<Rightarrow> int \<Rightarrow> OutboxMessage list \<Rightarrow> OutboxMessage list \<Rightarrow> OutboxMessage list store_op" where
  "claim_loop publisher now ttl limit [] claimed s = (Inr claimed, s)"
| "claim_loop publisher now ttl limit (m # ms) claimed s =
     (if int (length claimed) \<ge> limit then (Inr claimed, s)
      else
        (case dict_get (cs_runs s) (aggregate_id m) of
           None \<Rightarrow> (Inl DE_KeyError, s)
         | Some run \<Rightarrow>
             if \<not> claimable now run m then claim_loop publisher now ttl limit ms claimed s
             else
               (let updated = leased publisher now ttl m in
                claim_loop publisher now ttl limit ms (claimed @ [updated])
                  (s\<lparr>cs_outbox := dict_set (outbox_id m) updated (cs_outbox s)\<rparr>))))"

definition claim_outbox :: "pystr \<Rightarrow> time \<Rightarrow> int \<Rightarrow> int \<Rightarrow> OutboxMessage list store_op" where
  "claim_outbox publisher now ttl limit s =
     claim_loop publisher now ttl limit
       (sort_key (\<lambda>m. (available_at m, outbox_id m)) (dict_values (cs_outbox s))) [] s"

definition mark_outbox_published :: "pystr \<Rightarrow> pystr \<Rightarrow> time \<Rightarrow> bool store_op" where
  "mark_outbox_published mid publisher now s =
     (case dict_get (cs_outbox s) mid of
        None \<Rightarrow> (Inl DE_KeyError, s)
      | Some m \<Rightarrow>
          if msg_lease_owner m \<noteq> Some publisher then (Inr False, s)
          else (Inr True, s\<lparr>cs_outbox := dict_set mid
             (m\<lparr>published_at := Some now, msg_lease_owner := None, msg_lease_expires_at := None\<rparr>) (cs_outbox s)\<rparr>))"

definition mark_outbox_failed :: "pystr \<Rightarrow> pystr \<Rightarrow> time \<Rightarrow> int \<Rightarrow> bool store_op" where
  "mark_outbox_failed mid publisher now max_attempts s =
     (case dict_get (cs_outbox s) mid of
        None \<Rightarrow> (Inl DE_KeyError, s)
      | Some m \<Rightarrow>
          if msg_lease_owner m \<noteq> Some publisher then (Inr False, s)
          else
            (let n = om_attempts m + 1 in
             (Inr True, s\<lparr>cs_outbox := dict_set mid
                (m\<lparr>om_attempts := n, available_at := now + seconds (min (2 ^ n) 300),
                   quarantined_at := (if int n \<ge> max_attempts then Some now else None),
                   msg_lease_owner := None, msg_lease_expires_at := None\<rparr>) (cs_outbox s)\<rparr>)))"

section \<open>Runs\<close>

definition get_run :: "pystr \<Rightarrow> ProductionRun store_op" where
  "get_run rid s = (case dict_get (cs_runs s) rid of None \<Rightarrow> (Inl DE_KeyError, s) | Some r \<Rightarrow> (Inr r, s))"

definition list_runs :: "pystr \<Rightarrow> pystr \<Rightarrow> ProductionRun list store_op" where
  "list_runs tid owner s =
     (Inr (filter (\<lambda>r. pr_task_id r = tid \<and> pr_owner_id r = owner)
        (rev (sort_key pr_run_id (rev (dict_values (cs_runs s)))))), s)"

definition request_cancellation :: "pystr \<Rightarrow> pystr \<Rightarrow> time \<Rightarrow> ProductionRun store_op" where
  "request_cancellation rid owner now s =
     (case dict_get (cs_runs s) rid of
        None \<Rightarrow> (Inl DE_KeyError, s)
      | Some run \<Rightarrow>
          if pr_owner_id run \<noteq> owner then (Inl (DE_PermissionError ''run does not belong to the requesting owner''), s)
          else if pr_status run \<in> TERMINAL_RUN_STATUSES then (Inr run, s)
          else
            (let updated = run\<lparr>pr_status := PR_STOPPING,
                 cancellation_requested_at := (case cancellation_requested_at run of None \<Rightarrow> Some now | Some t \<Rightarrow> Some t)\<rparr> in
             (Inr updated, s\<lparr>cs_runs := dict_set rid updated (cs_runs s)\<rparr>)))"

definition retry_run :: "(nat \<Rightarrow> pystr) \<Rightarrow> pystr \<Rightarrow> pystr \<Rightarrow> time \<Rightarrow> pystr \<Rightarrow> pystr \<Rightarrow> ProductionRun store_op" where
  "retry_run uuid_hex rid owner now key request_hash s =
     (case dict_get (cs_command_idempotency s) (owner, key) of
        Some (replay_hash, replay_run_id) \<Rightarrow>
          if replay_hash \<noteq> request_hash
          then (Inl (DE_ValueError ''retry idempotency key was used with different input''), s)
          else get_run replay_run_id s
      | None \<Rightarrow>
          (case dict_get (cs_runs s) rid of
             None \<Rightarrow> (Inl DE_KeyError, s)
           | Some previous \<Rightarrow>
               if pr_owner_id previous \<noteq> owner then (Inl DE_KeyError, s)
               else if pr_status previous \<notin> {PR_FAILED, PR_STOPPED}
               then (Inl (DE_ValueError ''only failed or stopped runs can be retried''), s)
               else
                 (let new_run_id = lit ''run-'' @ uuid_hex (cs_uuids s) in
                  case create_run_dispatch uuid_hex new_run_id (pr_task_id previous) owner (lit ''RETRY'') now
                         (s\<lparr>cs_uuids := cs_uuids s + 1\<rparr>) of
                    (Inl e, s') \<Rightarrow> (Inl e, s')
                  | (Inr _, s') \<Rightarrow>
                      get_run new_run_id
                        (s'\<lparr>cs_command_idempotency :=
                           dict_set (owner, key) (request_hash, new_run_id) (cs_command_idempotency s')\<rparr>))))"

definition acquire_run :: "pystr \<Rightarrow> pystr \<Rightarrow> time \<Rightarrow> int \<Rightarrow> LeaseGrant option store_op" where
  "acquire_run rid worker now ttl s =
     (case dict_get (cs_runs s) rid of
        None \<Rightarrow> (Inl DE_KeyError, s)
      | Some run \<Rightarrow>
          if pr_status run \<in> TERMINAL_RUN_STATUSES then (Inr None, s)
          else if pr_status run \<in> {PR_WAITING_CAPACITY, PR_WAITING_PROVIDER, PR_WAITING_USER} then (Inr None, s)
          else if lease_owner run \<noteq> None \<and> lease_owner run \<noteq> Some worker
              \<and> (case lease_expires_at run of None \<Rightarrow> False | Some t \<Rightarrow> t > now) then (Inr None, s)
          else
            (let token = fencing_token run + 1; expires_at = now + ttl in
             (Inr (Some \<lparr>lg_run_id = rid, lg_worker_id = worker, lg_fencing_token = token, lg_expires_at = expires_at\<rparr>),
              s\<lparr>cs_runs := dict_set rid
                 (run\<lparr>pr_status := (if cancellation_requested_at run \<noteq> None then PR_STOPPING else PR_RUNNING),
                      fencing_token := token, lease_owner := Some worker, lease_expires_at := Some expires_at,
                      attempt_count := attempt_count run + 1\<rparr>) (cs_runs s)\<rparr>)))"

text \<open>
  \<open>_release_and_admit_waiting_locked\<close>. The loop promotes one waiting run in each turn, so the
  number of runs bounds its turns; running out of this fuel is the error \<open>DE_Diverges\<close>.
\<close>

definition admission_key :: "ControlStore \<Rightarrow> ProductionRun \<Rightarrow> DispatchError + (int \<times> int) \<times> ProductionRun" where
  "admission_key s run =
     (case dict_get (created_order s) (pr_run_id run) of
        None \<Rightarrow> Inl DE_KeyError
      | Some n \<Rightarrow> Inr ((dict_get_or (owner_last_admitted s) (pr_owner_id run) (-1), n), run))"

definition waiting_candidates :: "ControlStore \<Rightarrow> ProductionRun list" where
  "waiting_candidates s =
     filter (\<lambda>r. pr_status r = PR_WAITING_CAPACITY \<and> can_admit s (pr_owner_id r)) (dict_values (cs_runs s))"

definition promote :: "ProductionRun \<Rightarrow> ControlStore \<Rightarrow> ControlStore" where
  "promote run s =
     s\<lparr>admission_turn := admission_turn s + 1,
       owner_last_admitted := dict_set (pr_owner_id run) (admission_turn s + 1) (owner_last_admitted s),
       cs_runs := dict_set (pr_run_id run) (run\<lparr>pr_status := PR_QUEUED, queue_slot_acquired := True\<rparr>) (cs_runs s)\<rparr>"

fun admit_loop :: "nat \<Rightarrow> ProductionRun list \<Rightarrow> ProductionRun list store_op" where
  "admit_loop fuel promoted s =
     (if \<not> int (length (runnable_runs s)) < max_global_runnable (queue_policy s) then (Inr promoted, s)
      else if waiting_candidates s = [] then (Inr promoted, s)
      else
        (case fuel of
           0 \<Rightarrow> (Inl DE_Diverges, s)
         | Suc fuel' \<Rightarrow>
             (case mapE (admission_key s) (waiting_candidates s) of
                Inl e \<Rightarrow> (Inl e, s)
              | Inr keyed \<Rightarrow>
                  (case min_by fst keyed of
                     None \<Rightarrow> (Inr promoted, s)
                   | Some (_, run) \<Rightarrow>
                       admit_loop fuel' (promoted @ [run\<lparr>pr_status := PR_QUEUED, queue_slot_acquired := True\<rparr>])
                         (promote run s)))))"

declare admit_loop.simps [simp del]

definition admit_waiting_runs :: "ProductionRun list store_op" where
  "admit_waiting_runs s = admit_loop (length (cs_runs s)) [] s"

definition complete_run :: "LeaseGrant \<Rightarrow> ProductionRunStatus \<Rightarrow> ProductionRun store_op" where
  "complete_run grant status s =
     (if status \<notin> TERMINAL_RUN_STATUSES then (Inl (DE_ValueError ''only terminal statuses can complete a run''), s)
      else
        (case dict_get (cs_runs s) (lg_run_id grant) of
           None \<Rightarrow> (Inl DE_KeyError, s)
         | Some run \<Rightarrow>
             if lease_owner run \<noteq> Some (lg_worker_id grant) \<or> fencing_token run \<noteq> lg_fencing_token grant
             then (Inl (DE_LostLease ''worker lease is no longer current''), s)
             else
               (let updated = run\<lparr>pr_status := status, queue_slot_acquired := False,
                                  lease_owner := None, lease_expires_at := None\<rparr> in
                case admit_waiting_runs (s\<lparr>cs_runs := dict_set (lg_run_id grant) updated (cs_runs s)\<rparr>) of
                  (Inl e, s') \<Rightarrow> (Inl e, s')
                | (Inr _, s') \<Rightarrow> (Inr updated, s'))))"

definition heartbeat :: "LeaseGrant \<Rightarrow> time \<Rightarrow> int \<Rightarrow> LeaseGrant store_op" where
  "heartbeat grant now ttl s =
     (case dict_get (cs_runs s) (lg_run_id grant) of
        None \<Rightarrow> (Inl DE_KeyError, s)
      | Some run \<Rightarrow>
          if lease_owner run \<noteq> Some (lg_worker_id grant) \<or> fencing_token run \<noteq> lg_fencing_token grant
             \<or> (case lease_expires_at run of None \<Rightarrow> True | Some t \<Rightarrow> t \<le> now)
          then (Inl (DE_LostLease ''worker lease is no longer current''), s)
          else
            (Inr (grant\<lparr>lg_expires_at := now + ttl\<rparr>),
             s\<lparr>cs_runs := dict_set (lg_run_id grant) (run\<lparr>lease_expires_at := Some (now + ttl)\<rparr>) (cs_runs s)\<rparr>))"

definition record_inbox :: "pystr \<Rightarrow> pystr \<Rightarrow> unit store_op" where
  "record_inbox consumer mid s =
     (Inr (), s\<lparr>cs_inbox := (if (consumer, mid) \<in> set (cs_inbox s) then cs_inbox s else cs_inbox s @ [(consumer, mid)])\<rparr>)"

definition has_inbox :: "pystr \<Rightarrow> pystr \<Rightarrow> bool store_op" where
  "has_inbox consumer mid s = (Inr ((consumer, mid) \<in> set (cs_inbox s)), s)"

section \<open>Recovery\<close>

definition needs_recovery :: "time \<Rightarrow> int \<Rightarrow> ProductionRun \<Rightarrow> bool" where
  "needs_recovery now grace run \<longleftrightarrow>
     \<not> (pr_status run \<notin> {PR_RUNNING, PR_STOPPING}
        \<or> (case lease_expires_at run of None \<Rightarrow> True | Some t \<Rightarrow> t + grace > now))"

definition pending_recovery :: "pystr \<Rightarrow> OutboxMessage \<Rightarrow> bool" where
  "pending_recovery rid m \<longleftrightarrow> aggregate_id m = rid \<and> rc_reason (om_command m) = lit ''RECOVER''
     \<and> (published_at m = None \<or> quarantined_at m \<noteq> None)"

fun recovery_loop :: "(nat \<Rightarrow> pystr) \<Rightarrow> time \<Rightarrow> int \<Rightarrow> int \<Rightarrow> ProductionRun list \<Rightarrow> OutboxMessage list \<Rightarrow>
    OutboxMessage list store_op" where
  "recovery_loop uuid_hex now grace limit [] created s = (Inr created, s)"
| "recovery_loop uuid_hex now grace limit (run # runs) created s =
     (if int (length created) \<ge> limit then (Inr created, s)
      else if \<not> needs_recovery now grace run then recovery_loop uuid_hex now grace limit runs created s
      else if \<exists>m \<in> set (dict_values (cs_outbox s)). pending_recovery (pr_run_id run) m
      then recovery_loop uuid_hex now grace limit runs created s
      else
        (let version = max_default 0 (map aggregate_version
               (filter (\<lambda>m. aggregate_id m = pr_run_id run) (dict_values (cs_outbox s)))) + 1;
             mid = outbox_uuid uuid_hex (cs_uuids s);
             m = new_outbox mid (pr_run_id run) version (lit ''RECOVER'') now in
         recovery_loop uuid_hex now grace limit runs (created @ [m])
           (s\<lparr>cs_uuids := cs_uuids s + 1, cs_outbox := dict_set mid m (cs_outbox s)\<rparr>)))"

definition enqueue_recoveries :: "(nat \<Rightarrow> pystr) \<Rightarrow> time \<Rightarrow> int \<Rightarrow> int \<Rightarrow> OutboxMessage list store_op" where
  "enqueue_recoveries uuid_hex now grace limit s =
     recovery_loop uuid_hex now grace limit (sort_key pr_run_id (dict_values (cs_runs s))) [] s"

section \<open>The publisher and the reconciler\<close>

text \<open>
  \<open>OutboxPublisher.publish_once\<close>. The broker is not part of the program: \<open>broker c\<close> tells
  whether publishing the command returns; an exception of it is caught and counted as a failure.
\<close>

fun publish_loop :: "(RunCommand \<Rightarrow> bool) \<Rightarrow> pystr \<Rightarrow> time \<Rightarrow> int \<Rightarrow> OutboxMessage list \<Rightarrow> int \<Rightarrow> int store_op" where
  "publish_loop broker publisher now max_attempts [] published s = (Inr published, s)"
| "publish_loop broker publisher now max_attempts (m # ms) published s =
     (if \<not> broker (om_command m)
      then
        (case mark_outbox_failed (outbox_id m) publisher now max_attempts s of
           (Inl e, s') \<Rightarrow> (Inl e, s')
         | (Inr _, s') \<Rightarrow> publish_loop broker publisher now max_attempts ms published s')
      else
        (case mark_outbox_published (outbox_id m) publisher now s of
           (Inl e, s') \<Rightarrow> (Inl e, s')
         | (Inr ok, s') \<Rightarrow> publish_loop broker publisher now max_attempts ms (if ok then published + 1 else published) s'))"

definition publish_once :: "(RunCommand \<Rightarrow> bool) \<Rightarrow> pystr \<Rightarrow> int \<Rightarrow> int \<Rightarrow> time \<Rightarrow> int \<Rightarrow> int store_op" where
  "publish_once broker publisher ttl max_attempts now limit s =
     (case claim_outbox publisher now ttl limit s of
        (Inl e, s') \<Rightarrow> (Inl e, s')
      | (Inr ms, s') \<Rightarrow> publish_loop broker publisher now max_attempts ms 0 s')"

definition reconcile :: "(nat \<Rightarrow> pystr) \<Rightarrow> int \<Rightarrow> time \<Rightarrow> int \<Rightarrow> OutboxMessage list store_op" where
  "reconcile uuid_hex grace now limit s = enqueue_recoveries uuid_hex now grace limit s"

section \<open>The system: any sequence of the store's operations\<close>

datatype ControlCommand =
    CreateRun pystr pystr pystr pystr time
  | ClaimOutbox pystr time int int
  | MarkPublished pystr pystr time
  | MarkFailed pystr pystr time int
  | RequestCancellation pystr pystr time
  | RetryRun pystr pystr time pystr pystr
  | AcquireRun pystr pystr time int
  | CompleteRun LeaseGrant ProductionRunStatus
  | AdmitWaiting
  | HeartbeatRun LeaseGrant time int
  | RecordInbox pystr pystr
  | EnqueueRecoveries time int int

fun apply_control :: "(nat \<Rightarrow> pystr) \<Rightarrow> ControlCommand \<Rightarrow> ControlStore \<Rightarrow> ControlStore" where
  "apply_control uuid_hex (CreateRun rid tid owner reason now) s = snd (create_run_dispatch uuid_hex rid tid owner reason now s)"
| "apply_control uuid_hex (ClaimOutbox publisher now ttl limit) s = snd (claim_outbox publisher now ttl limit s)"
| "apply_control uuid_hex (MarkPublished mid publisher now) s = snd (mark_outbox_published mid publisher now s)"
| "apply_control uuid_hex (MarkFailed mid publisher now n) s = snd (mark_outbox_failed mid publisher now n s)"
| "apply_control uuid_hex (RequestCancellation rid owner now) s = snd (request_cancellation rid owner now s)"
| "apply_control uuid_hex (RetryRun rid owner now key h) s = snd (retry_run uuid_hex rid owner now key h s)"
| "apply_control uuid_hex (AcquireRun rid worker now ttl) s = snd (acquire_run rid worker now ttl s)"
| "apply_control uuid_hex (CompleteRun grant status) s = snd (complete_run grant status s)"
| "apply_control uuid_hex AdmitWaiting s = snd (admit_waiting_runs s)"
| "apply_control uuid_hex (HeartbeatRun grant now ttl) s = snd (heartbeat grant now ttl s)"
| "apply_control uuid_hex (RecordInbox consumer mid) s = snd (record_inbox consumer mid s)"
| "apply_control uuid_hex (EnqueueRecoveries now grace limit) s = snd (enqueue_recoveries uuid_hex now grace limit s)"

section \<open>The executor\<close>

record RunExecutionContext =
  ctx_grant :: LeaseGrant
  ctx_lease_ttl :: int
  ctx_lost_lease :: bool

text \<open>\<open>RunExecutionContext.heartbeat\<close>: the context is an object, so a raise leaves its change behind.\<close>

definition ctx_heartbeat :: "time \<Rightarrow> RunExecutionContext \<Rightarrow> ControlStore \<Rightarrow>
    (DispatchError + LeaseGrant) \<times> RunExecutionContext \<times> ControlStore" where
  "ctx_heartbeat now ctx s =
     (if ctx_lost_lease ctx then (Inl (DE_LostLease ''worker lease is no longer current''), ctx, s)
      else
        (case heartbeat (ctx_grant ctx) now (ctx_lease_ttl ctx) s of
           (Inl (DE_LostLease msg), s') \<Rightarrow> (Inl (DE_LostLease msg), ctx\<lparr>ctx_lost_lease := True\<rparr>, s')
         | (Inl e, s') \<Rightarrow> (Inl e, ctx, s')
         | (Inr grant, s') \<Rightarrow> (Inr grant, ctx\<lparr>ctx_grant := grant\<rparr>, s')))"

definition mark_lost :: "RunExecutionContext \<Rightarrow> RunExecutionContext" where
  "mark_lost ctx = ctx\<lparr>ctx_lost_lease := True\<rparr>"

definition cancellation_requested :: "RunExecutionContext \<Rightarrow> bool store_op" where
  "cancellation_requested ctx s =
     (case get_run (lg_run_id (ctx_grant ctx)) s of
        (Inl e, s') \<Rightarrow> (Inl e, s')
      | (Inr run, s') \<Rightarrow> (Inr (cancellation_requested_at run \<noteq> None), s'))"

text \<open>
  While the handler runs, the heartbeat thread renews the lease and other workers, publishers and
  users call the store. What happens in that time is a list of actions: heartbeats of this run at
  given times, and other commands. The handler itself then returns or raises.
\<close>

datatype ExecAction = Beat time | Meanwhile ControlCommand

fun during_handler :: "(nat \<Rightarrow> pystr) \<Rightarrow> ExecAction list \<Rightarrow> RunExecutionContext \<Rightarrow> ControlStore \<Rightarrow>
    RunExecutionContext \<times> ControlStore" where
  "during_handler uuid_hex [] ctx s = (ctx, s)"
| "during_handler uuid_hex (Beat now # as) ctx s =
     (case ctx_heartbeat now ctx s of
        (Inl (DE_LostLease _), ctx', s') \<Rightarrow> during_handler uuid_hex as (mark_lost ctx') s'
      | (_, ctx', s') \<Rightarrow> during_handler uuid_hex as ctx' s')"
| "during_handler uuid_hex (Meanwhile c # as) ctx s = during_handler uuid_hex as ctx (apply_control uuid_hex c s)"

definition status_of :: "pystr \<Rightarrow> ProductionRunStatus store_op" where
  "status_of rid s = (case get_run rid s of (Inl e, s') \<Rightarrow> (Inl e, s') | (Inr run, s') \<Rightarrow> (Inr (pr_status run), s'))"

definition finish_run :: "pystr \<Rightarrow> pystr \<Rightarrow> LeaseGrant \<Rightarrow> ProductionRunStatus \<Rightarrow> ProductionRunStatus store_op" where
  "finish_run consumer mid grant status s =
     (case complete_run grant status s of
        (Inl e, s') \<Rightarrow> (Inl e, s')
      | (Inr run, s') \<Rightarrow> (Inr (pr_status run), snd (record_inbox consumer mid s')))"

definition execute :: "(nat \<Rightarrow> pystr) \<Rightarrow> pystr \<Rightarrow> pystr \<Rightarrow> int \<Rightarrow> ExecAction list \<Rightarrow> bool \<Rightarrow> RunCommand \<Rightarrow> time \<Rightarrow>
    ProductionRunStatus store_op" where
  "execute uuid_hex worker consumer ttl acts raises cmd now s =
     (if rc_payload_version cmd \<noteq> 1 then (Inl (DE_ValueError ''unsupported run command payload version''), s)
      else
        (case dict_get (cs_runs s) (rc_run_id cmd) of
           None \<Rightarrow> (Inl DE_KeyError, s)
         | Some current \<Rightarrow>
             if pr_status current \<in> TERMINAL_RUN_STATUSES
             then (Inr (pr_status current), snd (record_inbox consumer (rc_message_id cmd) s))
             else
               (case acquire_run (rc_run_id cmd) worker now ttl s of
                  (Inl e, s1) \<Rightarrow> (Inl e, s1)
                | (Inr None, s1) \<Rightarrow> status_of (rc_run_id cmd) s1
                | (Inr (Some grant), s1) \<Rightarrow>
                    (case get_run (rc_run_id cmd) s1 of
                       (Inl e, s2) \<Rightarrow> (Inl e, s2)
                     | (Inr acquired, s2) \<Rightarrow>
                         if cancellation_requested_at acquired \<noteq> None
                         then finish_run consumer (rc_message_id cmd) grant PR_STOPPED s2
                         else
                           (case during_handler uuid_hex acts \<lparr>ctx_grant = grant, ctx_lease_ttl = ttl, ctx_lost_lease = False\<rparr> s2 of
                              (ctx, s3) \<Rightarrow>
                                if ctx_lost_lease ctx then status_of (rc_run_id cmd) s3
                                else if raises then finish_run consumer (rc_message_id cmd) (ctx_grant ctx) PR_FAILED s3
                                else
                                  (case cancellation_requested ctx s3 of
                                     (Inl e, s4) \<Rightarrow> (Inl e, s4)
                                   | (Inr stop, s4) \<Rightarrow>
                                       finish_run consumer (rc_message_id cmd) (ctx_grant ctx)
                                         (if stop then PR_STOPPED else PR_SUCCEEDED) s4))))))"

end
