(* ===== verification/Dispatch_Invariant.thy ===== *)
theory Dispatch_Invariant
  imports Run_Dispatch
begin

text \<open>
  The invariant of the production control store, that every operation keeps it, and that the
  admission loop ends. The invariant is in two parts: the runs with the admission state, and the
  outbox with its identifiers, which are fresh because the identifiers drawn are distinct.
\<close>

section \<open>Counting the values of a dictionary\<close>

lemma count_dict_set:
  assumes "dict_wf d" "dict_get d k = Some old"
  shows "length (filter P (dict_values (dict_set k v d))) + (if P old then 1 else 0)
       = length (filter P (dict_values d)) + (if P v then 1 else 0)"
  using assms
proof (induction k v d rule: dict_set.induct)
  case (2 k v k' v' d)
  then show ?case
    by (cases "k' = k") (auto simp: dict_values_def dict_wf_def dict_get_def)
qed (simp add: dict_get_def)

lemma dict_get_set_known: "dict_get d k = Some old \<Longrightarrow> dict_get (dict_set k v d) k' = None \<longleftrightarrow> dict_get d k' = None"
  by simp

section \<open>The invariant\<close>

definition run_wf :: "ProductionRun \<Rightarrow> bool" where
  "run_wf r \<longleftrightarrow>
     (pr_status r \<in> {PR_QUEUED, PR_RUNNING} \<longrightarrow> queue_slot_acquired r \<and> cancellation_requested_at r = None)
     \<and> (pr_status r = PR_STOPPING \<longrightarrow> cancellation_requested_at r \<noteq> None)
     \<and> (pr_status r \<in> insert PR_WAITING_CAPACITY TERMINAL_RUN_STATUSES \<longrightarrow> \<not> queue_slot_acquired r \<and> lease_owner r = None)
     \<and> (pr_status r = PR_WAITING_CAPACITY \<longrightarrow> cancellation_requested_at r = None)
     \<and> (pr_status r = PR_RUNNING \<longrightarrow> lease_owner r \<noteq> None)
     \<and> (pr_status r \<in> {PR_WAITING_CAPACITY, PR_QUEUED} \<longrightarrow> fencing_token r = 0 \<and> lease_owner r = None)
     \<and> (lease_owner r = None \<longleftrightarrow> lease_expires_at r = None)
     \<and> pr_status r \<notin> {PR_WAITING_PROVIDER, PR_WAITING_USER}
     \<and> attempt_count r = fencing_token r"

definition within_limits :: "ControlStore \<Rightarrow> bool" where
  "within_limits s \<longleftrightarrow>
     int (length (runnable_runs s)) \<le> max_global_runnable (queue_policy s)
     \<and> (\<forall>owner. int (length (filter (\<lambda>r. pr_owner_id r = owner) (runnable_runs s))) \<le> max_runnable_per_owner (queue_policy s))"

definition order_wf :: "ControlStore \<Rightarrow> bool" where
  "order_wf s \<longleftrightarrow>
     (\<forall>k n. dict_get (created_order s) k = Some n \<longrightarrow> n \<le> next_created_order s)
     \<and> (\<forall>k k' n. dict_get (created_order s) k = Some n \<and> dict_get (created_order s) k' = Some n \<longrightarrow> k = k')
     \<and> (\<forall>owner t. dict_get (owner_last_admitted s) owner = Some t \<longrightarrow> t \<le> admission_turn s)"

definition runs_invar :: "ControlStore \<Rightarrow> bool" where
  "runs_invar s \<longleftrightarrow>
     dict_wf (cs_runs s) \<and> within_limits s
     \<and> (\<forall>k r. dict_get (cs_runs s) k = Some r \<longrightarrow>
          pr_run_id r = k \<and> run_wf r \<and> dict_get (created_order s) k \<noteq> None)
     \<and> order_wf s"

definition msg_wf :: "OutboxMessage \<Rightarrow> bool" where
  "msg_wf m \<longleftrightarrow> rc_message_id (om_command m) = outbox_id m \<and> rc_run_id (om_command m) = aggregate_id m
     \<and> (published_at m \<noteq> None \<longrightarrow> msg_lease_owner m = None)
     \<and> (msg_lease_owner m = None \<longleftrightarrow> msg_lease_expires_at m = None)
     \<and> rc_payload_version (om_command m) = 1"

definition outbox_invar :: "(nat \<Rightarrow> pystr) \<Rightarrow> ControlStore \<Rightarrow> bool" where
  "outbox_invar uuid_hex s \<longleftrightarrow>
     dict_wf (cs_outbox s)
     \<and> (\<forall>k m. dict_get (cs_outbox s) k = Some m \<longrightarrow>
          outbox_id m = k \<and> msg_wf m \<and> dict_get (cs_runs s) (aggregate_id m) \<noteq> None
          \<and> (\<exists>n < cs_uuids s. k = outbox_uuid uuid_hex n))
     \<and> (\<forall>k. dict_get (cs_runs s) k \<noteq> None \<longrightarrow> (\<exists>m \<in> set (dict_values (cs_outbox s)). aggregate_id m = k))
     \<and> (\<forall>k. length (filter (pending_recovery k) (dict_values (cs_outbox s))) \<le> 1)"

definition control_invar :: "(nat \<Rightarrow> pystr) \<Rightarrow> ControlStore \<Rightarrow> bool" where
  "control_invar uuid_hex s \<longleftrightarrow> inj uuid_hex \<and> runs_invar s \<and> outbox_invar uuid_hex s"

definition control_start :: "(nat \<Rightarrow> pystr) \<Rightarrow> ControlStore \<Rightarrow> bool" where
  "control_start uuid_hex s \<longleftrightarrow>
     inj uuid_hex \<and> 1 \<le> max_global_runnable (queue_policy s) \<and> 1 \<le> max_runnable_per_owner (queue_policy s)
     \<and> s = empty_store (queue_policy s)"

lemma control_start_invar: "control_start uuid_hex s \<Longrightarrow> control_invar uuid_hex s"
proof -
  assume st: "control_start uuid_hex s"
  then have e: "s = empty_store (queue_policy s)" and pos: "1 \<le> max_global_runnable (queue_policy s)"
      "1 \<le> max_runnable_per_owner (queue_policy s)"
    by (simp_all add: control_start_def)
  have "cs_runs s = []" "cs_outbox s = []" "created_order s = []" "owner_last_admitted s = []"
    by (subst e, simp add: empty_store_def)+
  with pos st show ?thesis
    by (simp add: control_invar_def control_start_def runs_invar_def outbox_invar_def within_limits_def
        order_wf_def runnable_runs_def dict_values_def)
qed

section \<open>Changing one run\<close>

lemma order_wf_runs [simp]: "order_wf (s\<lparr>cs_runs := d\<rparr>) = order_wf s"
  by (simp add: order_wf_def)

lemma order_wf_promote [simp]: "order_wf s \<Longrightarrow> order_wf (promote run s)"
  by (auto simp: order_wf_def promote_def) fastforce+

lemma runs_invarI:
  assumes "dict_wf (cs_runs s)" "within_limits s" "order_wf s"
    and "\<And>k r. dict_get (cs_runs s) k = Some r \<Longrightarrow> pr_run_id r = k \<and> run_wf r \<and> dict_get (created_order s) k \<noteq> None"
  shows "runs_invar s"
  using assms by (simp add: runs_invar_def)

lemma runs_invarD:
  assumes "runs_invar s"
  shows "dict_wf (cs_runs s)" "within_limits s" "order_wf s"
    and "\<And>k r. dict_get (cs_runs s) k = Some r \<Longrightarrow> pr_run_id r = k \<and> run_wf r \<and> dict_get (created_order s) k \<noteq> None"
  using assms by (simp_all add: runs_invar_def)

lemma runs_invar_update:
  assumes inv: "runs_invar s" and r: "dict_get (cs_runs s) k = Some r"
    and s': "cs_runs s' = dict_set k r' (cs_runs s)" "created_order s' = created_order s" "order_wf s'" "within_limits s'"
    and r': "pr_run_id r' = k" "run_wf r'"
  shows "runs_invar s'"
proof (rule runs_invarI)
  show "dict_wf (cs_runs s')" using runs_invarD(1) [OF inv] by (simp add: s')
  fix k' q assume q: "dict_get (cs_runs s') k' = Some q"
  show "pr_run_id q = k' \<and> run_wf q \<and> dict_get (created_order s') k' \<noteq> None"
  proof (cases "k' = k")
    case True
    with q r' runs_invarD(4) [OF inv r] show ?thesis by (simp add: s')
  next
    case False
    with q have "dict_get (cs_runs s) k' = Some q" by (simp add: s')
    from runs_invarD(4) [OF inv this] show ?thesis by (simp add: s')
  qed
qed (fact s')+

lemma runs_invar_get:
  assumes "runs_invar s" "dict_get (cs_runs s) k = Some r"
  shows "pr_run_id r = k" "run_wf r"
  using assms by (auto simp: runs_invar_def)

lemma runnable_count_set:
  assumes "dict_wf (cs_runs s)" "dict_get (cs_runs s) k = Some r"
  shows "length (filter P (runnable_runs (s\<lparr>cs_runs := dict_set k r' (cs_runs s)\<rparr>))) + (if P r \<and> is_runnable r then 1 else 0)
       = length (filter P (runnable_runs s)) + (if P r' \<and> is_runnable r' then 1 else 0)"
  using count_dict_set [OF assms, of "\<lambda>r. is_runnable r \<and> P r" r']
  by (simp add: runnable_runs_def conj_commute)

lemma runs_invar_set:
  assumes inv: "runs_invar s" and r: "dict_get (cs_runs s) k = Some r"
    and r': "pr_run_id r' = k" "run_wf r'" "pr_owner_id r' = pr_owner_id r" "is_runnable r' \<Longrightarrow> is_runnable r"
  shows "runs_invar (s\<lparr>cs_runs := dict_set k r' (cs_runs s)\<rparr>)"
proof -
  let ?s = "s\<lparr>cs_runs := dict_set k r' (cs_runs s)\<rparr>"
  have wf: "dict_wf (cs_runs s)" using inv by (simp add: runs_invar_def)
  have le: "length (filter P (runnable_runs ?s)) \<le> length (filter P (runnable_runs s))"
    if "P r = P r'" for P
    using runnable_count_set [OF wf r, of P r'] r'(4) that by (auto split: if_splits)
  have "length (runnable_runs ?s) \<le> length (runnable_runs s)"
    using le [of "\<lambda>_. True"] by simp
  moreover have "length (filter (\<lambda>x. pr_owner_id x = owner) (runnable_runs ?s))
      \<le> length (filter (\<lambda>x. pr_owner_id x = owner) (runnable_runs s))" for owner
    by (rule le) (simp add: r'(3))
  ultimately have lim: "within_limits ?s"
    using inv by (simp add: runs_invar_def within_limits_def) (meson of_nat_le_iff order_trans)
  from lim runs_invarD(3) [OF inv] show ?thesis
    by (intro runs_invar_update [OF inv r _ _ _ _ r'(1,2)]) simp_all
qed

lemma outbox_invar_set_run:
  assumes "outbox_invar uuid_hex s" "dict_get (cs_runs s) k = Some r"
  shows "outbox_invar uuid_hex (s\<lparr>cs_runs := dict_set k r' (cs_runs s)\<rparr>)"
  using assms by (auto simp: outbox_invar_def)

lemma control_invar_set:
  assumes "control_invar uuid_hex s" "dict_get (cs_runs s) k = Some r"
    and "pr_run_id r' = k" "run_wf r'" "pr_owner_id r' = pr_owner_id r" "is_runnable r' \<Longrightarrow> is_runnable r"
  shows "control_invar uuid_hex (s\<lparr>cs_runs := dict_set k r' (cs_runs s)\<rparr>)"
  using assms runs_invar_set outbox_invar_set_run unfolding control_invar_def by blast

section \<open>Admission\<close>

lemma waiting_candidates_in:
  assumes "runs_invar s" "run \<in> set (waiting_candidates s)"
  shows "dict_get (cs_runs s) (pr_run_id run) = Some run" "pr_status run = PR_WAITING_CAPACITY"
    "can_admit s (pr_owner_id run)" "run_wf run"
proof -
  from assms obtain k where k: "dict_get (cs_runs s) k = Some run"
    by (auto simp: waiting_candidates_def runs_invar_def set_dict_values)
  with assms(1) have "pr_run_id run = k" by (rule runs_invar_get)
  with k show "dict_get (cs_runs s) (pr_run_id run) = Some run" by simp
  show "pr_status run = PR_WAITING_CAPACITY" "can_admit s (pr_owner_id run)"
    using assms(2) by (auto simp: waiting_candidates_def)
  show "run_wf run" using assms(1) k by (rule runs_invar_get)
qed

lemma promote_simps [simp]:
  "cs_outbox (promote run s) = cs_outbox s" "queue_policy (promote run s) = queue_policy s"
  "created_order (promote run s) = created_order s" "cs_uuids (promote run s) = cs_uuids s"
  "next_created_order (promote run s) = next_created_order s" "admission_turn (promote run s) = admission_turn s + 1"
  "owner_last_admitted (promote run s) = dict_set (pr_owner_id run) (admission_turn s + 1) (owner_last_admitted s)"
  "cs_runs (promote run s) = dict_set (pr_run_id run) (run\<lparr>pr_status := PR_QUEUED, queue_slot_acquired := True\<rparr>) (cs_runs s)"
  "cs_inbox (promote run s) = cs_inbox s" "cs_command_idempotency (promote run s) = cs_command_idempotency s"
  by (simp_all add: promote_def)

lemma promote_runs_invar:
  assumes inv: "runs_invar s" and run: "run \<in> set (waiting_candidates s)"
  shows "runs_invar (promote run s)"
proof -
  let ?r' = "run\<lparr>pr_status := PR_QUEUED, queue_slot_acquired := True\<rparr>"
  let ?s = "s\<lparr>cs_runs := dict_set (pr_run_id run) ?r' (cs_runs s)\<rparr>"
  note c = waiting_candidates_in [OF inv run]
  have wf: "dict_wf (cs_runs s)" using inv by (simp add: runs_invar_def)
  have nr: "\<not> is_runnable run" using c(2) by (simp add: is_runnable_def)
  have yes: "is_runnable ?r'" by (simp add: is_runnable_def)
  have cnt: "length (filter P (runnable_runs ?s)) = length (filter P (runnable_runs s)) + (if P ?r' then 1 else 0)" for P
    using runnable_count_set [OF wf c(1), of P ?r'] by (simp only: nr yes) simp
  have rr: "runnable_runs (promote run s) = runnable_runs ?s"
    by (simp add: runnable_runs_def)
  have g: "length (runnable_runs ?s) = Suc (length (runnable_runs s))"
    using cnt [of "\<lambda>_. True"] by simp
  have o: "length (filter (\<lambda>x. pr_owner_id x = owner) (runnable_runs ?s)) =
      length (filter (\<lambda>x. pr_owner_id x = owner) (runnable_runs s)) + (if pr_owner_id run = owner then 1 else 0)" for owner
    using cnt [of "\<lambda>x. pr_owner_id x = owner"] by simp
  have "within_limits (promote run s)"
    using inv c(3) unfolding within_limits_def rr g o can_admit_def runs_invar_def by auto
  moreover have "run_wf ?r'"
    using c(2,4) by (auto simp: run_wf_def TERMINAL_RUN_STATUSES_def)
  ultimately show ?thesis
    using runs_invarD(3) [OF inv]
    by (intro runs_invar_update [OF inv c(1), where r' = ?r']) simp_all
qed

lemma promote_control_invar:
  assumes "control_invar uuid_hex s" "run \<in> set (waiting_candidates s)"
  shows "control_invar uuid_hex (promote run s)"
  using assms promote_runs_invar [of s run] waiting_candidates_in(1) [of s run]
  by (auto simp: control_invar_def outbox_invar_def)

text \<open>What the admission loop may change: waiting runs become queued, nothing else of a run.\<close>

definition admits :: "ControlStore \<Rightarrow> ControlStore \<Rightarrow> bool" where
  "admits s s' \<longleftrightarrow>
     (\<forall>k. case dict_get (cs_runs s) k of
            None \<Rightarrow> dict_get (cs_runs s') k = None
          | Some r \<Rightarrow> dict_get (cs_runs s') k = Some r
              \<or> pr_status r = PR_WAITING_CAPACITY
                 \<and> dict_get (cs_runs s') k = Some (r\<lparr>pr_status := PR_QUEUED, queue_slot_acquired := True\<rparr>))
     \<and> cs_outbox s' = cs_outbox s \<and> cs_inbox s' = cs_inbox s \<and> cs_command_idempotency s' = cs_command_idempotency s
     \<and> queue_policy s' = queue_policy s \<and> created_order s' = created_order s
     \<and> next_created_order s' = next_created_order s \<and> cs_uuids s' = cs_uuids s"

lemma admits_refl [simp]: "admits s s"
  by (auto simp: admits_def split: option.splits)

lemma admits_promote:
  assumes "runs_invar s" "run \<in> set (waiting_candidates s)" "admits (promote run s) s'"
  shows "admits s s'"
  using waiting_candidates_in [OF assms(1,2)] assms(3)
  by (auto simp: admits_def split: option.splits if_splits) (metis option.inject option.distinct(1))+

definition waiting_count :: "ControlStore \<Rightarrow> nat" where
  "waiting_count s = length (filter (\<lambda>r. pr_status r = PR_WAITING_CAPACITY) (dict_values (cs_runs s)))"

lemma waiting_count_promote:
  assumes "runs_invar s" "run \<in> set (waiting_candidates s)"
  shows "Suc (waiting_count (promote run s)) = waiting_count s"
proof -
  note c = waiting_candidates_in [OF assms]
  have "dict_wf (cs_runs s)" using assms(1) by (simp add: runs_invar_def)
  from count_dict_set [OF this c(1), of "\<lambda>r. pr_status r = PR_WAITING_CAPACITY"
      "run\<lparr>pr_status := PR_QUEUED, queue_slot_acquired := True\<rparr>"] c(2)
  show ?thesis by (simp add: waiting_count_def)
qed

lemma waiting_count_le: "waiting_count s \<le> length (cs_runs s)"
  unfolding waiting_count_def dict_values_def by (metis length_filter_le length_map)

lemma admission_keys_known:
  assumes "runs_invar s"
  shows "\<exists>keyed. mapE (admission_key s) (waiting_candidates s) = Inr keyed"
proof (rule mapE_total)
  fix run assume "run \<in> set (waiting_candidates s)"
  with assms have "dict_get (cs_runs s) (pr_run_id run) = Some run" by (rule waiting_candidates_in)
  with runs_invarD(4) [OF assms this] obtain n where "dict_get (created_order s) (pr_run_id run) = Some n"
    by blast
  then show "\<exists>y. admission_key s run = Inr y"
    by (simp add: admission_key_def)
qed

text \<open>The run a turn of the loop promotes: a candidate with the least key.\<close>

definition admission_rank :: "ControlStore \<Rightarrow> ProductionRun \<Rightarrow> int \<times> int" where
  "admission_rank s run =
     (dict_get_or (owner_last_admitted s) (pr_owner_id run) (-1), dict_get_or (created_order s) (pr_run_id run) 0)"

lemma admission_key_rank: "admission_key s run = Inr y \<Longrightarrow> y = (admission_rank s run, run)"
  by (auto simp: admission_key_def admission_rank_def dict_get_or_def split: option.splits)

lemma mapE_keyed: "mapE (admission_key s) runs = Inr keyed \<Longrightarrow> keyed = map (\<lambda>r. (admission_rank s r, r)) runs"
proof (induction runs arbitrary: keyed)
  case (Cons r runs)
  then show ?case by (auto simp: bindE_Inr dest: admission_key_rank)
qed simp

lemma turn_chooses_least:
  assumes "mapE (admission_key s) (waiting_candidates s) = Inr keyed" "min_by fst keyed = Some (k, run)"
  shows "run \<in> set (waiting_candidates s)"
    "\<And>r. r \<in> set (waiting_candidates s) \<Longrightarrow> admission_rank s run \<le> admission_rank s r"
proof -
  have keyed: "keyed = map (\<lambda>r. (admission_rank s r, r)) (waiting_candidates s)"
    using assms(1) by (rule mapE_keyed)
  with min_by_in [OF assms(2)] show "run \<in> set (waiting_candidates s)" by auto
  fix r assume r: "r \<in> set (waiting_candidates s)"
  from min_by_in [OF assms(2)] keyed have k: "k = admission_rank s run" by auto
  from r keyed have "(admission_rank s r, r) \<in> set keyed" by auto
  from min_by_le [OF assms(2) this] show "admission_rank s run \<le> admission_rank s r"
    by (simp add: k)
qed

definition admission_done :: "ControlStore \<Rightarrow> bool" where
  "admission_done s \<longleftrightarrow>
     \<not> int (length (runnable_runs s)) < max_global_runnable (queue_policy s) \<or> waiting_candidates s = []"

lemma admit_loop_ends:
  assumes "runs_invar s" "waiting_count s \<le> fuel"
  shows "\<exists>ps s'. admit_loop fuel promoted s = (Inr (promoted @ ps), s') \<and> runs_invar s' \<and> admits s s' \<and> admission_done s'"
  using assms
proof (induction fuel arbitrary: promoted s)
  case 0
  have "waiting_candidates s = []"
    using 0 by (auto simp: waiting_candidates_def waiting_count_def filter_empty_conv)
  then show ?case
    using 0 by (simp add: admit_loop.simps [of 0] admission_done_def)
next
  case (Suc fuel)
  show ?case
  proof (cases "admission_done s")
    case True
    with Suc.prems show ?thesis
      by (auto simp: admission_done_def admit_loop.simps [of "Suc fuel"])
  next
    case False
    obtain keyed where keyed: "mapE (admission_key s) (waiting_candidates s) = Inr keyed"
      using admission_keys_known [OF Suc.prems(1)] by blast
    with False have "keyed \<noteq> []"
      using mapE_keyed [OF keyed] by (auto simp: admission_done_def)
    then obtain k run where least: "min_by fst keyed = Some (k, run)"
      by (cases "min_by fst keyed") auto
    note run = turn_chooses_least(1) [OF keyed least]
    have "waiting_count (promote run s) \<le> fuel"
      using waiting_count_promote [OF Suc.prems(1) run] Suc.prems(2) by simp
    from Suc.IH [OF promote_runs_invar [OF Suc.prems(1) run] this,
        of "promoted @ [run\<lparr>pr_status := PR_QUEUED, queue_slot_acquired := True\<rparr>]"]
    obtain ps s' where rest: "admit_loop fuel (promoted @ [run\<lparr>pr_status := PR_QUEUED, queue_slot_acquired := True\<rparr>]) (promote run s)
        = (Inr ((promoted @ [run\<lparr>pr_status := PR_QUEUED, queue_slot_acquired := True\<rparr>]) @ ps), s')"
        "runs_invar s'" "admits (promote run s) s'" "admission_done s'"
      by blast
    have "admit_loop (Suc fuel) promoted s = (Inr (promoted @ run\<lparr>pr_status := PR_QUEUED, queue_slot_acquired := True\<rparr> # ps), s')"
      using False keyed least rest(1)
      by (simp add: admission_done_def admit_loop.simps [of "Suc fuel"])
    with rest(2-4) admits_promote [OF Suc.prems(1) run] show ?thesis by blast
  qed
qed

lemma admit_waiting_ends:
  assumes "runs_invar s"
  shows "\<exists>ps s'. admit_waiting_runs s = (Inr ps, s') \<and> runs_invar s' \<and> admits s s' \<and> admission_done s'"
  unfolding admit_waiting_runs_def using admit_loop_ends [OF assms waiting_count_le, of "[]"] by simp

lemma admits_known: "admits s s' \<Longrightarrow> dict_get (cs_runs s') k = None \<longleftrightarrow> dict_get (cs_runs s) k = None"
  unfolding admits_def by (auto split: option.splits dest: spec [of _ k])

lemma admits_outbox_invar: "admits s s' \<Longrightarrow> outbox_invar uuid_hex s \<Longrightarrow> outbox_invar uuid_hex s'"
  using admits_known [of s s'] by (auto simp: outbox_invar_def admits_def)

section \<open>Changing the outbox\<close>

lemma outbox_invarD:
  assumes "outbox_invar uuid_hex s" "dict_get (cs_outbox s) k = Some m"
  shows "outbox_id m = k" "msg_wf m" "dict_get (cs_runs s) (aggregate_id m) \<noteq> None" "\<exists>n < cs_uuids s. k = outbox_uuid uuid_hex n"
  using assms by (auto simp: outbox_invar_def)

lemma outbox_invar_put:
  assumes inv: "outbox_invar uuid_hex s" and m: "dict_get (cs_outbox s) k = Some m"
    and m': "outbox_id m' = k" "aggregate_id m' = aggregate_id m" "msg_wf m'"
      "\<And>rid. pending_recovery rid m' \<Longrightarrow> pending_recovery rid m"
  shows "outbox_invar uuid_hex (s\<lparr>cs_outbox := dict_set k m' (cs_outbox s)\<rparr>)"
proof -
  have wf: "dict_wf (cs_outbox s)" using inv by (simp add: outbox_invar_def)
  have cnt: "length (filter (pending_recovery rid) (dict_values (dict_set k m' (cs_outbox s)))) \<le> 1" for rid
  proof -
    have "length (filter (pending_recovery rid) (dict_values (cs_outbox s))) \<le> 1"
      using inv by (simp add: outbox_invar_def)
    then show ?thesis
      using count_dict_set [OF wf m, of "pending_recovery rid" m'] m'(4) [of rid] by (auto split: if_splits)
  qed
  have msgs: "outbox_id q = k' \<and> msg_wf q \<and> dict_get (cs_runs s) (aggregate_id q) \<noteq> None
      \<and> (\<exists>n < cs_uuids s. k' = outbox_uuid uuid_hex n)"
    if "dict_get (dict_set k m' (cs_outbox s)) k' = Some q" for k' q
  proof (cases "k' = k")
    case True
    with that have "q = m'" by simp
    with True m' outbox_invarD [OF inv m] show ?thesis by simp
  next
    case False
    with that have "dict_get (cs_outbox s) k' = Some q" by simp
    from outbox_invarD [OF inv this] show ?thesis by simp
  qed
  have run: "\<exists>q \<in> set (dict_values (dict_set k m' (cs_outbox s))). aggregate_id q = rid"
    if "dict_get (cs_runs s) rid \<noteq> None" for rid
  proof -
    from inv that obtain q where q: "q \<in> set (dict_values (cs_outbox s))" "aggregate_id q = rid"
      unfolding outbox_invar_def by blast
    then obtain k' where k': "dict_get (cs_outbox s) k' = Some q" using wf by (auto simp: set_dict_values)
    show ?thesis
    proof (cases "k' = k")
      case True
      with k' m q m'(2) show ?thesis
        using dict_get_SomeD [of "dict_set k m' (cs_outbox s)" k m'] by auto
    next
      case False
      with k' q show ?thesis
        using dict_get_SomeD [of "dict_set k m' (cs_outbox s)" k' q] by auto
    qed
  qed
  from wf msgs run cnt show ?thesis by (simp add: outbox_invar_def)
qed

lemma outbox_uuid_inj: "inj uuid_hex \<Longrightarrow> outbox_uuid uuid_hex a = outbox_uuid uuid_hex b \<longleftrightarrow> a = b"
  by (auto simp: outbox_uuid_def dest: injD)

lemma outbox_fresh:
  assumes "inj uuid_hex" "outbox_invar uuid_hex s"
  shows "dict_get (cs_outbox s) (outbox_uuid uuid_hex (cs_uuids s)) = None"
proof (rule ccontr)
  assume "dict_get (cs_outbox s) (outbox_uuid uuid_hex (cs_uuids s)) \<noteq> None"
  then obtain m where "dict_get (cs_outbox s) (outbox_uuid uuid_hex (cs_uuids s)) = Some m" by blast
  from outbox_invarD(4) [OF assms(2) this] show False
    using outbox_uuid_inj [OF assms(1)] by auto
qed

text \<open>A new message for a known run, or together with a new run.\<close>

lemma outbox_invar_new:
  assumes inj: "inj uuid_hex" and inv: "outbox_invar uuid_hex s"
    and mid: "mid = outbox_uuid uuid_hex (cs_uuids s)"
    and s': "cs_outbox s' = dict_set mid m (cs_outbox s)" "cs_uuids s' = Suc (cs_uuids s)"
    and runs: "\<And>k. dict_get (cs_runs s') k \<noteq> None \<longleftrightarrow> dict_get (cs_runs s) k \<noteq> None \<or> k = aggregate_id m"
    and m: "outbox_id m = mid" "msg_wf m"
    and rec: "\<And>rid. pending_recovery rid m \<Longrightarrow> \<forall>q \<in> set (dict_values (cs_outbox s)). \<not> pending_recovery rid q"
  shows "outbox_invar uuid_hex s'"
proof -
  have fresh: "dict_get (cs_outbox s) mid = None"
    unfolding mid by (rule outbox_fresh [OF inj inv])
  have vals: "dict_values (cs_outbox s') = dict_values (cs_outbox s) @ [m]"
    unfolding s' by (rule dict_values_set_new [OF fresh])
  have cnt: "length (filter (pending_recovery rid) (dict_values (cs_outbox s'))) \<le> 1" for rid
    using inv rec [of rid] by (cases "pending_recovery rid m") (auto simp: vals outbox_invar_def)
  have msgs: "outbox_id q = k \<and> msg_wf q \<and> dict_get (cs_runs s') (aggregate_id q) \<noteq> None
      \<and> (\<exists>n < cs_uuids s'. k = outbox_uuid uuid_hex n)"
    if "dict_get (cs_outbox s') k = Some q" for k q
  proof (cases "k = mid")
    case True
    with that have "q = m" by (simp add: s')
    with True m runs [of "aggregate_id m"] show ?thesis by (auto simp: s' mid)
  next
    case False
    with that have "dict_get (cs_outbox s) k = Some q" by (simp add: s')
    from outbox_invarD [OF inv this] runs [of "aggregate_id q"] show ?thesis by (auto simp: s' less_Suc_eq)
  qed
  have run: "\<exists>q \<in> set (dict_values (cs_outbox s')). aggregate_id q = rid" if "dict_get (cs_runs s') rid \<noteq> None" for rid
  proof (cases "rid = aggregate_id m")
    case False
    with that runs [of rid] have "dict_get (cs_runs s) rid \<noteq> None" by blast
    with inv show ?thesis unfolding vals outbox_invar_def by auto
  qed (simp add: vals)
  have "dict_wf (cs_outbox s')" using inv by (simp add: s' outbox_invar_def)
  with msgs run cnt show ?thesis by (simp add: outbox_invar_def)
qed

section \<open>Every operation keeps the invariant\<close>

lemma new_run_wf [simp]: "run_wf (new_run rid tid owner admitted)"
  by (simp add: run_wf_def new_run_def TERMINAL_RUN_STATUSES_def)

lemma new_outbox_simps [simp]:
  "outbox_id (new_outbox mid rid v reason now) = mid" "aggregate_id (new_outbox mid rid v reason now) = rid"
  "om_command (new_outbox mid rid v reason now) =
     \<lparr>rc_message_id = mid, rc_payload_version = 1, rc_run_id = rid, rc_reason = reason\<rparr>"
  "aggregate_version (new_outbox mid rid v reason now) = v"
  by (simp_all add: new_outbox_def)

lemma msg_wf_new [simp]: "msg_wf (new_outbox mid rid v reason now)"
  by (simp add: msg_wf_def new_outbox_def)

lemma create_run_new:
  assumes "dict_get (cs_runs s) rid = None"
  shows "snd (create_run_dispatch uuid_hex rid tid owner reason now s) =
     (let mid = outbox_uuid uuid_hex (cs_uuids s); admitted = can_admit s owner;
          turn = (if admitted then admission_turn s + 1 else admission_turn s) in
      s\<lparr>cs_uuids := cs_uuids s + 1, next_created_order := next_created_order s + 1,
        created_order := dict_set rid (next_created_order s + 1) (created_order s), admission_turn := turn,
        owner_last_admitted := (if admitted then dict_set owner turn (owner_last_admitted s) else owner_last_admitted s),
        cs_runs := dict_set rid (new_run rid tid owner admitted) (cs_runs s),
        cs_outbox := dict_set mid (new_outbox mid rid 1 reason now) (cs_outbox s)\<rparr>)"
  using assms by (simp add: create_run_dispatch_def Let_def)

lemma create_run_invar:
  assumes "control_invar uuid_hex s"
  shows "control_invar uuid_hex (snd (create_run_dispatch uuid_hex rid tid owner reason now s))"
proof (cases "dict_get (cs_runs s) rid")
  case (Some r)
  then show ?thesis
    using assms by (simp add: create_run_dispatch_def split: option.split)
next
  case None
  let ?s = "snd (create_run_dispatch uuid_hex rid tid owner reason now s)"
  have inj: "inj uuid_hex" and ri: "runs_invar s" and oi: "outbox_invar uuid_hex s"
    using assms by (simp_all add: control_invar_def)
  note eq = create_run_new [OF None, of uuid_hex tid owner reason now]
  have vals: "dict_values (cs_runs ?s) = dict_values (cs_runs s) @ [new_run rid tid owner (can_admit s owner)]"
    using dict_values_set_new [OF None] by (simp add: eq Let_def)
  have runnable: "runnable_runs ?s = runnable_runs s @ (if can_admit s owner then [new_run rid tid owner True] else [])"
    by (simp add: runnable_runs_def vals) (simp add: is_runnable_def new_run_def)
  have pol: "queue_policy ?s = queue_policy s" by (simp add: eq Let_def)
  have "within_limits ?s"
    using runs_invarD(2) [OF ri] unfolding within_limits_def runnable pol
    by (auto simp: can_admit_def new_run_def)
  moreover have "order_wf ?s"
    using runs_invarD(3) [OF ri] by (auto simp: eq Let_def order_wf_def) fastforce+
  moreover have "pr_run_id r = k \<and> run_wf r \<and> dict_get (created_order ?s) k \<noteq> None"
    if "dict_get (cs_runs ?s) k = Some r" for k r
  proof (cases "k = rid")
    case True
    with that show ?thesis by (auto simp: eq Let_def) (simp add: new_run_def)
  next
    case False
    with that have "dict_get (cs_runs s) k = Some r" by (simp add: eq Let_def)
    from runs_invarD(4) [OF ri this] show ?thesis by (simp add: eq Let_def)
  qed
  ultimately have "runs_invar ?s"
    using runs_invarD(1) [OF ri] by (intro runs_invarI) (simp_all add: eq Let_def)
  moreover have "outbox_invar uuid_hex ?s"
  proof (rule outbox_invar_new [OF inj oi refl, where m = "new_outbox (outbox_uuid uuid_hex (cs_uuids s)) rid 1 reason now"])
    fix k :: pystr
    assume "pending_recovery k (new_outbox (outbox_uuid uuid_hex (cs_uuids s)) rid 1 reason now)"
    then have "k = rid" by (simp add: pending_recovery_def new_outbox_def)
    with None oi show "\<forall>q \<in> set (dict_values (cs_outbox s)). \<not> pending_recovery k q"
      by (fastforce simp: pending_recovery_def outbox_invar_def set_dict_values)
  qed (auto simp: eq Let_def)
  ultimately show ?thesis using inj by (simp add: control_invar_def)
qed

text \<open>Claiming, in closed form: the first claimable messages in order of availability, leased.\<close>

definition claim_order :: "ControlStore \<Rightarrow> OutboxMessage list" where
  "claim_order s = sort_key (\<lambda>m. (available_at m, outbox_id m)) (dict_values (cs_outbox s))"

definition run_of :: "ControlStore \<Rightarrow> OutboxMessage \<Rightarrow> ProductionRun" where
  "run_of s m = the (dict_get (cs_runs s) (aggregate_id m))"

definition put_all :: "OutboxMessage list \<Rightarrow> ControlStore \<Rightarrow> ControlStore" where
  "put_all ms s = s\<lparr>cs_outbox := foldl (\<lambda>d m. dict_set (outbox_id m) m d) (cs_outbox s) ms\<rparr>"

lemma put_all_simps [simp]: "put_all [] s = s"
  "put_all (m # ms) s = put_all ms (s\<lparr>cs_outbox := dict_set (outbox_id m) m (cs_outbox s)\<rparr>)"
  "cs_runs (put_all ms s) = cs_runs s" "cs_uuids (put_all ms s) = cs_uuids s"
  by (simp_all add: put_all_def)

lemma leased_simps [simp]:
  "outbox_id (leased p now ttl m) = outbox_id m" "aggregate_id (leased p now ttl m) = aggregate_id m"
  "om_command (leased p now ttl m) = om_command m" "published_at (leased p now ttl m) = published_at m"
  "quarantined_at (leased p now ttl m) = quarantined_at m" "om_attempts (leased p now ttl m) = om_attempts m"
  "msg_lease_owner (leased p now ttl m) = Some p" "msg_lease_expires_at (leased p now ttl m) = Some (now + ttl)"
  by (simp_all add: leased_def)

lemma claim_loop_closed:
  assumes "\<forall>m \<in> set ms. dict_get (cs_runs s) (aggregate_id m) \<noteq> None"
  shows "claim_loop p now ttl limit ms claimed s =
     (let taken = take (nat (limit - int (length claimed))) (filter (\<lambda>m. claimable now (run_of s m) m) ms) in
      (Inr (claimed @ map (leased p now ttl) taken), put_all (map (leased p now ttl) taken) s))"
  using assms
proof (induction ms arbitrary: claimed s)
  case Nil
  then show ?case by simp
next
  case (Cons m ms)
  from Cons.prems obtain run where run: "dict_get (cs_runs s) (aggregate_id m) = Some run" by auto
  let ?s = "s\<lparr>cs_outbox := dict_set (outbox_id m) (leased p now ttl m) (cs_outbox s)\<rparr>"
  have ro: "run_of ?s = run_of s" by (rule ext) (simp add: run_of_def)
  show ?case
  proof (cases "int (length claimed) \<ge> limit")
    case True
    then show ?thesis by simp
  next
    case False
    then have n: "nat (limit - int (length claimed)) = Suc (nat (limit - int (Suc (length claimed))))" by simp
    show ?thesis
    proof (cases "claimable now run m")
      case True
      with Cons.IH [of ?s "claimed @ [leased p now ttl m]"] Cons.prems False run show ?thesis
        by (simp add: run_of_def [of s m] Let_def n ro)
    next
      case nc: False
      with Cons.IH [of s claimed] Cons.prems False run show ?thesis
        by (simp add: run_of_def [of s m])
    qed
  qed
qed

lemma outbox_runs_known:
  assumes "outbox_invar uuid_hex s" "m \<in> set (dict_values (cs_outbox s))"
  shows "dict_get (cs_runs s) (aggregate_id m) \<noteq> None" "dict_get (cs_outbox s) (outbox_id m) = Some m" "msg_wf m"
proof -
  from assms obtain k where k: "dict_get (cs_outbox s) k = Some m"
    by (auto simp: outbox_invar_def set_dict_values)
  from outbox_invarD [OF assms(1) k] k
  show "dict_get (cs_runs s) (aggregate_id m) \<noteq> None" "dict_get (cs_outbox s) (outbox_id m) = Some m" "msg_wf m"
    by simp_all
qed

definition taken_messages :: "time \<Rightarrow> int \<Rightarrow> ControlStore \<Rightarrow> OutboxMessage list" where
  "taken_messages now limit s = take (nat limit) (filter (\<lambda>m. claimable now (run_of s m) m) (claim_order s))"

lemma claim_outbox_closed:
  assumes "outbox_invar uuid_hex s"
  shows "claim_outbox p now ttl limit s =
     (Inr (map (leased p now ttl) (taken_messages now limit s)), put_all (map (leased p now ttl) (taken_messages now limit s)) s)"
  using claim_loop_closed [of "claim_order s" s p now ttl limit "[]"] outbox_runs_known(1) [OF assms]
  by (simp add: claim_outbox_def claim_order_def [symmetric] taken_messages_def Let_def) (simp add: claim_order_def)

lemma set_take_filterD: "x \<in> set (take n (filter P xs)) \<Longrightarrow> P x \<and> x \<in> set xs"
  by (auto dest: in_set_takeD)

lemma taken_messages_mem:
  assumes "m \<in> set (taken_messages now limit s)"
  shows "m \<in> set (dict_values (cs_outbox s))" "claimable now (run_of s m) m"
  using assms set_take_filterD unfolding taken_messages_def claim_order_def by fastforce+

lemma distinct_outbox_ids:
  assumes "outbox_invar uuid_hex s"
  shows "distinct (map outbox_id (dict_values (cs_outbox s)))"
proof -
  have "map outbox_id (dict_values (cs_outbox s)) = map fst (cs_outbox s)"
    using outbox_invarD(1) [OF assms] assms
    by (auto simp: dict_values_def outbox_invar_def dict_get_iff)
  with assms show ?thesis by (simp add: outbox_invar_def dict_wf_def)
qed

lemma distinct_taken:
  assumes "outbox_invar uuid_hex s"
  shows "distinct (map outbox_id (taken_messages now limit s))"
proof -
  have "distinct (claim_order s)" and inj: "inj_on outbox_id (set (claim_order s))"
    using distinct_outbox_ids [OF assms] by (simp_all add: claim_order_def distinct_map)
  then have "distinct (taken_messages now limit s)"
    by (simp add: taken_messages_def)
  moreover have "set (taken_messages now limit s) \<subseteq> set (claim_order s)"
    by (auto simp: taken_messages_def dest: in_set_takeD)
  ultimately show ?thesis
    using inj by (simp add: distinct_map inj_on_subset)
qed

lemma put_all_leased_invar:
  assumes "outbox_invar uuid_hex s" "distinct (map outbox_id ms)"
    and "\<forall>m \<in> set ms. dict_get (cs_outbox s) (outbox_id m) = Some m \<and> published_at m = None"
  shows "outbox_invar uuid_hex (put_all (map (leased p now ttl) ms) s)"
  using assms
proof (induction ms arbitrary: s)
  case Nil
  then show ?case by simp
next
  case (Cons m ms)
  let ?s = "s\<lparr>cs_outbox := dict_set (outbox_id m) (leased p now ttl m) (cs_outbox s)\<rparr>"
  have m: "dict_get (cs_outbox s) (outbox_id m) = Some m" "published_at m = None" using Cons.prems(3) by auto
  have "msg_wf (leased p now ttl m)"
    using outbox_invarD(2) [OF Cons.prems(1) m(1)] m(2) by (simp add: msg_wf_def)
  then have "outbox_invar uuid_hex ?s"
    by (intro outbox_invar_put [OF Cons.prems(1) m(1)]) (auto simp: pending_recovery_def)
  moreover have "\<forall>q \<in> set ms. dict_get (cs_outbox ?s) (outbox_id q) = Some q \<and> published_at q = None"
    using Cons.prems(2,3) by (auto simp: image_iff)
  ultimately show ?case
    using Cons.IH [of ?s] Cons.prems(2) by simp
qed

lemma claim_outbox_invar:
  assumes "control_invar uuid_hex s"
  shows "control_invar uuid_hex (snd (claim_outbox p now ttl limit s))"
proof -
  have oi: "outbox_invar uuid_hex s" using assms by (simp add: control_invar_def)
  have "\<forall>m \<in> set (taken_messages now limit s). dict_get (cs_outbox s) (outbox_id m) = Some m \<and> published_at m = None"
    using taken_messages_mem [of _ now limit s] outbox_runs_known(2) [OF oi] by (auto simp: claimable_def)
  then have "outbox_invar uuid_hex (put_all (map (leased p now ttl) (taken_messages now limit s)) s)"
    by (rule put_all_leased_invar [OF oi distinct_taken [OF oi]])
  moreover have "runs_invar (put_all ms s) = runs_invar s" for ms
    by (simp add: put_all_def runs_invar_def within_limits_def runnable_runs_def order_wf_def)
  ultimately show ?thesis
    using assms by (simp add: control_invar_def claim_outbox_closed [OF oi])
qed

lemma runs_invar_outbox [simp]: "runs_invar (s\<lparr>cs_outbox := d\<rparr>) = runs_invar s"
  by (simp add: runs_invar_def within_limits_def runnable_runs_def order_wf_def)

lemma mark_published_invar:
  assumes "control_invar uuid_hex s"
  shows "control_invar uuid_hex (snd (mark_outbox_published mid p now s))"
proof (cases "dict_get (cs_outbox s) mid")
  case (Some m)
  let ?m = "m\<lparr>published_at := Some now, msg_lease_owner := None, msg_lease_expires_at := None\<rparr>"
  have oi: "outbox_invar uuid_hex s" using assms by (simp add: control_invar_def)
  have "outbox_invar uuid_hex (s\<lparr>cs_outbox := dict_set mid ?m (cs_outbox s)\<rparr>)"
    using outbox_invarD [OF oi Some]
    by (intro outbox_invar_put [OF oi Some]) (auto simp: msg_wf_def pending_recovery_def)
  with assms Some show ?thesis
    by (simp add: mark_outbox_published_def control_invar_def)
qed (simp add: mark_outbox_published_def assms)

lemma mark_failed_invar:
  assumes "control_invar uuid_hex s"
  shows "control_invar uuid_hex (snd (mark_outbox_failed mid p now n s))"
proof (cases "dict_get (cs_outbox s) mid")
  case (Some m)
  let ?m = "m\<lparr>om_attempts := om_attempts m + 1, available_at := now + seconds (min (2 ^ (om_attempts m + 1)) 300),
      quarantined_at := (if int (om_attempts m + 1) \<ge> n then Some now else None), msg_lease_owner := None, msg_lease_expires_at := None\<rparr>"
  have oi: "outbox_invar uuid_hex s" using assms by (simp add: control_invar_def)
  have "outbox_invar uuid_hex (s\<lparr>cs_outbox := dict_set mid ?m (cs_outbox s)\<rparr>)" if "msg_lease_owner m = Some p"
    using outbox_invarD [OF oi Some] that
    by (intro outbox_invar_put [OF oi Some]) (auto simp: msg_wf_def pending_recovery_def)
  with assms Some show ?thesis
    by (simp add: mark_outbox_failed_def control_invar_def Let_def)
qed (simp add: mark_outbox_failed_def assms)

lemma cancellation_invar:
  assumes "control_invar uuid_hex s"
  shows "control_invar uuid_hex (snd (request_cancellation rid owner now s))"
proof (cases "dict_get (cs_runs s) rid")
  case (Some run)
  let ?run = "run\<lparr>pr_status := PR_STOPPING,
      cancellation_requested_at := (case cancellation_requested_at run of None \<Rightarrow> Some now | Some t \<Rightarrow> Some t)\<rparr>"
  have run: "pr_run_id run = rid" "run_wf run"
    using runs_invar_get [OF _ Some] assms by (auto simp: control_invar_def)
  have wf: "run_wf ?run"
    using run by (auto simp: run_wf_def TERMINAL_RUN_STATUSES_def split: option.splits)
  have "control_invar uuid_hex (s\<lparr>cs_runs := dict_set rid ?run (cs_runs s)\<rparr>)"
    by (rule control_invar_set [OF assms Some _ wf]) (simp_all add: run is_runnable_def)
  with assms Some show ?thesis
    by (simp add: request_cancellation_def Let_def)
qed (simp add: request_cancellation_def assms)

lemma acquire_invar:
  assumes "control_invar uuid_hex s"
  shows "control_invar uuid_hex (snd (acquire_run rid worker now ttl s))"
proof (cases "dict_get (cs_runs s) rid")
  case (Some run)
  let ?run = "run\<lparr>pr_status := (if cancellation_requested_at run \<noteq> None then PR_STOPPING else PR_RUNNING),
      fencing_token := fencing_token run + 1, lease_owner := Some worker, lease_expires_at := Some (now + ttl),
      attempt_count := attempt_count run + 1\<rparr>"
  have run: "pr_run_id run = rid" "run_wf run"
    using runs_invar_get [OF _ Some] assms by (auto simp: control_invar_def)
  have "control_invar uuid_hex (s\<lparr>cs_runs := dict_set rid ?run (cs_runs s)\<rparr>)"
    if st: "pr_status run \<notin> TERMINAL_RUN_STATUSES" "pr_status run \<notin> {PR_WAITING_CAPACITY, PR_WAITING_PROVIDER, PR_WAITING_USER}"
  proof (rule control_invar_set [OF assms Some])
    show "run_wf ?run"
      using run st by (cases "pr_status run") (auto simp: run_wf_def TERMINAL_RUN_STATUSES_def)
    show "is_runnable ?run \<Longrightarrow> is_runnable run"
      using run st by (cases "pr_status run") (auto simp: run_wf_def TERMINAL_RUN_STATUSES_def is_runnable_def split: if_splits)
  qed (simp_all add: run)
  with assms Some show ?thesis
    by (simp add: acquire_run_def Let_def)
qed (simp add: acquire_run_def assms)

lemma heartbeat_invar:
  assumes "control_invar uuid_hex s"
  shows "control_invar uuid_hex (snd (heartbeat grant now ttl s))"
proof (cases "dict_get (cs_runs s) (lg_run_id grant)")
  case (Some run)
  let ?run = "run\<lparr>lease_expires_at := Some (now + ttl)\<rparr>"
  have run: "pr_run_id run = lg_run_id grant" "run_wf run"
    using runs_invar_get [OF _ Some] assms by (auto simp: control_invar_def)
  have "control_invar uuid_hex (s\<lparr>cs_runs := dict_set (lg_run_id grant) ?run (cs_runs s)\<rparr>)"
    if "lease_owner run = Some (lg_worker_id grant)"
  proof (rule control_invar_set [OF assms Some])
    show "run_wf ?run" using run that by (auto simp: run_wf_def)
  qed (simp_all add: run is_runnable_def)
  with assms Some show ?thesis
    by (simp add: heartbeat_def)
qed (simp add: heartbeat_def assms)

lemma admit_waiting_invar:
  assumes "control_invar uuid_hex s"
  obtains ps s' where "admit_waiting_runs s = (Inr ps, s')" "control_invar uuid_hex s'" "admits s s'" "admission_done s'"
proof -
  from assms have "runs_invar s" by (simp add: control_invar_def)
  from admit_waiting_ends [OF this] obtain ps s' where
    "admit_waiting_runs s = (Inr ps, s')" "runs_invar s'" "admits s s'" "admission_done s'" by blast
  with that assms admits_outbox_invar show thesis by (auto simp: control_invar_def)
qed

lemma complete_run_current:
  assumes inv: "control_invar uuid_hex s" and r: "dict_get (cs_runs s) (lg_run_id grant) = Some run"
    and held: "lease_owner run = Some (lg_worker_id grant)" "fencing_token run = lg_fencing_token grant"
    and st: "status \<in> TERMINAL_RUN_STATUSES"
  shows "let updated = run\<lparr>pr_status := status, queue_slot_acquired := False, lease_owner := None, lease_expires_at := None\<rparr>;
             s1 = s\<lparr>cs_runs := dict_set (lg_run_id grant) updated (cs_runs s)\<rparr> in
         \<exists>s'. complete_run grant status s = (Inr updated, s') \<and> control_invar uuid_hex s1 \<and> control_invar uuid_hex s'
           \<and> admits s1 s' \<and> admission_done s'"
proof -
  let ?run = "run\<lparr>pr_status := status, queue_slot_acquired := False, lease_owner := None, lease_expires_at := None\<rparr>"
  let ?s = "s\<lparr>cs_runs := dict_set (lg_run_id grant) ?run (cs_runs s)\<rparr>"
  have run: "pr_run_id run = lg_run_id grant" "run_wf run"
    using runs_invar_get [OF _ r] inv by (auto simp: control_invar_def)
  have "control_invar uuid_hex ?s"
  proof (rule control_invar_set [OF inv r])
    show "run_wf ?run" using run st by (auto simp: run_wf_def TERMINAL_RUN_STATUSES_def)
  qed (simp_all add: run is_runnable_def)
  with admit_waiting_invar obtain ps s' where adm:
    "admit_waiting_runs ?s = (Inr ps, s')" "control_invar uuid_hex s'" "admits ?s s'" "admission_done s'" by blast
  with held st r have "complete_run grant status s = (Inr ?run, s')"
    by (simp add: complete_run_def Let_def)
  with adm \<open>control_invar uuid_hex ?s\<close> show ?thesis by (auto simp: Let_def)
qed

lemma complete_run_refused:
  assumes "status \<notin> TERMINAL_RUN_STATUSES
     \<or> (case dict_get (cs_runs s) (lg_run_id grant) of None \<Rightarrow> True
        | Some run \<Rightarrow> lease_owner run \<noteq> Some (lg_worker_id grant) \<or> fencing_token run \<noteq> lg_fencing_token grant)"
  shows "snd (complete_run grant status s) = s"
  using assms by (auto simp: complete_run_def split: option.splits)

lemma complete_run_cases:
  assumes "control_invar uuid_hex s"
  obtains (refused) "snd (complete_run grant status s) = s"
  | (completed) run s' where "status \<in> TERMINAL_RUN_STATUSES" "dict_get (cs_runs s) (lg_run_id grant) = Some run"
      "lease_owner run = Some (lg_worker_id grant)"
      "let updated = run\<lparr>pr_status := status, queue_slot_acquired := False, lease_owner := None, lease_expires_at := None\<rparr>;
           s1 = s\<lparr>cs_runs := dict_set (lg_run_id grant) updated (cs_runs s)\<rparr> in
       complete_run grant status s = (Inr updated, s') \<and> control_invar uuid_hex s1 \<and> control_invar uuid_hex s'
         \<and> admits s1 s' \<and> admission_done s'"
proof (cases "dict_get (cs_runs s) (lg_run_id grant)")
  case None
  with refused show thesis by (simp add: complete_run_refused)
next
  case (Some run)
  show thesis
  proof (cases "status \<in> TERMINAL_RUN_STATUSES \<and> lease_owner run = Some (lg_worker_id grant)
      \<and> fencing_token run = lg_fencing_token grant")
    case False
    with refused Some show thesis by (simp add: complete_run_refused)
  next
    case True
    with complete_run_current [OF assms Some, of status] completed [OF _ Some] show thesis
      by (auto simp: Let_def)
  qed
qed

lemma complete_invar:
  assumes "control_invar uuid_hex s"
  shows "control_invar uuid_hex (snd (complete_run grant status s))"
  using assms by (cases rule: complete_run_cases [OF assms, of grant status]) (auto simp: Let_def)

lemma control_invar_frame [simp]:
  "control_invar uuid_hex (s\<lparr>cs_inbox := i\<rparr>) = control_invar uuid_hex s"
  "control_invar uuid_hex (s\<lparr>cs_command_idempotency := d\<rparr>) = control_invar uuid_hex s"
  by (simp_all add: control_invar_def runs_invar_def within_limits_def runnable_runs_def order_wf_def outbox_invar_def)

lemma control_invar_uuid: "control_invar uuid_hex s \<Longrightarrow> cs_uuids s \<le> n \<Longrightarrow> control_invar uuid_hex (s\<lparr>cs_uuids := n\<rparr>)"
  by (auto simp: control_invar_def runs_invar_def within_limits_def runnable_runs_def order_wf_def outbox_invar_def)
    (meson less_le_trans)

lemma snd_get_run [simp]: "snd (get_run rid s) = s"
  by (simp add: get_run_def split: option.split)

lemma retry_run_cases:
  shows "snd (retry_run uuid_hex rid owner now key h s) = s \<or>
    (\<exists>new tid d. snd (retry_run uuid_hex rid owner now key h s) =
        (snd (create_run_dispatch uuid_hex new tid owner (lit ''RETRY'') now (s\<lparr>cs_uuids := cs_uuids s + 1\<rparr>)))
          \<lparr>cs_command_idempotency := d\<rparr>)
    \<or> (\<exists>new tid. snd (retry_run uuid_hex rid owner now key h s) =
        snd (create_run_dispatch uuid_hex new tid owner (lit ''RETRY'') now (s\<lparr>cs_uuids := cs_uuids s + 1\<rparr>)))"
  apply (simp add: retry_run_def Let_def split: option.split prod.split sum.split)
  apply (intro conjI impI allI)
  apply (metis snd_conv)+
  done

lemma retry_invar:
  assumes "control_invar uuid_hex s"
  shows "control_invar uuid_hex (snd (retry_run uuid_hex rid owner now key h s))"
  using retry_run_cases [of uuid_hex rid owner now key h s] assms
    create_run_invar [OF control_invar_uuid [OF assms, of "cs_uuids s + 1"]]
  by auto

lemma recovery_message_invar:
  assumes inv: "control_invar uuid_hex s" and known: "dict_get (cs_runs s) rid \<noteq> None"
    and none: "\<forall>m \<in> set (dict_values (cs_outbox s)). \<not> pending_recovery rid m"
  shows "control_invar uuid_hex (s\<lparr>cs_uuids := cs_uuids s + 1, cs_outbox := dict_set (outbox_uuid uuid_hex (cs_uuids s))
     (new_outbox (outbox_uuid uuid_hex (cs_uuids s)) rid v (lit ''RECOVER'') now) (cs_outbox s)\<rparr>)"
    (is "control_invar uuid_hex ?s")
proof -
  have inj: "inj uuid_hex" and ri: "runs_invar s" and oi: "outbox_invar uuid_hex s"
    using inv by (simp_all add: control_invar_def)
  let ?m = "new_outbox (outbox_uuid uuid_hex (cs_uuids s)) rid v (lit ''RECOVER'') now"
  have "outbox_invar uuid_hex ?s"
  proof (rule outbox_invar_new [OF inj oi refl, where m = ?m])
    fix k :: pystr
    assume "pending_recovery k ?m"
    then have "k = rid" by (simp add: pending_recovery_def)
    with none show "\<forall>q \<in> set (dict_values (cs_outbox s)). \<not> pending_recovery k q" by blast
  qed (use known in auto)
  moreover have "runs_invar ?s"
    using ri by (simp add: runs_invar_def within_limits_def runnable_runs_def order_wf_def)
  ultimately show ?thesis using inj by (simp add: control_invar_def)
qed

lemma recovery_loop_invar:
  assumes "control_invar uuid_hex s" "\<forall>r \<in> set runs. dict_get (cs_runs s) (pr_run_id r) \<noteq> None"
  shows "\<exists>ms s'. recovery_loop uuid_hex now grace limit runs created s = (Inr ms, s') \<and> control_invar uuid_hex s'
    \<and> cs_runs s' = cs_runs s"
  using assms
proof (induction runs arbitrary: created s)
  case Nil
  then show ?case by simp
next
  case (Cons r runs)
  let ?go = "int (length created) < limit \<and> needs_recovery now grace r
      \<and> \<not> (\<exists>m \<in> set (dict_values (cs_outbox s)). pending_recovery (pr_run_id r) m)"
  show ?case
  proof (cases ?go)
    case False
    with Cons.IH [OF Cons.prems(1), of created] Cons.prems show ?thesis by auto
  next
    case True
    let ?v = "max_default 0 (map aggregate_version (filter (\<lambda>m. aggregate_id m = pr_run_id r) (dict_values (cs_outbox s)))) + 1"
    let ?mid = "outbox_uuid uuid_hex (cs_uuids s)"
    let ?m = "new_outbox ?mid (pr_run_id r) ?v (lit ''RECOVER'') now"
    let ?s = "s\<lparr>cs_uuids := cs_uuids s + 1, cs_outbox := dict_set ?mid ?m (cs_outbox s)\<rparr>"
    have "control_invar uuid_hex ?s"
      using True Cons.prems by (intro recovery_message_invar) auto
    with Cons.IH [of ?s "created @ [?m]"] Cons.prems(2) obtain ms s' where
      "recovery_loop uuid_hex now grace limit runs (created @ [?m]) ?s = (Inr ms, s')" "control_invar uuid_hex s'" "cs_runs s' = cs_runs s"
      by auto
    with True show ?thesis by (simp add: Let_def)
  qed
qed

lemma stored_runs_known:
  assumes "control_invar uuid_hex s"
  shows "\<forall>r \<in> set (sort_key pr_run_id (dict_values (cs_runs s))). dict_get (cs_runs s) (pr_run_id r) \<noteq> None"
proof
  have ri: "runs_invar s" using assms by (simp add: control_invar_def)
  fix r assume "r \<in> set (sort_key pr_run_id (dict_values (cs_runs s)))"
  then obtain k where "dict_get (cs_runs s) k = Some r"
    using runs_invarD(1) [OF ri] by (auto simp: set_dict_values)
  with runs_invar_get(1) [OF ri this] show "dict_get (cs_runs s) (pr_run_id r) \<noteq> None" by simp
qed

lemma enqueue_recoveries_invar:
  assumes "control_invar uuid_hex s"
  obtains ms s' where "enqueue_recoveries uuid_hex now grace limit s = (Inr ms, s')" "control_invar uuid_hex s'" "cs_runs s' = cs_runs s"
  using recovery_loop_invar [OF assms stored_runs_known [OF assms], of now grace limit "[]"] that
  by (auto simp: enqueue_recoveries_def)

lemma apply_control_invar:
  assumes "control_invar uuid_hex s"
  shows "control_invar uuid_hex (apply_control uuid_hex c s)"
proof (cases c)
  case AdmitWaiting
  from admit_waiting_invar [OF assms] show ?thesis by (metis AdmitWaiting apply_control.simps(9) snd_conv)
next
  case (EnqueueRecoveries now grace limit)
  from enqueue_recoveries_invar [OF assms] show ?thesis by (metis EnqueueRecoveries apply_control.simps(12) snd_conv)
qed (use assms in \<open>simp_all add: create_run_invar claim_outbox_invar mark_published_invar mark_failed_invar cancellation_invar
    retry_invar acquire_invar complete_invar heartbeat_invar record_inbox_def\<close>)

interpretation dispatch: invariant_system "control_start uuid_hex" "apply_control uuid_hex" "control_invar uuid_hex"
  by unfold_locales (simp_all add: control_start_invar apply_control_invar)

end
