(* ===== verification/Dispatch_Safety.thy ===== *)
theory Dispatch_Safety
  imports Dispatch_Invariant
begin

text \<open>
  What the control store promises over any sequence of operations: how one run may evolve, that
  a superseded worker stays fenced off, that finished runs stay finished, who holds a message, and
  what an executor may conclude.
\<close>

section \<open>How a run evolves\<close>

definition started :: "ProductionRun \<Rightarrow> bool" where
  "started r \<longleftrightarrow> pr_status r \<in> {PR_RUNNING, PR_STOPPING} \<union> TERMINAL_RUN_STATUSES"

definition evolves :: "ProductionRun \<Rightarrow> ProductionRun \<Rightarrow> bool" where
  "evolves r r' \<longleftrightarrow>
     pr_run_id r' = pr_run_id r \<and> pr_task_id r' = pr_task_id r \<and> pr_owner_id r' = pr_owner_id r
     \<and> fencing_token r \<le> fencing_token r'
     \<and> (pr_status r \<in> TERMINAL_RUN_STATUSES \<longrightarrow> r' = r)
     \<and> (started r \<longrightarrow> started r')
     \<and> (fencing_token r' = fencing_token r \<longrightarrow> lease_owner r' = lease_owner r \<or> lease_owner r' = None)
     \<and> (cancellation_requested_at r \<noteq> None \<longrightarrow> cancellation_requested_at r' = cancellation_requested_at r)"

lemma evolves_refl [simp]: "evolves r r"
  by (simp add: evolves_def)

lemma evolves_trans:
  assumes "evolves r r'" "evolves r' r''"
  shows "evolves r r''"
proof -
  have "lease_owner r'' = lease_owner r \<or> lease_owner r'' = None" if "fencing_token r'' = fencing_token r"
  proof -
    from assms that have "fencing_token r' = fencing_token r" "fencing_token r'' = fencing_token r'"
      by (simp_all add: evolves_def)
    with assms show ?thesis by (auto simp: evolves_def)
  qed
  with assms show ?thesis
    unfolding evolves_def by (metis le_trans)
qed

definition store_evolves :: "ControlStore \<Rightarrow> ControlStore \<Rightarrow> bool" where
  "store_evolves s s' \<longleftrightarrow>
     (\<forall>k r. dict_get (cs_runs s) k = Some r \<longrightarrow> (\<exists>r'. dict_get (cs_runs s') k = Some r' \<and> evolves r r'))"

lemma store_evolves_refl [simp]: "store_evolves s s"
  by (simp add: store_evolves_def)

lemma store_evolves_trans: "store_evolves s s' \<Longrightarrow> store_evolves s' s'' \<Longrightarrow> store_evolves s s''"
  unfolding store_evolves_def using evolves_trans by blast

lemma store_evolves_runs: "cs_runs s' = cs_runs s \<Longrightarrow> store_evolves s s'"
  by (simp add: store_evolves_def)

lemma store_evolves_put:
  assumes "dict_get (cs_runs s) k = Some r"
  shows "store_evolves s (s\<lparr>cs_runs := dict_set k r' (cs_runs s)\<rparr>) \<longleftrightarrow> evolves r r'"
  using assms by (auto simp: store_evolves_def)

lemma store_evolves_admits:
  assumes "runs_invar s" "admits s s'"
  shows "store_evolves s s'"
  unfolding store_evolves_def
proof (intro allI impI)
  fix k r assume r: "dict_get (cs_runs s) k = Some r"
  have "case dict_get (cs_runs s) k of None \<Rightarrow> dict_get (cs_runs s') k = None
      | Some r \<Rightarrow> dict_get (cs_runs s') k = Some r \<or> pr_status r = PR_WAITING_CAPACITY
          \<and> dict_get (cs_runs s') k = Some (r\<lparr>pr_status := PR_QUEUED, queue_slot_acquired := True\<rparr>)"
    using assms(2) by (simp add: admits_def)
  with r consider "dict_get (cs_runs s') k = Some r" | "pr_status r = PR_WAITING_CAPACITY"
      "dict_get (cs_runs s') k = Some (r\<lparr>pr_status := PR_QUEUED, queue_slot_acquired := True\<rparr>)"
    by auto
  then show "\<exists>r'. dict_get (cs_runs s') k = Some r' \<and> evolves r r'"
    by cases (auto simp: evolves_def started_def TERMINAL_RUN_STATUSES_def)
qed

lemma create_evolves: "store_evolves s (snd (create_run_dispatch uuid_hex rid tid owner reason now s))"
proof (cases "dict_get (cs_runs s) rid")
  case (Some r)
  then show ?thesis by (simp add: create_run_dispatch_def split: option.split)
next
  case None
  then show ?thesis
    by (auto simp: create_run_new Let_def store_evolves_def)
qed

lemma cancellation_evolves: "store_evolves s (snd (request_cancellation rid owner now s))"
proof (cases "dict_get (cs_runs s) rid")
  case (Some run)
  then show ?thesis
    by (simp add: request_cancellation_def Let_def store_evolves_put [OF Some])
      (simp add: evolves_def started_def split: option.split)
qed (simp add: request_cancellation_def)

lemma acquire_evolves: "store_evolves s (snd (acquire_run rid worker now ttl s))"
proof (cases "dict_get (cs_runs s) rid")
  case (Some run)
  then show ?thesis
    by (simp add: acquire_run_def Let_def store_evolves_put [OF Some])
      (simp add: evolves_def started_def)
qed (simp add: acquire_run_def)

lemma heartbeat_evolves:
  assumes "control_invar uuid_hex s"
  shows "store_evolves s (snd (heartbeat grant now ttl s))"
proof (cases "dict_get (cs_runs s) (lg_run_id grant)")
  case (Some run)
  have "run_wf run" using runs_invar_get [OF _ Some] assms by (auto simp: control_invar_def)
  with Some show ?thesis
    by (simp add: heartbeat_def store_evolves_put [OF Some]) (auto simp: evolves_def started_def run_wf_def)
qed (simp add: heartbeat_def)

lemma complete_evolves:
  assumes "control_invar uuid_hex s"
  shows "store_evolves s (snd (complete_run grant status s))"
  using assms
proof (cases rule: complete_run_cases [where grant = grant and status = status])
  case (completed run s')
  let ?run = "run\<lparr>pr_status := status, queue_slot_acquired := False, lease_owner := None, lease_expires_at := None\<rparr>"
  let ?s = "s\<lparr>cs_runs := dict_set (lg_run_id grant) ?run (cs_runs s)\<rparr>"
  have "run_wf run" using runs_invar_get [OF _ completed(2)] assms by (auto simp: control_invar_def)
  then have "evolves run ?run"
    using completed(1,3) by (auto simp: evolves_def started_def run_wf_def)
  then have "store_evolves s ?s" by (simp add: store_evolves_put [OF completed(2)])
  moreover have "store_evolves ?s s'"
    using completed(4) by (intro store_evolves_admits) (auto simp: Let_def control_invar_def)
  ultimately show ?thesis using completed(4) store_evolves_trans by (auto simp: Let_def)
qed simp

lemma retry_evolves: "store_evolves s (snd (retry_run uuid_hex rid owner now key h s))"
proof -
  have "store_evolves s (s\<lparr>cs_uuids := n\<rparr>)" for n by (simp add: store_evolves_runs)
  then have c: "store_evolves s (snd (create_run_dispatch uuid_hex new tid owner (lit ''RETRY'') now (s\<lparr>cs_uuids := cs_uuids s + 1\<rparr>)))"
    for new tid
    using create_evolves store_evolves_trans by blast
  have d: "store_evolves t (t\<lparr>cs_command_idempotency := d\<rparr>)" for t d by (simp add: store_evolves_runs)
  from retry_run_cases [of uuid_hex rid owner now key h s] show ?thesis
  proof (elim disjE exE)
    fix new tid d'
    assume "snd (retry_run uuid_hex rid owner now key h s) =
      (snd (create_run_dispatch uuid_hex new tid owner (lit ''RETRY'') now (s\<lparr>cs_uuids := cs_uuids s + 1\<rparr>)))
        \<lparr>cs_command_idempotency := d'\<rparr>"
    then show ?thesis by (simp only: store_evolves_trans [OF c d])
  qed (simp_all only: c store_evolves_refl)
qed

lemma outbox_ops_runs:
  "cs_runs (snd (mark_outbox_published mid p now s)) = cs_runs s"
  "cs_runs (snd (mark_outbox_failed mid p now n s)) = cs_runs s"
  "cs_runs (snd (record_inbox c mid s)) = cs_runs s"
  by (simp_all add: mark_outbox_published_def mark_outbox_failed_def record_inbox_def Let_def split: option.split)

lemma claim_outbox_runs: "control_invar uuid_hex s \<Longrightarrow> cs_runs (snd (claim_outbox p now ttl limit s)) = cs_runs s"
  by (simp add: claim_outbox_closed [of uuid_hex] control_invar_def)

lemma apply_control_evolves:
  assumes "control_invar uuid_hex s"
  shows "store_evolves s (apply_control uuid_hex c s)"
proof (cases c)
  case AdmitWaiting
  from admit_waiting_invar [OF assms] obtain ps s' where "admit_waiting_runs s = (Inr ps, s')" "admits s s'" by blast
  then show ?thesis
    using assms store_evolves_admits by (simp add: AdmitWaiting control_invar_def)
next
  case (EnqueueRecoveries now grace limit)
  from enqueue_recoveries_invar [OF assms] obtain ms s' where
    "enqueue_recoveries uuid_hex now grace limit s = (Inr ms, s')" "cs_runs s' = cs_runs s" by blast
  then show ?thesis by (simp add: EnqueueRecoveries store_evolves_runs)
qed (simp_all add: create_evolves cancellation_evolves acquire_evolves heartbeat_evolves [OF assms] complete_evolves [OF assms]
    retry_evolves store_evolves_runs outbox_ops_runs claim_outbox_runs [OF assms])

lemma run_control_evolves:
  assumes "control_invar uuid_hex s"
  shows "store_evolves s (run_commands (apply_control uuid_hex) cs s)"
  using assms
proof (induction cs arbitrary: s)
  case (Cons c cs)
  from Cons.IH [OF apply_control_invar [OF Cons.prems]] apply_control_evolves [OF Cons.prems] show ?case
    using store_evolves_trans by fastforce
qed simp

lemma run_control_run:
  assumes "control_invar uuid_hex s" "dict_get (cs_runs s) k = Some r"
  obtains r' where "dict_get (cs_runs (run_commands (apply_control uuid_hex) cs s)) k = Some r'" "evolves r r'"
  using run_control_evolves [OF assms(1)] assms(2) unfolding store_evolves_def by blast

section \<open>Leases and fencing\<close>

lemma acquire_run_Some:
  assumes "acquire_run rid worker now ttl s = (Inr (Some g), s')"
  obtains run where "dict_get (cs_runs s) rid = Some run" "lg_run_id g = rid" "lg_worker_id g = worker"
    "lg_fencing_token g = Suc (fencing_token run)" "lg_expires_at g = now + ttl"
    "s' = s\<lparr>cs_runs := dict_set rid
       (run\<lparr>pr_status := (if cancellation_requested_at run \<noteq> None then PR_STOPPING else PR_RUNNING),
            fencing_token := Suc (fencing_token run), lease_owner := Some worker, lease_expires_at := Some (now + ttl),
            attempt_count := attempt_count run + 1\<rparr>) (cs_runs s)\<rparr>"
    "pr_status run \<notin> TERMINAL_RUN_STATUSES"
  using assms by (auto simp: acquire_run_def Let_def split: option.splits if_splits)

lemma acquire_run_state: "acquire_run rid worker now ttl s = (r, s') \<Longrightarrow> s' = apply_control uuid_hex (AcquireRun rid worker now ttl) s"
  by simp

lemma stale_token_refused:
  assumes "dict_get (cs_runs s) (lg_run_id g) = Some run" "lg_fencing_token g < fencing_token run"
  shows "heartbeat g now ttl s = (Inl (DE_LostLease ''worker lease is no longer current''), s)"
    and "status \<in> TERMINAL_RUN_STATUSES \<Longrightarrow> complete_run g status s = (Inl (DE_LostLease ''worker lease is no longer current''), s)"
  using assms by (simp_all add: heartbeat_def complete_run_def)

section \<open>Messages over time\<close>

lemma started_not_claimed:
  assumes inv: "control_invar uuid_hex s" and r: "dict_get (cs_runs s) rid = Some r" "started r"
    and c: "claim_outbox p now ttl limit s = (Inr ms, s')" and m: "m \<in> set ms"
  shows "aggregate_id m \<noteq> rid"
proof
  assume rid: "aggregate_id m = rid"
  have oi: "outbox_invar uuid_hex s" using inv by (simp add: control_invar_def)
  from c m obtain q where q: "q \<in> set (taken_messages now limit s)" "m = leased p now ttl q"
    by (auto simp: claim_outbox_closed [OF oi])
  then have "run_of s q = r" using rid r by (simp add: run_of_def)
  with taken_messages_mem(2) [OF q(1)] r(2) show False
    by (auto simp: claimable_def started_def TERMINAL_RUN_STATUSES_def)
qed

text \<open>A message keeps its identity and, once published, every field.\<close>

definition msg_kept :: "OutboxMessage \<Rightarrow> OutboxMessage \<Rightarrow> bool" where
  "msg_kept m m' \<longleftrightarrow> outbox_id m' = outbox_id m \<and> aggregate_id m' = aggregate_id m \<and> om_command m' = om_command m
     \<and> om_attempts m \<le> om_attempts m' \<and> (published_at m \<noteq> None \<longrightarrow> m' = m)"

definition outbox_kept :: "ControlStore \<Rightarrow> ControlStore \<Rightarrow> bool" where
  "outbox_kept s s' \<longleftrightarrow>
     (\<forall>k m. dict_get (cs_outbox s) k = Some m \<longrightarrow> (\<exists>m'. dict_get (cs_outbox s') k = Some m' \<and> msg_kept m m'))"

lemma msg_kept_refl [simp]: "msg_kept m m"
  by (simp add: msg_kept_def)

lemma msg_kept_trans: "msg_kept m m' \<Longrightarrow> msg_kept m' m'' \<Longrightarrow> msg_kept m m''"
  by (auto simp: msg_kept_def)

lemma outbox_kept_same: "cs_outbox s' = cs_outbox s \<Longrightarrow> outbox_kept s s'"
  by (simp add: outbox_kept_def)

lemma outbox_kept_trans: "outbox_kept s s' \<Longrightarrow> outbox_kept s' s'' \<Longrightarrow> outbox_kept s s''"
  unfolding outbox_kept_def using msg_kept_trans by blast

lemma outbox_kept_put:
  assumes "dict_get (cs_outbox s) k = Some m" "cs_outbox s' = dict_set k m' (cs_outbox s)" "msg_kept m m'"
  shows "outbox_kept s s'"
  using assms by (auto simp: outbox_kept_def)

lemma outbox_kept_fresh:
  assumes "dict_get (cs_outbox s) k = None" "cs_outbox s' = dict_set k m' (cs_outbox s)"
  shows "outbox_kept s s'"
  using assms by (auto simp: outbox_kept_def)

lemma create_kept:
  assumes "control_invar uuid_hex s"
  shows "outbox_kept s (snd (create_run_dispatch uuid_hex rid tid owner reason now s))"
proof (cases "dict_get (cs_runs s) rid")
  case (Some r)
  then show ?thesis by (simp add: create_run_dispatch_def outbox_kept_same split: option.split)
next
  case None
  have "dict_get (cs_outbox s) (outbox_uuid uuid_hex (cs_uuids s)) = None"
    using assms outbox_fresh by (simp add: control_invar_def)
  then show ?thesis
    by (rule outbox_kept_fresh) (simp add: create_run_new [OF None] Let_def)
qed

lemma put_all_kept:
  assumes "\<forall>m \<in> set ms. \<exists>q. dict_get (cs_outbox s) (outbox_id m) = Some q \<and> msg_kept q m" "distinct (map outbox_id ms)"
  shows "outbox_kept s (put_all ms s)"
  using assms
proof (induction ms arbitrary: s)
  case (Cons m ms)
  let ?s = "s\<lparr>cs_outbox := dict_set (outbox_id m) m (cs_outbox s)\<rparr>"
  from Cons.prems(1) obtain q where q: "dict_get (cs_outbox s) (outbox_id m) = Some q" "msg_kept q m" by auto
  have "outbox_kept s ?s" using q by (intro outbox_kept_put [OF q(1)]) simp_all
  moreover have "outbox_kept ?s (put_all ms ?s)"
    using Cons.prems by (intro Cons.IH) (auto simp: image_iff)
  ultimately show ?case using outbox_kept_trans by simp
qed (simp add: outbox_kept_same)

lemma claim_kept:
  assumes "control_invar uuid_hex s"
  shows "outbox_kept s (snd (claim_outbox p now ttl limit s))"
proof -
  have oi: "outbox_invar uuid_hex s" using assms by (simp add: control_invar_def)
  have "outbox_kept s (put_all (map (leased p now ttl) (taken_messages now limit s)) s)"
  proof (rule put_all_kept)
    show "distinct (map outbox_id (map (leased p now ttl) (taken_messages now limit s)))"
      using distinct_taken [OF oi] by (simp add: comp_def)
    show "\<forall>m \<in> set (map (leased p now ttl) (taken_messages now limit s)).
        \<exists>q. dict_get (cs_outbox s) (outbox_id m) = Some q \<and> msg_kept q m"
      using taken_messages_mem [of _ now limit s] outbox_runs_known(2) [OF oi]
      by (auto simp: msg_kept_def claimable_def)
  qed
  then show ?thesis by (simp add: claim_outbox_closed [OF oi])
qed

lemma mark_published_kept:
  assumes "control_invar uuid_hex s"
  shows "outbox_kept s (snd (mark_outbox_published mid p now s))"
proof (cases "dict_get (cs_outbox s) mid")
  case (Some m)
  have "msg_wf m" using outbox_invarD(2) [OF _ Some, of uuid_hex] assms by (simp add: control_invar_def)
  with Some show ?thesis
    by (auto simp: mark_outbox_published_def outbox_kept_same msg_wf_def msg_kept_def intro!: outbox_kept_put [OF Some])
qed (simp add: mark_outbox_published_def outbox_kept_same)

lemma mark_failed_kept:
  assumes "control_invar uuid_hex s"
  shows "outbox_kept s (snd (mark_outbox_failed mid p now n s))"
proof (cases "dict_get (cs_outbox s) mid")
  case (Some m)
  have "msg_wf m" using outbox_invarD(2) [OF _ Some, of uuid_hex] assms by (simp add: control_invar_def)
  with Some show ?thesis
    by (auto simp: mark_outbox_failed_def Let_def outbox_kept_same msg_wf_def msg_kept_def intro!: outbox_kept_put [OF Some])
qed (simp add: mark_outbox_failed_def outbox_kept_same)

lemma run_ops_outbox:
  "cs_outbox (snd (request_cancellation rid owner now s)) = cs_outbox s"
  "cs_outbox (snd (acquire_run rid worker now ttl s)) = cs_outbox s"
  "cs_outbox (snd (heartbeat grant now ttl s)) = cs_outbox s"
  "cs_outbox (snd (record_inbox c mid s)) = cs_outbox s"
  by (simp_all add: request_cancellation_def acquire_run_def heartbeat_def record_inbox_def Let_def split: option.split)

lemma complete_outbox:
  assumes "control_invar uuid_hex s"
  shows "cs_outbox (snd (complete_run grant status s)) = cs_outbox s"
  by (cases rule: complete_run_cases [OF assms, of grant status]) (auto simp: Let_def admits_def)

lemma retry_kept:
  assumes "control_invar uuid_hex s"
  shows "outbox_kept s (snd (retry_run uuid_hex rid owner now key h s))"
proof -
  have u: "outbox_kept s (s\<lparr>cs_uuids := cs_uuids s + 1\<rparr>)" by (simp add: outbox_kept_same)
  have c: "outbox_kept s (snd (create_run_dispatch uuid_hex new tid owner (lit ''RETRY'') now (s\<lparr>cs_uuids := cs_uuids s + 1\<rparr>)))"
    for new tid
    by (rule outbox_kept_trans [OF u create_kept [OF control_invar_uuid [OF assms]]]) simp
  have d: "outbox_kept t (t\<lparr>cs_command_idempotency := d\<rparr>)" for t d by (simp add: outbox_kept_same)
  from retry_run_cases [of uuid_hex rid owner now key h s] show ?thesis
  proof (elim disjE exE)
    fix new tid d'
    assume "snd (retry_run uuid_hex rid owner now key h s) =
      (snd (create_run_dispatch uuid_hex new tid owner (lit ''RETRY'') now (s\<lparr>cs_uuids := cs_uuids s + 1\<rparr>)))
        \<lparr>cs_command_idempotency := d'\<rparr>"
    then show ?thesis by (simp only: outbox_kept_trans [OF c d])
  qed (simp_all only: c outbox_kept_same)
qed

lemma recovery_loop_kept:
  assumes "control_invar uuid_hex s" "\<forall>r \<in> set runs. dict_get (cs_runs s) (pr_run_id r) \<noteq> None"
  shows "outbox_kept s (snd (recovery_loop uuid_hex now grace limit runs created s))"
  using assms
proof (induction uuid_hex now grace limit runs created s rule: recovery_loop.induct)
  case (2 uuid_hex now grace limit run runs created s)
  let ?go = "int (length created) < limit \<and> needs_recovery now grace run
      \<and> \<not> (\<exists>m \<in> set (dict_values (cs_outbox s)). pending_recovery (pr_run_id run) m)"
  show ?case
  proof (cases ?go)
    case False
    with 2 show ?thesis by (auto simp: outbox_kept_same)
  next
    case True
    let ?v = "max_default 0 (map aggregate_version (filter (\<lambda>m. aggregate_id m = pr_run_id run) (dict_values (cs_outbox s)))) + 1"
    let ?mid = "outbox_uuid uuid_hex (cs_uuids s)"
    let ?m = "new_outbox ?mid (pr_run_id run) ?v (lit ''RECOVER'') now"
    let ?s = "s\<lparr>cs_uuids := cs_uuids s + 1, cs_outbox := dict_set ?mid ?m (cs_outbox s)\<rparr>"
    have fresh: "dict_get (cs_outbox s) ?mid = None"
      using 2(4) outbox_fresh by (simp add: control_invar_def)
    have a: "outbox_kept s ?s" by (rule outbox_kept_fresh [OF fresh]) simp
    have inv: "control_invar uuid_hex ?s"
      using True 2(4,5) by (intro recovery_message_invar) auto
    have b: "outbox_kept ?s (snd (recovery_loop uuid_hex now grace limit runs (created @ [?m]) ?s))"
      using 2(3) [OF _ _ _ refl refl refl inv] True 2(5) by (simp add: Let_def)
    from True have "recovery_loop uuid_hex now grace limit (run # runs) created s =
        recovery_loop uuid_hex now grace limit runs (created @ [?m]) ?s" by (simp add: Let_def)
    with outbox_kept_trans [OF a b] show ?thesis by simp
  qed
qed (simp add: outbox_kept_same)

lemma apply_control_kept:
  assumes "control_invar uuid_hex s"
  shows "outbox_kept s (apply_control uuid_hex c s)"
proof (cases c)
  case AdmitWaiting
  from admit_waiting_invar [OF assms] obtain ps s' where "admit_waiting_runs s = (Inr ps, s')" "admits s s'" by blast
  then show ?thesis by (simp add: AdmitWaiting outbox_kept_same admits_def)
next
  case (EnqueueRecoveries now grace limit)
  from recovery_loop_kept [OF assms stored_runs_known [OF assms]] show ?thesis
    by (simp add: EnqueueRecoveries enqueue_recoveries_def)
qed (simp_all add: create_kept [OF assms] claim_kept [OF assms] mark_published_kept [OF assms] mark_failed_kept [OF assms]
    retry_kept [OF assms] outbox_kept_same run_ops_outbox complete_outbox [OF assms])

lemma run_control_kept:
  assumes "control_invar uuid_hex s"
  shows "outbox_kept s (run_commands (apply_control uuid_hex) cs s)"
  using assms
proof (induction cs arbitrary: s)
  case (Cons c cs)
  from outbox_kept_trans [OF apply_control_kept [OF Cons.prems] Cons.IH [OF apply_control_invar [OF Cons.prems]]]
  show ?case by simp
qed (simp add: outbox_kept_same)

lemma published_not_claimed:
  assumes inv: "control_invar uuid_hex s" and m: "dict_get (cs_outbox s) k = Some m" "published_at m \<noteq> None"
    and c: "claim_outbox p now ttl limit s = (Inr ms, s')"
  shows "k \<notin> outbox_id ` set ms"
proof
  assume "k \<in> outbox_id ` set ms"
  have oi: "outbox_invar uuid_hex s" using inv by (simp add: control_invar_def)
  with c \<open>k \<in> outbox_id ` set ms\<close> obtain q where q: "q \<in> set (taken_messages now limit s)" "k = outbox_id q"
    by (auto simp: claim_outbox_closed [OF oi])
  from outbox_runs_known(2) [OF oi taken_messages_mem(1) [OF q(1)]] q m taken_messages_mem(2) [OF q(1)]
  show False by (simp add: claimable_def)
qed

section \<open>The publisher\<close>

definition published_message :: "time \<Rightarrow> OutboxMessage \<Rightarrow> OutboxMessage" where
  "published_message now m = m\<lparr>published_at := Some now, msg_lease_owner := None, msg_lease_expires_at := None\<rparr>"

definition failed_message :: "time \<Rightarrow> int \<Rightarrow> OutboxMessage \<Rightarrow> OutboxMessage" where
  "failed_message now max_attempts m =
     m\<lparr>om_attempts := om_attempts m + 1, available_at := now + seconds (min (2 ^ (om_attempts m + 1)) 300),
       quarantined_at := (if int (om_attempts m + 1) \<ge> max_attempts then Some now else None),
       msg_lease_owner := None, msg_lease_expires_at := None\<rparr>"

definition publish_outcome :: "(RunCommand \<Rightarrow> bool) \<Rightarrow> time \<Rightarrow> int \<Rightarrow> OutboxMessage \<Rightarrow> OutboxMessage" where
  "publish_outcome broker now max_attempts m =
     (if broker (om_command m) then published_message now m else failed_message now max_attempts m)"

lemma publish_outcome_id [simp]: "outbox_id (publish_outcome broker now n m) = outbox_id m"
  by (simp add: publish_outcome_def published_message_def failed_message_def)

lemma publish_loop_closed:
  assumes "distinct (map outbox_id ms)"
    and "\<forall>m \<in> set ms. dict_get (cs_outbox s) (outbox_id m) = Some m \<and> msg_lease_owner m = Some p"
  shows "publish_loop broker p now n ms k s =
     (Inr (k + int (length (filter (\<lambda>m. broker (om_command m)) ms))), put_all (map (publish_outcome broker now n) ms) s)"
  using assms
proof (induction ms arbitrary: k s)
  case (Cons m ms)
  let ?s = "s\<lparr>cs_outbox := dict_set (outbox_id m) (publish_outcome broker now n m) (cs_outbox s)\<rparr>"
  have m: "dict_get (cs_outbox s) (outbox_id m) = Some m" "msg_lease_owner m = Some p" using Cons.prems(2) by auto
  have rest: "\<forall>q \<in> set ms. dict_get (cs_outbox ?s) (outbox_id q) = Some q \<and> msg_lease_owner q = Some p"
    using Cons.prems by (auto simp: image_iff)
  have "distinct (map outbox_id ms)" using Cons.prems(1) by simp
  note IH = Cons.IH [OF this rest]
  show ?case
  proof (cases "broker (om_command m)")
    case True
    then have "mark_outbox_published (outbox_id m) p now s = (Inr True, ?s)"
      using m by (simp add: mark_outbox_published_def publish_outcome_def published_message_def)
    with True IH show ?thesis by simp
  next
    case False
    then have "mark_outbox_failed (outbox_id m) p now n s = (Inr True, ?s)"
      using m by (simp add: mark_outbox_failed_def Let_def publish_outcome_def failed_message_def)
    with False IH show ?thesis by simp
  qed
qed simp

lemma dict_get_put_all:
  "distinct (map outbox_id ms) \<Longrightarrow> dict_get (cs_outbox (put_all ms s)) k =
     (case find (\<lambda>m. outbox_id m = k) ms of None \<Rightarrow> dict_get (cs_outbox s) k | Some m \<Rightarrow> Some m)"
proof (induction ms arbitrary: s)
  case (Cons m ms)
  then have "find (\<lambda>q. outbox_id q = outbox_id m) ms = None"
    by (auto simp: find_None_iff image_iff)
  with Cons show ?case by (auto split: option.split)
qed simp

lemma find_distinct:
  "distinct (map key xs) \<Longrightarrow> x \<in> set xs \<Longrightarrow> find (\<lambda>y. key y = key x) xs = Some x"
  by (induction xs) auto

lemma find_map_key:
  assumes "\<And>x. key (f x) = key x"
  shows "find (\<lambda>y. key y = k) (map f xs) = map_option f (find (\<lambda>y. key y = k) xs)"
  by (induction xs) (simp_all add: assms)

lemma publish_once_closed:
  assumes "control_invar uuid_hex s"
  shows "\<exists>s'. publish_once broker p ttl n now limit s =
       (Inr (int (length (filter (\<lambda>m. broker (om_command m)) (taken_messages now limit s)))), s')
     \<and> cs_runs s' = cs_runs s
     \<and> (\<forall>k. dict_get (cs_outbox s') k =
          (case find (\<lambda>m. outbox_id m = k) (taken_messages now limit s) of
             None \<Rightarrow> dict_get (cs_outbox s) k
           | Some m \<Rightarrow> Some (publish_outcome broker now n (leased p now ttl m))))"
proof -
  let ?T = "taken_messages now limit s"
  let ?L = "map (leased p now ttl) ?T"
  let ?s = "put_all ?L s"
  have oi: "outbox_invar uuid_hex s" using assms by (simp add: control_invar_def)
  have d: "distinct (map outbox_id ?T)" by (rule distinct_taken [OF oi])
  have dl: "distinct (map outbox_id ?L)" using d by (simp add: comp_def)
  have held: "\<forall>m \<in> set ?L. dict_get (cs_outbox ?s) (outbox_id m) = Some m \<and> msg_lease_owner m = Some p"
  proof
    fix m assume m: "m \<in> set ?L"
    then show "dict_get (cs_outbox ?s) (outbox_id m) = Some m \<and> msg_lease_owner m = Some p"
      by (auto simp: dict_get_put_all [OF dl] find_distinct [OF dl m])
  qed
  have acc: "filter (\<lambda>m. broker (om_command m)) ?L = map (leased p now ttl) (filter (\<lambda>m. broker (om_command m)) ?T)"
    by (simp add: filter_map comp_def)
  have do: "distinct (map outbox_id (map (publish_outcome broker now n) ?L))" using d by (simp add: comp_def)
  have "publish_once broker p ttl n now limit s = publish_loop broker p now n ?L 0 ?s"
    by (simp add: publish_once_def claim_outbox_closed [OF oi])
  moreover have "publish_loop broker p now n ?L 0 ?s =
      (Inr (int (length (filter (\<lambda>m. broker (om_command m)) ?T))), put_all (map (publish_outcome broker now n) ?L) ?s)"
    using publish_loop_closed [OF dl held, of broker now n 0] by (simp add: acc del: map_map)
  moreover have "dict_get (cs_outbox (put_all (map (publish_outcome broker now n) ?L) ?s)) k =
      (case find (\<lambda>m. outbox_id m = k) ?T of None \<Rightarrow> dict_get (cs_outbox s) k
       | Some m \<Rightarrow> Some (publish_outcome broker now n (leased p now ttl m)))" for k
    unfolding dict_get_put_all [OF do] dict_get_put_all [OF dl]
    by (simp add: find_map_key [where key = outbox_id] del: map_map split: option.split)
  ultimately show ?thesis by simp
qed

section \<open>The executor\<close>

definition same_grant :: "LeaseGrant \<Rightarrow> LeaseGrant \<Rightarrow> bool" where
  "same_grant g g' \<longleftrightarrow> lg_run_id g' = lg_run_id g \<and> lg_worker_id g' = lg_worker_id g \<and> lg_fencing_token g' = lg_fencing_token g"

lemma ctx_heartbeat_keeps:
  assumes "control_invar uuid_hex s" "ctx_heartbeat now ctx s = (r, ctx', s')"
  shows "control_invar uuid_hex s'" "store_evolves s s'" "same_grant (ctx_grant ctx) (ctx_grant ctx')"
proof -
  have h: "s' = s \<or> s' = snd (heartbeat (ctx_grant ctx) now (ctx_lease_ttl ctx) s)"
    using assms(2) by (auto simp: ctx_heartbeat_def split: if_splits prod.splits sum.splits DispatchError.splits)
  then show "control_invar uuid_hex s'" "store_evolves s s'"
    using assms(1) heartbeat_invar heartbeat_evolves by auto
  show "same_grant (ctx_grant ctx) (ctx_grant ctx')"
    using assms(2)
    by (auto simp: same_grant_def ctx_heartbeat_def heartbeat_def
        split: if_splits prod.splits sum.splits DispatchError.splits option.splits)
qed

lemma during_handler_keeps:
  assumes "control_invar uuid_hex s" "during_handler uuid_hex acts ctx s = (ctx', s')"
  shows "control_invar uuid_hex s' \<and> store_evolves s s' \<and> same_grant (ctx_grant ctx) (ctx_grant ctx')"
  using assms
proof (induction acts arbitrary: ctx s)
  case (Cons a as)
  show ?case
  proof (cases a)
    case (Beat now)
    obtain r ctx1 s1 where beat: "ctx_heartbeat now ctx s = (r, ctx1, s1)" by (metis prod_cases3)
    note k = ctx_heartbeat_keeps [OF Cons.prems(1) beat]
    obtain ctx2 where c2: "during_handler uuid_hex as ctx2 s1 = (ctx', s')" "ctx_grant ctx2 = ctx_grant ctx1"
    proof (cases "\<exists>msg. r = Inl (DE_LostLease msg)")
      case True
      with Cons.prems(2) Beat beat that [of "mark_lost ctx1"] show ?thesis by (auto simp: mark_lost_def)
    next
      case False
      with Cons.prems(2) Beat beat that [of ctx1] show ?thesis
        by (cases r) (auto split: DispatchError.splits)
    qed
    from Cons.IH [OF k(1) c2(1)] c2(2) k(2,3) store_evolves_trans [OF k(2)] show ?thesis
      by (simp add: same_grant_def)
  next
    case (Meanwhile c)
    note inv = apply_control_invar [OF Cons.prems(1), of c]
    from Cons.IH [OF inv] Cons.prems(2) Meanwhile store_evolves_trans [OF apply_control_evolves [OF Cons.prems(1), of c]]
    show ?thesis by simp
  qed
qed (auto simp: same_grant_def)

lemma finish_run_stale:
  assumes "dict_get (cs_runs s) (lg_run_id g) = Some run" "lg_fencing_token g < fencing_token run"
    and "status \<in> TERMINAL_RUN_STATUSES"
  shows "finish_run consumer mid g status s = (Inl (DE_LostLease ''worker lease is no longer current''), s)"
  using stale_token_refused(2) [OF assms] by (simp add: finish_run_def)

lemma finish_run_current:
  assumes inv: "control_invar uuid_hex s" and r: "dict_get (cs_runs s) (lg_run_id g) = Some run"
    and held: "lease_owner run = Some (lg_worker_id g)" "fencing_token run = lg_fencing_token g"
    and st: "status \<in> TERMINAL_RUN_STATUSES"
  shows "\<exists>s'. finish_run consumer mid g status s = (Inr status, s') \<and> (consumer, mid) \<in> set (cs_inbox s')
    \<and> (\<exists>run'. dict_get (cs_runs s') (lg_run_id g) = Some run' \<and> pr_status run' = status
         \<and> lease_owner run' = None \<and> \<not> queue_slot_acquired run')"
proof -
  let ?run = "run\<lparr>pr_status := status, queue_slot_acquired := False, lease_owner := None, lease_expires_at := None\<rparr>"
  let ?s = "s\<lparr>cs_runs := dict_set (lg_run_id g) ?run (cs_runs s)\<rparr>"
  from complete_run_current [OF inv r held st] obtain s' where
    c: "complete_run g status s = (Inr ?run, s')" "admits ?s s'" "control_invar uuid_hex ?s"
    by (auto simp: Let_def)
  have "store_evolves ?s s'"
    using c(2,3) store_evolves_admits by (simp add: control_invar_def)
  then have "dict_get (cs_runs s') (lg_run_id g) = Some ?run"
    using st unfolding store_evolves_def evolves_def by (fastforce dest: spec [of _ "lg_run_id g"])
  with c(1) show ?thesis
    by (simp add: finish_run_def record_inbox_def)
qed

section \<open>Fencing tokens\<close>

definition run_token :: "ControlStore \<Rightarrow> pystr \<Rightarrow> nat option" where
  "run_token s k = map_option fencing_token (dict_get (cs_runs s) k)"

interpretation fencing: token_system "control_start uuid_hex" "apply_control uuid_hex" "control_invar uuid_hex" run_token
proof unfold_locales
  fix s k n c
  assume inv: "control_invar uuid_hex s" and n: "run_token s k = Some n"
  then obtain r where r: "dict_get (cs_runs s) k = Some r" "n = fencing_token r" by (auto simp: run_token_def)
  with apply_control_evolves [OF inv, of c] obtain r' where
    "dict_get (cs_runs (apply_control uuid_hex c s)) k = Some r'" "evolves r r'"
    unfolding store_evolves_def by blast
  with r show "\<exists>n'. run_token (apply_control uuid_hex c s) k = Some n' \<and> n \<le> n'"
    by (auto simp: run_token_def evolves_def)
qed

lemma acquire_run_token:
  assumes "acquire_run rid worker now ttl s = (Inr (Some g), s')"
  shows "run_token s' rid = Some (lg_fencing_token g)" "lg_run_id g = rid" "\<exists>n. run_token s rid = Some n \<and> n < lg_fencing_token g"
proof -
  from assms obtain run where "dict_get (cs_runs s) rid = Some run" "lg_run_id g = rid"
    "lg_fencing_token g = Suc (fencing_token run)" "run_token s' rid = Some (Suc (fencing_token run))"
    by (rule acquire_run_Some) (auto simp: run_token_def)
  then show "run_token s' rid = Some (lg_fencing_token g)" "lg_run_id g = rid" "\<exists>n. run_token s rid = Some n \<and> n < lg_fencing_token g"
    by (auto simp: run_token_def)
qed

lemma acquire_invar': "control_invar uuid_hex s \<Longrightarrow> acquire_run rid worker now ttl s = (r, s') \<Longrightarrow> control_invar uuid_hex s'"
  using acquire_invar [of uuid_hex s rid worker now ttl] by simp

lemma token_refused:
  assumes "run_token s (lg_run_id g) = Some n" "lg_fencing_token g < n"
  shows "heartbeat g now ttl s = (Inl (DE_LostLease ''worker lease is no longer current''), s)"
    and "status \<in> TERMINAL_RUN_STATUSES \<Longrightarrow> complete_run g status s = (Inl (DE_LostLease ''worker lease is no longer current''), s)"
  using assms stale_token_refused [of s g] by (auto simp: run_token_def)

section \<open>Properties\<close>

text \<open>
  Samples for the witnesses: identifiers drawn from a counter, a policy of one run in all and one
  per owner, and a store in which one run is queued and a second one waits.
\<close>

definition sample_uuid :: "nat \<Rightarrow> pystr" where
  "sample_uuid n = [n]"

definition sample_policy :: QueuePolicy where
  "sample_policy = \<lparr>max_global_runnable = 2, max_runnable_per_owner = 1\<rparr>"

definition sample_store :: ControlStore where
  "sample_store = run_commands (apply_control sample_uuid)
     [CreateRun (lit ''r1'') (lit ''t1'') (lit ''alice'') (lit ''START'') 0,
      CreateRun (lit ''r2'') (lit ''t1'') (lit ''alice'') (lit ''START'') 0] (empty_store sample_policy)"

lemma inj_sample_uuid: "inj sample_uuid"
  by (rule injI) (simp add: sample_uuid_def)

lemma sample_reachable:
  "reachable (control_start sample_uuid) (apply_control sample_uuid) (run_commands (apply_control sample_uuid) cs sample_store)"
proof -
  have "control_start sample_uuid (empty_store sample_policy)"
    by (simp add: control_start_def inj_sample_uuid empty_store_def sample_policy_def)
  then show ?thesis
    unfolding sample_store_def by (intro reachable_run reach_start)
qed

text \<open>
  C24. The admission limits hold in every reachable state: the runs that hold a slot and are queued
  or running never exceed the global limit, nor, for any owner, the limit per owner, whatever
  sequence of creations, claims, leases, completions, retries, cancellations and recoveries led
  there.
\<close>

theorem queue_limits:
  assumes "reachable (control_start uuid_hex) (apply_control uuid_hex) s"
  shows "int (length (runnable_runs s)) \<le> max_global_runnable (queue_policy s)
    \<and> int (length (filter (\<lambda>r. pr_owner_id r = owner) (runnable_runs s))) \<le> max_runnable_per_owner (queue_policy s)"
  using dispatch.invar_reachable [OF assms] by (simp add: control_invar_def runs_invar_def within_limits_def)

theorem queue_limits_witness:
  "length (runnable_runs sample_store) = 1 \<and> length (cs_runs sample_store) = 2
   \<and> int (length (filter (\<lambda>r. pr_owner_id r = lit ''alice'') (runnable_runs sample_store))) \<le> 1"
  using queue_limits [OF sample_reachable [of "[]"], of "lit ''alice''"] by (simp only: run_commands.simps) code_simp

text \<open>
  C25. A worker whose lease was taken over stays fenced off. If one worker acquired a run, then after
  any operations another acquisition of the run succeeded, then after any further operations the
  first grant can neither renew the lease nor complete the run: both raise \<open>LostLeaseError\<close> and
  leave the store as it was.
\<close>

theorem superseded_worker_fenced:
  assumes "reachable (control_start uuid_hex) (apply_control uuid_hex) s"
    and "acquire_run rid worker now ttl s = (Inr (Some g), s1)"
    and "acquire_run rid worker' now' ttl' (run_commands (apply_control uuid_hex) cs s1) = (Inr (Some g'), s2)"
    and "status \<in> TERMINAL_RUN_STATUSES"
  shows "heartbeat g time ttl (run_commands (apply_control uuid_hex) cs' s2)
       = (Inl (DE_LostLease ''worker lease is no longer current''), run_commands (apply_control uuid_hex) cs' s2)
    \<and> complete_run g status (run_commands (apply_control uuid_hex) cs' s2)
       = (Inl (DE_LostLease ''worker lease is no longer current''), run_commands (apply_control uuid_hex) cs' s2)"
proof -
  have inv1: "control_invar uuid_hex s1"
    using acquire_invar' [OF dispatch.invar_reachable [OF assms(1)] assms(2)] .
  note t1 = acquire_run_token [OF assms(2)] and t2 = acquire_run_token [OF assms(3)]
  have inv2: "control_invar uuid_hex s2"
    using acquire_invar' [OF dispatch.invar_run [OF inv1] assms(3)] .
  from fencing.token_run [OF inv1 t1(1), of cs] t2(3) have "lg_fencing_token g < lg_fencing_token g'" by auto
  moreover from fencing.token_run [OF inv2 t2(1), of cs'] obtain n where
    "run_token (run_commands (apply_control uuid_hex) cs' s2) rid = Some n" "lg_fencing_token g' \<le> n" by blast
  ultimately show ?thesis
    using token_refused [of _ g n] t1(2) assms(4) by simp
qed

theorem superseded_worker_fenced_witness:
  "\<exists>g g' s1 s2. acquire_run (lit ''r1'') (lit ''w1'') 0 60 sample_store = (Inr (Some g), s1)
     \<and> acquire_run (lit ''r1'') (lit ''w2'') 61 60 s1 = (Inr (Some g'), s2)
     \<and> complete_run g PR_SUCCEEDED s2 = (Inl (DE_LostLease ''worker lease is no longer current''), s2)"
proof -
  obtain g s1 where a: "acquire_run (lit ''r1'') (lit ''w1'') 0 60 sample_store = (Inr (Some g), s1)"
    "case acquire_run (lit ''r1'') (lit ''w2'') 61 60 s1 of (Inr (Some _), _) \<Rightarrow> True | _ \<Rightarrow> False"
  proof -
    have "case acquire_run (lit ''r1'') (lit ''w1'') 0 60 sample_store of
        (Inr (Some _), s1) \<Rightarrow> (case acquire_run (lit ''r1'') (lit ''w2'') 61 60 s1 of (Inr (Some _), _) \<Rightarrow> True | _ \<Rightarrow> False)
      | _ \<Rightarrow> False" by code_simp
    with that show thesis by (auto split: prod.splits sum.splits option.splits)
  qed
  then obtain g' s2 where b: "acquire_run (lit ''r1'') (lit ''w2'') 61 60 s1 = (Inr (Some g'), s2)"
    by (auto split: prod.splits sum.splits option.splits)
  from superseded_worker_fenced [OF sample_reachable [of "[]"], of "lit ''r1''" "lit ''w1''" 0 60 g s1 "lit ''w2''" 61 60 "[]" g' s2
      PR_SUCCEEDED 0 "[]"] a b show ?thesis
    by (auto simp: TERMINAL_RUN_STATUSES_def)
qed

text \<open>
  C26. A finished run is final: once its status is succeeded, failed or stopped, no sequence of
  operations changes any field of it.
\<close>

theorem finished_runs_final:
  assumes "reachable (control_start uuid_hex) (apply_control uuid_hex) s"
    and "dict_get (cs_runs s) rid = Some r" and "pr_status r \<in> TERMINAL_RUN_STATUSES"
  shows "dict_get (cs_runs (run_commands (apply_control uuid_hex) cs s)) rid = Some r"
  using run_control_run [OF dispatch.invar_reachable [OF assms(1)] assms(2)] assms(3)
  unfolding evolves_def by metis

definition sample_finished :: "ControlCommand list" where
  "sample_finished = [AcquireRun (lit ''r1'') (lit ''w1'') 0 60,
     CompleteRun \<lparr>lg_run_id = lit ''r1'', lg_worker_id = lit ''w1'', lg_fencing_token = 1, lg_expires_at = 60\<rparr> PR_SUCCEEDED]"

theorem finished_runs_final_witness:
  "\<exists>r. dict_get (cs_runs (run_commands (apply_control sample_uuid) sample_finished sample_store)) (lit ''r1'') = Some r
     \<and> pr_status r = PR_SUCCEEDED
     \<and> dict_get (cs_runs (run_commands (apply_control sample_uuid) [RequestCancellation (lit ''r1'') (lit ''alice'') 9]
          (run_commands (apply_control sample_uuid) sample_finished sample_store))) (lit ''r1'') = Some r"
proof -
  have "map_option pr_status (dict_get (cs_runs (run_commands (apply_control sample_uuid) sample_finished sample_store)) (lit ''r1''))
      = Some PR_SUCCEEDED" by code_simp
  then obtain r where r: "dict_get (cs_runs (run_commands (apply_control sample_uuid) sample_finished sample_store)) (lit ''r1'') = Some r"
    "pr_status r = PR_SUCCEEDED" by auto
  then have "pr_status r \<in> TERMINAL_RUN_STATUSES" by (simp add: TERMINAL_RUN_STATUSES_def)
  from finished_runs_final [OF sample_reachable r(1) this] r show ?thesis by blast
qed

lemma admit_loop_first:
  assumes "runs_invar s" "waiting_count s \<le> fuel" "\<not> admission_done s"
  shows "\<exists>run ps s'. admit_loop fuel promoted s = (Inr (promoted @ run\<lparr>pr_status := PR_QUEUED, queue_slot_acquired := True\<rparr> # ps), s')
     \<and> run \<in> set (waiting_candidates s) \<and> list_all (\<lambda>r. admission_rank s run \<le> admission_rank s r) (waiting_candidates s)"
proof -
  obtain keyed where keyed: "mapE (admission_key s) (waiting_candidates s) = Inr keyed"
    using admission_keys_known [OF assms(1)] by blast
  with assms(3) have "keyed \<noteq> []"
    using mapE_keyed [OF keyed] by (auto simp: admission_done_def)
  then obtain k run where least: "min_by fst keyed = Some (k, run)"
    by (cases "min_by fst keyed") auto
  note run = turn_chooses_least [OF keyed least]
  obtain fuel' where fuel: "fuel = Suc fuel'"
    using waiting_count_promote [OF assms(1) run(1)] assms(2) by (cases fuel) auto
  have "waiting_count (promote run s) \<le> fuel'"
    using waiting_count_promote [OF assms(1) run(1)] assms(2) fuel by simp
  from admit_loop_ends [OF promote_runs_invar [OF assms(1) run(1)] this,
      of "promoted @ [run\<lparr>pr_status := PR_QUEUED, queue_slot_acquired := True\<rparr>]"]
  obtain ps s' where "admit_loop fuel' (promoted @ [run\<lparr>pr_status := PR_QUEUED, queue_slot_acquired := True\<rparr>]) (promote run s)
      = (Inr ((promoted @ [run\<lparr>pr_status := PR_QUEUED, queue_slot_acquired := True\<rparr>]) @ ps), s')" by blast
  then have "admit_loop fuel promoted s
      = (Inr (promoted @ run\<lparr>pr_status := PR_QUEUED, queue_slot_acquired := True\<rparr> # ps), s')"
    using assms(3) keyed least by (simp add: fuel admission_done_def admit_loop.simps [of "Suc fuel'"])
  with run show ?thesis by (auto simp: list_all_iff)
qed

text \<open>
  C27. Admission ends, uses all capacity and is fair. From every reachable state the loop that
  promotes waiting runs returns; afterwards either the global limit is reached or no waiting run
  has an owner with room. The first run it promotes is one whose owner was admitted longest ago,
  and among these the one created first.
\<close>

theorem admission_ends_fair:
  assumes "reachable (control_start uuid_hex) (apply_control uuid_hex) s"
  shows "\<exists>promoted s'. admit_waiting_runs s = (Inr promoted, s')
    \<and> (max_global_runnable (queue_policy s') \<le> int (length (runnable_runs s'))
       \<or> filter (\<lambda>r. pr_status r = PR_WAITING_CAPACITY \<and> can_admit s' (pr_owner_id r)) (dict_values (cs_runs s')) = [])
    \<and> (case promoted of
         [] \<Rightarrow> s' = s
       | first # _ \<Rightarrow> list_all (\<lambda>r. admission_rank s first \<le> admission_rank s r) (waiting_candidates s))"
proof -
  have inv: "runs_invar s" using dispatch.invar_reachable [OF assms] by (simp add: control_invar_def)
  obtain ps s' where adm: "admit_waiting_runs s = (Inr ps, s')" "admission_done s'"
    using admit_waiting_ends [OF inv] by blast
  have "case ps of [] \<Rightarrow> s' = s | first # _ \<Rightarrow> list_all (\<lambda>r. admission_rank s first \<le> admission_rank s r) (waiting_candidates s)"
  proof (cases "admission_done s")
    case True
    then have "admit_waiting_runs s = (Inr [], s)"
      by (auto simp: admit_waiting_runs_def admission_done_def admit_loop.simps [of "length (cs_runs s)"])
    with adm show ?thesis by simp
  next
    case False
    from admit_loop_first [OF inv waiting_count_le this, of "[]"] adm(1) show ?thesis
      by (auto simp: admit_waiting_runs_def admission_rank_def)
  qed
  with adm show ?thesis by (auto simp: admission_done_def waiting_candidates_def)
qed

theorem admission_ends_fair_witness:
  "(\<exists>promoted s'. admit_waiting_runs sample_store = (Inr promoted, s'))
   \<and> length (filter (\<lambda>r. pr_status r = PR_WAITING_CAPACITY) (dict_values (cs_runs sample_store))) = 1"
proof -
  have "length (filter (\<lambda>r. pr_status r = PR_WAITING_CAPACITY) (dict_values (cs_runs sample_store))) = 1"
    by code_simp
  with admission_ends_fair [OF sample_reachable [of "[]"]] show ?thesis by auto
qed

text \<open>
  C28. Claiming hands out exactly the due work, to one publisher at a time. From every reachable
  state a claim returns, in order of availability and identifier, the first \<open>limit\<close> messages that
  are unpublished, not quarantined, due, not under an unexpired lease and whose run is queued; a
  second claim by any publisher before the lease ends shares no message with it.
\<close>

theorem claims_exclusive:
  assumes "reachable (control_start uuid_hex) (apply_control uuid_hex) s"
  shows "\<exists>ms s'. claim_outbox p now ttl limit s = (Inr ms, s')
    \<and> map outbox_id ms = map outbox_id (take (nat limit) (filter (\<lambda>m. published_at m = None \<and> quarantined_at m = None
         \<and> available_at m \<le> now \<and> (case msg_lease_expires_at m of None \<Rightarrow> True | Some t \<Rightarrow> t \<le> now)
         \<and> pr_status (run_of s m) = PR_QUEUED)
         (sort_key (\<lambda>m. (available_at m, outbox_id m)) (dict_values (cs_outbox s)))))
    \<and> (now' < now + ttl \<longrightarrow>
         (\<forall>ms' s''. claim_outbox p' now' ttl' limit' s' = (Inr ms', s'') \<longrightarrow> outbox_id ` set ms \<inter> outbox_id ` set ms' = {}))"
proof -
  have inv: "control_invar uuid_hex s" by (rule dispatch.invar_reachable [OF assms])
  then have oi: "outbox_invar uuid_hex s" by (simp add: control_invar_def)
  let ?T = "taken_messages now limit s"
  let ?s = "put_all (map (leased p now ttl) ?T) s"
  have d: "distinct (map outbox_id (map (leased p now ttl) ?T))" using distinct_taken [OF oi] by (simp add: comp_def)
  have cl: "claim_outbox p now ttl limit s = (Inr (map (leased p now ttl) ?T), ?s)"
    by (rule claim_outbox_closed [OF oi])
  have oi': "outbox_invar uuid_hex ?s"
    using claim_outbox_invar [OF inv, of p now ttl limit] by (simp add: cl control_invar_def)
  have disj: "outbox_id ` set (map (leased p now ttl) ?T) \<inter> outbox_id ` set ms' = {}"
    if before: "now' < now + ttl" and c: "claim_outbox p' now' ttl' limit' ?s = (Inr ms', s'')" for ms' s''
  proof (rule ccontr)
    assume "outbox_id ` set (map (leased p now ttl) ?T) \<inter> outbox_id ` set ms' \<noteq> {}"
    then obtain m m' where m: "m \<in> set (map (leased p now ttl) ?T)" "m' \<in> set ms'" "outbox_id m = outbox_id m'" by auto
    from c m(2) obtain q where q: "q \<in> set (taken_messages now' limit' ?s)" "outbox_id q = outbox_id m'"
      by (auto simp: claim_outbox_closed [OF oi'])
    have "dict_get (cs_outbox ?s) (outbox_id q) = Some q"
      by (rule outbox_runs_known(2) [OF oi' taken_messages_mem(1) [OF q(1)]])
    then have "q = m"
      using m(3) q(2) find_distinct [OF d m(1)] by (simp add: dict_get_put_all [OF d])
    then have "msg_lease_expires_at q = Some (now + ttl)" using m(1) by auto
    with taken_messages_mem(2) [OF q(1)] before show False by (simp add: claimable_def)
  qed
  have T: "?T = take (nat limit) (filter (\<lambda>m. published_at m = None \<and> quarantined_at m = None
         \<and> available_at m \<le> now \<and> (case msg_lease_expires_at m of None \<Rightarrow> True | Some t \<Rightarrow> t \<le> now)
         \<and> pr_status (run_of s m) = PR_QUEUED)
         (sort_key (\<lambda>m. (available_at m, outbox_id m)) (dict_values (cs_outbox s))))"
    unfolding taken_messages_def claim_order_def
    by (intro arg_cong [where f = "take (nat limit)"] filter_cong refl) (auto simp: claimable_def split: option.splits)
  show ?thesis
  proof (intro exI conjI impI allI)
    show "claim_outbox p now ttl limit s = (Inr (map (leased p now ttl) ?T), ?s)" by (rule cl)
  qed (simp_all add: T [symmetric] comp_def disj del: set_map)
qed

theorem claims_exclusive_witness:
  "\<exists>ms s'. claim_outbox (lit ''p'') 5 30 10 sample_store = (Inr ms, s') \<and> length ms = 1
     \<and> (\<forall>ms' s''. claim_outbox (lit ''q'') 6 30 10 s' = (Inr ms', s'') \<longrightarrow> outbox_id ` set ms \<inter> outbox_id ` set ms' = {})"
proof -
  have "case claim_outbox (lit ''p'') 5 30 10 sample_store of (Inr ms, s') \<Rightarrow> length ms = 1 | _ \<Rightarrow> False" by code_simp
  then show ?thesis
    using claims_exclusive [OF sample_reachable [of "[]"], of "lit ''p''" 5 30 10 6 "lit ''q''" 30 10]
    by (auto split: prod.splits sum.splits)
qed

text \<open>
  C29. A published message is never handed to a publisher again, and neither is a message that
  starts a run once that run is running, stopping or finished: after any operations no claim
  returns one. Recovery messages are not covered by the second half.
\<close>

theorem never_reclaimed:
  assumes "reachable (control_start uuid_hex) (apply_control uuid_hex) s"
    and "dict_get (cs_outbox s) mid = Some m"
    and "published_at m \<noteq> None \<or> rc_reason (om_command m) \<noteq> lit ''RECOVER'' \<and> (\<exists>r. dict_get (cs_runs s) (aggregate_id m) = Some r
           \<and> pr_status r \<in> {PR_RUNNING, PR_STOPPING, PR_SUCCEEDED, PR_FAILED, PR_STOPPED})"
    and "claim_outbox p now ttl limit (run_commands (apply_control uuid_hex) cs s) = (Inr ms, s')"
  shows "mid \<notin> outbox_id ` set ms"
proof -
  let ?s = "run_commands (apply_control uuid_hex) cs s"
  have inv: "control_invar uuid_hex s" by (rule dispatch.invar_reachable [OF assms(1)])
  have inv': "control_invar uuid_hex ?s" by (rule dispatch.invar_run [OF inv])
  from run_control_kept [OF inv, of cs] assms(2) obtain m' where m': "dict_get (cs_outbox ?s) mid = Some m'" "msg_kept m m'"
    unfolding outbox_kept_def by blast
  show ?thesis
  proof (cases "published_at m = None")
    case False
    with m' have "published_at m' \<noteq> None" by (auto simp: msg_kept_def)
    from published_not_claimed [OF inv' m'(1) this assms(4)] show ?thesis .
  next
    case True
    with assms(3) obtain r where r: "dict_get (cs_runs s) (aggregate_id m) = Some r" "started r"
      by (auto simp: started_def TERMINAL_RUN_STATUSES_def)
    obtain r' where r': "dict_get (cs_runs ?s) (aggregate_id m) = Some r'" "evolves r r'"
      by (rule run_control_run [OF inv r(1)])
    with r(2) have "started r'" by (simp add: evolves_def)
    note no = started_not_claimed [OF inv' r'(1) this assms(4)]
    show ?thesis
    proof
      assume "mid \<in> outbox_id ` set ms"
      have oi: "outbox_invar uuid_hex ?s" using inv' by (simp add: control_invar_def)
      from \<open>mid \<in> outbox_id ` set ms\<close> assms(4) obtain q where
        q: "q \<in> set (taken_messages now limit ?s)" "outbox_id q = mid" "leased p now ttl q \<in> set ms"
        by (auto simp: claim_outbox_closed [OF oi])
      from outbox_runs_known(2) [OF oi taken_messages_mem(1) [OF q(1)]] q(2) m' have "aggregate_id q = aggregate_id m"
        by (simp add: msg_kept_def)
      with no [OF q(3)] show False by simp
    qed
  qed
qed

definition sample_message :: pystr where
  "sample_message = outbox_uuid sample_uuid 0"

theorem never_reclaimed_witness:
  "\<exists>ms s'. claim_outbox (lit ''p'') 500 30 10 (run_commands (apply_control sample_uuid) [EnqueueRecoveries 400 10 10]
       (run_commands (apply_control sample_uuid) [AcquireRun (lit ''r1'') (lit ''w1'') 0 60] sample_store)) = (Inr ms, s')
     \<and> sample_message \<notin> outbox_id ` set ms"
proof -
  let ?s = "run_commands (apply_control sample_uuid) [AcquireRun (lit ''r1'') (lit ''w1'') 0 60] sample_store"
  let ?t = "run_commands (apply_control sample_uuid) [EnqueueRecoveries 400 10 10] ?s"
  have "case dict_get (cs_outbox ?s) sample_message of None \<Rightarrow> False
      | Some m \<Rightarrow> rc_reason (om_command m) \<noteq> lit ''RECOVER'' \<and> map_option pr_status (dict_get (cs_runs ?s) (aggregate_id m)) = Some PR_RUNNING" by code_simp
  then obtain m where m: "dict_get (cs_outbox ?s) sample_message = Some m" "rc_reason (om_command m) \<noteq> lit ''RECOVER''"
      "map_option pr_status (dict_get (cs_runs ?s) (aggregate_id m)) = Some PR_RUNNING"
    by (auto split: option.splits)
  have "case claim_outbox (lit ''p'') 500 30 10 ?t of (Inr ms, s') \<Rightarrow> True | _ \<Rightarrow> False" by code_simp
  then obtain ms s' where c: "claim_outbox (lit ''p'') 500 30 10 ?t = (Inr ms, s')" by (auto split: prod.splits sum.splits)
  from m(2,3) have "published_at m \<noteq> None \<or> rc_reason (om_command m) \<noteq> lit ''RECOVER'' \<and> (\<exists>r. dict_get (cs_runs ?s) (aggregate_id m) = Some r
      \<and> pr_status r \<in> {PR_RUNNING, PR_STOPPING, PR_SUCCEEDED, PR_FAILED, PR_STOPPED})" by auto
  from never_reclaimed [OF sample_reachable m(1) this c] c show ?thesis by blast
qed

text \<open>
  C30. One round of the publisher settles every message it took. It returns the number of messages
  the broker accepted; each accepted message is published at the current time; each refused one
  counts one more attempt, becomes available again after more than no time and at most 300 seconds,
  and is quarantined exactly when the attempts reach the maximum; neither is leased any more; every
  other message and every run is unchanged.
\<close>

theorem publish_once_settles:
  assumes "reachable (control_start uuid_hex) (apply_control uuid_hex) s"
  shows "\<exists>s'. publish_once broker p ttl max_attempts now limit s =
       (Inr (int (length (filter (\<lambda>m. broker (om_command m)) (taken_messages now limit s)))), s')
     \<and> cs_runs s' = cs_runs s
     \<and> (\<forall>k. dict_get (cs_outbox s') k =
          (case find (\<lambda>m. outbox_id m = k) (taken_messages now limit s) of
             None \<Rightarrow> dict_get (cs_outbox s) k
           | Some m \<Rightarrow> Some (publish_outcome broker now max_attempts (leased p now ttl m))))
     \<and> list_all (\<lambda>m. case publish_outcome broker now max_attempts (leased p now ttl m) of m' \<Rightarrow>
          msg_lease_owner m' = None
          \<and> (if broker (om_command m) then published_at m' = Some now
             else om_attempts m' = om_attempts m + 1 \<and> now < available_at m' \<and> available_at m' \<le> now + seconds 300
                \<and> (quarantined_at m' = Some now \<longleftrightarrow> int (om_attempts m') \<ge> max_attempts)))
         (taken_messages now limit s)"
proof -
  have inv: "control_invar uuid_hex s" by (rule dispatch.invar_reachable [OF assms])
  have "0 < min (2 ^ n) (300::int)" for n by simp
  then show ?thesis
    using publish_once_closed [OF inv, of broker p ttl max_attempts now limit]
    by (auto simp: list_all_iff publish_outcome_def published_message_def failed_message_def seconds_def)
qed

theorem publish_once_settles_witness:
  "\<exists>s'. publish_once (\<lambda>_. True) (lit ''p'') 30 8 5 10 sample_store = (Inr 1, s') \<and> cs_runs s' = cs_runs sample_store"
proof -
  have "int (length (filter (\<lambda>m. True) (taken_messages 5 10 sample_store))) = 1" by code_simp
  with publish_once_settles [OF sample_reachable [of "[]"], of "\<lambda>_. True" "lit ''p''" 30 8 5 10] show ?thesis
    by (simp del: filter_True) metis
qed

text \<open>
  C31. Recovery is not repeated: in every reachable state each run has at most one recovery message
  that is still unpublished or quarantined, every stored message names an existing run, and every
  run has a message.
\<close>

theorem one_pending_recovery:
  assumes "reachable (control_start uuid_hex) (apply_control uuid_hex) s"
  shows "length (filter (pending_recovery rid) (dict_values (cs_outbox s))) \<le> 1
    \<and> list_all (\<lambda>m. aggregate_id m \<in> set (dict_keys (cs_runs s))) (dict_values (cs_outbox s))
    \<and> list_all (\<lambda>k. k \<in> aggregate_id ` set (dict_values (cs_outbox s))) (dict_keys (cs_runs s))"
proof -
  have inv: "control_invar uuid_hex s" by (rule dispatch.invar_reachable [OF assms])
  then have oi: "outbox_invar uuid_hex s" by (simp add: control_invar_def)
  have has: "\<exists>m \<in> set (dict_values (cs_outbox s)). aggregate_id m = k" if "dict_get (cs_runs s) k \<noteq> None" for k
    using oi that unfolding outbox_invar_def by blast
  show ?thesis
  proof (intro conjI)
    show "length (filter (pending_recovery rid) (dict_values (cs_outbox s))) \<le> 1"
      using oi by (simp add: outbox_invar_def)
    show "list_all (\<lambda>m. aggregate_id m \<in> set (dict_keys (cs_runs s))) (dict_values (cs_outbox s))"
      unfolding list_all_iff dict_keys_iff using outbox_runs_known(1) [OF oi] by blast
    show "list_all (\<lambda>k. k \<in> aggregate_id ` set (dict_values (cs_outbox s))) (dict_keys (cs_runs s))"
      unfolding list_all_iff
    proof
      fix k assume "k \<in> set (dict_keys (cs_runs s))"
      with has [of k] show "k \<in> aggregate_id ` set (dict_values (cs_outbox s))" by (auto simp: dict_keys_iff)
    qed
  qed
qed

theorem one_pending_recovery_witness:
  "length (filter (pending_recovery (lit ''r1'')) (dict_values (cs_outbox
     (run_commands (apply_control sample_uuid) [AcquireRun (lit ''r1'') (lit ''w1'') 0 60, EnqueueRecoveries 400 10 10,
        EnqueueRecoveries 500 10 10] sample_store)))) = 1"
proof -
  let ?s = "run_commands (apply_control sample_uuid) [AcquireRun (lit ''r1'') (lit ''w1'') 0 60, EnqueueRecoveries 400 10 10,
        EnqueueRecoveries 500 10 10] sample_store"
  let ?n = "length (filter (pending_recovery (lit ''r1'')) (dict_values (cs_outbox ?s)))"
  have "1 \<le> ?n" by code_simp
  moreover have "?n \<le> 1" using one_pending_recovery [OF sample_reachable, of "lit ''r1''"] by blast
  ultimately show ?thesis by (rule antisym [rotated])
qed

text \<open>
  C32. An executor that lost its run changes nothing at the end. If the run was acquired by another
  worker while the handler ran, whatever else happened in that time and whether the handler
  returned or raised, executing ends in the state the handler left: the run is not completed and
  the message is not recorded. The call raises \<open>LostLeaseError\<close> or returns the run's status.
\<close>

theorem execute_superseded:
  assumes "reachable (control_start uuid_hex) (apply_control uuid_hex) s"
    and "rc_payload_version cmd = 1"
    and "acquire_run (rc_run_id cmd) worker now ttl s = (Inr (Some g), s1)"
    and "dict_get (cs_runs s1) (rc_run_id cmd) = Some run1" and "cancellation_requested_at run1 = None"
    and "during_handler uuid_hex acts \<lparr>ctx_grant = g, ctx_lease_ttl = ttl, ctx_lost_lease = False\<rparr> s1 = (ctx, s2)"
    and "dict_get (cs_runs s2) (rc_run_id cmd) = Some run2" and "fencing_token run2 \<noteq> lg_fencing_token g"
  shows "snd (execute uuid_hex worker consumer ttl acts raises cmd now s) = s2
    \<and> fst (execute uuid_hex worker consumer ttl acts raises cmd now s)
        \<in> {Inl (DE_LostLease ''worker lease is no longer current''), Inr (pr_status run2)}"
proof -
  have inv: "control_invar uuid_hex s" by (rule dispatch.invar_reachable [OF assms(1)])
  have inv1: "control_invar uuid_hex s1" by (rule acquire_invar' [OF inv assms(3)])
  note k = during_handler_keeps [OF inv1 assms(6)]
  from assms(3) obtain run where run: "dict_get (cs_runs s) (rc_run_id cmd) = Some run"
    "lg_run_id g = rc_run_id cmd" "lg_fencing_token g = fencing_token run1" "pr_status run \<notin> TERMINAL_RUN_STATUSES"
    by (rule acquire_run_Some) (use assms(4) in auto)
  from k assms(4,7) have "fencing_token run1 \<le> fencing_token run2"
    unfolding store_evolves_def evolves_def by fastforce
  with run(3) assms(8) have lt: "lg_fencing_token (ctx_grant ctx) < fencing_token run2"
    using k by (simp add: same_grant_def)
  have rid: "lg_run_id (ctx_grant ctx) = rc_run_id cmd" using k run(2) by (simp add: same_grant_def)
  have get: "dict_get (cs_runs s2) (lg_run_id (ctx_grant ctx)) = Some run2" using assms(7) rid by simp
  note stale = finish_run_stale [OF get lt]
  show ?thesis
    using assms(2-7) run(1,4) get rid stale
    by (auto simp: execute_def get_run_def status_of_def cancellation_requested_def TERMINAL_RUN_STATUSES_def)
qed

definition sample_command :: RunCommand where
  "sample_command = \<lparr>rc_message_id = sample_message, rc_payload_version = 1, rc_run_id = lit ''r1'', rc_reason = lit ''START''\<rparr>"

theorem execute_superseded_witness:
  "\<exists>s2 run2. snd (execute sample_uuid (lit ''w1'') (lit ''c'') 60 [Meanwhile (AcquireRun (lit ''r1'') (lit ''w2'') 61 60)] False sample_command 0 sample_store) = s2
     \<and> dict_get (cs_runs s2) (lit ''r1'') = Some run2 \<and> pr_status run2 = PR_RUNNING \<and> lease_owner run2 = Some (lit ''w2'')"
proof -
  let ?acts = "[Meanwhile (AcquireRun (lit ''r1'') (lit ''w2'') 61 60)]"
  have ev: "case acquire_run (lit ''r1'') (lit ''w1'') 0 60 sample_store of
      (Inr (Some g), s1) \<Rightarrow>
        (case dict_get (cs_runs s1) (lit ''r1'') of None \<Rightarrow> False
         | Some run1 \<Rightarrow> cancellation_requested_at run1 = None
             \<and> (case during_handler sample_uuid ?acts \<lparr>ctx_grant = g, ctx_lease_ttl = 60, ctx_lost_lease = False\<rparr> s1 of
                  (ctx, s2) \<Rightarrow> (case dict_get (cs_runs s2) (lit ''r1'') of None \<Rightarrow> False
                     | Some run2 \<Rightarrow> fencing_token run2 \<noteq> lg_fencing_token g \<and> pr_status run2 = PR_RUNNING
                         \<and> lease_owner run2 = Some (lit ''w2''))))
    | _ \<Rightarrow> False" by code_simp
  then obtain g s1 run1 ctx s2 run2 where h: "acquire_run (lit ''r1'') (lit ''w1'') 0 60 sample_store = (Inr (Some g), s1)"
    "dict_get (cs_runs s1) (lit ''r1'') = Some run1" "cancellation_requested_at run1 = None"
    "during_handler sample_uuid ?acts \<lparr>ctx_grant = g, ctx_lease_ttl = 60, ctx_lost_lease = False\<rparr> s1 = (ctx, s2)"
    "dict_get (cs_runs s2) (lit ''r1'') = Some run2" "fencing_token run2 \<noteq> lg_fencing_token g"
    "pr_status run2 = PR_RUNNING" "lease_owner run2 = Some (lit ''w2'')"
    by (auto dest!: case_evaluated simp del: during_handler.simps)
  have cmd: "rc_payload_version sample_command = 1" "rc_run_id sample_command = lit ''r1''"
    by (simp_all add: sample_command_def)
  from execute_superseded [OF sample_reachable [of "[]"] cmd(1), unfolded cmd(2) run_commands.simps, OF h(1-6)] h(5,7,8)
  show ?thesis by blast
qed

text \<open>
  C33. An executor that still holds its run settles it. If at the end of the handler the run carries
  the executor's token and lease and no heartbeat failed, executing returns the status failed when
  the handler raised, stopped when a cancellation was requested meanwhile, and succeeded otherwise;
  the run has that status, no lease and no slot, and the message is in the inbox.
\<close>

theorem execute_settles:
  assumes "reachable (control_start uuid_hex) (apply_control uuid_hex) s"
    and "rc_payload_version cmd = 1"
    and "acquire_run (rc_run_id cmd) worker now ttl s = (Inr (Some g), s1)"
    and "dict_get (cs_runs s1) (rc_run_id cmd) = Some run1" and "cancellation_requested_at run1 = None"
    and "during_handler uuid_hex acts \<lparr>ctx_grant = g, ctx_lease_ttl = ttl, ctx_lost_lease = False\<rparr> s1 = (ctx, s2)"
    and "\<not> ctx_lost_lease ctx"
    and "dict_get (cs_runs s2) (rc_run_id cmd) = Some run2" and "fencing_token run2 = lg_fencing_token g"
    and "lease_owner run2 = Some worker"
  shows "\<exists>status s'. execute uuid_hex worker consumer ttl acts raises cmd now s = (Inr status, s')
    \<and> status = (if raises then PR_FAILED else if cancellation_requested_at run2 \<noteq> None then PR_STOPPED else PR_SUCCEEDED)
    \<and> (consumer, rc_message_id cmd) \<in> set (cs_inbox s')
    \<and> (\<exists>r. dict_get (cs_runs s') (rc_run_id cmd) = Some r \<and> pr_status r = status \<and> lease_owner r = None \<and> \<not> queue_slot_acquired r)"
proof -
  have inv: "control_invar uuid_hex s" by (rule dispatch.invar_reachable [OF assms(1)])
  have inv1: "control_invar uuid_hex s1" by (rule acquire_invar' [OF inv assms(3)])
  note k = during_handler_keeps [OF inv1 assms(6)]
  from assms(3) obtain run where run: "dict_get (cs_runs s) (rc_run_id cmd) = Some run"
    "lg_run_id g = rc_run_id cmd" "lg_worker_id g = worker" "pr_status run \<notin> TERMINAL_RUN_STATUSES"
    by (rule acquire_run_Some) auto
  let ?g = "ctx_grant ctx"
  have g: "lg_run_id ?g = rc_run_id cmd" "lg_worker_id ?g = worker" "lg_fencing_token ?g = lg_fencing_token g"
    using k run(2,3) by (simp_all add: same_grant_def)
  let ?st = "if raises then PR_FAILED else if cancellation_requested_at run2 \<noteq> None then PR_STOPPED else PR_SUCCEEDED"
  have st: "?st \<in> TERMINAL_RUN_STATUSES" by (simp add: TERMINAL_RUN_STATUSES_def)
  have get: "dict_get (cs_runs s2) (lg_run_id ?g) = Some run2" using assms(8) g by simp
  have fin: "\<exists>s'. finish_run consumer (rc_message_id cmd) ?g ?st s2 = (Inr ?st, s') \<and> (consumer, rc_message_id cmd) \<in> set (cs_inbox s')
    \<and> (\<exists>run'. dict_get (cs_runs s') (lg_run_id ?g) = Some run' \<and> pr_status run' = ?st \<and> lease_owner run' = None \<and> \<not> queue_slot_acquired run')"
    by (rule finish_run_current [OF conjunct1 [OF k] get _ _ st]) (use g assms(9,10) in auto)
  have "execute uuid_hex worker consumer ttl acts raises cmd now s = finish_run consumer (rc_message_id cmd) ?g ?st s2"
    using assms(2-8) run(1,4) get g(1)
    by (auto simp: execute_def get_run_def cancellation_requested_def)
  with fin g(1) show ?thesis by auto
qed

theorem execute_settles_witness:
  "\<exists>s'. execute sample_uuid (lit ''w1'') (lit ''c'') 60 [Beat 30, Meanwhile (RequestCancellation (lit ''r1'') (lit ''alice'') 40)] False sample_command 0 sample_store
     = (Inr PR_STOPPED, s')"
proof -
  let ?acts = "[Beat 30, Meanwhile (RequestCancellation (lit ''r1'') (lit ''alice'') 40)]"
  have ev: "case acquire_run (lit ''r1'') (lit ''w1'') 0 60 sample_store of
      (Inr (Some g), s1) \<Rightarrow>
        (case dict_get (cs_runs s1) (lit ''r1'') of None \<Rightarrow> False
         | Some run1 \<Rightarrow> cancellation_requested_at run1 = None
             \<and> (case during_handler sample_uuid ?acts \<lparr>ctx_grant = g, ctx_lease_ttl = 60, ctx_lost_lease = False\<rparr> s1 of
                  (ctx, s2) \<Rightarrow> \<not> ctx_lost_lease ctx \<and> (case dict_get (cs_runs s2) (lit ''r1'') of None \<Rightarrow> False
                     | Some run2 \<Rightarrow> fencing_token run2 = lg_fencing_token g \<and> lease_owner run2 = Some (lit ''w1'')
                         \<and> cancellation_requested_at run2 = Some 40)))
    | _ \<Rightarrow> False" by code_simp
  then obtain g s1 run1 ctx s2 run2 where h: "acquire_run (lit ''r1'') (lit ''w1'') 0 60 sample_store = (Inr (Some g), s1)"
    "dict_get (cs_runs s1) (lit ''r1'') = Some run1" "cancellation_requested_at run1 = None"
    "during_handler sample_uuid ?acts \<lparr>ctx_grant = g, ctx_lease_ttl = 60, ctx_lost_lease = False\<rparr> s1 = (ctx, s2)"
    "\<not> ctx_lost_lease ctx" "dict_get (cs_runs s2) (lit ''r1'') = Some run2" "fencing_token run2 = lg_fencing_token g"
    "lease_owner run2 = Some (lit ''w1'')" "cancellation_requested_at run2 = Some 40"
    by (auto dest!: case_evaluated simp del: during_handler.simps)
  have cmd: "rc_payload_version sample_command = 1" "rc_run_id sample_command = lit ''r1''"
    by (simp_all add: sample_command_def)
  from execute_settles [OF sample_reachable [of "[]"] cmd(1), unfolded cmd(2) run_commands.simps, OF h(1-8), of "lit ''c''" False] h(9)
  show ?thesis by auto
qed

end
