(* ===== verification/Py_Text.thy ===== *)
theory Py_Text
  imports Py_Prelude
begin

text \<open>
  Operations of Python strings that the export formatter and the historical index use:
  \<open>str.splitlines\<close>, \<open>str.split\<close> with a separator, \<open>str.replace\<close>,
  \<open>str.rfind\<close> of a character, and the parts of their behaviour the proofs need.
\<close>

section \<open>Lines\<close>

definition is_break :: "nat \<Rightarrow> bool" where
  "is_break c \<longleftrightarrow> (10 \<le> c \<and> c \<le> 13) \<or> (28 \<le> c \<and> c \<le> 30) \<or> c = 133 \<or> c = 8232 \<or> c = 8233"

text \<open>The rest after a line break; a carriage return takes a following line feed with it.\<close>

definition after_break :: "pystr \<Rightarrow> pystr" where
  "after_break s = (case s of [] \<Rightarrow> [] | c # r \<Rightarrow> if c = 13 \<and> starts_with r [10] then tl r else r)"

lemma after_break_length: "s \<noteq> [] \<Longrightarrow> length (after_break s) < length s"
  by (cases s) (auto simp: after_break_def)

function splitlines :: "pystr \<Rightarrow> pystr list" where
  "splitlines s =
     (if s = [] then []
      else takeWhile (\<lambda>c. \<not> is_break c) s # splitlines (after_break (dropWhile (\<lambda>c. \<not> is_break c) s)))"
  by pat_completeness auto
termination
proof (relation "measure length", goal_cases)
  case (2 s)
  obtain r where r: "dropWhile (\<lambda>c. \<not> is_break c) s = r" by blast
  have "length r \<le> length s" using length_dropWhile_le [of "\<lambda>c. \<not> is_break c" s] unfolding r .
  with 2 after_break_length [of r] have "length (after_break r) < length s" by (cases "r = []") (auto simp: after_break_def)
  then show ?case unfolding r by simp
qed simp

declare splitlines.simps [simp del]

lemma splitlines_Nil [simp]: "splitlines [] = []"
  by (subst splitlines.simps) simp

text \<open>\<open>str.split(sep)\<close> for a separator of one character.\<close>

fun split_on :: "nat \<Rightarrow> pystr \<Rightarrow> pystr list" where
  "split_on sep [] = [[]]"
| "split_on sep (c # s) =
     (if c = sep then [] # split_on sep s
      else (case split_on sep s of [] \<Rightarrow> [[c]] | w # ws \<Rightarrow> (c # w) # ws))"

text \<open>\<open>str.replace(old, new)\<close> for a non-empty text \<open>old\<close>.\<close>

function replace_str :: "pystr \<Rightarrow> pystr \<Rightarrow> pystr \<Rightarrow> pystr" where
  "replace_str old new s =
     (case s of
        [] \<Rightarrow> []
      | c # r \<Rightarrow>
          if old \<noteq> [] \<and> starts_with s old then new @ replace_str old new (drop (length old) s)
          else c # replace_str old new r)"
  by pat_completeness auto
termination by (relation "measure (\<lambda>(old, new, s). length s)") auto

declare replace_str.simps [simp del]

definition rstrip :: "pystr \<Rightarrow> pystr" where
  "rstrip s = rev (dropWhile is_space (rev s))"

text \<open>\<open>str.strip(chars)\<close> for one character.\<close>

definition strip_char :: "nat \<Rightarrow> pystr \<Rightarrow> pystr" where
  "strip_char c s = rev (dropWhile (\<lambda>x. x = c) (rev (dropWhile (\<lambda>x. x = c) s)))"

text \<open>\<open>s.rfind(c, 0, n)\<close>: the last position of a character before \<open>n\<close>, if there is one.\<close>

definition rfind :: "nat \<Rightarrow> nat \<Rightarrow> pystr \<Rightarrow> nat option" where
  "rfind c n s = last_option (filter (\<lambda>i. s ! i = c) [0..<min n (length s)])"

lemma rfind_bound: "rfind c n s = Some i \<Longrightarrow> i < n \<and> i < length s \<and> s ! i = c"
  using last_option_SomeD [of "filter (\<lambda>i. s ! i = c) [0..<min n (length s)]" i] by (auto simp: rfind_def)

section \<open>White space\<close>

lemma strip_not_space: "strip s \<noteq> [] \<Longrightarrow> \<not> is_space (hd (strip s)) \<and> \<not> is_space (last (strip s))"
proof -
  let ?d = "dropWhile is_space s"
  assume "strip s \<noteq> []"
  then have r: "dropWhile is_space (rev ?d) \<noteq> []" by (simp add: strip_def)
  then have last: "\<not> is_space (hd (dropWhile is_space (rev ?d)))" by (rule hd_dropWhile)
  have "?d \<noteq> []" using r by (metis dropWhile.simps(1) rev.simps(1))
  then have hd: "\<not> is_space (hd ?d)" by (rule hd_dropWhile)
  have "hd (strip s) = hd ?d"
  proof -
    obtain p where "rev ?d = p @ dropWhile is_space (rev ?d)" using takeWhile_dropWhile_id by metis
    then have "?d = strip s @ rev p" by (metis rev_append rev_rev_ident strip_def)
    with \<open>strip s \<noteq> []\<close> show ?thesis by (metis hd_append2)
  qed
  with hd last show ?thesis by (simp add: strip_def last_rev r)
qed

text \<open>The characters of a text that are not white space: what splitting and stripping keep.\<close>

definition visible :: "pystr \<Rightarrow> pystr" where
  "visible s = filter (\<lambda>c. \<not> is_space c) s"

lemma visible_simps [simp]: "visible [] = []" "visible (s @ t) = visible s @ visible t"
  by (simp_all add: visible_def)

lemma visible_dropWhile: "visible (dropWhile is_space s) = visible s"
  by (induction s) (simp_all add: visible_def)

lemma visible_rev: "visible (rev s) = rev (visible s)"
  by (simp add: visible_def rev_filter)

lemma visible_strip [simp]: "visible (strip s) = visible s"
  by (simp add: strip_def visible_dropWhile visible_rev)

lemma visible_blank: "strip s = [] \<longleftrightarrow> visible s = []"
proof
  assume "strip s = []"
  then show "visible s = []" by (metis visible_simps(1) visible_strip)
next
  assume "visible s = []"
  then have "\<forall>c \<in> set s. is_space c" by (simp add: visible_def filter_empty_conv)
  then have "dropWhile is_space s = []" by (simp add: dropWhile_eq_Nil_conv)
  then show "strip s = []" unfolding strip_def by (simp only: rev.simps dropWhile.simps)
qed

end
