(* ===== verification/Json_Loads.thy ===== *)
theory Json_Loads
  imports Py_Json
begin

text \<open>
  \<open>json.loads\<close>, as the agent worker uses it to read the artifacts it wrote with
  \<open>canonical_json\<close>: the scanner of the standard library on code points, and the round trip of
  the canonical serialisation. The value of a float literal, \<open>float(text)\<close>, is the parameter
  \<open>fo\<close>.
\<close>

section \<open>The scanner\<close>

definition is_ws :: "nat \<Rightarrow> bool" where
  "is_ws c \<longleftrightarrow> c = 32 \<or> c = 9 \<or> c = 10 \<or> c = 13"

definition skip_ws :: "pystr \<Rightarrow> pystr" where
  "skip_ws s = dropWhile is_ws s"

definition hex_value :: "nat \<Rightarrow> nat option" where
  "hex_value c =
     (if 48 \<le> c \<and> c \<le> 57 then Some (c - 48) else if 97 \<le> c \<and> c \<le> 102 then Some (c - 87)
      else if 65 \<le> c \<and> c \<le> 70 then Some (c - 55) else None)"

text \<open>\<open>_decode_uXXXX\<close>: four hexadecimal digits.\<close>

fun hex4 :: "pystr \<Rightarrow> (nat \<times> pystr) option" where
  "hex4 (a # b # c # d # r) =
     (case (hex_value a, hex_value b, hex_value c, hex_value d) of
        (Some a, Some b, Some c, Some d) \<Rightarrow> Some (((a * 16 + b) * 16 + c) * 16 + d, r)
      | _ \<Rightarrow> None)"
| "hex4 _ = None"

definition unescape :: "nat \<Rightarrow> nat option" where
  "unescape c =
     (if c = 34 \<or> c = 92 \<or> c = 47 then Some c else if c = 98 then Some 8 else if c = 102 then Some 12
      else if c = 110 then Some 10 else if c = 114 then Some 13 else if c = 116 then Some 9 else None)"

text \<open>The second half of a surrogate pair, if it follows.\<close>

definition join_surrogates :: "nat \<Rightarrow> pystr \<Rightarrow> nat \<times> pystr" where
  "join_surrogates u s =
     (if 55296 \<le> u \<and> u \<le> 56319 \<and> starts_with s [92, 117] then
        (case hex4 (drop 2 s) of
           Some (v, r) \<Rightarrow> if 56320 \<le> v \<and> v \<le> 57343 then (65536 + (u - 55296) * 1024 + (v - 56320), r) else (u, s)
         | None \<Rightarrow> (u, s))
      else (u, s))"

lemma hex4_length: "hex4 s = Some (u, r) \<Longrightarrow> length r < length s"
  by (induction s rule: hex4.induct) (auto split: option.splits)

lemma join_surrogates_length: "length (snd (join_surrogates u s)) \<le> length s"
  by (auto simp: join_surrogates_def dest!: hex4_length split: option.split)

text \<open>\<open>scanstring\<close> after the opening quote.\<close>

function scan_string :: "pystr \<Rightarrow> (pystr \<times> pystr) option" where
  "scan_string [] = None"
| "scan_string (c # s) =
     (if c = 34 then Some ([], s)
      else if c = 92 then
        (case s of
           [] \<Rightarrow> None
         | e # es \<Rightarrow>
             if e = 117 then
               (case hex4 es of
                  None \<Rightarrow> None
                | Some (u, r) \<Rightarrow>
                    map_option (apfst (Cons (fst (join_surrogates u r)))) (scan_string (snd (join_surrogates u r))))
             else
               (case unescape e of
                  None \<Rightarrow> None
                | Some x \<Rightarrow> map_option (apfst (Cons x)) (scan_string es)))
      else if c < 32 then None
      else map_option (apfst (Cons c)) (scan_string s))"
  by pat_completeness auto
termination
proof (relation "measure length", goal_cases)
  case (2 c s e es p u r)
  have "length r < length es" using hex4_length 2 by blast
  with 2 join_surrogates_length [of u r] show ?case by simp
qed simp_all

declare scan_string.simps [simp del]

text \<open>The number pattern of the scanner: integer part, fraction, exponent.\<close>

definition munch :: "pystr \<Rightarrow> pystr \<times> pystr" where
  "munch s = (takeWhile is_digit s, dropWhile is_digit s)"

definition match_int :: "pystr \<Rightarrow> (pystr \<times> pystr) option" where
  "match_int s =
     (case s of
        [] \<Rightarrow> None
      | d # ds \<Rightarrow> if d = 48 then Some ([48], ds) else if is_digit d then Some (d # fst (munch ds), snd (munch ds)) else None)"

definition match_signed :: "pystr \<Rightarrow> (pystr \<times> pystr) option" where
  "match_signed s =
     (case s of
        [] \<Rightarrow> None
      | c # r \<Rightarrow> if c = 45 then map_option (apfst (Cons 45)) (match_int r) else match_int s)"

definition match_frac :: "pystr \<Rightarrow> pystr \<times> pystr" where
  "match_frac s =
     (case s of
        c # d # ds \<Rightarrow> if c = 46 \<and> is_digit d then (c # d # fst (munch ds), snd (munch ds)) else ([], s)
      | _ \<Rightarrow> ([], s))"

definition match_exp :: "pystr \<Rightarrow> pystr \<times> pystr" where
  "match_exp s =
     (case s of
        c # d # ds \<Rightarrow>
          if c \<noteq> 101 \<and> c \<noteq> 69 then ([], s)
          else if is_digit d then (c # d # fst (munch ds), snd (munch ds))
          else if d = 43 \<or> d = 45 then
            (case ds of
               f # fs \<Rightarrow> if is_digit f then (c # d # f # fst (munch fs), snd (munch fs)) else ([], s)
             | [] \<Rightarrow> ([], s))
          else ([], s)
      | _ \<Rightarrow> ([], s))"

definition digits_value :: "pystr \<Rightarrow> int" where
  "digits_value ds = foldl (\<lambda>acc d. acc * 10 + (int d - 48)) 0 ds"

definition int_value :: "pystr \<Rightarrow> int" where
  "int_value s = (case s of c # r \<Rightarrow> if c = 45 then - digits_value r else digits_value s | [] \<Rightarrow> 0)"

definition scan_number :: "(pystr \<Rightarrow> json) \<Rightarrow> pystr \<Rightarrow> (json \<times> pystr) option" where
  "scan_number fo s =
     (case match_signed s of
        None \<Rightarrow> None
      | Some (ip, r) \<Rightarrow>
          (let (fp, r) = match_frac r; (ep, r) = match_exp r in
           if fp = [] \<and> ep = [] then Some (JInt (int_value ip), r) else Some (fo (ip @ fp @ ep), r)))"

definition scan_constant :: "(pystr \<Rightarrow> json) \<Rightarrow> pystr \<Rightarrow> (json \<times> pystr) option" where
  "scan_constant fo s =
     (if starts_with s (lit ''NaN'') then Some (fo (lit ''NaN''), drop 3 s)
      else if starts_with s (lit ''Infinity'') then Some (fo (lit ''Infinity''), drop 8 s)
      else if starts_with s (lit ''-Infinity'') then Some (fo (lit ''-Infinity''), drop 9 s)
      else None)"

definition scan_atom :: "(pystr \<Rightarrow> json) \<Rightarrow> pystr \<Rightarrow> (json \<times> pystr) option" where
  "scan_atom fo s =
     (if starts_with s (lit ''null'') then Some (JNull, drop 4 s)
      else if starts_with s (lit ''true'') then Some (JBool True, drop 4 s)
      else if starts_with s (lit ''false'') then Some (JBool False, drop 5 s)
      else (case scan_number fo s of Some r \<Rightarrow> Some r | None \<Rightarrow> scan_constant fo s))"

text \<open>
  \<open>scan_once\<close> with the loops of \<open>JSONArray\<close> and \<open>JSONObject\<close>. Every second
  call consumes a character, so twice the length of the text is enough fuel. A repeated key of an object keeps its
  last value.
\<close>

fun scan_once :: "(pystr \<Rightarrow> json) \<Rightarrow> nat \<Rightarrow> pystr \<Rightarrow> (json \<times> pystr) option"
  and scan_items :: "(pystr \<Rightarrow> json) \<Rightarrow> nat \<Rightarrow> pystr \<Rightarrow> (json list \<times> pystr) option"
  and scan_members :: "(pystr \<Rightarrow> json) \<Rightarrow> nat \<Rightarrow> pystr \<Rightarrow> ((pystr \<times> json) list \<times> pystr) option" where
  "scan_once fo 0 s = None"
| "scan_once fo (Suc n) s =
     (case s of
        [] \<Rightarrow> None
      | c # r \<Rightarrow>
          if c = 34 then map_option (apfst JStr) (scan_string r)
          else if c = 123 then
            (if starts_with (skip_ws r) [125] then Some (JObj [], tl (skip_ws r))
             else map_option (apfst (\<lambda>kvs. JObj (dict_comp fst snd kvs))) (scan_members fo n (skip_ws r)))
          else if c = 91 then
            (if starts_with (skip_ws r) [93] then Some (JList [], tl (skip_ws r))
             else map_option (apfst JList) (scan_items fo n (skip_ws r)))
          else scan_atom fo s)"
| "scan_items fo 0 s = None"
| "scan_items fo (Suc n) s =
     (case scan_once fo n s of
        None \<Rightarrow> None
      | Some (v, r) \<Rightarrow>
          (case skip_ws r of
             [] \<Rightarrow> None
           | c # r \<Rightarrow>
               if c = 93 then Some ([v], r)
               else if c = 44 then map_option (apfst (Cons v)) (scan_items fo n (skip_ws r))
               else None))"
| "scan_members fo 0 s = None"
| "scan_members fo (Suc n) s =
     (if \<not> starts_with s [34] then None
      else
        (case scan_string (tl s) of
           None \<Rightarrow> None
         | Some (k, r) \<Rightarrow>
             if \<not> starts_with (skip_ws r) [58] then None
             else
               (case scan_once fo n (skip_ws (tl (skip_ws r))) of
                  None \<Rightarrow> None
                | Some (v, r) \<Rightarrow>
                    (case skip_ws r of
                       [] \<Rightarrow> None
                     | c # r \<Rightarrow>
                         if c = 125 then Some ([(k, v)], r)
                         else if c = 44 then map_option (apfst (Cons (k, v))) (scan_members fo n (skip_ws r))
                         else None))))"

text \<open>A text with a byte order mark, or with anything after the value, is refused.\<close>

definition json_loads :: "(pystr \<Rightarrow> json) \<Rightarrow> pystr \<Rightarrow> json option" where
  "json_loads fo s =
     (if starts_with s [65279] then None
      else
        (case scan_once fo (2 * length s) (skip_ws s) of
           None \<Rightarrow> None
         | Some (v, r) \<Rightarrow> if skip_ws r = [] then Some v else None))"

section \<open>Values that can be written and read\<close>

text \<open>
  What a Python value is that \<open>json.dumps\<close> writes: a dictionary has distinct keys, and the
  \<open>repr\<close> of a float is the text of a number whose value is that float.
\<close>

function json_wf :: "(pystr \<Rightarrow> json) \<Rightarrow> json \<Rightarrow> bool" where
  "json_wf fo JNull = True"
| "json_wf fo (JBool b) = True"
| "json_wf fo (JInt i) = True"
| "json_wf fo (JFloat r s) = (scan_number fo s = Some (JFloat r s, []))"
| "json_wf fo (JStr s) = True"
| "json_wf fo (JList xs) = list_all (json_wf fo) xs"
| "json_wf fo (JObj kvs) = (distinct (map fst kvs) \<and> list_all (\<lambda>kv. json_wf fo (snd kv)) kvs)"
  by pat_completeness auto
termination
proof (relation "measure (\<lambda>(fo, v). size v)", goal_cases)
  case (2 fo xs x)
  then show ?case by (simp add: less_Suc_eq_le size_list_estimation')
next
  case (3 fo kvs kv)
  then show ?case using size_json_obj by simp
qed simp

text \<open>The value with the keys of its dictionaries in order; as Python values the two are equal.\<close>

primrec normal :: "json \<Rightarrow> json" where
  "normal JNull = JNull"
| "normal (JBool b) = JBool b"
| "normal (JInt i) = JInt i"
| "normal (JFloat r s) = JFloat r s"
| "normal (JStr s) = JStr s"
| "normal (JList xs) = JList (map normal xs)"
| "normal (JObj kvs) = JObj (sort_key fst (map (map_prod id normal) kvs))"

section \<open>Numbers\<close>

definition stops :: "pystr \<Rightarrow> bool" where
  "stops rest \<longleftrightarrow> (case rest of [] \<Rightarrow> True | c # _ \<Rightarrow> \<not> is_digit c \<and> c \<noteq> 46 \<and> c \<noteq> 101 \<and> c \<noteq> 69)"

lemma munch_append: "stops rest \<Longrightarrow> munch (s @ rest) = (fst (munch s), snd (munch s) @ rest)"
  by (induction s) (auto simp: munch_def stops_def split: list.splits)

lemma munch_Nil [simp]: "munch [] = ([], [])"
  by (simp add: munch_def)

lemma munch_stops: "stops rest \<Longrightarrow> munch rest = ([], rest)"
  by (auto simp: munch_def stops_def split: list.splits)

lemma match_exp_append:
  assumes "match_exp s = (e, [])" "stops rest"
  shows "match_exp (s @ rest) = (e, rest)"
proof -
  consider "s = []" | c where "s = [c]" | c d where "s = [c, d]" | c d f fs where "s = c # d # f # fs" by (metis list.exhaust)
  then show ?thesis
  proof cases
    case 1
    with assms show ?thesis by (auto simp: match_exp_def stops_def split: list.split)
  next
    case 2
    with assms show ?thesis by (simp add: match_exp_def)
  next
    case 3
    with assms show ?thesis by (auto simp: match_exp_def munch_stops split: if_splits)
  next
    case 4
    with assms(1) munch_append [OF assms(2), of fs] munch_append [OF assms(2), of "f # fs"] show ?thesis
      by (auto simp: match_exp_def split: if_splits)
  qed
qed

lemma match_frac_append:
  assumes "match_frac s = (f, q)" "match_exp q = (e, [])" "stops rest"
  shows "match_frac (s @ rest) = (f, q @ rest)"
proof -
  consider "s = []" | c where "s = [c]" | c d ds where "s = c # d # ds" by (metis list.exhaust)
  then show ?thesis
  proof cases
    case 1
    with assms show ?thesis by (auto simp: match_frac_def stops_def split: list.split)
  next
    case 2
    then have "q = [c]" using assms(1) by (simp add: match_frac_def)
    with assms(2) show ?thesis by (simp add: match_exp_def)
  next
    case 3
    with assms(1,3) show ?thesis by (auto simp: match_frac_def munch_append split: if_splits)
  qed
qed

lemma match_int_append: "match_int s = Some (i, q) \<Longrightarrow> stops rest \<Longrightarrow> match_int (s @ rest) = Some (i, q @ rest)"
  by (auto simp: match_int_def munch_append split: list.splits if_splits)

lemma match_signed_append: "match_signed s = Some (i, q) \<Longrightarrow> stops rest \<Longrightarrow> match_signed (s @ rest) = Some (i, q @ rest)"
  using match_int_append [of s i q rest] by (fastforce simp: match_signed_def match_int_append split: list.splits if_splits)

lemma scan_number_append:
  assumes "scan_number fo s = Some (v, [])" "stops rest"
  shows "scan_number fo (s @ rest) = Some (v, rest)"
proof -
  obtain i q where i: "match_signed s = Some (i, q)" using assms(1) by (auto simp: scan_number_def split: option.splits)
  obtain f q' where f: "match_frac q = (f, q')" by fastforce
  obtain e q'' where e: "match_exp q' = (e, q'')" by fastforce
  have "q'' = []" using assms(1) i f e by (auto simp: scan_number_def split: if_splits)
  with assms i f e match_signed_append [OF i assms(2)] match_frac_append [OF f _ assms(2)] match_exp_append [OF _ assms(2)] show ?thesis
    by (auto simp: scan_number_def split: if_splits)
qed

lemma show_nat_digits: "list_all is_digit (show_nat n)"
  by (induction n rule: show_nat.induct) (subst show_nat.simps, auto simp: is_digit_def [abs_def])

lemma show_nat_not_Nil [simp]: "show_nat n \<noteq> []"
  by (subst show_nat.simps) simp

lemma show_nat_hd: "hd (show_nat n) = 48 \<longleftrightarrow> n = 0"
proof (induction n rule: show_nat.induct)
  case (1 n)
  then show ?case by (subst show_nat.simps) (auto simp: hd_append)
qed

lemma digits_value_show_nat: "digits_value (show_nat n) = int n"
proof (induction n rule: show_nat.induct)
  case (1 n)
  show ?case
  proof (cases "n < 10")
    case True
    then show ?thesis by (subst show_nat.simps) (simp add: digits_value_def)
  next
    case False
    then have "digits_value (show_nat n) = int (n div 10) * 10 + int (n mod 10)"
      using 1 by (subst show_nat.simps) (simp add: digits_value_def)
    then show ?thesis by presburger
  qed
qed

lemma match_int_show_nat: "match_int (show_nat n) = Some (show_nat n, [])"
proof -
  obtain d ds where d: "show_nat n = d # ds" by (meson show_nat_not_Nil list.exhaust)
  have ds: "is_digit d" "list_all is_digit ds" using show_nat_digits [of n] d by simp_all
  have "munch ds = (ds, [])" using ds(2) by (simp add: munch_def list_all_iff)
  moreover have "ds = []" if "d = 48"
  proof -
    have "n = 0" using show_nat_hd [of n] d that by simp
    then show ?thesis using d by (subst (asm) show_nat.simps) simp
  qed
  ultimately show ?thesis using d ds(1) by (auto simp: match_int_def)
qed

lemma scan_number_show_int: "scan_number fo (show_int i) = Some (JInt i, [])"
proof -
  have hd: "\<exists>d ds. show_nat n = d # ds \<and> d \<noteq> 45" for n
  proof -
    obtain d ds where d: "show_nat n = d # ds" by (meson show_nat_not_Nil list.exhaust)
    with show_nat_digits [of n] show ?thesis by (auto simp: is_digit_def)
  qed
  have "match_signed (show_int i) = Some (show_int i, [])"
    using hd [of "nat i"] by (auto simp: show_int_def match_signed_def match_int_show_nat split: list.split) (metis match_int_show_nat)+
  moreover have "int_value (show_int i) = i"
    using hd [of "nat i"] digits_value_show_nat [of "nat i"] digits_value_show_nat [of "nat (- i)"]
    by (auto simp: show_int_def int_value_def)
  ultimately show ?thesis by (simp add: scan_number_def match_frac_def match_exp_def)
qed

section \<open>Strings\<close>

lemma hex_value_digit: "n < 16 \<Longrightarrow> hex_value (hex_digit n) = Some n"
  by (simp add: hex_value_def hex_digit_def)

lemma scan_string_escape: "scan_string (json_escape c @ r) = map_option (apfst (Cons c)) (scan_string r)"
proof (cases "c < 32 \<and> c \<notin> {8, 9, 10, 12, 13}")
  case True
  have z: "hex_value 48 = Some 0" by (simp add: hex_value_def)
  have "c div 16 < 16" "c mod 16 < 16" using True by auto
  then have "hex4 (48 # 48 # hex_digit (c div 16) # hex_digit (c mod 16) # r) = Some (c, r)"
    by (simp add: hex_value_digit z)
  moreover have "join_surrogates c r = (c, r)" using True by (simp add: join_surrogates_def)
  ultimately show ?thesis using True by (simp add: json_escape_def scan_string.simps)
next
  case False
  then show ?thesis by (auto simp: json_escape_def scan_string.simps unescape_def)
qed

lemma scan_string_quoted: "scan_string (concat (map json_escape s) @ 34 # rest) = Some (s, rest)"
  by (induction s) (simp_all add: scan_string_escape, simp add: scan_string.simps)

section \<open>The round trip\<close>

definition follows :: "pystr \<Rightarrow> bool" where
  "follows rest \<longleftrightarrow> (case rest of [] \<Rightarrow> True | c # _ \<Rightarrow> c = 44 \<or> c = 93 \<or> c = 125)"

lemma follows_stops: "follows rest \<Longrightarrow> stops rest"
  by (auto simp: follows_def stops_def is_digit_def split: list.splits)

lemma follows_simps [simp]: "follows []" "follows (44 # r)" "follows (93 # r)" "follows (125 # r)"
  by (simp_all add: follows_def)

lemma skip_ws_simps [simp]: "skip_ws [] = []" "\<not> is_ws c \<Longrightarrow> skip_ws (c # r) = c # r"
  by (simp_all add: skip_ws_def)

lemma is_ws_simps [simp]: "\<not> is_ws 34" "\<not> is_ws 44" "\<not> is_ws 58" "\<not> is_ws 93" "\<not> is_ws 125"
  by (simp_all add: is_ws_def)

lemma scan_number_first:
  assumes "scan_number fo s = Some p"
  shows "\<exists>c r. s = c # r \<and> (is_digit c \<or> c = 45)"
proof -
  from assms have "match_signed s \<noteq> None" by (auto simp: scan_number_def split: option.splits)
  then show ?thesis by (auto simp: match_signed_def match_int_def is_digit_def split: list.splits if_splits)
qed

lemma scan_once_number:
  assumes "scan_number fo s = Some (v, [])" "follows rest"
  shows "scan_once fo (Suc n) (s @ rest) = Some (v, rest)"
proof -
  obtain c r where c: "s = c # r" "is_digit c \<or> c = 45" using scan_number_first [OF assms(1)] by blast
  have "scan_atom fo (s @ rest) = Some (v, rest)"
    using c scan_number_append [OF assms(1) follows_stops [OF assms(2)]] by (auto simp: scan_atom_def is_digit_def)
  with c show ?thesis by (auto simp: is_digit_def)
qed

abbreviation dumps :: "json \<Rightarrow> pystr" where
  "dumps \<equiv> json_dumps [44] [58]"

lemma dumps_first:
  assumes "json_wf fo v"
  shows "\<exists>c r. dumps v = c # r \<and> c < 128 \<and> \<not> is_ws c \<and> c \<noteq> 93 \<and> c \<noteq> 125"
proof (cases v)
  case (JInt i)
  then show ?thesis using scan_number_first [OF scan_number_show_int [of fo i]] by (auto simp: is_digit_def is_ws_def)
next
  case (JFloat r s)
  then show ?thesis using assms scan_number_first [of fo s] by (fastforce simp: is_digit_def is_ws_def)
qed (simp_all add: is_ws_def json_quote_def)

definition reads_back :: "(pystr \<Rightarrow> json) \<Rightarrow> json \<Rightarrow> bool" where
  "reads_back fo v \<longleftrightarrow> json_wf fo v
     \<and> (\<forall>n rest. follows rest \<and> 2 * length (dumps v) \<le> n \<longrightarrow> scan_once fo n (dumps v @ rest) = Some (normal v, rest))"

lemma reads_back_skip: "reads_back fo v \<Longrightarrow> skip_ws (dumps v @ rest) = dumps v @ rest \<and> \<not> starts_with (dumps v @ rest) [93]"
  unfolding reads_back_def using dumps_first by fastforce

lemma reads_backD: "reads_back fo v \<Longrightarrow> follows rest \<Longrightarrow> 2 * length (dumps v) \<le> n \<Longrightarrow> scan_once fo n (dumps v @ rest) = Some (normal v, rest)"
  by (simp add: reads_back_def)

lemma join_skip:
  assumes "xs \<noteq> []" "reads_back fo (hd xs)"
  shows "skip_ws (join_str [44] (map dumps xs) @ rest) = join_str [44] (map dumps xs) @ rest
    \<and> \<not> starts_with (join_str [44] (map dumps xs) @ rest) [93]"
proof -
  obtain x ys where "xs = x # ys" using assms(1) by (cases xs) auto
  with assms(2) reads_back_skip [of fo x] show ?thesis by (cases ys) (auto simp: append_assoc)
qed

lemma scan_items_join:
  "\<lbrakk>xs \<noteq> []; list_all (reads_back fo) xs; 2 * length (join_str [44] (map dumps xs)) < n\<rbrakk>
   \<Longrightarrow> scan_items fo n (join_str [44] (map dumps xs) @ 93 # rest) = Some (map normal xs, rest)"
proof (induction xs arbitrary: n rule: list_nonempty_induct)
  case (single x)
  then obtain m where "n = Suc m" "2 * length (dumps x) \<le> m" by (cases n) auto
  with single reads_backD [of fo x "93 # rest" m] show ?case by simp
next
  case (cons x xs)
  let ?j = "join_str [44] (map dumps xs)"
  have j: "join_str [44] (map dumps (x # xs)) = dumps x @ 44 # ?j" using cons(1) by (cases xs) simp_all
  obtain m where m: "n = Suc m" "2 * length (dumps x) \<le> m" "2 * length ?j < m" using cons.prems(2) unfolding j by (cases n) auto
  have "skip_ws (?j @ 93 # rest) = ?j @ 93 # rest" using join_skip [OF cons(1), of fo "93 # rest"] cons(1) cons.prems(1) by (cases xs) auto
  with cons m reads_backD [of fo x "44 # ?j @ 93 # rest" m] show ?case unfolding j by simp
qed

abbreviation member :: "pystr \<times> json \<Rightarrow> pystr" where
  "member kv \<equiv> json_quote (fst kv) @ [58] @ dumps (snd kv)"

lemma scan_member:
  assumes "reads_back fo v" "follows rest" "2 * length (dumps v) \<le> n"
  shows "scan_members fo (Suc n) (member (k, v) @ rest) =
     (case skip_ws rest of
        [] \<Rightarrow> None
      | c # r \<Rightarrow>
          if c = 125 then Some ([(k, normal v)], r)
          else if c = 44 then map_option (apfst (Cons (k, normal v))) (scan_members fo n (skip_ws r)) else None)"
  using reads_back_skip [OF assms(1), of rest] reads_backD [OF assms] scan_string_quoted [of k "58 # dumps v @ rest"]
  by (simp add: json_quote_def)

lemma member_skip: "skip_ws (member kv @ rest) = member kv @ rest"
  by (simp add: json_quote_def)

lemma scan_members_join:
  "\<lbrakk>kvs \<noteq> []; list_all (\<lambda>kv. reads_back fo (snd kv)) kvs; 2 * length (join_str [44] (map member kvs)) < n\<rbrakk>
   \<Longrightarrow> scan_members fo n (join_str [44] (map member kvs) @ 125 # rest) = Some (map (map_prod id normal) kvs, rest)"
proof (induction kvs arbitrary: n rule: list_nonempty_induct)
  case (single kv)
  obtain k v where kv: "kv = (k, v)" by fastforce
  obtain m where "n = Suc m" "2 * length (dumps v) \<le> m" using single kv by (cases n) auto
  with single scan_member [of fo v "125 # rest" m k] kv show ?case by simp
next
  case (cons kv kvs)
  let ?j = "join_str [44] (map member kvs)"
  obtain k v where kv: "kv = (k, v)" by fastforce
  have j: "join_str [44] (map member (kv # kvs)) = member kv @ 44 # ?j" using cons(1) by (cases kvs) simp_all
  obtain m where m: "n = Suc m" "2 * length (dumps v) \<le> m" "2 * length ?j < m" using cons.prems(2) kv unfolding j by (cases n) auto
  have "skip_ws (?j @ 125 # rest) = ?j @ 125 # rest"
  proof -
    obtain kv' kvs' where "kvs = kv' # kvs'" using cons(1) by (cases kvs) auto
    then show ?thesis by (cases kvs') (simp_all add: json_quote_def)
  qed
  with cons m scan_member [of fo v "44 # ?j @ 125 # rest" m k] kv show ?case unfolding j by simp
qed

lemma dict_comp_distinct: "distinct (map fst kvs) \<Longrightarrow> dict_comp fst snd kvs = kvs"
proof (induction kvs rule: rev_induct)
  case (snoc kv kvs)
  have new: "fst kv \<notin> fst ` set kvs \<Longrightarrow> dict_set (fst kv) (snd kv) kvs = kvs @ [kv]" by (induction kvs) auto
  from snoc show ?case by (simp add: dict_comp_snoc new)
qed (simp add: dict_comp_def)

lemma sort_key_map_prod: "sort_key fst (map (map_prod id f) kvs) = map (map_prod id f) (sort_key fst kvs)"
proof (induction kvs)
  case (Cons kv kvs)
  have "insort_key fst (map_prod id f x) (map (map_prod id f) l) = map (map_prod id f) (insort_key fst x l)" for x l
    by (induction l) auto
  with Cons show ?case by (simp add: id_def)
qed simp

lemma reads_back_atom:
  assumes "json_wf fo v" "\<And>n rest. follows rest \<Longrightarrow> scan_once fo (Suc n) (dumps v @ rest) = Some (normal v, rest)"
  shows "reads_back fo v"
proof -
  have "scan_once fo n (dumps v @ rest) = Some (normal v, rest)" if "follows rest" "2 * length (dumps v) \<le> n" for n rest
  proof -
    have "n \<noteq> 0" using dumps_first [OF assms(1)] that(2) by auto
    with assms(2) [OF that(1), of "n - 1"] show ?thesis by simp
  qed
  with assms(1) show ?thesis by (simp add: reads_back_def)
qed

lemma wf_reads_back: "json_wf fo v \<Longrightarrow> reads_back fo v"
proof (induction fo v rule: json_wf.induct)
  case (6 fo xs)
  then have rb: "list_all (reads_back fo) xs" by (simp add: list_all_iff)
  have "scan_once fo n (dumps (JList xs) @ rest) = Some (normal (JList xs), rest)"
    if n: "2 * length (dumps (JList xs)) \<le> n" for n rest
  proof (cases "xs = []")
    case True
    with n show ?thesis by (cases n) simp_all
  next
    case False
    obtain m where "n = Suc m" "2 * length (join_str [44] (map dumps xs)) < m" using n by (cases n) auto
    moreover have "reads_back fo (hd xs)" using rb False by (simp add: list_all_iff)
    ultimately show ?thesis using scan_items_join [OF False rb, of m rest] join_skip [OF False, of fo "93 # rest"] by simp
  qed
  with 6 show ?case by (simp add: reads_back_def)
next
  case (7 fo kvs)
  let ?kvs = "sort_key fst kvs"
  have rb: "list_all (\<lambda>kv. reads_back fo (snd kv)) ?kvs" using 7 by (simp add: list_all_iff)
  have "distinct (map fst ?kvs)" using 7(2) by (simp add: distinct_map)
  then have dc: "dict_comp fst snd (map (map_prod id normal) ?kvs) = map (map_prod id normal) ?kvs"
    by (intro dict_comp_distinct) (simp add: comp_def)
  have "scan_once fo n (dumps (JObj kvs) @ rest) = Some (normal (JObj kvs), rest)"
    if n: "2 * length (dumps (JObj kvs)) \<le> n" for n rest
  proof (cases "?kvs = []")
    case True
    then have "kvs = []" by (metis length_0_conv length_sort)
    with n show ?thesis by (cases n) simp_all
  next
    case False
    obtain m where m: "n = Suc m" "2 * length (join_str [44] (map member ?kvs)) < m" using n by (cases n) auto
    obtain r where "join_str [44] (map member ?kvs) @ 125 # rest = 34 # r"
    proof -
      obtain kv' kvs' where "?kvs = kv' # kvs'" using False by (cases ?kvs) auto
      with that show thesis by (cases kvs') (simp_all add: json_quote_def)
    qed
    with m scan_members_join [OF False rb m(2), of rest] show ?thesis by (simp add: sort_key_map_prod dc)
  qed
  with 7 show ?case by (simp add: reads_back_def)
next
  case (3 fo i)
  show ?case by (rule reads_back_atom) (simp_all add: scan_once_number [OF scan_number_show_int] del: scan_once.simps)
next
  case (4 fo r s)
  then show ?case by (intro reads_back_atom) (simp_all add: scan_once_number del: scan_once.simps)
qed (auto intro!: reads_back_atom simp: scan_atom_def json_quote_def scan_string_quoted)

lemma loads_canonical: "json_wf fo v \<Longrightarrow> json_loads fo (canonical_json v) = Some (normal v)"
proof -
  assume wf: "json_wf fo v"
  obtain c r where c: "dumps v = c # r" "c < 128" "\<not> is_ws c" using dumps_first [OF wf] by blast
  from reads_backD [OF wf_reads_back [OF wf], of "[]" "2 * length (dumps v)"] c show ?thesis
    by (simp add: json_loads_def canonical_json_def)
qed

lemma dumps_normal: "dumps (normal v) = dumps v"
proof (induction v)
  case (JObj kvs)
  have "sort_key fst (sort_key fst kvs) = sort_key fst kvs" by (simp add: sort_key_id_if_sorted)
  with JObj show ?case by (auto simp: sort_key_map_prod snds.simps intro!: arg_cong [where f = "join_str [44]"])
qed (simp_all cong: map_cong)

end
