(* ===== verification/Run_Ledger.thy ===== *)
theory Run_Ledger
  imports Py_Logic Py_Text Json_Loads
begin

text \<open>
  The execution ledger of an agent run (\<^verbatim>\<open>agent-python/agent/runtime\<close>): budgets, keys
  and hashes of operations, outcome artifacts, and the protocol by which every remote call is
  reserved, started and finished in a durable log.

  A world holds the memory of the process (entries, artifacts, budget), the durable log the sink
  writes to, and the remote calls made so far. The sink may fail: \<open>le_sink\<close> tells for the
  \<open>n\<close>-th event whether it was stored, lost, or stored although the sink raised.
\<close>

section \<open>Budgets\<close>

record BudgetVector =
  bv_model_attempts :: int
  bv_tool_calls :: int
  bv_iterations :: int
  bv_replans :: int
  bv_supplements :: int
  bv_quality_repairs :: int
  bv_input_tokens :: int
  bv_output_tokens :: int
  bv_elapsed_ms :: int

text \<open>\<open>RunBudget\<close> is the message with the limits, whose fields carry the prefix \<open>max_\<close>.\<close>

type_synonym RunBudget = BudgetVector

text \<open>The class attribute \<open>_LIMITS\<close>: a field, its limit, and the reason of the error, in order.\<close>

definition budget_limits :: "((BudgetVector \<Rightarrow> int) \<times> string) list" where
  "budget_limits =
     [(bv_model_attempts, ''MODEL_ATTEMPT_BUDGET_EXHAUSTED''),
      (bv_tool_calls, ''TOOL_CALL_BUDGET_EXHAUSTED''),
      (bv_iterations, ''ITERATION_BUDGET_EXHAUSTED''),
      (bv_replans, ''REPLAN_BUDGET_EXHAUSTED''),
      (bv_supplements, ''SUPPLEMENT_BUDGET_EXHAUSTED''),
      (bv_quality_repairs, ''QUALITY_REPAIR_BUDGET_EXHAUSTED''),
      (bv_input_tokens, ''INPUT_TOKEN_BUDGET_EXHAUSTED''),
      (bv_output_tokens, ''OUTPUT_TOKEN_BUDGET_EXHAUSTED''),
      (bv_elapsed_ms, ''ELAPSED_TIME_BUDGET_EXHAUSTED'')]"

definition zip_budget :: "(int \<Rightarrow> int \<Rightarrow> int) \<Rightarrow> BudgetVector \<Rightarrow> BudgetVector \<Rightarrow> BudgetVector" where
  "zip_budget f a b =
     \<lparr>bv_model_attempts = f (bv_model_attempts a) (bv_model_attempts b),
      bv_tool_calls = f (bv_tool_calls a) (bv_tool_calls b),
      bv_iterations = f (bv_iterations a) (bv_iterations b),
      bv_replans = f (bv_replans a) (bv_replans b),
      bv_supplements = f (bv_supplements a) (bv_supplements b),
      bv_quality_repairs = f (bv_quality_repairs a) (bv_quality_repairs b),
      bv_input_tokens = f (bv_input_tokens a) (bv_input_tokens b),
      bv_output_tokens = f (bv_output_tokens a) (bv_output_tokens b),
      bv_elapsed_ms = f (bv_elapsed_ms a) (bv_elapsed_ms b)\<rparr>"

definition no_budget :: BudgetVector where
  "no_budget =
     \<lparr>bv_model_attempts = 0, bv_tool_calls = 0, bv_iterations = 0, bv_replans = 0, bv_supplements = 0,
      bv_quality_repairs = 0, bv_input_tokens = 0, bv_output_tokens = 0, bv_elapsed_ms = 0\<rparr>"

definition add_budget :: "BudgetVector \<Rightarrow> BudgetVector \<Rightarrow> BudgetVector" where
  "add_budget a b = zip_budget (+) a b"

definition subtract_floor :: "BudgetVector \<Rightarrow> BudgetVector \<Rightarrow> BudgetVector" where
  "subtract_floor a b = zip_budget (\<lambda>x y. max 0 (x - y)) a b"

record BudgetState =
  bs_limits :: RunBudget
  bs_consumed :: BudgetVector
  bs_reserved :: BudgetVector

text \<open>What the runtime raises; \<open>CallError\<close> is what a callback raised.\<close>

datatype lexn =
    LedgerValueError string
  | LedgerAttributeError
  | BudgetExhausted string
  | LedgerOutcomeUnknown pystr
  | LedgerTerminalFailure pystr bool
  | CallError exn
  | SinkError

fun check_budget :: "((BudgetVector \<Rightarrow> int) \<times> string) list \<Rightarrow> RunBudget \<Rightarrow> BudgetVector \<Rightarrow> BudgetVector \<Rightarrow> lexn + unit" where
  "check_budget [] limits used requested = Inr ()"
| "check_budget ((get, reason) # rest) limits used requested =
     (if get requested < 0 then Inl (LedgerValueError ''budget deltas must be non-negative'')
      else if get used + get requested > get limits then Inl (BudgetExhausted reason)
      else check_budget rest limits used requested)"

definition reserve_budget :: "BudgetVector \<Rightarrow> BudgetState \<Rightarrow> lexn + BudgetState" where
  "reserve_budget delta b =
     bindE (check_budget budget_limits (bs_limits b) (add_budget (bs_consumed b) (bs_reserved b)) delta) (\<lambda>_.
       Inr (b\<lparr>bs_reserved := add_budget (bs_reserved b) delta\<rparr>))"

definition finish_budget :: "BudgetVector \<Rightarrow> BudgetVector \<Rightarrow> BudgetState \<Rightarrow> BudgetState" where
  "finish_budget reservation consumption b =
     b\<lparr>bs_reserved := subtract_floor (bs_reserved b) reservation,
       bs_consumed := add_budget (bs_consumed b) consumption\<rparr>"

definition consume_budget :: "BudgetVector \<Rightarrow> BudgetState \<Rightarrow> lexn + BudgetState" where
  "consume_budget delta b =
     bindE (check_budget budget_limits (bs_limits b) (bs_consumed b) delta) (\<lambda>_.
       Inr (b\<lparr>bs_consumed := add_budget (bs_consumed b) delta\<rparr>))"

definition remaining_budget :: "BudgetState \<Rightarrow> BudgetVector" where
  "remaining_budget b = zip_budget (\<lambda>l u. max 0 (l - u)) (bs_limits b) (add_budget (bs_consumed b) (bs_reserved b))"

section \<open>Keys, hashes and artifacts\<close>

text \<open>
  The environment: the hex digest of the UTF-8 bytes of a text, the value of a float literal, and
  what becomes of the events the sink is given.
\<close>

datatype SinkOutcome = Stored | Lost | StoredButFailed

record LedgerEnv =
  le_sha256 :: "pystr \<Rightarrow> pystr"
  le_float :: "pystr \<Rightarrow> json"
  le_sink :: "nat \<Rightarrow> SinkOutcome"

text \<open>\<open>str.encode("utf-8")\<close> refuses surrogates; bytes stand for the text they encode.\<close>

definition utf8 :: "pystr \<Rightarrow> lexn + pystr" where
  "utf8 s = (if \<exists>c \<in> set s. 55296 \<le> c \<and> c \<le> 57343 then Inl (LedgerValueError ''surrogates not allowed'') else Inr s)"

definition canonical_bytes :: "json \<Rightarrow> lexn + pystr" where
  "canonical_bytes v = utf8 (canonical_json v)"

definition tagged_sha256 :: "LedgerEnv \<Rightarrow> pystr \<Rightarrow> pystr" where
  "tagged_sha256 env b = lit ''sha256:'' @ le_sha256 env b"

definition request_hash :: "LedgerEnv \<Rightarrow> json \<Rightarrow> lexn + pystr" where
  "request_hash env v = bindE (canonical_bytes v) (\<lambda>b. Inr (tagged_sha256 env b))"

definition outcome_artifact_key :: "LedgerEnv \<Rightarrow> pystr \<Rightarrow> pystr \<Rightarrow> pystr" where
  "outcome_artifact_key env run_id operation_key =
     run_id @ lit '':ledger:'' @ take 32 (le_sha256 env operation_key) @ lit '':outcome''"

text \<open>The pattern of an operation key: a name and two to eight segments, separated by colons.\<close>

definition key_char :: "nat \<Rightarrow> bool" where
  "key_char c \<longleftrightarrow> (97 \<le> c \<and> c \<le> 122) \<or> (48 \<le> c \<and> c \<le> 57) \<or> c = 95 \<or> c = 46 \<or> c = 45"

definition safe_operation_key :: "pystr \<Rightarrow> bool" where
  "safe_operation_key s =
     (case split_on 58 s of
        (c # w) # segments \<Rightarrow>
          97 \<le> c \<and> c \<le> 122 \<and> list_all key_char w
          \<and> 2 \<le> length segments \<and> length segments \<le> 8 \<and> list_all (\<lambda>x. x \<noteq> [] \<and> list_all key_char x) segments
      | _ \<Rightarrow> False)"

definition validate_operation_key :: "pystr \<Rightarrow> lexn + unit" where
  "validate_operation_key s =
     checkE (length s \<le> 240 \<and> safe_operation_key s) (LedgerValueError ''operation_key must be a bounded low-cardinality identity'')"

record RunArtifact =
  artifact_key :: pystr
  artifact_type :: pystr
  artifact_generation :: nat
  artifact_request_hash :: pystr
  artifact_content_hash :: pystr
  artifact_content :: pystr

definition envelope_of :: "pystr \<Rightarrow> json \<Rightarrow> json" where
  "envelope_of schema v = JObj [(lit ''schema'', JStr schema), (lit ''value'', v)]"

definition encode_outcome :: "pystr \<Rightarrow> json \<Rightarrow> lexn + pystr" where
  "encode_outcome schema v = canonical_bytes (envelope_of schema v)"

text \<open>\<open>json.loads\<close> of bytes drops a byte order mark; an envelope that is no object has no \<open>get\<close>.\<close>

definition loads_bytes :: "LedgerEnv \<Rightarrow> pystr \<Rightarrow> json option" where
  "loads_bytes env s = json_loads (le_float env) (if starts_with s [65279] then tl s else s)"

definition decode_outcome :: "LedgerEnv \<Rightarrow> pystr \<Rightarrow> pystr \<Rightarrow> (json \<Rightarrow> exn + json) \<Rightarrow> lexn + json" where
  "decode_outcome env content schema validate =
     (case loads_bytes env content of
        None \<Rightarrow> Inl (LedgerValueError ''outcome artifact is not canonical JSON'')
      | Some (JObj kvs) \<Rightarrow>
          (case (obj_get kvs ''schema'' = Some (JStr schema), obj_get kvs ''value'') of
             (True, Some v) \<Rightarrow>
               bindE (canonical_bytes (JObj kvs)) (\<lambda>b.
                 if b \<noteq> content then Inl (LedgerValueError ''outcome artifact is not canonically encoded'')
                 else (case validate v of Inl e \<Rightarrow> Inl (CallError e) | Inr x \<Rightarrow> Inr x))
           | _ \<Rightarrow> Inl (LedgerValueError ''outcome artifact schema mismatch''))
      | Some _ \<Rightarrow> Inl LedgerAttributeError)"

definition build_artifact :: "LedgerEnv \<Rightarrow> pystr \<Rightarrow> pystr \<Rightarrow> pystr \<Rightarrow> pystr \<Rightarrow> json \<Rightarrow> lexn + RunArtifact" where
  "build_artifact env key ty req schema v =
     bindE (encode_outcome schema v) (\<lambda>content.
       Inr \<lparr>artifact_key = key, artifact_type = ty, artifact_generation = 1, artifact_request_hash = req,
            artifact_content_hash = le_sha256 env content, artifact_content = content\<rparr>)"

section \<open>The ledger\<close>

record EvidenceItem =
  ei_source_type :: pystr
  ei_source_id :: pystr
  ei_locator :: pystr
  ei_excerpt_hash :: pystr

record RunLedgerEntry =
  le_operation_key :: pystr
  le_entry_kind :: string
  le_operation :: pystr
  le_request_hash :: pystr
  le_status :: string
  le_reservation :: BudgetVector
  le_consumption :: "BudgetVector option"
  le_output_artifact_key :: pystr
  le_output_artifact_hash :: pystr
  le_evidence_refs :: "pystr list"
  le_error_category :: pystr
  le_retryable :: bool

record LedgerCallSpec =
  sp_entry_kind :: string
  sp_operation :: pystr
  sp_operation_key :: pystr
  sp_request_hash :: pystr
  sp_reservation :: BudgetVector
  sp_outcome_schema :: pystr

record LedgerOutcome =
  lo_value :: json
  lo_artifact :: RunArtifact
  lo_replayed :: bool
  lo_consumption :: BudgetVector

text \<open>What the sink stores, in order.\<close>

datatype SinkEvent =
    LedgerEvent string RunLedgerEntry
  | ArtifactEvent RunArtifact
  | EvidenceEvent "EvidenceItem list"

text \<open>
  The memory of the process, the durable log with the number of events sent to the sink, and the
  keys of the operations that were invoked, in order.
\<close>

record LedgerWorld =
  lw_run_id :: pystr
  lw_entries :: "(pystr, RunLedgerEntry) dict"
  lw_artifacts :: "(pystr, RunArtifact) dict"
  lw_budget :: BudgetState
  lw_log :: "SinkEvent list"
  lw_sent :: nat
  lw_calls :: "pystr list"

type_synonym 'a ledger = "(LedgerWorld, lexn, 'a) sem"

definition emitM :: "LedgerEnv \<Rightarrow> SinkEvent \<Rightarrow> unit ledger" where
  "emitM env ev w =
     (let w = w\<lparr>lw_sent := Suc (lw_sent w)\<rparr> in
      case le_sink env (lw_sent w - 1) of
        Stored \<Rightarrow> (Inr (), w\<lparr>lw_log := lw_log w @ [ev]\<rparr>)
      | Lost \<Rightarrow> (Inl SinkError, w)
      | StoredButFailed \<Rightarrow> (Inl SinkError, w\<lparr>lw_log := lw_log w @ [ev]\<rparr>))"

definition set_entryM :: "pystr \<Rightarrow> RunLedgerEntry \<Rightarrow> unit ledger" where
  "set_entryM k e = modifyM (\<lambda>w. w\<lparr>lw_entries := dict_set k e (lw_entries w)\<rparr>)"

definition set_artifactM :: "RunArtifact \<Rightarrow> unit ledger" where
  "set_artifactM a = modifyM (\<lambda>w. w\<lparr>lw_artifacts := dict_set (artifact_key a) a (lw_artifacts w)\<rparr>)"

definition budgetM :: "(BudgetState \<Rightarrow> lexn + BudgetState) \<Rightarrow> unit ledger" where
  "budgetM f w = (case f (lw_budget w) of Inl e \<Rightarrow> (Inl e, w) | Inr b \<Rightarrow> (Inr (), w\<lparr>lw_budget := b\<rparr>))"

text \<open>One call of the remote side; \<open>invoke n\<close> is what the call with number \<open>n\<close> answers.\<close>

definition invokeM :: "pystr \<Rightarrow> (nat \<Rightarrow> exn + json) \<Rightarrow> json ledger" where
  "invokeM k invoke w =
     (let w' = w\<lparr>lw_calls := lw_calls w @ [k]\<rparr> in
      case invoke (length (lw_calls w)) of Inl e \<Rightarrow> (Inl (CallError e), w') | Inr v \<Rightarrow> (Inr v, w'))"

definition callbackM :: "exn + 'a \<Rightarrow> 'a ledger" where
  "callbackM r = liftM (case r of Inl e \<Rightarrow> Inl (CallError e) | Inr x \<Rightarrow> Inr x)"

definition evidence_ref :: "LedgerEnv \<Rightarrow> EvidenceItem \<Rightarrow> pystr" where
  "evidence_ref env i =
     lit ''sha256:'' @ le_sha256 env (join_str [0] [ei_source_type i, ei_source_id i, ei_locator i, ei_excerpt_hash i])"

definition make_entry :: "LedgerCallSpec \<Rightarrow> string \<Rightarrow> BudgetVector \<Rightarrow> BudgetVector \<Rightarrow> RunArtifact option \<Rightarrow> pystr list \<Rightarrow> pystr \<Rightarrow> bool \<Rightarrow> RunLedgerEntry" where
  "make_entry spec status reservation consumption artifact refs category retryable =
     \<lparr>le_operation_key = sp_operation_key spec, le_entry_kind = sp_entry_kind spec, le_operation = sp_operation spec,
      le_request_hash = sp_request_hash spec, le_status = status, le_reservation = reservation,
      le_consumption = Some consumption,
      le_output_artifact_key = (case artifact of None \<Rightarrow> [] | Some a \<Rightarrow> artifact_key a),
      le_output_artifact_hash = (case artifact of None \<Rightarrow> [] | Some a \<Rightarrow> artifact_content_hash a),
      le_evidence_refs = refs, le_error_category = category, le_retryable = retryable\<rparr>"

definition validate_spec :: "LedgerCallSpec \<Rightarrow> string \<Rightarrow> lexn + unit" where
  "validate_spec spec kind =
     bindE (validate_operation_key (sp_operation_key spec)) (\<lambda>_.
       checkE (sp_entry_kind spec = kind \<and> sp_operation spec \<noteq> [] \<and> starts_with (sp_request_hash spec) (lit ''sha256:''))
         (LedgerValueError ''invalid ledger call specification''))"

definition assert_identity :: "RunLedgerEntry \<Rightarrow> LedgerCallSpec \<Rightarrow> lexn + unit" where
  "assert_identity e spec =
     checkE (le_request_hash e = sp_request_hash spec \<and> le_entry_kind e = sp_entry_kind spec \<and> le_operation e = sp_operation spec)
       (LedgerValueError ''operation_key was reused with different input'')"

definition entry_artifact_key :: "LedgerEnv \<Rightarrow> pystr \<Rightarrow> RunLedgerEntry \<Rightarrow> LedgerCallSpec \<Rightarrow> pystr" where
  "entry_artifact_key env run e spec =
     (if le_output_artifact_key e \<noteq> [] then le_output_artifact_key e else outcome_artifact_key env run (sp_operation_key spec))"

definition artifact_for :: "LedgerEnv \<Rightarrow> RunLedgerEntry \<Rightarrow> LedgerCallSpec \<Rightarrow> RunArtifact ledger" where
  "artifact_for env e spec w =
     (case dict_get (lw_artifacts w) (entry_artifact_key env (lw_run_id w) e spec) of
        None \<Rightarrow> (Inl (LedgerOutcomeUnknown (sp_operation_key spec)), w)
      | Some a \<Rightarrow>
          if artifact_request_hash a \<noteq> sp_request_hash spec then (Inl (LedgerOutcomeUnknown (sp_operation_key spec)), w)
          else if le_output_artifact_hash e \<noteq> [] \<and> artifact_content_hash a \<noteq> le_output_artifact_hash e
          then (Inl (LedgerValueError ''ledger outcome artifact hash mismatch''), w)
          else (Inr a, w))"

definition consumption_of :: "RunLedgerEntry \<Rightarrow> BudgetVector" where
  "consumption_of e = (case le_consumption e of None \<Rightarrow> no_budget | Some c \<Rightarrow> c)"

definition replay_entry :: "LedgerEnv \<Rightarrow> RunLedgerEntry \<Rightarrow> LedgerCallSpec \<Rightarrow> (json \<Rightarrow> exn + json) \<Rightarrow> LedgerOutcome ledger" where
  "replay_entry env e spec validate =
     bindM (artifact_for env e spec) (\<lambda>a.
     bindM (liftM (decode_outcome env (artifact_content a) (sp_outcome_schema spec) validate)) (\<lambda>v.
     returnM \<lparr>lo_value = v, lo_artifact = a, lo_replayed = True, lo_consumption = consumption_of e\<rparr>))"

text \<open>
  A call as its callers describe it: the specification, the remote call, the validation of its
  answer, and the optional functions for the actual consumption and the evidence.
\<close>

record LedgerCall =
  lc_spec :: LedgerCallSpec
  lc_invoke :: "nat \<Rightarrow> exn + json"
  lc_validate :: "json \<Rightarrow> exn + json"
  lc_consumption :: "(json \<Rightarrow> exn + BudgetVector) option"
  lc_evidence :: "(json \<Rightarrow> exn + EvidenceItem list) option"

definition evidenceM :: "LedgerEnv \<Rightarrow> LedgerCall \<Rightarrow> json \<Rightarrow> EvidenceItem list ledger" where
  "evidenceM env c v =
     bindM (case lc_evidence c of None \<Rightarrow> returnM [] | Some f \<Rightarrow> callbackM (f v)) (\<lambda>items.
     thenM (if items \<noteq> [] then emitM env (EvidenceEvent items) else returnM ()) (returnM items))"

text \<open>The end of a successful call, common to a fresh one and to one found in the artifacts.\<close>

definition succeedM :: "LedgerEnv \<Rightarrow> LedgerCallSpec \<Rightarrow> BudgetVector \<Rightarrow> RunArtifact \<Rightarrow> EvidenceItem list \<Rightarrow> unit ledger" where
  "succeedM env spec actual artifact items =
     (let finished = make_entry spec ''SUCCEEDED'' (sp_reservation spec) actual (Some artifact) (map (evidence_ref env) items) [] False in
      thenM (emitM env (LedgerEvent ''LEDGER_FINISHED'' finished))
      (thenM (budgetM (\<lambda>b. Inr (finish_budget (sp_reservation spec) actual b)))
      (set_entryM (sp_operation_key spec) finished)))"

definition finish_durable_ahead :: "LedgerEnv \<Rightarrow> RunLedgerEntry \<Rightarrow> LedgerCall \<Rightarrow> LedgerOutcome ledger" where
  "finish_durable_ahead env e c =
     (let spec = lc_spec c in
      bindM (artifact_for env e spec) (\<lambda>a.
      bindM (liftM (decode_outcome env (artifact_content a) (sp_outcome_schema spec) (lc_validate c))) (\<lambda>v.
      bindM (evidenceM env c v) (\<lambda>items.
      let actual = (case le_consumption e of None \<Rightarrow> sp_reservation spec | Some x \<Rightarrow> if x = no_budget then sp_reservation spec else x) in
      thenM (succeedM env spec actual a items)
      (returnM \<lparr>lo_value = v, lo_artifact = a, lo_replayed = True, lo_consumption = actual\<rparr>)))))"

definition fail_call :: "LedgerEnv \<Rightarrow> LedgerCallSpec \<Rightarrow> lexn \<Rightarrow> 'a ledger" where
  "fail_call env spec e =
     (let failed = make_entry spec ''FAILED'' (sp_reservation spec) (sp_reservation spec) None [] (lit ''REMOTE_CALL_FAILED'') False in
      thenM (emitM env (LedgerEvent ''LEDGER_FINISHED'' failed))
      (thenM (budgetM (\<lambda>b. Inr (finish_budget (sp_reservation spec) (sp_reservation spec) b)))
      (thenM (set_entryM (sp_operation_key spec) failed) (raiseM e))))"

text \<open>The \<open>try\<close> statement around the remote call, and what follows it.\<close>

definition answer_call :: "LedgerEnv \<Rightarrow> LedgerCall \<Rightarrow> json ledger" where
  "answer_call env c =
     catchM (bindM (invokeM (sp_operation_key (lc_spec c)) (lc_invoke c)) (\<lambda>v. callbackM (lc_validate c v))) (fail_call env (lc_spec c))"

definition store_outcome :: "LedgerEnv \<Rightarrow> pystr \<Rightarrow> LedgerCall \<Rightarrow> json \<Rightarrow> LedgerOutcome ledger" where
  "store_outcome env ty c v =
     (let spec = lc_spec c in
      bindM (readM lw_run_id) (\<lambda>run.
      bindM (liftM (build_artifact env (outcome_artifact_key env run (sp_operation_key spec)) ty (sp_request_hash spec) (sp_outcome_schema spec) v)) (\<lambda>a.
      thenM (emitM env (ArtifactEvent a))
      (thenM (set_artifactM a)
      (bindM (evidenceM env c v) (\<lambda>items.
       bindM (case lc_consumption c of None \<Rightarrow> returnM (sp_reservation spec) | Some f \<Rightarrow> callbackM (f v)) (\<lambda>actual.
       thenM (succeedM env spec actual a items)
       (returnM \<lparr>lo_value = v, lo_artifact = a, lo_replayed = False, lo_consumption = actual\<rparr>))))))))"

text \<open>The call proper: it is started in the log before the remote side is invoked.\<close>

definition start_call :: "LedgerEnv \<Rightarrow> pystr \<Rightarrow> LedgerCall \<Rightarrow> LedgerOutcome ledger" where
  "start_call env ty c =
     (let spec = lc_spec c;
          started = make_entry spec ''CALL_STARTED'' (sp_reservation spec) no_budget None [] [] False in
      thenM (emitM env (LedgerEvent ''LEDGER_CALL_STARTED'' started))
      (thenM (set_entryM (sp_operation_key spec) started)
      (bindM (answer_call env c) (store_outcome env ty c))))"

definition reserve_call :: "LedgerEnv \<Rightarrow> LedgerCallSpec \<Rightarrow> unit ledger" where
  "reserve_call env spec =
     (let entry = make_entry spec ''RESERVED'' (sp_reservation spec) no_budget None [] [] False in
      thenM (budgetM (reserve_budget (sp_reservation spec)))
      (thenM (emitM env (LedgerEvent ''LEDGER_RESERVED'' entry))
      (set_entryM (sp_operation_key spec) entry)))"

definition execute_call :: "LedgerEnv \<Rightarrow> string \<Rightarrow> pystr \<Rightarrow> LedgerCall \<Rightarrow> LedgerOutcome ledger" where
  "execute_call env kind ty c =
     (let spec = lc_spec c; k = sp_operation_key spec in
      thenM (liftM (validate_spec spec kind))
      (bindM (readM (\<lambda>w. dict_get (lw_entries w) k)) (\<lambda>existing.
       case existing of
         None \<Rightarrow> thenM (reserve_call env spec) (start_call env ty c)
       | Some e \<Rightarrow>
           thenM (liftM (assert_identity e spec))
           (if le_status e = ''SUCCEEDED'' then replay_entry env e spec (lc_validate c)
            else if le_status e = ''FAILED'' then raiseM (LedgerTerminalFailure (le_error_category e) (le_retryable e))
            else if le_status e = ''OUTCOME_UNKNOWN'' then raiseM (LedgerOutcomeUnknown k)
            else if le_status e = ''CALL_STARTED'' then
              bindM (readM (\<lambda>w. dict_get (lw_artifacts w) (entry_artifact_key env (lw_run_id w) e spec))) (\<lambda>a.
                if a = None then raiseM (LedgerOutcomeUnknown k) else finish_durable_ahead env e c)
            else start_call env ty c))))"

definition execute_model :: "LedgerEnv \<Rightarrow> LedgerCall \<Rightarrow> LedgerOutcome ledger" where
  "execute_model env c = execute_call env ''MODEL'' (lit ''MODEL_VALIDATED_OUTPUT'') (c\<lparr>lc_evidence := None\<rparr>)"

definition execute_capability :: "LedgerEnv \<Rightarrow> LedgerCall \<Rightarrow> LedgerOutcome ledger" where
  "execute_capability env c = execute_call env ''CAPABILITY'' (lit ''CAPABILITY_VALIDATED_OUTPUT'') c"

definition execute_derivation :: "LedgerEnv \<Rightarrow> pystr \<Rightarrow> LedgerCall \<Rightarrow> LedgerOutcome ledger" where
  "execute_derivation env ty c =
     thenM (checkM (ty \<noteq> [] \<and> length ty \<le> 80) (LedgerValueError ''derivation artifact_type must be bounded''))
       (execute_call env ''LOCAL_DERIVATION'' ty (c\<lparr>lc_evidence := None\<rparr>))"

definition consume_transition :: "LedgerEnv \<Rightarrow> LedgerCallSpec \<Rightarrow> unit ledger" where
  "consume_transition env spec =
     (let k = sp_operation_key spec; entry = make_entry spec ''SUCCEEDED'' no_budget (sp_reservation spec) None [] [] False in
      thenM (liftM (validate_spec spec ''LOCAL_TRANSITION''))
      (bindM (readM (\<lambda>w. dict_get (lw_entries w) k)) (\<lambda>existing.
       case existing of
         Some e \<Rightarrow>
           thenM (liftM (assert_identity e spec)) (checkM (le_status e = ''SUCCEEDED'') (LedgerOutcomeUnknown k))
       | None \<Rightarrow>
           thenM (budgetM (consume_budget (sp_reservation spec)))
           (thenM (emitM env (LedgerEvent ''LEDGER_FINISHED'' entry)) (set_entryM k entry)))))"

definition ledger_entries :: "LedgerWorld \<Rightarrow> RunLedgerEntry list" where
  "ledger_entries w = map snd (sort_key fst (lw_entries w))"

section \<open>Starting a process\<close>

record RunContext =
  rc_run_id :: pystr
  rc_execution_ledger_version :: pystr
  rc_run_budget :: "RunBudget option"
  rc_consumed_budget :: "BudgetVector option"
  rc_event_sink :: bool
  rc_ledger_entries :: "RunLedgerEntry list"
  rc_resume_artifacts :: "RunArtifact list"

text \<open>\<open>setdefault\<close> keeps the first item of a key; another item must agree with it.\<close>

fun index_items :: "('a \<Rightarrow> pystr) \<Rightarrow> ('a \<Rightarrow> 'a \<Rightarrow> bool) \<Rightarrow> string \<Rightarrow> 'a list \<Rightarrow> (pystr, 'a) dict \<Rightarrow> lexn + (pystr, 'a) dict" where
  "index_items key agrees message [] d = Inr d"
| "index_items key agrees message (x # xs) d =
     (case dict_get d (key x) of
        None \<Rightarrow> index_items key agrees message xs (dict_set (key x) x d)
      | Some y \<Rightarrow> if agrees y x then index_items key agrees message xs d else Inl (LedgerValueError message))"

definition artifact_index :: "RunArtifact list \<Rightarrow> lexn + (pystr, RunArtifact) dict" where
  "artifact_index items =
     index_items artifact_key (\<lambda>y x. artifact_content_hash y = artifact_content_hash x \<and> artifact_request_hash y = artifact_request_hash x)
       ''conflicting durable outcome artifacts'' items []"

definition ledger_index :: "RunLedgerEntry list \<Rightarrow> lexn + (pystr, RunLedgerEntry) dict" where
  "ledger_index items =
     index_items le_operation_key
       (\<lambda>y x. le_request_hash y = le_request_hash x \<and> le_entry_kind y = le_entry_kind x \<and> le_operation y = le_operation x)
       ''conflicting durable ledger identities'' items []"

definition reserved_of :: "RunLedgerEntry list \<Rightarrow> BudgetVector" where
  "reserved_of items =
     foldl add_budget no_budget (map le_reservation (filter (\<lambda>e. le_status e \<in> {''RESERVED'', ''CALL_STARTED''}) items))"

text \<open>\<open>RunExecutionLedger.__init__\<close>: the new memory of the process, with the log it writes to.\<close>

definition open_ledger :: "RunContext \<Rightarrow> LedgerWorld \<Rightarrow> lexn + LedgerWorld" where
  "open_ledger ctx w =
     (if rc_execution_ledger_version ctx \<noteq> lit ''run-ledger.v1''
      then Inl (LedgerValueError ''RunExecutionLedger requires run-ledger.v1'')
      else
        (case (rc_run_budget ctx, rc_consumed_budget ctx, rc_event_sink ctx) of
           (Some limits, Some consumed, True) \<Rightarrow>
             bindE (ledger_index (rc_ledger_entries ctx)) (\<lambda>entries.
             bindE (artifact_index (rc_resume_artifacts ctx)) (\<lambda>artifacts.
               Inr (w\<lparr>lw_run_id := rc_run_id ctx, lw_entries := entries, lw_artifacts := artifacts,
                      lw_budget := \<lparr>bs_limits = limits, bs_consumed = consumed, bs_reserved = reserved_of (rc_ledger_entries ctx)\<rparr>\<rparr>)))
         | _ \<Rightarrow> Inl (LedgerValueError ''ledger run context is incomplete'')))"

end
