(* ===== verification/Ledger_Safety.thy ===== *)
theory Ledger_Safety
  imports Run_Ledger
begin

text \<open>
  What the execution ledger guarantees over the life of a run: processes that execute calls, fail
  at any event, and start again from the durable log.
\<close>

section \<open>The life of a run\<close>

datatype LedgerAction =
    DoModel LedgerCall
  | DoCapability LedgerCall
  | DoDerivation pystr LedgerCall
  | DoTransition LedgerCallSpec
  | Restart RunBudget BudgetVector

text \<open>
  What a new process is given: the latest entry of every operation in the log, and all artifacts.
  Limits and consumption are those of the dispatch that starts it.
\<close>

definition log_index :: "SinkEvent list \<Rightarrow> (pystr, RunLedgerEntry) dict" where
  "log_index evs =
     foldl (\<lambda>d ev. case ev of LedgerEvent t e \<Rightarrow> dict_set (le_operation_key e) e d | _ \<Rightarrow> d) [] evs"

abbreviation latest :: "SinkEvent list \<Rightarrow> pystr \<Rightarrow> RunLedgerEntry option" where
  "latest evs k \<equiv> dict_get (log_index evs) k"

definition log_artifacts :: "SinkEvent list \<Rightarrow> RunArtifact list" where
  "log_artifacts evs = concat (map (\<lambda>ev. case ev of ArtifactEvent a \<Rightarrow> [a] | _ \<Rightarrow> []) evs)"

definition resume_context :: "RunBudget \<Rightarrow> BudgetVector \<Rightarrow> LedgerWorld \<Rightarrow> RunContext" where
  "resume_context limits consumed w =
     \<lparr>rc_run_id = lw_run_id w, rc_execution_ledger_version = lit ''run-ledger.v1'', rc_run_budget = Some limits,
      rc_consumed_budget = Some consumed, rc_event_sink = True,
      rc_ledger_entries = dict_values (log_index (lw_log w)), rc_resume_artifacts = log_artifacts (lw_log w)\<rparr>"

fun ledger_step :: "LedgerEnv \<Rightarrow> LedgerAction \<Rightarrow> LedgerWorld \<Rightarrow> LedgerWorld" where
  "ledger_step env (DoModel c) w = snd (execute_model env c w)"
| "ledger_step env (DoCapability c) w = snd (execute_capability env c w)"
| "ledger_step env (DoDerivation ty c) w = snd (execute_derivation env ty c w)"
| "ledger_step env (DoTransition spec) w = snd (consume_transition env spec w)"
| "ledger_step env (Restart limits consumed) w =
     (case open_ledger (resume_context limits consumed w) w of Inl e \<Rightarrow> w | Inr w' \<Rightarrow> w')"

definition fresh_run :: "pystr \<Rightarrow> RunBudget \<Rightarrow> LedgerWorld" where
  "fresh_run run limits =
     \<lparr>lw_run_id = run, lw_entries = [], lw_artifacts = [],
      lw_budget = \<lparr>bs_limits = limits, bs_consumed = no_budget, bs_reserved = no_budget\<rparr>,
      lw_log = [], lw_sent = 0, lw_calls = []\<rparr>"

section \<open>The log\<close>

lemma log_index_append [simp]: "log_index [] = []" "log_index (evs @ [ev]) =
    (case ev of LedgerEvent t e \<Rightarrow> dict_set (le_operation_key e) e (log_index evs) | _ \<Rightarrow> log_index evs)"
  by (simp_all add: log_index_def split: SinkEvent.split)

lemma log_artifacts_append [simp]: "log_artifacts [] = []" "log_artifacts (evs @ [ev]) =
    log_artifacts evs @ (case ev of ArtifactEvent a \<Rightarrow> [a] | _ \<Rightarrow> [])"
  by (simp_all add: log_artifacts_def split: SinkEvent.split)

lemma log_index_wf: "dict_wf (log_index evs)"
  by (induction evs rule: rev_induct) (simp_all split: SinkEvent.split)

lemma latest_key: "latest evs k = Some e \<Longrightarrow> le_operation_key e = k"
  by (induction evs rule: rev_induct) (auto split: SinkEvent.splits if_splits)

lemma index_distinct:
  assumes "distinct (map key xs)" "\<forall>x \<in> set xs. dict_get d (key x) = None"
  shows "\<exists>d'. index_items key agrees m xs d = Inr d'
    \<and> (\<forall>k. dict_get d' k = (case find (\<lambda>x. key x = k) xs of None \<Rightarrow> dict_get d k | Some x \<Rightarrow> Some x))"
  using assms
proof (induction xs arbitrary: d)
  case (Cons x xs)
  have "\<forall>y \<in> set xs. dict_get (dict_set (key x) x d) (key y) = None" using Cons.prems by (force simp: image_iff)
  then obtain d' where d': "index_items key agrees m xs (dict_set (key x) x d) = Inr d'"
      "\<And>k. dict_get d' k = (case find (\<lambda>x. key x = k) xs of None \<Rightarrow> dict_get (dict_set (key x) x d) k | Some x \<Rightarrow> Some x)"
    using Cons.IH [of "dict_set (key x) x d"] Cons.prems(1) by auto
  have "find (\<lambda>y. key y = key x) xs = None" using Cons.prems(1) by (auto simp: find_None_iff image_iff)
  then have "dict_get d' k = (case find (\<lambda>x. key x = k) (x # xs) of None \<Rightarrow> dict_get d k | Some x \<Rightarrow> Some x)" for k
    unfolding d'(2) by (auto split: option.split)
  with d'(1) Cons.prems(2) show ?case by simp
qed simp

lemma index_distinct_Nil:
  assumes "distinct (map key xs)"
  shows "\<exists>d. index_items key agrees m xs [] = Inr d \<and> (\<forall>k. dict_get d k = find (\<lambda>x. key x = k) xs)"
proof -
  have c: "(case x of None \<Rightarrow> dict_get [] k | Some y \<Rightarrow> Some y) = x" for x :: "'a option" and k :: pystr by (cases x) simp_all
  from index_distinct [OF assms, of "[]" agrees m] show ?thesis unfolding c by simp
qed

lemma find_key: "distinct (map key xs) \<Longrightarrow> x \<in> set xs \<Longrightarrow> find (\<lambda>y. key y = key x) xs = Some x"
  by (induction xs) auto

lemma ledger_index_log: "\<exists>d. ledger_index (dict_values (log_index evs)) = Inr d \<and> (\<forall>k. dict_get d k = latest evs k)"
proof -
  let ?xs = "dict_values (log_index evs)"
  have keys: "map le_operation_key ?xs = map fst (log_index evs)" using latest_key [of evs] by (auto simp: dict_values_def dict_get_iff [OF log_index_wf])
  then have dist: "distinct (map le_operation_key ?xs)" using log_index_wf [of evs] by (simp add: dict_wf_def)
  have "find (\<lambda>x. le_operation_key x = k) ?xs = latest evs k" for k
  proof (cases "latest evs k")
    case None
    then have "k \<notin> set (map le_operation_key ?xs)" unfolding keys by (simp add: dict_get_def map_of_eq_None_iff)
    with None show ?thesis by (auto simp: find_None_iff)
  next
    case (Some e)
    then have "(k, e) \<in> set (log_index evs)" using log_index_wf by (simp add: dict_get_iff)
    then have "le_operation_key e = k" "e \<in> set ?xs" using latest_key [OF Some] by (force simp: dict_values_def)+
    with find_key [OF dist, of e] Some show ?thesis by simp
  qed
  with index_distinct_Nil [OF dist] show ?thesis unfolding ledger_index_def by simp
qed

section \<open>Symbolic execution\<close>

lemma wp_emit:
  "wp (emitM env ev) Q E w \<longleftrightarrow>
     (case le_sink env (lw_sent w) of
        Stored \<Rightarrow> Q () (w\<lparr>lw_sent := Suc (lw_sent w), lw_log := lw_log w @ [ev]\<rparr>)
      | Lost \<Rightarrow> E SinkError (w\<lparr>lw_sent := Suc (lw_sent w)\<rparr>)
      | StoredButFailed \<Rightarrow> E SinkError (w\<lparr>lw_sent := Suc (lw_sent w), lw_log := lw_log w @ [ev]\<rparr>))"
  by (simp add: wp_def emitM_def Let_def split: SinkOutcome.split)

lemma wp_set_entry [wp_rules]: "wp (set_entryM k e) Q E w = Q () (w\<lparr>lw_entries := dict_set k e (lw_entries w)\<rparr>)"
  by (simp add: wp_def set_entryM_def modifyM_def)

lemma wp_set_artifact [wp_rules]:
  "wp (set_artifactM a) Q E w = Q () (w\<lparr>lw_artifacts := dict_set (artifact_key a) a (lw_artifacts w)\<rparr>)"
  by (simp add: wp_def set_artifactM_def modifyM_def)

lemma wp_budget [wp_rules]:
  "wp (budgetM f) Q E w = (case f (lw_budget w) of Inl e \<Rightarrow> E e w | Inr b \<Rightarrow> Q () (w\<lparr>lw_budget := b\<rparr>))"
  by (simp add: wp_def budgetM_def split: sum.split)

lemma wp_invoke [wp_rules]:
  "wp (invokeM k invoke) Q E w =
     (case invoke (length (lw_calls w)) of
        Inl e \<Rightarrow> E (CallError e) (w\<lparr>lw_calls := lw_calls w @ [k]\<rparr>)
      | Inr v \<Rightarrow> Q v (w\<lparr>lw_calls := lw_calls w @ [k]\<rparr>))"
  by (simp add: wp_def invokeM_def Let_def split: sum.split)

lemma wp_callback [wp_rules]:
  "wp (callbackM r) Q E w = (case r of Inl e \<Rightarrow> E (CallError e) w | Inr x \<Rightarrow> Q x w)"
  by (simp add: callbackM_def wp_lift split: sum.split)

lemma wp_readM [wp_rules]: "wp (readM f) Q E w = Q (f w) w"
  by (simp add: wp_def readM_def)

lemma wp_artifact_for [wp_rules]:
  "wp (artifact_for env e spec) Q E w =
     (case dict_get (lw_artifacts w) (entry_artifact_key env (lw_run_id w) e spec) of
        None \<Rightarrow> E (LedgerOutcomeUnknown (sp_operation_key spec)) w
      | Some a \<Rightarrow>
          if artifact_request_hash a \<noteq> sp_request_hash spec then E (LedgerOutcomeUnknown (sp_operation_key spec)) w
          else if le_output_artifact_hash e \<noteq> [] \<and> artifact_content_hash a \<noteq> le_output_artifact_hash e
          then E (LedgerValueError ''ledger outcome artifact hash mismatch'') w
          else Q a w)"
  by (auto simp: wp_def artifact_for_def split: option.split)

lemma ledger_step_wp:
  assumes "\<And>kind ty c. wp (execute_call env kind ty c) (\<lambda>_. P) (\<lambda>_. P) w"
    and "\<And>spec. wp (consume_transition env spec) (\<lambda>_. P) (\<lambda>_. P) w"
    and "\<And>limits consumed w'. open_ledger (resume_context limits consumed w) w = Inr w' \<Longrightarrow> P w'"
    and "P w"
  shows "P (ledger_step env a w)"
proof (cases a)
  case (DoModel c)
  with assms(1) show ?thesis by (simp add: execute_model_def wp_snd)
next
  case (DoCapability c)
  with assms(1) show ?thesis by (simp add: execute_capability_def wp_snd)
next
  case (DoDerivation ty c)
  have "wp (execute_derivation env ty c) (\<lambda>_. P) (\<lambda>_. P) w"
    using assms(1,4) by (simp add: execute_derivation_def wp_rules)
  with DoDerivation show ?thesis by (simp add: wp_snd)
next
  case (DoTransition spec)
  with assms(2) show ?thesis by (simp add: wp_snd)
next
  case (Restart limits consumed)
  with assms(3) [of limits consumed] assms(4) show ?thesis by (auto split: sum.split)
qed

section \<open>Every operation is invoked at most once\<close>

definition fired :: "RunLedgerEntry \<Rightarrow> bool" where
  "fired e \<longleftrightarrow> le_status e \<in> {''CALL_STARTED'', ''SUCCEEDED'', ''FAILED''}"

text \<open>An operation that was invoked is known to have been started, in memory and in the log.\<close>

definition once :: "pystr list \<Rightarrow> (pystr, RunLedgerEntry) dict \<Rightarrow> SinkEvent list \<Rightarrow> bool" where
  "once calls entries evs \<longleftrightarrow> distinct calls
     \<and> (\<forall>k \<in> set calls. (\<exists>e. dict_get entries k = Some e \<and> fired e) \<and> (\<exists>e. latest evs k = Some e \<and> fired e))"

lemma once_entry [simp]: "once cs es evs \<Longrightarrow> fired e \<or> k \<notin> set cs \<Longrightarrow> once cs (dict_set k e es) evs"
  by (auto simp: once_def)

lemma once_event [simp]: "once cs es evs \<Longrightarrow> fired e \<or> le_operation_key e \<notin> set cs \<Longrightarrow> once cs es (evs @ [LedgerEvent t e])"
  by (auto simp: once_def)

lemma once_other_event [simp]:
  "once cs es (evs @ [ArtifactEvent a]) = once cs es evs" "once cs es (evs @ [EvidenceEvent i]) = once cs es evs"
  by (simp_all add: once_def)

lemma once_invoke:
  assumes "once cs es evs" "k \<notin> set cs" "fired e" "le_operation_key e = k"
  shows "once (cs @ [k]) (dict_set k e es) (evs @ [LedgerEvent t e])"
  using assms by (auto simp: once_def)

lemma make_entry_simps [simp]:
  "le_operation_key (make_entry spec st r c a refs cat ret) = sp_operation_key spec"
  "le_status (make_entry spec st r c a refs cat ret) = st"
  "le_reservation (make_entry spec st r c a refs cat ret) = r"
  "le_consumption (make_entry spec st r c a refs cat ret) = Some c"
  by (simp_all add: make_entry_def)

lemma fired_make_entry [simp]: "fired (make_entry spec st r c a refs cat ret) \<longleftrightarrow> st \<in> {''CALL_STARTED'', ''SUCCEEDED'', ''FAILED''}"
  by (simp add: fired_def)

abbreviation invoked_once :: "LedgerWorld \<Rightarrow> bool" where
  "invoked_once w \<equiv> once (lw_calls w) (lw_entries w) (lw_log w)"

lemma once_succeed: "invoked_once w \<Longrightarrow> wp (succeedM env spec actual a items) (\<lambda>_. invoked_once) (\<lambda>_. invoked_once) w"
  by (auto simp: succeedM_def Let_def wp_rules wp_emit split: SinkOutcome.split)

lemma once_fail: "invoked_once w \<Longrightarrow> wp (fail_call env spec e) (\<lambda>_. invoked_once) (\<lambda>_. invoked_once) w"
  by (auto simp: fail_call_def Let_def wp_rules wp_emit split: SinkOutcome.split)

lemma once_evidence: "invoked_once w \<Longrightarrow> wp (evidenceM env c v) (\<lambda>_. invoked_once) (\<lambda>_. invoked_once) w"
  by (auto simp: evidenceM_def wp_rules wp_emit split: SinkOutcome.split option.split sum.split)

lemma once_finish_ahead: "invoked_once w \<Longrightarrow> wp (finish_durable_ahead env e c) (\<lambda>_. invoked_once) (\<lambda>_. invoked_once) w"
  by (auto simp: finish_durable_ahead_def Let_def wp_rules split: option.split sum.split
      intro!: wp_mono [OF once_evidence] wp_mono [OF once_succeed])

lemma once_replay: "invoked_once w \<Longrightarrow> wp (replay_entry env e spec v) (\<lambda>_. invoked_once) (\<lambda>_. invoked_once) w"
  by (auto simp: replay_entry_def wp_rules split: option.split sum.split)

lemma once_reserve:
  "invoked_once w \<Longrightarrow> sp_operation_key spec \<notin> set (lw_calls w)
   \<Longrightarrow> wp (reserve_call env spec) (\<lambda>_ w'. invoked_once w' \<and> lw_calls w' = lw_calls w) (\<lambda>_. invoked_once) w"
  by (auto simp: reserve_call_def Let_def wp_rules wp_emit split: SinkOutcome.split sum.split)

lemma once_store: "invoked_once w \<Longrightarrow> wp (store_outcome env ty c v) (\<lambda>_. invoked_once) (\<lambda>_. invoked_once) w"
  by (auto simp: store_outcome_def Let_def wp_rules wp_emit split: SinkOutcome.split option.split sum.split
        intro!: wp_mono [OF once_evidence] wp_mono [OF once_succeed])

lemma once_answer:
  assumes "once (lw_calls w @ [sp_operation_key (lc_spec c)]) (lw_entries w) (lw_log w)"
  shows "wp (answer_call env c) (\<lambda>_. invoked_once) (\<lambda>_. invoked_once) w"
  using assms by (auto simp: answer_call_def wp_rules split: sum.split intro!: wp_mono [OF once_fail])

lemma once_start:
  assumes "invoked_once w" "sp_operation_key (lc_spec c) \<notin> set (lw_calls w)"
  shows "wp (start_call env ty c) (\<lambda>_. invoked_once) (\<lambda>_. invoked_once) w"
  using assms
  by (auto simp: start_call_def Let_def wp_rules wp_emit split: SinkOutcome.split
      intro!: wp_mono [OF once_answer] once_store once_invoke)

lemma once_execute:
  assumes "invoked_once w"
  shows "wp (execute_call env kind ty c) (\<lambda>_. invoked_once) (\<lambda>_. invoked_once) w"
proof -
  let ?k = "sp_operation_key (lc_spec c)"
  have new: "wp (thenM (reserve_call env (lc_spec c)) (start_call env ty c)) (\<lambda>_. invoked_once) (\<lambda>_. invoked_once) w"
    if "?k \<notin> set (lw_calls w)"
    unfolding wp_then by (rule wp_mono [OF once_reserve [OF assms that]]) (auto intro!: once_start simp: that)
  show ?thesis
  proof (cases "dict_get (lw_entries w) ?k")
    case None
    then have "?k \<notin> set (lw_calls w)" using assms by (auto simp: once_def)
    with new None assms show ?thesis by (auto simp: execute_call_def Let_def wp_rules split: sum.split)
  next
    case (Some e)
    have "wp (start_call env ty c) (\<lambda>_. invoked_once) (\<lambda>_. invoked_once) w" if "\<not> fired e"
      using that Some assms by (intro once_start) (auto simp: once_def)
    with Some assms show ?thesis
      by (auto simp: execute_call_def Let_def wp_rules fired_def split: sum.split intro!: once_replay once_finish_ahead)
  qed
qed

lemma once_transition:
  assumes "invoked_once w"
  shows "wp (consume_transition env spec) (\<lambda>_. invoked_once) (\<lambda>_. invoked_once) w"
  using assms by (auto simp: consume_transition_def Let_def wp_rules wp_emit split: SinkOutcome.split option.split sum.split)

lemma once_restart:
  assumes "invoked_once w" "open_ledger (resume_context limits consumed w) w = Inr w'"
  shows "invoked_once w'"
proof -
  obtain d where "ledger_index (dict_values (log_index (lw_log w))) = Inr d" "\<forall>k. dict_get d k = latest (lw_log w) k"
    using ledger_index_log by blast
  with assms show ?thesis by (auto simp: open_ledger_def resume_context_def bindE_Inr once_def)
qed

lemma once_step: "invoked_once w \<Longrightarrow> invoked_once (ledger_step env a w)"
  by (rule ledger_step_wp [where P = invoked_once]) (auto intro: once_execute once_transition once_restart)

lemma once_fresh: "invoked_once (fresh_run run limits)"
  by (simp add: fresh_run_def once_def)

interpretation ledger_calls: invariant_system "\<lambda>w. \<exists>run limits. w = fresh_run run limits" "ledger_step env" invoked_once for env
  by unfold_locales (use once_fresh once_step in blast)+

text \<open>
  C3. Whatever fails, no operation is invoked twice. In every life of a run, with any calls and
  transitions, a sink that loses events or fails after storing them, and any number of new
  processes that start from the log, the remote side is invoked at most once for each operation
  key.
\<close>

theorem invoked_at_most_once:
  "distinct (lw_calls (run_commands (ledger_step env) actions (fresh_run run limits)))"
  using ledger_calls.invar_run [OF once_fresh] by (simp add: once_def)

section \<open>Artifacts\<close>

text \<open>
  The artifacts in the log have different keys, each that of an operation that was invoked, and
  those in memory are among them.
\<close>

definition arts :: "LedgerEnv \<Rightarrow> pystr \<Rightarrow> pystr list \<Rightarrow> (pystr, RunArtifact) dict \<Rightarrow> SinkEvent list \<Rightarrow> bool" where
  "arts env run calls artifacts evs \<longleftrightarrow> distinct (map artifact_key (log_artifacts evs))
     \<and> artifact_key ` set (log_artifacts evs) \<subseteq> outcome_artifact_key env run ` set calls
     \<and> (\<forall>key a. dict_get artifacts key = Some a \<longrightarrow> artifact_key a = key \<and> a \<in> set (log_artifacts evs))"

lemma arts_other_event [simp]:
  "arts env run cs as (evs @ [LedgerEvent t e]) = arts env run cs as evs"
  "arts env run cs as (evs @ [EvidenceEvent i]) = arts env run cs as evs"
  by (simp_all add: arts_def)

lemma arts_invoke [simp]: "arts env run cs as evs \<Longrightarrow> arts env run (cs @ [k]) as evs"
  by (auto simp: arts_def)

text \<open>No artifact of an operation is there yet.\<close>

definition no_artifact :: "LedgerEnv \<Rightarrow> pystr \<Rightarrow> pystr \<Rightarrow> SinkEvent list \<Rightarrow> bool" where
  "no_artifact env run k evs \<longleftrightarrow> outcome_artifact_key env run k \<notin> artifact_key ` set (log_artifacts evs)"

lemma no_artifact_other_event [simp]:
  "no_artifact env run k (evs @ [LedgerEvent t e]) = no_artifact env run k evs"
  "no_artifact env run k (evs @ [EvidenceEvent i]) = no_artifact env run k evs"
  by (simp_all add: no_artifact_def)

lemma arts_artifact:
  assumes "arts env run cs as evs" "no_artifact env run k evs" "k \<in> set cs" "artifact_key a = outcome_artifact_key env run k"
  shows "arts env run cs as (evs @ [ArtifactEvent a])"
    and "arts env run cs (dict_set (artifact_key a) a as) (evs @ [ArtifactEvent a])"
  using assms by (auto simp: arts_def no_artifact_def split: if_splits)

lemma no_artifact_new:
  assumes "inj_on (outcome_artifact_key env run) (insert k (set cs))" "arts env run cs as evs" "k \<notin> set cs"
  shows "no_artifact env run k evs"
  using assms by (auto simp: arts_def no_artifact_def)

abbreviation kept_arts :: "LedgerEnv \<Rightarrow> LedgerWorld \<Rightarrow> bool" where
  "kept_arts env w \<equiv> arts env (lw_run_id w) (lw_calls w) (lw_artifacts w) (lw_log w)"

text \<open>The outcome of an operation: its last entry, in memory and in the log, and its artifact.\<close>

definition settled :: "pystr \<Rightarrow> RunLedgerEntry \<Rightarrow> RunArtifact \<Rightarrow> LedgerWorld \<Rightarrow> bool" where
  "settled k e a w \<longleftrightarrow> dict_get (lw_entries w) k = Some e \<and> latest (lw_log w) k = Some e \<and> le_status e = ''SUCCEEDED''
     \<and> dict_get (lw_artifacts w) (artifact_key a) = Some a \<and> a \<in> set (log_artifacts (lw_log w))"

definition keys_of :: "(pystr \<times> RunLedgerEntry \<times> RunArtifact) set \<Rightarrow> pystr set" where
  "keys_of T = fst ` T"

definition holds :: "LedgerEnv \<Rightarrow> (pystr \<times> RunLedgerEntry \<times> RunArtifact) set \<Rightarrow> LedgerWorld \<Rightarrow> bool" where
  "holds env T w \<longleftrightarrow> kept_arts env w \<and> (\<forall>(k, e, a) \<in> T. settled k e a w)"

lemma holds_events:
  assumes "holds env T w"
  shows "holds env T (w\<lparr>lw_sent := n\<rparr>)" "holds env T (w\<lparr>lw_budget := b\<rparr>)" "holds env T (w\<lparr>lw_calls := lw_calls w @ [k]\<rparr>)"
    "holds env T (w\<lparr>lw_sent := n, lw_log := lw_log w @ [EvidenceEvent items]\<rparr>)"
    "le_operation_key e \<notin> keys_of T \<Longrightarrow> holds env T (w\<lparr>lw_sent := n, lw_log := lw_log w @ [LedgerEvent t e]\<rparr>)"
    "k \<notin> keys_of T \<Longrightarrow> holds env T (w\<lparr>lw_entries := dict_set k e (lw_entries w)\<rparr>)"
  using assms by (auto simp: holds_def settled_def keys_of_def) force+

lemma holds_artifact:
  assumes "holds env T w" "no_artifact env (lw_run_id w) k (lw_log w)" "k \<in> set (lw_calls w)"
    "artifact_key a = outcome_artifact_key env (lw_run_id w) k"
  shows "holds env T (w\<lparr>lw_sent := n, lw_log := lw_log w @ [ArtifactEvent a]\<rparr>)"
    "holds env T (w\<lparr>lw_sent := n, lw_log := lw_log w @ [ArtifactEvent a], lw_artifacts := dict_set (artifact_key a) a (lw_artifacts w)\<rparr>)"
proof -
  have "artifact_key b \<noteq> artifact_key a" if "b \<in> set (log_artifacts (lw_log w))" for b
    using that assms(2,4) by (auto simp: no_artifact_def image_iff)
  with assms arts_artifact [of env "lw_run_id w" "lw_calls w" "lw_artifacts w" "lw_log w" k a]
  show "holds env T (w\<lparr>lw_sent := n, lw_log := lw_log w @ [ArtifactEvent a]\<rparr>)"
    "holds env T (w\<lparr>lw_sent := n, lw_log := lw_log w @ [ArtifactEvent a], lw_artifacts := dict_set (artifact_key a) a (lw_artifacts w)\<rparr>)"
    by (auto simp: holds_def settled_def)
qed

lemma wp_emitI:
  assumes "\<And>n. Q () (w\<lparr>lw_sent := n, lw_log := lw_log w @ [ev]\<rparr>)" "\<And>n. E SinkError (w\<lparr>lw_sent := n, lw_log := lw_log w @ [ev]\<rparr>)"
    "\<And>n. E SinkError (w\<lparr>lw_sent := n\<rparr>)"
  shows "wp (emitM env ev) Q E w"
  using assms by (simp add: wp_emit split: SinkOutcome.split)

lemma holds_emit:
  assumes "holds env T w" "le_operation_key e \<notin> keys_of T"
  shows "wp (emitM env (LedgerEvent t e)) (\<lambda>_. holds env T) (\<lambda>_. holds env T) w"
  by (rule wp_emitI) (simp_all add: holds_events assms)

lemma holds_set_entry: "holds env T w \<Longrightarrow> k \<notin> keys_of T \<Longrightarrow> wp (set_entryM k e) (\<lambda>_. holds env T) (\<lambda>_. holds env T) w"
  by (simp add: wp_rules holds_events)

lemma holds_budget: "holds env T w \<Longrightarrow> wp (budgetM f) (\<lambda>_. holds env T) (\<lambda>_. holds env T) w"
  by (simp add: wp_rules holds_events split: sum.split)

lemma wp_seq:
  assumes "wp m (\<lambda>_. P) (\<lambda>_. E) w" "\<And>x w. P w \<Longrightarrow> wp (f x) Q (\<lambda>_. E) w"
  shows "wp (bindM m f) Q (\<lambda>_. E) w"
  unfolding wp_bind by (rule wp_mono [OF assms(1)]) (auto intro: assms(2))

lemma wp_seq_then:
  assumes "wp m (\<lambda>_. P) (\<lambda>_. E) w" "\<And>w. P w \<Longrightarrow> wp n Q (\<lambda>_. E) w"
  shows "wp (thenM m n) Q (\<lambda>_. E) w"
  unfolding wp_then by (rule wp_mono [OF assms(1)]) (auto intro: assms(2))

lemma holds_succeed:
  "holds env T w \<Longrightarrow> sp_operation_key spec \<notin> keys_of T \<Longrightarrow> wp (succeedM env spec actual a items) (\<lambda>_. holds env T) (\<lambda>_. holds env T) w"
  unfolding succeedM_def Let_def by (intro wp_seq_then [where P = "holds env T"] holds_emit holds_budget holds_set_entry) simp_all

lemma holds_fail:
  "holds env T w \<Longrightarrow> sp_operation_key spec \<notin> keys_of T \<Longrightarrow> wp (fail_call env spec e) (\<lambda>_ _. False) (\<lambda>_. holds env T) w"
  unfolding fail_call_def Let_def
  by (intro wp_seq_then [where P = "holds env T"] holds_emit holds_budget holds_set_entry) (simp_all add: wp_rules)

lemma holds_evidence: "holds env T w \<Longrightarrow> wp (evidenceM env c v) (\<lambda>_. holds env T) (\<lambda>_. holds env T) w"
  by (auto simp: evidenceM_def wp_rules wp_emit holds_events split: SinkOutcome.split option.split sum.split)

lemma holds_finish_ahead:
  "holds env T w \<Longrightarrow> sp_operation_key (lc_spec c) \<notin> keys_of T \<Longrightarrow> wp (finish_durable_ahead env e c) (\<lambda>_. holds env T) (\<lambda>_. holds env T) w"
  by (auto simp: finish_durable_ahead_def Let_def wp_rules split: option.split sum.split
      intro!: wp_mono [OF holds_evidence] wp_mono [OF holds_succeed])

lemma wp_replay_entry: "(\<And>out. Q out w) \<Longrightarrow> (\<And>e. E e w) \<Longrightarrow> wp (replay_entry env e spec v) Q E w"
  by (auto simp: replay_entry_def wp_rules split: option.split sum.split)

lemma holds_reserve:
  "holds env T w \<Longrightarrow> sp_operation_key spec \<notin> keys_of T
   \<Longrightarrow> wp (reserve_call env spec) (\<lambda>_. holds env T) (\<lambda>_. holds env T) w"
  unfolding reserve_call_def Let_def by (intro wp_seq_then [where P = "holds env T"] holds_emit holds_budget holds_set_entry) simp_all

text \<open>Between the remote call and its artifact.\<close>

definition called :: "LedgerEnv \<Rightarrow> (pystr \<times> RunLedgerEntry \<times> RunArtifact) set \<Rightarrow> pystr \<Rightarrow> LedgerWorld \<Rightarrow> bool" where
  "called env T k w \<longleftrightarrow> holds env T w \<and> k \<in> set (lw_calls w) \<and> no_artifact env (lw_run_id w) k (lw_log w)"

lemma holds_answer:
  assumes "holds env T w" "sp_operation_key (lc_spec c) \<notin> keys_of T" "no_artifact env (lw_run_id w) (sp_operation_key (lc_spec c)) (lw_log w)"
  shows "wp (answer_call env c) (\<lambda>_. called env T (sp_operation_key (lc_spec c))) (\<lambda>_. holds env T) w"
  using assms
  by (auto simp: answer_call_def wp_rules called_def holds_events split: sum.split intro!: wp_mono [OF holds_fail [where T = T]])

lemma holds_store:
  assumes "called env T (sp_operation_key (lc_spec c)) w" "sp_operation_key (lc_spec c) \<notin> keys_of T"
  shows "wp (store_outcome env ty c v) (\<lambda>_. holds env T) (\<lambda>_. holds env T) w"
proof -
  have rest: "wp (evidenceM env c v) (\<lambda>items. wp (case lc_consumption c of None \<Rightarrow> returnM (sp_reservation spec) | Some f \<Rightarrow> callbackM (f v))
        (\<lambda>actual. wp (succeedM env (lc_spec c) actual a items) (\<lambda>_. Q) (\<lambda>_. holds env T)) (\<lambda>_. holds env T)) (\<lambda>_. holds env T) w'"
    if "holds env T w'" "Q = holds env T" for w' a Q spec
    by (rule wp_mono [OF holds_evidence [OF that(1)]])
      (auto simp: wp_rules that(2) assms(2) intro!: holds_succeed split: option.split sum.split)
  have key: "artifact_key a = outcome_artifact_key env (lw_run_id w) (sp_operation_key (lc_spec c))"
    if "build_artifact env (outcome_artifact_key env (lw_run_id w) (sp_operation_key (lc_spec c))) ty rq sch v = Inr a" for a rq sch
    using that by (auto simp: build_artifact_def bindE_Inr)
  show ?thesis
    using assms(1) unfolding called_def
    by (auto simp: store_outcome_def Let_def wp_rules split: sum.split
        intro!: wp_emitI rest holds_artifact [OF _ _ _ key] holds_events)
qed

lemma holds_start:
  assumes "inj_on (outcome_artifact_key env (lw_run_id w)) (insert (sp_operation_key (lc_spec c)) (set (lw_calls w)))"
    "holds env T w" "sp_operation_key (lc_spec c) \<notin> keys_of T"
    "sp_operation_key (lc_spec c) \<notin> set (lw_calls w)"
  shows "wp (start_call env ty c) (\<lambda>_. holds env T) (\<lambda>_. holds env T) w"
proof -
  have "no_artifact env (lw_run_id w) (sp_operation_key (lc_spec c)) (lw_log w)"
    using assms by (intro no_artifact_new) (auto simp: holds_def)
  note none = this
  have "wp (bindM (answer_call env c) (store_outcome env ty c)) (\<lambda>_. holds env T) (\<lambda>_. holds env T)
     (w\<lparr>lw_sent := n, lw_log := lw_log w @ [LedgerEvent t e], lw_entries := dict_set (sp_operation_key (lc_spec c)) e (lw_entries w)\<rparr>)"
    if "le_operation_key e = sp_operation_key (lc_spec c)" for n e t
  proof (intro wp_seq [OF holds_answer] holds_store)
    have "holds env T (w\<lparr>lw_sent := n, lw_log := lw_log w @ [LedgerEvent t e]\<rparr>)" using that assms by (simp add: holds_events)
    from holds_events(6) [OF this assms(3), of e] show "holds env T (w\<lparr>lw_sent := n, lw_log := lw_log w @ [LedgerEvent t e],
      lw_entries := dict_set (sp_operation_key (lc_spec c)) e (lw_entries w)\<rparr>)" by simp
  qed (use assms none in simp_all)
  then show ?thesis
    using assms(2,3)
    by (auto simp: start_call_def Let_def wp_rules intro!: wp_emitI holds_events)
qed

lemma holds_execute:
  assumes "inj_on (outcome_artifact_key env (lw_run_id w)) (insert (sp_operation_key (lc_spec c)) (set (lw_calls w)))"
    "invoked_once w" "holds env T w"
  shows "wp (execute_call env kind ty c) (\<lambda>_. holds env T) (\<lambda>_. holds env T) w"
proof -
  let ?k = "sp_operation_key (lc_spec c)"
  show ?thesis
  proof (cases "?k \<in> keys_of T")
    case True
    then obtain e where "dict_get (lw_entries w) ?k = Some e" "le_status e = ''SUCCEEDED''"
      using assms(3) by (fastforce simp: holds_def settled_def keys_of_def)
    with assms(3) show ?thesis by (auto simp: execute_call_def Let_def wp_rules split: sum.split intro!: wp_replay_entry)
  next
    case False
    note start = holds_start [OF _ _ False]
    show ?thesis
    proof (cases "dict_get (lw_entries w) ?k")
      case None
      then have new: "?k \<notin> set (lw_calls w)" using assms(2) by (auto simp: once_def)
      have "wp (reserve_call env (lc_spec c)) (\<lambda>_ w'. holds env T w' \<and> lw_calls w' = lw_calls w \<and> lw_run_id w' = lw_run_id w) (\<lambda>_. holds env T) w"
        using wp_conj [OF holds_reserve [OF assms(3) False], of "\<lambda>_ w'. lw_calls w' = lw_calls w \<and> lw_run_id w' = lw_run_id w" "\<lambda>_ _. True"]
        by (auto simp: reserve_call_def Let_def wp_rules wp_emit split: SinkOutcome.splits sum.splits elim: wp_mono)
      then have "wp (thenM (reserve_call env (lc_spec c)) (start_call env ty c)) (\<lambda>_. holds env T) (\<lambda>_. holds env T) w"
        unfolding wp_then by (rule wp_mono) (use assms(1) new in \<open>auto intro!: start\<close>)
      with None assms(3) show ?thesis by (auto simp: execute_call_def Let_def wp_rules split: sum.split)
    next
      case (Some e)
      have "wp (start_call env ty c) (\<lambda>_. holds env T) (\<lambda>_. holds env T) w" if "\<not> fired e"
        using that Some assms by (intro start) (auto simp: once_def)
      with Some assms(3) False show ?thesis
        by (auto simp: execute_call_def Let_def wp_rules fired_def split: sum.split intro!: wp_replay_entry holds_finish_ahead)
    qed
  qed
qed

lemma holds_transition:
  assumes "invoked_once w" "holds env T w"
  shows "wp (consume_transition env spec) (\<lambda>_. holds env T) (\<lambda>_. holds env T) w"
proof (cases "sp_operation_key spec \<in> keys_of T")
  case True
  then obtain e where "dict_get (lw_entries w) (sp_operation_key spec) = Some e"
    using assms(2) by (fastforce simp: holds_def settled_def keys_of_def)
  with assms(2) show ?thesis by (auto simp: consume_transition_def Let_def wp_rules split: sum.split)
next
  case False
  have "wp (thenM (budgetM f) (thenM (emitM env (LedgerEvent t e)) (set_entryM (sp_operation_key spec) e))) (\<lambda>_. holds env T) (\<lambda>_. holds env T) w"
    if "le_operation_key e = sp_operation_key spec" for f t e
    using False that by (intro wp_seq_then [where P = "holds env T"] holds_emit holds_budget holds_set_entry assms(2)) simp_all
  with assms(2) show ?thesis
    unfolding consume_transition_def Let_def wp_then [of "liftM _"] wp_bind
    by (auto simp: wp_lift wp_readM split: sum.split option.split) (auto simp: wp_rules split: sum.split)
qed

lemma log_artifacts_index:
  assumes "arts env run cs as evs"
  shows "\<exists>d. artifact_index (log_artifacts evs) = Inr d \<and> arts env run cs d evs
    \<and> (\<forall>a \<in> set (log_artifacts evs). dict_get d (artifact_key a) = Some a)"
proof -
  have dist: "distinct (map artifact_key (log_artifacts evs))" using assms by (simp add: arts_def)
  from index_distinct_Nil [OF dist] obtain d where "artifact_index (log_artifacts evs) = Inr d"
    "\<And>k. dict_get d k = find (\<lambda>x. artifact_key x = k) (log_artifacts evs)" unfolding artifact_index_def by meson
  with find_key [OF dist] assms show ?thesis by (auto simp: arts_def dest: find_SomeD)
qed

lemma holds_restart:
  assumes "holds env T w" "open_ledger (resume_context limits consumed w) w = Inr w'"
  shows "holds env T w'"
proof -
  obtain d where "ledger_index (dict_values (log_index (lw_log w))) = Inr d" "\<forall>k. dict_get d k = latest (lw_log w) k"
    using ledger_index_log by blast
  moreover obtain d' where "artifact_index (log_artifacts (lw_log w)) = Inr d'" "arts env (lw_run_id w) (lw_calls w) d' (lw_log w)"
    "\<forall>a \<in> set (log_artifacts (lw_log w)). dict_get d' (artifact_key a) = Some a"
    using log_artifacts_index assms(1) unfolding holds_def by blast
  ultimately show ?thesis
    using assms by (auto simp: open_ledger_def resume_context_def holds_def settled_def)
qed

section \<open>The run of a world and its calls\<close>

definition same_run :: "pystr \<Rightarrow> LedgerWorld \<Rightarrow> LedgerWorld \<Rightarrow> bool" where
  "same_run k w w' \<longleftrightarrow> lw_run_id w' = lw_run_id w \<and> set (lw_calls w') \<subseteq> insert k (set (lw_calls w))"

interpretation ledger_run: history "same_run k" for k
  by unfold_locales (auto simp: same_run_def)

lemma run_primitives:
  "keeps (same_run k) (emitM env ev)" "keeps (same_run k) (set_entryM j e)" "keeps (same_run k) (set_artifactM a)"
  "keeps (same_run k) (budgetM f)" "keeps (same_run k) (invokeM k i)" "keeps (same_run k) (readM h)"
  "keeps (same_run k) (artifact_for env e spec)" "keeps (same_run k) (callbackM r)"
  by (auto simp: keeps_def same_run_def emitM_def Let_def set_entryM_def set_artifactM_def modifyM_def budgetM_def invokeM_def readM_def
      artifact_for_def callbackM_def liftM_def split: SinkOutcome.split sum.split option.split)

lemma run_execute: "keeps (same_run (sp_operation_key (lc_spec c))) (execute_call env kind ty c)"
  unfolding execute_call_def start_call_def reserve_call_def store_outcome_def answer_call_def fail_call_def finish_durable_ahead_def
    replay_entry_def succeedM_def evidenceM_def Let_def
  by (intro ledger_run.keeps_control run_primitives
      | (split option.split if_split, intro conjI impI allI)
      | rule ledger_run.keeps_control run_primitives | assumption)+

section \<open>Memory and log agree on what succeeded\<close>

definition synced :: "LedgerWorld \<Rightarrow> bool" where
  "synced w \<longleftrightarrow> (\<forall>k e. dict_get (lw_entries w) k = Some e \<and> le_status e = ''SUCCEEDED'' \<longrightarrow> latest (lw_log w) k = Some e)"

definition pending :: "pystr \<Rightarrow> LedgerWorld \<Rightarrow> bool" where
  "pending k w \<longleftrightarrow> synced w \<and> (\<forall>e. dict_get (lw_entries w) k = Some e \<longrightarrow> le_status e \<noteq> ''SUCCEEDED'')"

lemma pending_synced: "pending k w \<Longrightarrow> synced w"
  by (simp add: pending_def)

lemma synced_simps [simp]:
  "synced (w\<lparr>lw_sent := n\<rparr>) = synced w"
  "synced (w\<lparr>lw_sent := n, lw_log := lw_log w @ [ArtifactEvent a]\<rparr>) = synced w"
  by (simp_all add: synced_def)

lemma pending_simps [simp]:
  "pending k (w\<lparr>lw_sent := n\<rparr>) = pending k w" "pending k (w\<lparr>lw_calls := cs\<rparr>) = pending k w"
  "pending k (w\<lparr>lw_sent := n, lw_log := lw_log w @ [EvidenceEvent i]\<rparr>) = pending k w"
  "pending k (w\<lparr>lw_sent := n, lw_log := lw_log w @ [ArtifactEvent a]\<rparr>) = pending k w"
  "pending k (w\<lparr>lw_sent := n, lw_log := lw_log w @ [ArtifactEvent a], lw_artifacts := as\<rparr>) = pending k w"
  by (simp_all add: pending_def synced_def)

lemma synced_succeed: "pending (sp_operation_key spec) w \<Longrightarrow> wp (succeedM env spec actual a items) (\<lambda>_. synced) (\<lambda>_. synced) w"
  by (auto simp: succeedM_def Let_def wp_rules wp_emit pending_def synced_def split: SinkOutcome.split)

lemma synced_fail: "pending (sp_operation_key spec) w \<Longrightarrow> wp (fail_call env spec e) (\<lambda>_ _. False) (\<lambda>_. synced) w"
  by (auto simp: fail_call_def Let_def wp_rules wp_emit pending_def synced_def split: SinkOutcome.split)

lemma pending_reserve: "pending (sp_operation_key spec) w \<Longrightarrow> wp (reserve_call env spec) (\<lambda>_. pending (sp_operation_key spec)) (\<lambda>_. synced) w"
  by (auto simp: reserve_call_def Let_def wp_rules wp_emit pending_def synced_def split: SinkOutcome.split sum.split)

lemma pending_evidence: "pending k w \<Longrightarrow> wp (evidenceM env c v) (\<lambda>_. pending k) (\<lambda>_. synced) w"
  by (auto simp: evidenceM_def wp_rules wp_emit pending_synced split: SinkOutcome.split option.split sum.split)

lemma synced_finish_ahead:
  "pending (sp_operation_key (lc_spec c)) w \<Longrightarrow> wp (finish_durable_ahead env e c) (\<lambda>_. synced) (\<lambda>_. synced) w"
  by (auto simp: finish_durable_ahead_def Let_def wp_rules pending_synced split: option.split sum.split
      intro!: wp_mono [OF pending_evidence] wp_mono [OF synced_succeed])

lemma pending_answer:
  "pending (sp_operation_key (lc_spec c)) w \<Longrightarrow> wp (answer_call env c) (\<lambda>_. pending (sp_operation_key (lc_spec c))) (\<lambda>_. synced) w"
  by (auto simp: answer_call_def wp_rules split: sum.split intro!: wp_mono [OF synced_fail])

lemma synced_store:
  assumes "pending (sp_operation_key (lc_spec c)) w"
  shows "wp (store_outcome env ty c v) (\<lambda>_. synced) (\<lambda>_. synced) w"
proof -
  have rest: "wp (evidenceM env c v) (\<lambda>items. wp (case lc_consumption c of None \<Rightarrow> returnM (sp_reservation spec) | Some f \<Rightarrow> callbackM (f v))
        (\<lambda>actual. wp (succeedM env (lc_spec c) actual a items) (\<lambda>_. synced) (\<lambda>_. synced)) (\<lambda>_. synced)) (\<lambda>_. synced) w'"
    if "pending (sp_operation_key (lc_spec c)) w'" for w' a spec
    by (rule wp_mono [OF pending_evidence [OF that]])
      (auto simp: wp_rules pending_synced intro!: synced_succeed split: option.split sum.split)
  from assms show ?thesis
    by (auto simp: store_outcome_def Let_def wp_rules pending_synced split: sum.split intro!: wp_emitI rest)
qed

lemma synced_start:
  assumes "pending (sp_operation_key (lc_spec c)) w"
  shows "wp (start_call env ty c) (\<lambda>_. synced) (\<lambda>_. synced) w"
proof -
  have "pending (sp_operation_key (lc_spec c)) (w\<lparr>lw_sent := n, lw_log := lw_log w @ [LedgerEvent t e],
      lw_entries := dict_set (sp_operation_key (lc_spec c)) e (lw_entries w)\<rparr>)"
    "synced (w\<lparr>lw_sent := n, lw_log := lw_log w @ [LedgerEvent t e]\<rparr>)"
    if "le_operation_key e = sp_operation_key (lc_spec c)" "le_status e \<noteq> ''SUCCEEDED''" for n e t
    using assms that by (auto simp: pending_def synced_def)
  then show ?thesis using pending_synced [OF assms]
    by (auto simp: start_call_def Let_def wp_then wp_set_entry intro!: wp_emitI wp_seq [OF pending_answer] synced_store)
qed

lemma synced_execute:
  assumes "synced w"
  shows "wp (execute_call env kind ty c) (\<lambda>_. synced) (\<lambda>_. synced) w"
proof -
  let ?k = "sp_operation_key (lc_spec c)"
  have "wp (thenM (reserve_call env (lc_spec c)) (start_call env ty c)) (\<lambda>_. synced) (\<lambda>_. synced) w" if "pending ?k w"
    by (rule wp_seq_then [OF pending_reserve [OF that] synced_start])
  with assms show ?thesis
    by (auto simp: execute_call_def Let_def wp_bind wp_then [of "liftM _"] wp_readM wp_lift wp_raise wp_If pending_def
        split: sum.split option.split intro!: wp_replay_entry synced_finish_ahead synced_start)
qed

lemma synced_transition: "synced w \<Longrightarrow> wp (consume_transition env spec) (\<lambda>_. synced) (\<lambda>_. synced) w"
  by (auto simp: consume_transition_def Let_def wp_rules wp_emit synced_def split: SinkOutcome.split option.split sum.split)

lemma synced_restart:
  assumes "open_ledger (resume_context limits consumed w) w = Inr w'"
  shows "synced w'"
proof -
  obtain d where "ledger_index (dict_values (log_index (lw_log w))) = Inr d" "\<forall>k. dict_get d k = latest (lw_log w) k"
    using ledger_index_log by blast
  with assms show ?thesis by (auto simp: open_ledger_def resume_context_def bindE_Inr synced_def)
qed

section \<open>Outcomes\<close>

lemma decode_canonical:
  assumes wf: "json_wf (le_float env) v" and enc: "encode_outcome schema v = Inr content"
  shows "decode_outcome env content schema' validate =
    (if schema' = schema then (case validate (normal v) of Inl e \<Rightarrow> Inl (CallError e) | Inr x \<Rightarrow> Inr x)
     else Inl (LedgerValueError ''outcome artifact schema mismatch''))"
proof -
  let ?env = "envelope_of schema v"
  have content: "content = canonical_json ?env" and ok: "utf8 (canonical_json ?env) = Inr content"
    using enc by (auto simp: encode_outcome_def canonical_bytes_def utf8_def split: if_splits)
  have n: "normal ?env = JObj [(lit ''schema'', JStr schema), (lit ''value'', normal v)]"
    by (simp add: envelope_of_def)
  have first: "\<not> starts_with content [65279]"
    by (simp add: content envelope_of_def canonical_json_def)
  have "loads_bytes env content = Some (normal ?env)"
    using wf first unfolding loads_bytes_def content by (simp add: loads_canonical envelope_of_def)
  moreover have "canonical_bytes (normal ?env) = Inr content"
    using ok by (simp add: canonical_bytes_def canonical_json_def dumps_normal)
  ultimately show ?thesis by (simp add: decode_outcome_def n obj_get_def dict_get_def split: sum.split)
qed

text \<open>
  C21. A stored outcome reads back. What \<open>encode_outcome\<close> wrote, \<open>decode_outcome\<close>
  accepts under the same schema only, and it validates exactly the value that was written, with the keys of its
  dictionaries in order. This holds for every value: texts with any characters, integers of any size,
  nested lists and dictionaries, and floats whose \<open>repr\<close> reads back.
\<close>

theorem outcome_roundtrip:
  assumes "json_wf (le_float env) v" and "encode_outcome schema v = Inr content"
  shows "decode_outcome env content schema' validate =
    (if schema' = schema then (case validate (normal v) of Inl e \<Rightarrow> Inl (CallError e) | Inr x \<Rightarrow> Inr x)
     else Inl (LedgerValueError ''outcome artifact schema mismatch''))"
  by (rule decode_canonical [OF assms])

definition sample_env :: LedgerEnv where
  "sample_env = \<lparr>le_sha256 = (\<lambda>s. s), le_float = (\<lambda>s. JNull), le_sink = (\<lambda>_. Stored)\<rparr>"

definition sample_value :: json where
  "sample_value = JObj [(lit ''n'', JInt (- 120)), (lit ''b'', JList [JStr [34, 10, 21517], JNull])]"

theorem outcome_roundtrip_witness:
  "\<exists>content. encode_outcome (lit ''s'') sample_value = Inr content
     \<and> decode_outcome sample_env content (lit ''s'') Inr
       = Inr (JObj [(lit ''b'', JList [JStr [34, 10, 21517], JNull]), (lit ''n'', JInt (- 120))])"
proof -
  have wf: "json_wf (le_float sample_env) sample_value" by (simp add: sample_value_def)
  have n: "normal sample_value = JObj [(lit ''b'', JList [JStr [34, 10, 21517], JNull]), (lit ''n'', JInt (- 120))]"
    by (simp add: sample_value_def)
  obtain content where "encode_outcome (lit ''s'') sample_value = Inr content"
    by (simp add: encode_outcome_def canonical_bytes_def utf8_def sample_value_def envelope_of_def canonical_json_def json_quote_def
        json_escape_def show_int_def show_nat.simps)
  with outcome_roundtrip [OF wf this, of "lit ''s''" Inr] show ?thesis by (simp add: n del: lit_Cons)
qed

text \<open>
  What a later execution finds. The artifact holds the value the first execution returned, and every
  replay validates it again: \<open>recalled\<close> is what a replay makes of an outcome.
\<close>

definition recalled :: "LedgerCall \<Rightarrow> bool \<Rightarrow> json \<Rightarrow> lexn + json" where
  "recalled c replayed v =
     (if replayed then Inr v else case lc_validate c (normal v) of Inl e \<Rightarrow> Inl (CallError e) | Inr x \<Rightarrow> Inr x)"

definition replays :: "LedgerEnv \<Rightarrow> pystr \<Rightarrow> LedgerCall \<Rightarrow> LedgerOutcome \<Rightarrow> RunLedgerEntry \<Rightarrow> bool" where
  "replays env run c out e \<longleftrightarrow>
     assert_identity e (lc_spec c) = Inr () \<and> entry_artifact_key env run e (lc_spec c) = artifact_key (lo_artifact out)
     \<and> artifact_request_hash (lo_artifact out) = sp_request_hash (lc_spec c)
     \<and> (if le_output_artifact_hash e = [] then True else le_output_artifact_hash e = artifact_content_hash (lo_artifact out))
     \<and> consumption_of e = lo_consumption out
     \<and> (lo_replayed out \<or> json_wf (le_float env) (lo_value out) \<longrightarrow>
         decode_outcome env (artifact_content (lo_artifact out)) (sp_outcome_schema (lc_spec c)) (lc_validate c)
         = recalled c (lo_replayed out) (lo_value out))"

lemma execute_replays:
  assumes "validate_spec (lc_spec c) kind = Inr ()" "settled (sp_operation_key (lc_spec c)) e (lo_artifact out) w"
    "replays env (lw_run_id w) c out e" "lo_replayed out \<or> json_wf (le_float env) (lo_value out)"
  shows "execute_call env kind ty c w =
    (case recalled c (lo_replayed out) (lo_value out) of
       Inl e \<Rightarrow> (Inl e, w) | Inr v \<Rightarrow> (Inr (out\<lparr>lo_value := v, lo_replayed := True\<rparr>), w))"
  using assms
  by (auto simp: execute_call_def Let_def settled_def replays_def replay_entry_def artifact_for_def
      thenM_def bindM_def liftM_def readM_def returnM_def split: if_splits sum.split)

definition outcome_kept :: "LedgerEnv \<Rightarrow> LedgerCall \<Rightarrow> LedgerOutcome \<Rightarrow> LedgerWorld \<Rightarrow> bool" where
  "outcome_kept env c out w \<longleftrightarrow>
     (\<exists>e. settled (sp_operation_key (lc_spec c)) e (lo_artifact out) w \<and> replays env (lw_run_id w) c out e)"

text \<open>An artifact that a call of this specification may finish with.\<close>

definition usable :: "LedgerEnv \<Rightarrow> LedgerCall \<Rightarrow> RunArtifact \<Rightarrow> bool \<Rightarrow> json \<Rightarrow> LedgerWorld \<Rightarrow> bool" where
  "usable env c a b v w \<longleftrightarrow> dict_get (lw_artifacts w) (artifact_key a) = Some a \<and> a \<in> set (log_artifacts (lw_log w))
     \<and> artifact_key a \<noteq> [] \<and> artifact_request_hash a = sp_request_hash (lc_spec c)
     \<and> (b \<or> json_wf (le_float env) v \<longrightarrow>
         decode_outcome env (artifact_content a) (sp_outcome_schema (lc_spec c)) (lc_validate c) = recalled c b v)"

lemma usable_succeed:
  "usable env c a b v w \<Longrightarrow> wp (succeedM env (lc_spec c) actual a items)
     (\<lambda>_. outcome_kept env c \<lparr>lo_value = v, lo_artifact = a, lo_replayed = b, lo_consumption = actual\<rparr>) (\<lambda>_ _. True) w"
  by (auto simp: succeedM_def Let_def wp_rules wp_emit outcome_kept_def settled_def replays_def usable_def make_entry_def assert_identity_def
      entry_artifact_key_def consumption_of_def split: SinkOutcome.split)

lemma usable_evidence: "usable env c a b v w \<Longrightarrow> wp (evidenceM env c x) (\<lambda>_. usable env c a b v) (\<lambda>_ _. True) w"
  by (auto simp: evidenceM_def wp_rules wp_emit usable_def split: SinkOutcome.split option.split sum.split)

lemma outcome_artifact_key_nonempty [simp]: "outcome_artifact_key env run k \<noteq> []"
  by (simp add: outcome_artifact_key_def)

lemma kept_finish_ahead:
  assumes "kept_arts env w"
  shows "wp (finish_durable_ahead env e c) (\<lambda>out. outcome_kept env c out) (\<lambda>_ _. True) w"
proof -
  have usable: "usable env c a True v w"
    if "dict_get (lw_artifacts w) (entry_artifact_key env (lw_run_id w) e (lc_spec c)) = Some a" "artifact_request_hash a = sp_request_hash (lc_spec c)"
      "decode_outcome env (artifact_content a) (sp_outcome_schema (lc_spec c)) (lc_validate c) = Inr v" for a v
    using assms that by (auto simp: usable_def arts_def entry_artifact_key_def recalled_def split: if_splits)
  show ?thesis
    by (auto simp: finish_durable_ahead_def Let_def wp_rules split: option.split sum.split
        intro!: wp_mono [OF usable_evidence [OF usable]] wp_mono [OF usable_succeed])
qed

lemma kept_store: "wp (store_outcome env ty c v) (\<lambda>out. outcome_kept env c out) (\<lambda>_ _. True) w"
proof -
  have usable: "usable env c a False v (w\<lparr>lw_sent := n, lw_log := lw_log w @ [ArtifactEvent a], lw_artifacts := dict_set (artifact_key a) a (lw_artifacts w)\<rparr>)"
    if "build_artifact env (outcome_artifact_key env (lw_run_id w) k) ty (sp_request_hash (lc_spec c)) (sp_outcome_schema (lc_spec c)) v = Inr a" for a n k
    using that decode_canonical [of env v] by (auto simp: usable_def recalled_def build_artifact_def bindE_Inr)
  show ?thesis
    by (auto simp: store_outcome_def Let_def wp_rules split: option.split sum.split
        intro!: wp_emitI wp_mono [OF usable_evidence [OF usable]] wp_mono [OF usable_succeed])
qed

lemma kept_start: "wp (start_call env ty c) (\<lambda>out. outcome_kept env c out) (\<lambda>_ _. True) w"
proof -
  have "wp (bindM (answer_call env c) (store_outcome env ty c)) (\<lambda>out. outcome_kept env c out) (\<lambda>_ _. True) w'" for w'
    unfolding wp_bind by (rule wp_mono [OF wp_result]) (auto intro: kept_store)
  then show ?thesis by (auto simp: start_call_def Let_def wp_then wp_set_entry intro!: wp_emitI)
qed

lemma kept_execute:
  assumes "synced w" "kept_arts env w"
  shows "wp (execute_call env kind ty c) (\<lambda>out w'. outcome_kept env c out w' \<and> validate_spec (lc_spec c) kind = Inr ()) (\<lambda>_ _. True) w"
proof -
  let ?Q = "\<lambda>out. outcome_kept env c out"
  have start: "wp (start_call env ty c) ?Q (\<lambda>_ _. True) w" for w by (rule kept_start)
  have new: "wp (thenM (reserve_call env (lc_spec c)) (start_call env ty c)) ?Q (\<lambda>_ _. True) w"
    unfolding wp_then by (rule wp_mono [OF wp_result]) (auto intro: start)
  have replay: "wp (replay_entry env e (lc_spec c) (lc_validate c)) ?Q (\<lambda>_ _. True) w"
    if "dict_get (lw_entries w) (sp_operation_key (lc_spec c)) = Some e" "le_status e = ''SUCCEEDED''" "assert_identity e (lc_spec c) = Inr u" for e u
    using that assms
    by (auto simp: replay_entry_def wp_rules recalled_def outcome_kept_def settled_def replays_def synced_def arts_def split: option.split sum.split)
  have "wp (execute_call env kind ty c) ?Q (\<lambda>_ _. True) w"
    by (auto simp: execute_call_def Let_def wp_bind wp_then [of "liftM _"] wp_readM wp_lift wp_raise wp_If
        split: sum.split option.split intro!: start new replay kept_finish_ahead assms(2))
  moreover have "wp (execute_call env kind ty c) (\<lambda>_ _. validate_spec (lc_spec c) kind = Inr ()) (\<lambda>_ _. True) w"
  proof (cases "validate_spec (lc_spec c) kind")
    case (Inl e)
    then show ?thesis by (simp add: execute_call_def Let_def wp_rules)
  next
    case (Inr u)
    then show ?thesis by (auto intro: wp_mono [OF wp_result])
  qed
  ultimately show ?thesis by (auto dest: wp_conj elim: wp_mono)
qed

definition sound_run :: "LedgerEnv \<Rightarrow> pystr \<Rightarrow> pystr set \<Rightarrow> (pystr \<times> RunLedgerEntry \<times> RunArtifact) set \<Rightarrow> LedgerWorld \<Rightarrow> bool" where
  "sound_run env run K T w \<longleftrightarrow> lw_run_id w = run \<and> set (lw_calls w) \<subseteq> K \<and> invoked_once w \<and> synced w \<and> holds env T w"

lemma sound_execute:
  assumes "inj_on (outcome_artifact_key env run) K" "sound_run env run K T w" "sp_operation_key (lc_spec c) \<in> K"
  shows "wp (execute_call env kind ty c) (\<lambda>_. sound_run env run K T) (\<lambda>_. sound_run env run K T) w"
proof -
  let ?k = "sp_operation_key (lc_spec c)"
  have s: "invoked_once w" "synced w" "holds env T w" "lw_run_id w = run" "insert ?k (set (lw_calls w)) \<subseteq> K"
    using assms by (auto simp: sound_run_def)
  have inj: "inj_on (outcome_artifact_key env (lw_run_id w)) (insert ?k (set (lw_calls w)))"
    using inj_on_subset [OF assms(1) s(5)] by (simp add: s(4))
  have "wp (execute_call env kind ty c) (\<lambda>_. same_run ?k w) (\<lambda>_. same_run ?k w) w"
    by (rule keeps_wp [OF run_execute])
  from wp_conj [OF this wp_conj [OF once_execute [OF s(1)] wp_conj [OF synced_execute [OF s(2)] holds_execute [OF inj s(1,3)]]]] assms(2,3)
  show ?thesis by (elim wp_mono) (auto simp: sound_run_def same_run_def)
qed

fun action_call :: "LedgerAction \<Rightarrow> LedgerCallSpec option" where
  "action_call (DoModel c) = Some (lc_spec c)"
| "action_call (DoCapability c) = Some (lc_spec c)"
| "action_call (DoDerivation ty c) = Some (lc_spec c)"
| "action_call (DoTransition spec) = None"
| "action_call (Restart limits consumed) = None"

definition keys_in :: "pystr set \<Rightarrow> LedgerAction list \<Rightarrow> bool" where
  "keys_in K actions = list_all (\<lambda>a. case action_call a of None \<Rightarrow> True | Some spec \<Rightarrow> sp_operation_key spec \<in> K) actions"

lemma sound_transition:
  assumes "sound_run env run K T w"
  shows "wp (consume_transition env spec) (\<lambda>_. sound_run env run K T) (\<lambda>_. sound_run env run K T) w"
proof -
  have s: "invoked_once w" "synced w" "holds env T w" using assms by (auto simp: sound_run_def)
  have "wp (consume_transition env spec) (\<lambda>_ w'. lw_run_id w' = lw_run_id w \<and> lw_calls w' = lw_calls w)
      (\<lambda>_ w'. lw_run_id w' = lw_run_id w \<and> lw_calls w' = lw_calls w) w"
    by (auto simp: consume_transition_def Let_def wp_rules wp_emit split: SinkOutcome.split option.split sum.split)
  from wp_conj [OF this wp_conj [OF once_transition [OF s(1)] wp_conj [OF synced_transition [OF s(2)] holds_transition [OF s(1,3)]]]] assms
  show ?thesis by (elim wp_mono) (auto simp: sound_run_def)
qed

lemma sound_restart:
  assumes "sound_run env run K T w" "open_ledger (resume_context limits consumed w) w = Inr w'"
  shows "sound_run env run K T w'"
proof -
  have "lw_run_id w' = lw_run_id w" "lw_calls w' = lw_calls w"
    using assms(2) by (auto simp: open_ledger_def resume_context_def bindE_Inr)
  with assms once_restart [OF _ assms(2)] synced_restart [OF assms(2)] holds_restart [OF _ assms(2)] show ?thesis
    by (auto simp: sound_run_def)
qed

lemma sound_step:
  assumes "inj_on (outcome_artifact_key env run) K" "sound_run env run K T w" "keys_in K [a]"
  shows "sound_run env run K T (ledger_step env a w)"
proof (cases a)
  case (DoModel c)
  with assms sound_execute [OF assms(1,2), of "c\<lparr>lc_evidence := None\<rparr>"] show ?thesis by (auto simp: keys_in_def execute_model_def wp_snd)
next
  case (DoCapability c)
  with assms sound_execute [OF assms(1,2), of c] show ?thesis by (auto simp: keys_in_def execute_capability_def wp_snd)
next
  case (DoDerivation ty c)
  have "wp (execute_derivation env ty c) (\<lambda>_. sound_run env run K T) (\<lambda>_. sound_run env run K T) w"
    using assms DoDerivation sound_execute [OF assms(1,2), of "c\<lparr>lc_evidence := None\<rparr>"]
    by (auto simp: keys_in_def execute_derivation_def wp_rules)
  with DoDerivation show ?thesis by (simp add: wp_snd)
next
  case (DoTransition spec)
  with sound_transition [OF assms(2)] show ?thesis by (simp add: wp_snd)
next
  case (Restart limits consumed)
  with sound_restart [OF assms(2)] assms(2) show ?thesis by (auto split: sum.split)
qed

lemma sound_steps:
  "\<lbrakk>inj_on (outcome_artifact_key env run) K; sound_run env run K T w; keys_in K actions\<rbrakk>
   \<Longrightarrow> sound_run env run K T (run_commands (ledger_step env) actions w)"
proof (induction actions arbitrary: w)
  case (Cons a as)
  have "sound_run env run K T (ledger_step env a w)" by (rule sound_step) (use Cons.prems in \<open>auto simp: keys_in_def\<close>)
  with Cons show ?case by (auto simp: keys_in_def)
qed simp

lemma sound_fresh: "sound_run env run K {} (fresh_run run limits)"
  using once_fresh by (simp add: sound_run_def fresh_run_def synced_def holds_def arts_def)

text \<open>
  C4. An outcome is kept. If a call returned at any moment of a run, then the same call at any later
  moment, after any other calls, failures of the sink and new processes, is a replay: it neither
  invokes the remote side nor writes anything, and it returns the same artifact and consumption
  with the value the first outcome has if that was a replay itself, and else with what the
  validation of the call makes of the recorded value (its keys in order), or the error that
  validation raises; so it is the same value as soon as validating it again does not change it.
  The assumptions: the artifact keys, which are truncated hashes, differ for the operations of the
  run, and the returned value is JSON that reads back.
\<close>

theorem outcome_replayed:
  assumes "inj_on (outcome_artifact_key env run) K" and "keys_in K (earlier @ later)" and "sp_operation_key (lc_spec c) \<in> K"
    and "execute_call env kind ty c (run_commands (ledger_step env) earlier (fresh_run run limits)) = (Inr out, w)"
    and "lo_replayed out \<or> json_wf (le_float env) (lo_value out)"
  shows "execute_call env kind ty c (run_commands (ledger_step env) later w) =
    (case (if lo_replayed out then Inr (lo_value out) else lc_validate c (normal (lo_value out))) of
       Inl e \<Rightarrow> (Inl (CallError e), run_commands (ledger_step env) later w)
     | Inr v \<Rightarrow> (Inr (out\<lparr>lo_value := v, lo_replayed := True\<rparr>), run_commands (ledger_step env) later w))"
proof -
  let ?w0 = "run_commands (ledger_step env) earlier (fresh_run run limits)"
  have keys: "keys_in K earlier" "keys_in K later" using assms(2) by (simp_all add: keys_in_def)
  have s0: "sound_run env run K {} ?w0" by (rule sound_steps [OF assms(1) sound_fresh keys(1)])
  have k: "outcome_kept env c out w" "validate_spec (lc_spec c) kind = Inr ()"
    using wp_Inr [OF kept_execute assms(4)] s0 by (auto simp: sound_run_def holds_def)
  then obtain e where e: "settled (sp_operation_key (lc_spec c)) e (lo_artifact out) w" "replays env (lw_run_id w) c out e"
    by (auto simp: outcome_kept_def)
  let ?T = "{(sp_operation_key (lc_spec c), e, lo_artifact out)}"
  have "sound_run env run K {} w" using wp_Inr [OF sound_execute [OF assms(1) s0 assms(3)] assms(4)] .
  then have "sound_run env run K ?T w" using e(1) by (auto simp: sound_run_def holds_def)
  then have "sound_run env run K ?T (run_commands (ledger_step env) later w)" by (rule sound_steps [OF assms(1) _ keys(2)])
  with e \<open>sound_run env run K ?T w\<close> have "execute_call env kind ty c (run_commands (ledger_step env) later w) =
      (case recalled c (lo_replayed out) (lo_value out) of Inl e \<Rightarrow> (Inl e, run_commands (ledger_step env) later w)
       | Inr v \<Rightarrow> (Inr (out\<lparr>lo_value := v, lo_replayed := True\<rparr>), run_commands (ledger_step env) later w))"
    by (intro execute_replays [OF k(2) _ _ assms(5)]) (auto simp: sound_run_def holds_def)
  then show ?thesis by (auto simp: recalled_def split: sum.split)
qed

definition sample_call :: LedgerCall where
  "sample_call =
     \<lparr>lc_spec = \<lparr>sp_entry_kind = ''MODEL'', sp_operation = lit ''draft'', sp_operation_key = lit ''unit:draft:1'', sp_request_hash = lit ''sha256:0'',
        sp_reservation = no_budget, sp_outcome_schema = lit ''draft.v1''\<rparr>,
      lc_invoke = (\<lambda>_. Inr (JStr (lit '' ok ''))),
      lc_validate = (\<lambda>v. case v of JStr x \<Rightarrow> if strip x = [] then Inl (ModelOutputError ''empty'') else Inr (JStr (strip x)) | _ \<Rightarrow> Inl (ModelOutputError ''text'')),
      lc_consumption = None, lc_evidence = None\<rparr>"

lemma strip_ok: "strip [32, 111, 107, 32] = [111, 107]" "strip [111, 107] = [111, 107]"
  by code_simp+

lemma sample_executes:
  "\<exists>out w. execute_call sample_env ''MODEL'' (lit ''t'') sample_call (fresh_run [] no_budget) = (Inr out, w)
     \<and> lo_value out = JStr (lit ''ok'') \<and> \<not> lo_replayed out"
  by (simp add: execute_call_def sample_call_def sample_env_def validate_spec_def validate_operation_key_def safe_operation_key_def key_char_def strip_ok
      fresh_run_def reserve_call_def start_call_def answer_call_def store_outcome_def evidenceM_def succeedM_def emitM_def set_entryM_def
      set_artifactM_def modifyM_def budgetM_def invokeM_def callbackM_def readM_def liftM_def bindM_def thenM_def catchM_def returnM_def Let_def
      reserve_budget_def add_budget_def zip_budget_def no_budget_def budget_limits_def build_artifact_def encode_outcome_def canonical_bytes_def
      utf8_def canonical_json_def envelope_of_def json_quote_def json_escape_def show_int_def show_nat.simps)

theorem outcome_replayed_witness:
  "\<exists>out w. lo_value out = JStr (lit ''ok'')
     \<and> execute_call sample_env ''MODEL'' (lit ''t'') sample_call (ledger_step sample_env (Restart no_budget no_budget) w)
       = (Inr (out\<lparr>lo_replayed := True\<rparr>), ledger_step sample_env (Restart no_budget no_budget) w)"
proof -
  obtain out w where o: "execute_call sample_env ''MODEL'' (lit ''t'') sample_call (fresh_run [] no_budget) = (Inr out, w)"
      "lo_value out = JStr (lit ''ok'')" "\<not> lo_replayed out"
    using sample_executes by blast
  have v: "lc_validate sample_call (normal (lo_value out)) = Inr (lo_value out)" by (simp add: o(2) sample_call_def strip_ok)
  from outcome_replayed [where env = sample_env and run = "[]" and K = "{sp_operation_key (lc_spec sample_call)}" and earlier = "[]"
      and later = "[Restart no_budget no_budget]" and c = sample_call] o v
  have "execute_call sample_env ''MODEL'' (lit ''t'') sample_call (ledger_step sample_env (Restart no_budget no_budget) w)
       = (Inr (out\<lparr>lo_replayed := True\<rparr>), ledger_step sample_env (Restart no_budget no_budget) w)"
    by (simp add: keys_in_def del: ledger_step.simps)
  with o show ?thesis by blast
qed

end
