(* ===== verification/Ledger_Budget.thy ===== *)
theory Ledger_Budget
  imports Ledger_Safety
begin

text \<open>
  The budget of a run: what a process has consumed and reserved stays within the limits, as long
  as calls consume at most what they reserved.
\<close>

section \<open>Budgets\<close>

lemma budget_field:
  assumes "get \<in> fst ` set budget_limits"
  shows "get (add_budget a b) = get a + get b" "get (subtract_floor a b) = max 0 (get a - get b)"
    "get (zip_budget f a b) = f (get a) (get b)" "get no_budget = 0"
  using assms by (auto simp: budget_limits_def add_budget_def subtract_floor_def zip_budget_def no_budget_def)

lemma check_budget_passed:
  "check_budget fs limits used requested = Inr u \<Longrightarrow> get \<in> fst ` set fs \<Longrightarrow> 0 \<le> get requested \<and> get used + get requested \<le> get limits"
  by (induction fs limits used requested rule: check_budget.induct) (auto split: if_splits)

definition in_flight :: "(pystr, RunLedgerEntry) dict \<Rightarrow> pystr set" where
  "in_flight es = {k. \<exists>e. dict_get es k = Some e \<and> le_status e \<in> {''RESERVED'', ''CALL_STARTED''}}"

lemma in_flight_set: "in_flight (dict_set k e es) =
    (if le_status e \<in> {''RESERVED'', ''CALL_STARTED''} then insert k (in_flight es) else in_flight es - {k})"
  by (auto simp: in_flight_def)

lemma finite_in_flight: "finite (in_flight es)"
proof (rule finite_subset)
  show "in_flight es \<subseteq> set (dict_keys es)" by (auto simp: in_flight_def dict_keys_iff)
qed simp

text \<open>
  The budget of a process in one field: consumed and reserved together stay within the limit, the
  reservations of calls in flight are reserved, and such calls have not been charged yet.
\<close>

definition in_budget :: "(BudgetVector \<Rightarrow> int) \<Rightarrow> (pystr \<Rightarrow> BudgetVector) \<Rightarrow> BudgetState \<Rightarrow> (pystr, RunLedgerEntry) dict \<Rightarrow> bool" where
  "in_budget get res b es \<longleftrightarrow>
     get (bs_consumed b) + get (bs_reserved b) \<le> get (bs_limits b)
     \<and> (\<Sum>k \<in> in_flight es. get (res k)) \<le> get (bs_reserved b)
     \<and> (\<forall>k \<in> in_flight es. 0 \<le> get (res k))
     \<and> (\<forall>k e. dict_get es k = Some e \<longrightarrow> le_status e \<in> {''RESERVED'', ''CALL_STARTED'', ''SUCCEEDED'', ''FAILED''}
          \<and> (k \<in> in_flight es \<longrightarrow> le_consumption e = Some no_budget))"

lemma finish_in_budget:
  assumes get: "get \<in> fst ` set budget_limits" and w: "in_budget get res b es" "k \<in> in_flight es"
    and actual: "0 \<le> get actual" "get actual \<le> get (res k)" and e: "le_status e \<in> {''SUCCEEDED'', ''FAILED''}"
  shows "in_budget get res (finish_budget (res k) actual b) (dict_set k e es)"
proof -
  let ?s = "\<Sum>j \<in> in_flight es - {k}. get (res j)"
  have sum: "(\<Sum>j \<in> in_flight es. get (res j)) = get (res k) + ?s"
    by (rule sum.remove [OF finite_in_flight w(2)])
  have "0 \<le> ?s" using w(1) by (intro sum_nonneg) (auto simp: in_budget_def)
  with sum assms show ?thesis
    by (auto simp: in_budget_def finish_budget_def budget_field [OF get] in_flight_set)
qed

lemma entry_in_budget:
  assumes "in_budget get res b es" "k \<in> in_flight es" "le_status e \<in> {''RESERVED'', ''CALL_STARTED''}" "le_consumption e = Some no_budget"
  shows "in_budget get res b (dict_set k e es)"
  using assms by (auto simp: in_budget_def in_flight_set insert_absorb)

lemma reserve_in_budget:
  assumes get: "get \<in> fst ` set budget_limits" and w: "in_budget get res b es" "k \<notin> in_flight es"
    and b: "reserve_budget (res k) b = Inr b'"
  shows "in_budget get res b' es"
    and "le_status e = ''RESERVED'' \<Longrightarrow> le_consumption e = Some no_budget \<Longrightarrow> in_budget get res b' (dict_set k e es)"
proof -
  from b have "0 \<le> get (res k)" "get (add_budget (bs_consumed b) (bs_reserved b)) + get (res k) \<le> get (bs_limits b)"
    and b': "b' = b\<lparr>bs_reserved := add_budget (bs_reserved b) (res k)\<rparr>"
    using check_budget_passed [OF _ get] by (auto simp: reserve_budget_def bindE_Inr)
  then show "in_budget get res b' es"
    "le_status e = ''RESERVED'' \<Longrightarrow> le_consumption e = Some no_budget \<Longrightarrow> in_budget get res b' (dict_set k e es)"
    using w by (auto simp: in_budget_def budget_field [OF get] in_flight_set finite_in_flight)
qed

text \<open>How a call is charged: its reservation depends on the key only, and it does not exceed it.\<close>

definition charged_call :: "(BudgetVector \<Rightarrow> int) \<Rightarrow> (pystr \<Rightarrow> BudgetVector) \<Rightarrow> LedgerCall \<Rightarrow> bool" where
  "charged_call get res c \<longleftrightarrow> sp_reservation (lc_spec c) = res (sp_operation_key (lc_spec c))
     \<and> (\<forall>f v x. lc_consumption c = Some f \<and> f v = Inr x \<longrightarrow> 0 \<le> get x \<and> get x \<le> get (sp_reservation (lc_spec c)))"

lemma charged_evidence [simp]: "charged_call get res (c\<lparr>lc_evidence := x\<rparr>) = charged_call get res c"
  by (simp add: charged_call_def)

abbreviation kept_budget :: "(BudgetVector \<Rightarrow> int) \<Rightarrow> (pystr \<Rightarrow> BudgetVector) \<Rightarrow> LedgerWorld \<Rightarrow> bool" where
  "kept_budget get res w \<equiv> in_budget get res (lw_budget w) (lw_entries w)"

abbreviation flying :: "(BudgetVector \<Rightarrow> int) \<Rightarrow> (pystr \<Rightarrow> BudgetVector) \<Rightarrow> LedgerCall \<Rightarrow> LedgerWorld \<Rightarrow> bool" where
  "flying get res c w \<equiv> kept_budget get res w \<and> sp_operation_key (lc_spec c) \<in> in_flight (lw_entries w)"

lemma budget_succeed:
  assumes "get \<in> fst ` set budget_limits" "charged_call get res c" "flying get res c w"
    "0 \<le> get actual" "get actual \<le> get (sp_reservation (lc_spec c))"
  shows "wp (succeedM env (lc_spec c) actual a items) (\<lambda>_. kept_budget get res) (\<lambda>_. kept_budget get res) w"
  using assms(2-) by (auto simp: succeedM_def Let_def wp_rules charged_call_def intro!: wp_emitI finish_in_budget [OF assms(1)])

lemma budget_fail:
  assumes "get \<in> fst ` set budget_limits" "charged_call get res c" "flying get res c w"
  shows "wp (fail_call env (lc_spec c) e) (\<lambda>_ _. False) (\<lambda>_. kept_budget get res) w"
proof -
  have "0 \<le> get (res (sp_operation_key (lc_spec c)))" using assms(3) by (auto simp: in_budget_def)
  with assms(2-) show ?thesis
    by (auto simp: fail_call_def Let_def wp_rules charged_call_def intro!: wp_emitI finish_in_budget [OF assms(1)])
qed

lemma budget_evidence: "flying get res c w \<Longrightarrow> wp (evidenceM env c' v) (\<lambda>_. flying get res c) (\<lambda>_. kept_budget get res) w"
  by (auto simp: evidenceM_def wp_rules intro!: wp_emitI split: option.split sum.split)

lemma budget_store:
  assumes "get \<in> fst ` set budget_limits" "charged_call get res c" "flying get res c w"
  shows "wp (store_outcome env ty c v) (\<lambda>_. kept_budget get res) (\<lambda>_. kept_budget get res) w"
proof -
  have "0 \<le> get (sp_reservation (lc_spec c))" using assms(2,3) by (auto simp: in_budget_def charged_call_def)
  then show ?thesis using assms(2,3)
    by (auto simp: store_outcome_def Let_def wp_rules charged_call_def split: option.split sum.split
        intro!: wp_emitI wp_mono [OF budget_evidence [where c = c]] wp_mono [OF budget_succeed [OF assms(1,2)]])
qed

lemma budget_answer:
  assumes "get \<in> fst ` set budget_limits" "charged_call get res c" "flying get res c w"
  shows "wp (answer_call env c) (\<lambda>_. flying get res c) (\<lambda>_. kept_budget get res) w"
  using assms(3) by (auto simp: answer_call_def wp_rules split: sum.split intro!: wp_mono [OF budget_fail [OF assms(1,2)]])

lemma budget_start:
  assumes "get \<in> fst ` set budget_limits" "charged_call get res c" "flying get res c w"
  shows "wp (start_call env ty c) (\<lambda>_. kept_budget get res) (\<lambda>_. kept_budget get res) w"
  using assms(3)
  by (auto simp: start_call_def Let_def wp_then wp_set_entry in_flight_set
      intro!: wp_emitI wp_seq [OF budget_answer [OF assms(1,2)]] budget_store [OF assms(1,2)] entry_in_budget)

lemma budget_reserve:
  assumes "get \<in> fst ` set budget_limits" "charged_call get res c" "kept_budget get res w" "sp_operation_key (lc_spec c) \<notin> in_flight (lw_entries w)"
  shows "wp (reserve_call env (lc_spec c)) (\<lambda>_. flying get res c) (\<lambda>_. kept_budget get res) w"
  using assms(2,3) reserve_in_budget [OF assms(1,3,4)]
  by (auto simp: reserve_call_def Let_def wp_rules charged_call_def in_flight_set split: sum.split intro!: wp_emitI)

lemma budget_finish_ahead:
  assumes "get \<in> fst ` set budget_limits" "charged_call get res c" "flying get res c w" "le_consumption e = Some no_budget"
  shows "wp (finish_durable_ahead env e c) (\<lambda>_. kept_budget get res) (\<lambda>_. kept_budget get res) w"
proof -
  have "0 \<le> get (sp_reservation (lc_spec c))" using assms(2,3) by (auto simp: in_budget_def charged_call_def)
  then show ?thesis using assms(3,4)
    by (auto simp: finish_durable_ahead_def Let_def wp_rules split: option.split sum.split
        intro!: wp_mono [OF budget_evidence [where c = c]] wp_mono [OF budget_succeed [OF assms(1,2)]])
qed

lemma budget_execute:
  assumes "get \<in> fst ` set budget_limits" "charged_call get res c" "kept_budget get res w"
  shows "wp (execute_call env kind ty c) (\<lambda>_. kept_budget get res) (\<lambda>_. kept_budget get res) w"
proof -
  let ?k = "sp_operation_key (lc_spec c)"
  have new: "wp (thenM (reserve_call env (lc_spec c)) (start_call env ty c)) (\<lambda>_. kept_budget get res) (\<lambda>_. kept_budget get res) w"
    if "?k \<notin> in_flight (lw_entries w)"
    by (rule wp_seq_then [OF budget_reserve [OF assms that] budget_start [OF assms(1,2)]])
  show ?thesis
  proof (cases "dict_get (lw_entries w) ?k")
    case None
    then have "?k \<notin> in_flight (lw_entries w)" by (simp add: in_flight_def)
    with new None assms(3) show ?thesis by (auto simp: execute_call_def Let_def wp_bind wp_then [of "liftM _"] wp_readM wp_lift split: sum.split)
  next
    case (Some e)
    have st: "le_status e \<in> {''RESERVED'', ''CALL_STARTED'', ''SUCCEEDED'', ''FAILED''}"
      "?k \<in> in_flight (lw_entries w) \<Longrightarrow> le_consumption e = Some no_budget" using assms(3) Some unfolding in_budget_def by blast+
    have fl: "le_status e \<in> {''RESERVED'', ''CALL_STARTED''} \<Longrightarrow> ?k \<in> in_flight (lw_entries w)" using Some by (simp add: in_flight_def)
    show ?thesis using st fl assms(3) Some
      by (auto simp: execute_call_def Let_def wp_rules split: sum.split
          intro!: wp_replay_entry budget_finish_ahead [OF assms(1,2)] budget_start [OF assms(1,2)])
  qed
qed

lemma budget_transition:
  assumes "get \<in> fst ` set budget_limits" "get (sp_reservation spec) = 0" "kept_budget get res w"
  shows "wp (consume_transition env spec) (\<lambda>_. kept_budget get res) (\<lambda>_. kept_budget get res) w"
proof -
  have "in_budget get res b (lw_entries w)" "dict_get (lw_entries w) (sp_operation_key spec) = None
      \<Longrightarrow> le_status e = ''SUCCEEDED'' \<Longrightarrow> in_budget get res b (dict_set (sp_operation_key spec) e (lw_entries w))"
    if "consume_budget (sp_reservation spec) (lw_budget w) = Inr b" for b e
    using that assms(2,3)
    by (auto simp: consume_budget_def bindE_Inr in_budget_def budget_field [OF assms(1)] in_flight_set)
      (auto simp: in_flight_def)
  with assms(3) show ?thesis
    by (auto simp: consume_transition_def Let_def wp_rules split: option.split sum.split intro!: wp_emitI)
qed

text \<open>Calls charged within their reservations, and transitions that are not charged in the field.\<close>

fun charged :: "(BudgetVector \<Rightarrow> int) \<Rightarrow> (pystr \<Rightarrow> BudgetVector) \<Rightarrow> LedgerAction \<Rightarrow> bool" where
  "charged get res (DoModel c) = charged_call get res c"
| "charged get res (DoCapability c) = charged_call get res c"
| "charged get res (DoDerivation ty c) = charged_call get res c"
| "charged get res (DoTransition spec) = (get (sp_reservation spec) = 0)"
| "charged get res (Restart limits consumed) = False"

lemma budget_step:
  assumes "get \<in> fst ` set budget_limits" "charged get res a" "kept_budget get res w"
  shows "kept_budget get res (ledger_step env a w)"
proof (cases a)
  case (DoModel c)
  with assms(2) have "charged_call get res (c\<lparr>lc_evidence := None\<rparr>)" by simp
  from budget_execute [OF assms(1) this assms(3)] DoModel show ?thesis by (simp add: execute_model_def wp_snd)
next
  case (DoCapability c)
  with budget_execute [OF assms(1) _ assms(3)] assms(2) show ?thesis by (simp add: execute_capability_def wp_snd)
next
  case (DoDerivation ty c)
  with assms(2) have "charged_call get res (c\<lparr>lc_evidence := None\<rparr>)" by simp
  from budget_execute [OF assms(1) this assms(3)] assms(3)
  have "wp (execute_derivation env ty c) (\<lambda>_. kept_budget get res) (\<lambda>_. kept_budget get res) w" by (simp add: execute_derivation_def wp_rules)
  with DoDerivation show ?thesis by (simp add: wp_snd)
next
  case (DoTransition spec)
  with budget_transition [OF assms(1) _ assms(3)] assms(2) show ?thesis by (simp add: wp_snd)
qed (use assms in simp)

lemma budget_steps:
  assumes "get \<in> fst ` set budget_limits"
  shows "list_all (charged get res) actions \<Longrightarrow> kept_budget get res w \<Longrightarrow> kept_budget get res (run_commands (ledger_step env) actions w)"
  by (induction actions arbitrary: w) (simp_all add: budget_step [OF assms])

text \<open>
  C22. A process keeps to its budget under the conditions the ledger relies on. For a field of the
  budget, as long as the process is not restarted, no transition charges the field, every call
  reserves the same for the same operation key and consumes at most what it reserved, the sum of
  what is consumed and reserved stays within the limit, whatever calls are made and whatever
  fails, and what the ledger reports as remaining is the exact difference.
\<close>

theorem budget_respected:
  assumes "get \<in> fst ` set budget_limits" and "0 \<le> get limits" and "list_all (charged get res) actions"
    and "b = lw_budget (run_commands (ledger_step env) actions (fresh_run run limits))"
  shows "get (bs_consumed b) + get (bs_reserved b) \<le> get (bs_limits b)
    \<and> get (remaining_budget b) = get (bs_limits b) - get (bs_consumed b) - get (bs_reserved b)"
proof -
  have "kept_budget get res (fresh_run run limits)"
    using assms(2) by (simp add: fresh_run_def in_budget_def in_flight_def budget_field [OF assms(1)])
  from budget_steps [OF assms(1,3) this, of env] assms(4) show ?thesis
    by (simp add: in_budget_def remaining_budget_def budget_field [OF assms(1)])
qed

definition paid_call :: LedgerCall where
  "paid_call = sample_call\<lparr>lc_spec := (lc_spec sample_call)\<lparr>sp_reservation := no_budget\<lparr>bv_tool_calls := 2\<rparr>\<rparr>,
     lc_consumption := Some (\<lambda>_. Inr (no_budget\<lparr>bv_tool_calls := 1\<rparr>))\<rparr>"

lemma paid_executes:
  "bv_tool_calls (bs_consumed (lw_budget (ledger_step sample_env (DoModel paid_call) (fresh_run [] (no_budget\<lparr>bv_tool_calls := 3\<rparr>))))) = 1
   \<and> bs_limits (lw_budget (ledger_step sample_env (DoModel paid_call) (fresh_run [] (no_budget\<lparr>bv_tool_calls := 3\<rparr>)))) = no_budget\<lparr>bv_tool_calls := 3\<rparr>"
  by (simp add: execute_model_def execute_call_def paid_call_def sample_call_def sample_env_def validate_spec_def validate_operation_key_def safe_operation_key_def
      key_char_def strip_ok
      fresh_run_def reserve_call_def start_call_def answer_call_def store_outcome_def evidenceM_def succeedM_def emitM_def set_entryM_def
      set_artifactM_def modifyM_def budgetM_def invokeM_def callbackM_def readM_def liftM_def bindM_def thenM_def catchM_def returnM_def Let_def
      reserve_budget_def finish_budget_def add_budget_def zip_budget_def no_budget_def budget_limits_def build_artifact_def encode_outcome_def canonical_bytes_def
      utf8_def canonical_json_def envelope_of_def json_quote_def json_escape_def show_int_def show_nat.simps)

theorem budget_respected_witness:
  "\<exists>b. b = lw_budget (run_commands (ledger_step sample_env) [DoModel paid_call] (fresh_run [] (no_budget\<lparr>bv_tool_calls := 3\<rparr>)))
     \<and> bv_tool_calls (bs_consumed b) = 1 \<and> bv_tool_calls (bs_consumed b) + bv_tool_calls (bs_reserved b) \<le> 3
     \<and> bv_tool_calls (remaining_budget b) = 3 - 1 - bv_tool_calls (bs_reserved b)"
  using budget_respected [of bv_tool_calls "no_budget\<lparr>bv_tool_calls := 3\<rparr>" "\<lambda>_. no_budget\<lparr>bv_tool_calls := 2\<rparr>" "[DoModel paid_call]" _ sample_env "[]"] paid_executes
  by (simp add: budget_limits_def charged_call_def paid_call_def sample_call_def no_budget_def del: ledger_step.simps)

end
