(* ===== verification/Historical_Chunking.thy ===== *)
theory Historical_Chunking
  imports Py_Text Py_Json
begin

text \<open>
  The index of earlier documents (\<^verbatim>\<open>src/prd_agent/historical\<close>): sections, blocks and
  chunks of a markdown text, and the tokens it is searched by. Unicode normalisation and
  \<open>str.lower\<close>, the hash and the identifiers derived from it are parameters.
\<close>

section \<open>Sections\<close>

text \<open>
  \<open>_HEADING\<close>: one to three number signs, white space, a title. The pattern also accepts a
  title of white space only, which is stripped to the empty title.
\<close>

definition heading_of :: "pystr \<Rightarrow> (nat \<times> pystr) option" where
  "heading_of line =
     (let n = length (takeWhile (\<lambda>c. c = 35) line); rest = drop n line in
      if 1 \<le> n \<and> n \<le> 3 \<and> 2 \<le> length rest \<and> is_space (hd rest) then Some (n, strip rest) else None)"

record SectionState =
  sec_paths :: "pystr list"
  sec_current :: "pystr list"
  sec_lines :: "pystr list"
  sec_result :: "(pystr list \<times> pystr) list"

definition flush_section :: "SectionState \<Rightarrow> SectionState" where
  "flush_section s =
     (let content = strip (join_str [10] (sec_lines s)) in
      if content \<noteq> [] then s\<lparr>sec_result := sec_result s @ [(sec_current s, content)]\<rparr> else s)"

definition section_line :: "pystr \<Rightarrow> SectionState \<Rightarrow> SectionState" where
  "section_line line s =
     (case heading_of line of
        None \<Rightarrow> s\<lparr>sec_lines := sec_lines s @ [line]\<rparr>
      | Some (level, title) \<Rightarrow>
          (let s = flush_section s;
               kept = take (level - 1) (sec_paths s);
               paths = kept @ replicate (level - 1 - length kept) [] @ [title] in
           s\<lparr>sec_lines := [], sec_paths := paths, sec_current := filter (\<lambda>p. p \<noteq> []) paths\<rparr>))"

definition sections_of :: "pystr \<Rightarrow> (pystr list \<times> pystr) list" where
  "sections_of markdown =
     sec_result (flush_section (fold section_line (splitlines markdown)
       \<lparr>sec_paths = [], sec_current = [], sec_lines = [], sec_result = []\<rparr>))"

section \<open>Chunks\<close>

text \<open>The characters after which a block may be cut.\<close>

definition cut_marks :: "nat list" where
  "cut_marks = [10, 12290, 65281, 65311, 46, 59, 65307]"

text \<open>The last positions of the marks that occur, and the cut behind the last of them.\<close>

definition mark_positions :: "nat \<Rightarrow> pystr \<Rightarrow> nat list" where
  "mark_positions hard s = concat (map (\<lambda>m. case rfind m (hard + 1) s of None \<Rightarrow> [] | Some i \<Rightarrow> [i]) cut_marks)"

definition cut_boundary :: "nat \<Rightarrow> pystr \<Rightarrow> nat" where
  "cut_boundary hard s =
     (case mark_positions hard s of
        [] \<Rightarrow> hard
      | i # is \<Rightarrow> if foldl max i is < hard div 2 then hard else foldl max i is + 1)"

text \<open>The limit is positive: \<open>chunk_markdown\<close> checks it.\<close>

function split_loop :: "nat \<Rightarrow> pystr \<Rightarrow> pystr list" where
  "split_loop hard remaining =
     (if hard < length remaining \<and> 0 < hard then
        strip (take (cut_boundary hard remaining) remaining) # split_loop hard (strip (drop (cut_boundary hard remaining) remaining))
      else if remaining \<noteq> [] then [remaining] else [])"
  by pat_completeness auto

lemma cut_boundary_pos: "0 < hard \<Longrightarrow> 0 < cut_boundary hard s"
  by (simp add: cut_boundary_def split: list.split)

termination split_loop
proof (relation "measure (\<lambda>(hard, s). length s)", goal_cases)
  case (2 hard s)
  then have "0 < cut_boundary hard s" "s \<noteq> []" using cut_boundary_pos by auto
  then have "length (drop (cut_boundary hard s) s) < length s" by simp
  with strip_length [of "drop (cut_boundary hard s) s"] show ?case by simp
qed simp

declare split_loop.simps [simp del]

definition hard_split :: "pystr \<Rightarrow> nat \<Rightarrow> pystr list" where
  "hard_split value hard = split_loop hard (strip value)"

text \<open>
  \<open>re.split(r"\n\s*\n", content)\<close>: a separator starts at a line feed and reaches to the last
  line feed of the white space behind it.
\<close>

definition blank_gap :: "pystr \<Rightarrow> nat option" where
  "blank_gap s =
     (case s of
        [] \<Rightarrow> None
      | c # r \<Rightarrow>
          if c = 10 then map_option Suc (rfind 10 (length (takeWhile is_space r)) r) else None)"

fun split_blank :: "nat \<Rightarrow> pystr \<Rightarrow> pystr list" where
  "split_blank skip [] = [[]]"
| "split_blank (Suc skip) (c # s) = split_blank skip s"
| "split_blank 0 (c # s) =
     (case blank_gap (c # s) of
        Some gap \<Rightarrow> [] # split_blank gap s
      | None \<Rightarrow> (case split_blank 0 s of [] \<Rightarrow> [[c]] | w # ws \<Rightarrow> (c # w) # ws))"

definition blocks_of :: "pystr \<Rightarrow> pystr list" where
  "blocks_of content = filter (\<lambda>b. b \<noteq> []) (map strip (split_blank 0 content))"

text \<open>One block in the loop of \<open>_chunk_section\<close>: the finished chunks and the current one.\<close>

definition chunk_block :: "nat \<Rightarrow> nat \<Rightarrow> pystr \<Rightarrow> pystr list \<times> pystr \<Rightarrow> pystr list \<times> pystr" where
  "chunk_block target hard block state =
     (let (chunks, current) = state;
          candidate = (if current \<noteq> [] then strip (current @ [10, 10] @ block) else block);
          (chunks, current) = (if current \<noteq> [] \<and> target < length candidate then (chunks @ [current], block) else (chunks, candidate)) in
      if hard \<le> length current then (chunks @ [current], []) else (chunks, current))"

definition chunk_section :: "nat \<Rightarrow> nat \<Rightarrow> pystr \<Rightarrow> pystr list" where
  "chunk_section target hard content =
     (let (chunks, current) =
        fold (\<lambda>original. fold (chunk_block target hard) (hard_split original hard)) (blocks_of content) ([], []) in
      if current \<noteq> [] then chunks @ [current] else chunks)"

section \<open>Tokens\<close>

definition is_word_char :: "nat \<Rightarrow> bool" where
  "is_word_char c \<longleftrightarrow> (97 \<le> c \<and> c \<le> 122) \<or> (48 \<le> c \<and> c \<le> 57)"

definition is_cjk :: "nat \<Rightarrow> bool" where
  "is_cjk c \<longleftrightarrow> (13312 \<le> c \<and> c \<le> 19903) \<or> (19968 \<le> c \<and> c \<le> 40959)"

text \<open>The matches of \<open>_ASCII_WORD_OR_CJK\<close>, from left to right.\<close>

function token_runs :: "pystr \<Rightarrow> pystr list" where
  "token_runs s =
     (case s of
        [] \<Rightarrow> []
      | c # r \<Rightarrow>
          if is_word_char c then (c # takeWhile is_word_char r) # token_runs (dropWhile is_word_char r)
          else if is_cjk c then (c # takeWhile is_cjk r) # token_runs (dropWhile is_cjk r)
          else token_runs r)"
  by pat_completeness auto
termination
  by (relation "measure length") (auto simp: less_Suc_eq_le intro: length_dropWhile_le)

declare token_runs.simps [simp del]

definition default_stopwords :: "pystr list" where
  "default_stopwords =
     [lit ''a'', lit ''an'', lit ''and'', lit ''or'', lit ''the'', lit ''to'', lit ''of'', lit ''in'', lit ''is'',
      [20026], [19982], [21644], [30340], [20102]]"

definition tokens_of_run :: "pystr \<Rightarrow> pystr list" where
  "tokens_of_run part =
     (if \<forall>c \<in> set part. c < 128 then (if part \<in> set default_stopwords then [] else [part])
      else filter (\<lambda>w. w \<notin> set default_stopwords) (map (\<lambda>c. [c]) part)
        @ map (\<lambda>i. take 2 (drop i part)) [0..<length part - 1])"

definition tokenize :: "(pystr \<Rightarrow> pystr) \<Rightarrow> pystr \<Rightarrow> pystr list" where
  "tokenize fold_case s = concat (map tokens_of_run (token_runs (fold_case s)))"

definition token_text :: "(pystr \<Rightarrow> pystr) \<Rightarrow> pystr \<Rightarrow> pystr \<Rightarrow> pystr list \<Rightarrow> pystr \<times> nat" where
  "token_text fold_case content title tags =
     (let weighted = tokenize fold_case content @ tokenize fold_case title @ tokenize fold_case title
            @ tokenize fold_case (join_str [32] tags) @ tokenize fold_case (join_str [32] tags) in
      (join_str [32] weighted, length weighted))"

section \<open>Documents\<close>

record HistoricalPrdChunk =
  hc_chunk_id :: pystr
  hc_document_version_id :: pystr
  hc_section_path :: "pystr list"
  hc_ordinal :: nat
  hc_content :: pystr
  hc_content_hash :: pystr
  hc_token_text :: pystr
  hc_token_count :: nat

text \<open>The field constraints of the model: a chunk has between one and 1200 characters.\<close>

definition validate_chunk :: "HistoricalPrdChunk \<Rightarrow> exn + HistoricalPrdChunk" where
  "validate_chunk c =
     (if 1 \<le> length (hc_content c) \<and> length (hc_content c) \<le> 1200 then Inr c else Inl (ValidationError ''content''))"

record IndexEnv =
  ix_sha256 :: "pystr \<Rightarrow> pystr"
  ix_fold_case :: "pystr \<Rightarrow> pystr"

definition digest :: "IndexEnv \<Rightarrow> json \<Rightarrow> string \<Rightarrow> pystr" where
  "digest env v prefix = lit prefix @ [45] @ take 32 (ix_sha256 env (canonical_json v))"

definition text_hash :: "IndexEnv \<Rightarrow> pystr \<Rightarrow> pystr" where
  "text_hash env s = lit ''sha256:'' @ ix_sha256 env s"

definition make_chunk :: "IndexEnv \<Rightarrow> pystr \<Rightarrow> pystr \<Rightarrow> pystr list \<Rightarrow> nat \<Rightarrow> pystr list \<times> pystr \<Rightarrow> exn + HistoricalPrdChunk" where
  "make_chunk env version title tags ordinal pc =
     (let (path, content) = pc; hashed = text_hash env content; (indexed, count) = token_text (ix_fold_case env) content title tags in
      validate_chunk
        \<lparr>hc_chunk_id = digest env
           (JObj [(lit ''document_version_id'', JStr version), (lit ''section_path'', JList (map JStr path)),
                  (lit ''ordinal'', JInt (int ordinal)), (lit ''content_hash'', JStr hashed)]) ''chunk'',
         hc_document_version_id = version, hc_section_path = path, hc_ordinal = ordinal, hc_content = content,
         hc_content_hash = hashed, hc_token_text = indexed, hc_token_count = count\<rparr>)"

definition chunk_markdown :: "IndexEnv \<Rightarrow> pystr \<Rightarrow> pystr \<Rightarrow> pystr \<Rightarrow> pystr list \<Rightarrow> nat \<Rightarrow> nat \<Rightarrow> exn + HistoricalPrdChunk list" where
  "chunk_markdown env markdown version title tags target hard =
     (if \<not> (1 \<le> target \<and> target \<le> hard \<and> hard \<le> 1200)
      then Inl (ValueError ''chunk limits must satisfy 1 <= target <= hard <= 1200'')
      else
        mapE (\<lambda>(i, pc). make_chunk env version title tags i pc)
          (enumerate 0 (concat (map (\<lambda>(path, content). map (Pair path) (chunk_section target hard content)) (sections_of markdown)))))"

end
