(* ===== verification/Chunking_Correct.thy ===== *)
theory Chunking_Correct
  imports Historical_Chunking
begin

text \<open>
  Cutting a document into chunks loses no text: sizes, coverage and order of the chunks.
\<close>

section \<open>Cutting a block\<close>

lemma foldl_max_mem: "foldl max (i::nat) is \<in> set (i # is)"
  using foldl_max_in [of i "is"] by simp

lemma mark_positions_le: "i \<in> set (mark_positions hard s) \<Longrightarrow> i \<le> hard"
  by (auto simp: mark_positions_def split: option.splits dest!: rfind_bound [OF sym])

lemma cut_boundary_le: "cut_boundary hard s \<le> hard + 1"
proof (cases "mark_positions hard s")
  case (Cons i "is")
  have "foldl max i is \<le> hard" by (rule mark_positions_le [of _ hard s]) (simp only: Cons foldl_max_mem)
  with Cons show ?thesis by (simp add: cut_boundary_def)
qed (simp add: cut_boundary_def)

lemma visible_hd: "s \<noteq> [] \<Longrightarrow> \<not> is_space (hd s) \<Longrightarrow> 0 < n \<Longrightarrow> visible (take n s) \<noteq> []"
  by (cases s; cases n) (auto simp: visible_def)

lemma split_loop_pieces:
  assumes "0 < hard" "strip s = s"
  shows "(\<forall>p \<in> set (split_loop hard s). p \<noteq> [] \<and> length p \<le> hard + 1) \<and> visible (concat (split_loop hard s)) = visible s"
  using assms
proof (induction hard s rule: split_loop.induct)
  case (1 hard s)
  show ?case
  proof (cases "hard < length s")
    case True
    let ?n = "cut_boundary hard s"
    have "s \<noteq> []" using True by auto
    then have "\<not> is_space (hd s)" using strip_not_space [of s] 1(3) by simp
    then have "strip (take ?n s) \<noteq> []"
      using visible_hd [OF \<open>s \<noteq> []\<close> _ cut_boundary_pos [OF 1(2)]] visible_blank by blast
    moreover have "length (strip (take ?n s)) \<le> hard + 1"
      using strip_length [of "take ?n s"] cut_boundary_le [of hard s] by simp
    moreover have "visible (take ?n s) @ visible (drop ?n s) = visible s" by (metis append_take_drop_id visible_simps(2))
    ultimately show ?thesis using 1 True by (subst (1 2) split_loop.simps) simp
  next
    case False
    then show ?thesis by (subst (1 2) split_loop.simps) auto
  qed
qed

lemma hard_split_pieces:
  assumes "0 < hard"
  shows "\<forall>p \<in> set (hard_split v hard). p \<noteq> [] \<and> length p \<le> hard + 1" "visible (concat (hard_split v hard)) = visible v"
  using split_loop_pieces [OF assms strip_strip, of v] by (simp_all add: hard_split_def)

section \<open>Blocks\<close>

lemma blank_gap_space:
  assumes "blank_gap (c # s) = Some gap"
  shows "is_space c \<and> visible (take gap s) = []"
proof -
  obtain j where j: "rfind 10 (length (takeWhile is_space s)) s = Some j" "gap = Suc j" "c = 10"
    using assms by (auto simp: blank_gap_def split: if_splits)
  have "Suc j \<le> length (takeWhile is_space s)" using rfind_bound [OF j(1)] by simp
  then have "take gap s = take gap (takeWhile is_space s)" using j(2) by (metis takeWhile_eq_take take_take min.absorb1)
  then have "\<forall>x \<in> set (take gap s). is_space x" by (metis in_set_takeD set_takeWhileD)
  with j(3) show ?thesis by (auto simp: visible_def is_space_def)
qed

lemma split_blank_visible: "visible (concat (split_blank k s)) = visible (drop k s)"
proof (induction k s rule: split_blank.induct)
  case (3 c s)
  show ?case
  proof (cases "blank_gap (c # s)")
    case None
    have "visible (concat (case split_blank 0 s of [] \<Rightarrow> [[c]] | w # ws \<Rightarrow> (c # w) # ws)) = visible (c # concat (split_blank 0 s))"
      by (cases "split_blank 0 s") simp_all
    with 3(1) [OF None] None show ?thesis by (simp add: visible_def)
  next
    case (Some gap)
    have "visible s = visible (take gap s) @ visible (drop gap s)" by (metis append_take_drop_id visible_simps(2))
    with 3(2) [OF Some] Some blank_gap_space [OF Some] show ?thesis by (simp add: visible_def)
  qed
qed simp_all

lemma visible_concat_strip: "visible (concat (filter (\<lambda>b. b \<noteq> []) (map strip xs))) = visible (concat xs)"
proof (induction xs)
  case (Cons x xs)
  show ?case
  proof (cases "strip x = []")
    case True
    then have "visible x = []" by (simp add: visible_blank)
    with Cons True show ?thesis by simp
  qed (use Cons in simp)
qed simp

lemma blocks_of_visible: "visible (concat (blocks_of content)) = visible content"
  by (simp add: blocks_of_def visible_concat_strip split_blank_visible)

section \<open>Collecting chunks\<close>

text \<open>The state of the loop: finished chunks of the right size, and a current one that is still short.\<close>

definition chunk_state :: "nat \<Rightarrow> pystr list \<times> pystr \<Rightarrow> bool" where
  "chunk_state hard st \<longleftrightarrow> (\<forall>c \<in> set (fst st). c \<noteq> [] \<and> length c \<le> hard + 1) \<and> length (snd st) < hard"

abbreviation state_text :: "pystr list \<times> pystr \<Rightarrow> pystr" where
  "state_text st \<equiv> visible (concat (fst st)) @ visible (snd st)"

lemma chunk_block_step:
  assumes "chunk_state hard st" "1 \<le> target" "target \<le> hard" "block \<noteq> []" "length block \<le> hard + 1"
  shows "chunk_state hard (chunk_block target hard block st) \<and> state_text (chunk_block target hard block st) = state_text st @ visible block"
proof -
  obtain chunks current where st: "st = (chunks, current)" by fastforce
  have v: "visible (10 # 10 # block) = visible block" by (simp add: visible_def is_space_def)
  show ?thesis
  proof (cases "current = []")
    case True
    with assms show ?thesis by (auto simp: st chunk_block_def chunk_state_def)
  next
    case False
    have "visible (strip (current @ [10, 10] @ block)) = visible current @ visible block" using v by simp
    with False assms show ?thesis by (auto simp: st chunk_block_def chunk_state_def Let_def)
  qed
qed

lemma chunk_blocks_fold:
  assumes "1 \<le> target" "target \<le> hard"
  shows "\<lbrakk>chunk_state hard st; \<forall>b \<in> set bs. b \<noteq> [] \<and> length b \<le> hard + 1\<rbrakk>
    \<Longrightarrow> chunk_state hard (fold (chunk_block target hard) bs st)
      \<and> state_text (fold (chunk_block target hard) bs st) = state_text st @ visible (concat bs)"
proof (induction bs arbitrary: st)
  case (Cons b bs)
  with chunk_block_step [OF Cons.prems(1) assms, of b] Cons.IH [of "chunk_block target hard b st"] show ?case by simp
qed simp

lemma chunk_originals_fold:
  assumes "1 \<le> target" "target \<le> hard"
  shows "chunk_state hard st
    \<Longrightarrow> chunk_state hard (fold (\<lambda>original. fold (chunk_block target hard) (hard_split original hard)) os st)
      \<and> state_text (fold (\<lambda>original. fold (chunk_block target hard) (hard_split original hard)) os st) = state_text st @ visible (concat os)"
proof (induction os arbitrary: st)
  case (Cons b os)
  have "0 < hard" using assms by simp
  note pieces = hard_split_pieces [OF this, of b]
  from chunk_blocks_fold [OF assms Cons.prems pieces(1)] Cons.IH [of "fold (chunk_block target hard) (hard_split b hard) st"] pieces(2)
  show ?case by simp
qed simp

lemma chunk_section_chunks:
  assumes "1 \<le> target" "target \<le> hard"
  shows "(\<forall>c \<in> set (chunk_section target hard content). c \<noteq> [] \<and> length c \<le> hard + 1)
    \<and> visible (concat (chunk_section target hard content)) = visible content"
proof -
  let ?f = "fold (\<lambda>original. fold (chunk_block target hard) (hard_split original hard)) (blocks_of content) ([], [])"
  have "chunk_state hard ([], [])" using assms by (simp add: chunk_state_def)
  from chunk_originals_fold [OF assms this, of "blocks_of content"] show ?thesis
    by (cases ?f) (auto simp: chunk_section_def chunk_state_def blocks_of_visible)
qed

section \<open>Sections\<close>

lemma visible_join: "visible (join_str [10] ls) = visible (concat ls)"
proof (induction "[10::nat]" ls rule: join_str.induct)
  case (3 s t ts)
  then show ?case by (simp add: visible_def is_space_def)
qed simp_all

abbreviation section_text :: "SectionState \<Rightarrow> pystr" where
  "section_text s \<equiv> visible (concat (map snd (sec_result s))) @ visible (concat (sec_lines s))"

lemma flush_section_text: "visible (concat (map snd (sec_result (flush_section s)))) = section_text s"
proof (cases "strip (join_str [10] (sec_lines s)) = []")
  case True
  then have "visible (concat (sec_lines s)) = []" by (simp add: visible_blank visible_join)
  with True show ?thesis by (simp add: flush_section_def)
next
  case False
  then show ?thesis by (simp add: flush_section_def visible_join)
qed

lemma section_line_text:
  "section_text (section_line line s) = section_text s @ (case heading_of line of None \<Rightarrow> visible line | Some h \<Rightarrow> [])"
  by (simp add: section_line_def Let_def flush_section_text split: option.split)

lemma section_fold_text:
  "section_text (fold section_line ls s) = section_text s @ visible (concat (filter (\<lambda>l. heading_of l = None) ls))"
  by (induction ls arbitrary: s) (simp_all add: section_line_text split: option.split)

lemma sections_of_text:
  "visible (concat (map snd (sections_of markdown))) = visible (concat (filter (\<lambda>l. heading_of l = None) (splitlines markdown)))"
  by (simp add: sections_of_def flush_section_text section_fold_text)

section \<open>Documents\<close>

definition pieces_of :: "nat \<Rightarrow> nat \<Rightarrow> pystr \<Rightarrow> (pystr list \<times> pystr) list" where
  "pieces_of target hard markdown =
     concat (map (\<lambda>(path, content). map (Pair path) (chunk_section target hard content)) (sections_of markdown))"

lemma map_snd_Pair: "map (snd \<circ> Pair p) xs = xs"
  by (induction xs) simp_all

lemma pieces_of_text:
  assumes "1 \<le> target" "target \<le> hard"
  shows "visible (concat (map snd (pieces_of target hard markdown))) = visible (concat (filter (\<lambda>l. heading_of l = None) (splitlines markdown)))"
proof -
  have "visible (concat (map snd (concat (map (\<lambda>(path, content). map (Pair path) (chunk_section target hard content)) ss)))) = visible (concat (map snd ss))"
    for ss :: "(pystr list \<times> pystr) list"
  proof (induction ss)
    case (Cons pc ss)
    obtain p c where "pc = (p, c)" by fastforce
    with Cons chunk_section_chunks [OF assms, of c] show ?case by (simp add: map_snd_Pair)
  qed simp
  then show ?thesis by (simp add: pieces_of_def sections_of_text)
qed

lemma pieces_of_size:
  assumes "1 \<le> target" "target \<le> hard"
  shows "\<forall>pc \<in> set (pieces_of target hard markdown). snd pc \<noteq> [] \<and> length (snd pc) \<le> hard + 1"
  using chunk_section_chunks [OF assms] by (auto simp: pieces_of_def)

lemma make_chunk_fields:
  "make_chunk env version title tags i pc = Inr c \<Longrightarrow> hc_ordinal c = i \<and> hc_content c = snd pc \<and> hc_section_path c = fst pc \<and> hc_document_version_id c = version"
  by (auto simp: make_chunk_def validate_chunk_def Let_def split: prod.splits if_splits)

lemma make_chunk_total: "snd pc \<noteq> [] \<Longrightarrow> length (snd pc) \<le> 1200 \<Longrightarrow> \<exists>c. make_chunk env version title tags i pc = Inr c"
  by (auto simp: make_chunk_def validate_chunk_def Let_def Suc_le_eq split: prod.split)

text \<open>
  C23. Below the maximal size, cutting a document loses nothing. For all limits with
  \<open>1 <= target <= hard < 1200\<close> it returns chunks that are not empty, have at most
  \<open>hard + 1\<close> characters, are numbered from zero in order, and together contain all the text of the lines that are not headings,
  character by character, in order, apart from white space.
\<close>

theorem chunks_cover_text:
  assumes "1 \<le> target" and "target \<le> hard" and "hard < 1200"
  shows "\<exists>chunks. chunk_markdown env markdown version title tags target hard = Inr chunks
    \<and> map hc_ordinal chunks = [0..<length chunks]
    \<and> list_all (\<lambda>c. hc_content c \<noteq> [] \<and> length (hc_content c) \<le> hard + 1) chunks
    \<and> visible (concat (map hc_content chunks)) = visible (concat (filter (\<lambda>l. heading_of l = None) (splitlines markdown)))"
proof -
  let ?ps = "pieces_of target hard markdown"
  let ?mk = "\<lambda>(i, pc). make_chunk env version title tags i pc"
  have size: "snd pc \<noteq> [] \<and> length (snd pc) \<le> hard + 1" if "pc \<in> set ?ps" for pc using pieces_of_size [OF assms(1,2)] that by blast
  have "\<exists>c. ?mk ipc = Inr c" if "ipc \<in> set (enumerate 0 ?ps)" for ipc
  proof -
    have "snd ipc \<in> set ?ps" using that nth_mem [of "fst ipc" ?ps] by (simp add: in_set_enumerate_eq)
    from size [OF this] assms(3) show ?thesis by (cases ipc) (auto intro!: make_chunk_total)
  qed
  then have "\<exists>chunks. mapE ?mk (enumerate 0 ?ps) = Inr chunks" by (rule mapE_total)
  then obtain chunks where chunks: "mapE ?mk (enumerate 0 ?ps) = Inr chunks" by blast
  then have all: "list_all2 (\<lambda>ipc c. ?mk ipc = Inr c) (enumerate 0 ?ps) chunks" by (simp add: mapE_Inr)
  then have len: "length chunks = length ?ps" using list_all2_lengthD by fastforce
  have nth: "hc_ordinal (chunks ! i) = i \<and> hc_content (chunks ! i) = snd (?ps ! i)" if "i < length ?ps" for i
    using list_all2_nthD [OF all, of i] that make_chunk_fields by (fastforce simp: nth_enumerate_eq)
  have ord: "map hc_ordinal chunks = [0..<length chunks]" by (rule nth_equalityI) (use nth len in auto)
  have cont: "map hc_content chunks = map snd ?ps" by (rule nth_equalityI) (use nth len in auto)
  have "list_all (\<lambda>c. c \<noteq> [] \<and> length c \<le> hard + 1) (map hc_content chunks)" unfolding cont using size by (auto simp: list_all_iff)
  then have "list_all (\<lambda>c. hc_content c \<noteq> [] \<and> length (hc_content c) \<le> hard + 1) chunks" by (simp add: list.pred_map comp_def)
  with ord cont chunks assms pieces_of_text [OF assms(1,2), of markdown] show ?thesis
    by (auto simp: chunk_markdown_def pieces_of_def [symmetric])
qed

theorem chunks_cover_text_witness:
  "\<exists>chunks. chunk_markdown \<lparr>ix_sha256 = (\<lambda>s. s), ix_fold_case = (\<lambda>s. s)\<rparr> (lit ''# a'' @ 10 # lit ''b c'') [] [] [] 2 4 = Inr chunks
     \<and> visible (concat (map hc_content chunks)) = lit ''bc''"
proof -
  have "visible (concat (filter (\<lambda>l. heading_of l = None) (splitlines (lit ''# a'' @ 10 # lit ''b c'')))) = lit ''bc''"
    by (simp add: splitlines.simps is_break_def after_break_def heading_of_def Let_def is_space_def visible_def)
  with chunks_cover_text [of 2 4 "\<lparr>ix_sha256 = (\<lambda>s. s), ix_fold_case = (\<lambda>s. s)\<rparr>" "lit ''# a'' @ 10 # lit ''b c''" "[]" "[]" "[]"] show ?thesis
    by (auto simp del: lit_Cons)
qed

section \<open>The maximal size\<close>

definition solid :: "pystr \<Rightarrow> bool" where
  "solid s \<longleftrightarrow> s \<noteq> [] \<and> (\<forall>c \<in> set s. \<not> is_space c)"

lemma solid_strip: "solid s \<Longrightarrow> strip s = s"
proof -
  have keep: "\<forall>c \<in> set t. \<not> is_space c \<Longrightarrow> dropWhile is_space t = t" for t by (cases t) auto
  show "solid s \<Longrightarrow> strip s = s" by (simp add: solid_def strip_def keep)
qed

lemma break_space: "is_break c \<Longrightarrow> is_space c"
  unfolding is_break_def is_space_def by presburger

lemma solid_splitlines:
  assumes "solid s"
  shows "splitlines s = [s]"
proof -
  have nb: "\<forall>c \<in> set s. \<not> is_break c" using assms break_space by (auto simp: solid_def)
  have t: "takeWhile (\<lambda>c. \<not> is_break c) s = s" by (rule takeWhile_eq_all_conv [THEN iffD2]) (use nb in blast)
  have d: "dropWhile (\<lambda>c. \<not> is_break c) s = []" by (rule dropWhile_eq_Nil_conv [THEN iffD2]) (use nb in blast)
  have "s \<noteq> []" using assms by (simp add: solid_def)
  then have "splitlines s = s # splitlines (after_break [])" by (subst splitlines.simps) (simp only: t d if_False)
  then show ?thesis by (simp add: after_break_def)
qed

lemma solid_split_blank: "\<forall>c \<in> set s. \<not> is_space c \<Longrightarrow> split_blank 0 s = [s]"
proof (induction s)
  case (Cons c s)
  have "is_space 10" by (simp add: is_space_def)
  with Cons.prems have "c \<noteq> 10" by auto
  then have "blank_gap (c # s) = None" by (simp add: blank_gap_def)
  with Cons show ?case by simp
qed simp

definition long_text :: "nat \<Rightarrow> pystr" where
  "long_text h = replicate h 97 @ [46, 97]"

lemma letters_visible [simp]: "\<not> is_space 97" "\<not> is_space 46"
  by (simp_all add: is_space_def)

lemma long_text_solid: "solid (long_text h)"
  by (auto simp: solid_def long_text_def)

lemma long_text_nth: "i < h + 1 \<Longrightarrow> long_text h ! i = (if i = h then 46 else 97)"
  by (auto simp: long_text_def nth_append)

lemma long_text_boundary: "cut_boundary h (long_text h) = h + 1"
proof -
  have len: "length (long_text h) = h + 2" by (simp add: long_text_def)
  have "rfind m (h + 1) (long_text h) = (if m = 46 then Some h else None)" if "m \<noteq> 97" for m
  proof -
    have "filter (\<lambda>i. long_text h ! i = m) [0..<h + 1] = filter (\<lambda>i. (if i = h then 46 else 97) = m) [0..<h + 1]"
      by (rule filter_cong) (auto simp: long_text_nth)
    also have "\<dots> = (if m = 46 then [h] else [])" using that by (auto simp: filter_empty_conv)
    finally show ?thesis by (simp add: rfind_def len last_option_def)
  qed
  then have "mark_positions h (long_text h) = [h]" by (simp add: mark_positions_def cut_marks_def)
  then show ?thesis by (simp add: cut_boundary_def)
qed

lemma long_text_split: "0 < h \<Longrightarrow> hard_split (long_text h) h = [replicate h 97 @ [46], [97]]"
proof -
  assume h: "0 < h"
  have take: "take (h + 1) (long_text h) = replicate h 97 @ [46]" "drop (h + 1) (long_text h) = [97]" by (simp_all add: long_text_def)
  have st: "strip (replicate h 97 @ [46]) = replicate h 97 @ [46]" "strip [97] = [97]"
    by (rule solid_strip; auto simp: solid_def)+
  have "split_loop h (long_text h) = strip (take (h + 1) (long_text h)) # split_loop h (strip (drop (h + 1) (long_text h)))"
    using h by (subst split_loop.simps) (simp add: long_text_boundary, simp add: long_text_def)
  also have "\<dots> = (replicate h 97 @ [46]) # split_loop h [97]" unfolding take st ..
  also have "split_loop h [97] = [[97]]" using h by (subst split_loop.simps) auto
  finally show ?thesis by (simp add: hard_split_def solid_strip [OF long_text_solid])
qed

lemma long_text_chunks: "1 < h \<Longrightarrow> chunk_section target h (long_text h) = [replicate h 97 @ [46], [97]]"
proof -
  assume h: "1 < h"
  have "blocks_of (long_text h) = [long_text h]"
    using long_text_solid [of h] solid_split_blank [of "long_text h"] solid_strip [OF long_text_solid, of h] by (simp add: blocks_of_def solid_def)
  with h long_text_split [of h] show ?thesis by (simp add: chunk_section_def chunk_block_def Let_def)
qed

lemma long_text_sections: "sections_of (long_text h) = [([], long_text h)]"
proof -
  have "heading_of (long_text h) = None"
    by (cases h) (simp_all add: heading_of_def long_text_def)
  then show ?thesis
    using long_text_solid [of h] solid_strip [OF long_text_solid, of h] solid_splitlines [OF long_text_solid, of h]
    by (simp add: sections_of_def section_line_def flush_section_def solid_def Let_def)
qed

text \<open>
  The case that the bound on the hard limit leaves out: with the default limits, a text whose character at
  position 1200 is a full stop is cut behind it into a chunk of 1201 characters, which the model of
  a chunk refuses.
\<close>

lemma long_text_refused:
  "chunk_markdown env (long_text 1200) version title tags 600 1200 = Inl (ValidationError ''content'')"
proof -
  have "make_chunk env version title tags 0 ([], replicate 1200 97 @ [46]) = Inl (ValidationError ''content'')"
    by (simp add: make_chunk_def validate_chunk_def split: prod.split)
  moreover have "mapE (\<lambda>(i, pc). make_chunk env version title tags i pc)
      (enumerate 0 (map (Pair []) [replicate 1200 97 @ [46], [97]])) = bindE (make_chunk env version title tags 0 ([], replicate 1200 97 @ [46]))
        (\<lambda>y. bindE (mapE (\<lambda>(i, pc). make_chunk env version title tags i pc) [(1, [], [97])]) (\<lambda>ys. Inr (y # ys)))"
    by (simp)
  ultimately show ?thesis
    using long_text_chunks [of 1200 600] by (simp add: chunk_markdown_def long_text_sections)
qed

end
