(* ===== verification/Export_Formatter.thy ===== *)
theory Export_Formatter
  imports Py_Text Py_Json
begin

text \<open>
  The transformation of a markdown document into the blocks of an export
  (\<^verbatim>\<open>src/prd_agent/export/formatter.py\<close>). The loop over line indices is a recursion on
  the remaining lines. The decimal digits of Unicode, which \<open>\d\<close> matches, are the
  parameter \<open>decimal\<close>.
\<close>

section \<open>Blocks\<close>

datatype ExportBlockType = B_HEADING | B_PARAGRAPH | B_ORDERED_LIST | B_UNORDERED_LIST | B_TABLE | B_QUOTE | B_CODE | B_DIVIDER

fun block_type_value :: "ExportBlockType \<Rightarrow> string" where
  "block_type_value B_HEADING = ''HEADING''"
| "block_type_value B_PARAGRAPH = ''PARAGRAPH''"
| "block_type_value B_ORDERED_LIST = ''ORDERED_LIST''"
| "block_type_value B_UNORDERED_LIST = ''UNORDERED_LIST''"
| "block_type_value B_TABLE = ''TABLE''"
| "block_type_value B_QUOTE = ''QUOTE''"
| "block_type_value B_CODE = ''CODE''"
| "block_type_value B_DIVIDER = ''DIVIDER''"

record ExportBlock =
  block_type :: ExportBlockType
  block_text :: "pystr option"
  block_level :: "nat option"
  block_items :: "pystr list"
  block_rows :: "pystr list list"
  block_language :: "pystr option"

definition plain_block :: "ExportBlockType \<Rightarrow> ExportBlock" where
  "plain_block ty = \<lparr>block_type = ty, block_text = None, block_level = None, block_items = [], block_rows = [], block_language = None\<rparr>"

section \<open>Line patterns\<close>

definition starts_any :: "pystr \<Rightarrow> pystr list \<Rightarrow> bool" where
  "starts_any s ps \<longleftrightarrow> list_ex (starts_with s) ps"

definition bullets :: "pystr list" where
  "bullets = [lit ''- '', lit ''* '', lit ''+ '']"

definition dividers :: "pystr list" where
  "dividers = [lit ''---'', lit ''***'', lit ''___'']"

definition fence :: pystr where
  "fence = [96, 96, 96]"

text \<open>\<open>^(#{1,6})\s+(.+)$\<close> on a stripped line.\<close>

definition match_heading :: "pystr \<Rightarrow> (nat \<times> pystr) option" where
  "match_heading line =
     (let n = length (takeWhile (\<lambda>c. c = 35) line); rest = drop n line in
      if 1 \<le> n \<and> n \<le> 6 \<and> rest \<noteq> [] \<and> is_space (hd rest) \<and> dropWhile is_space rest \<noteq> []
      then Some (n, dropWhile is_space rest) else None)"

text \<open>\<open>^\d+[.)]\s+(.+)$\<close> on a stripped line.\<close>

definition match_ordered :: "(nat \<Rightarrow> bool) \<Rightarrow> pystr \<Rightarrow> pystr option" where
  "match_ordered decimal line =
     (case dropWhile decimal line of
        c # rest \<Rightarrow>
          if takeWhile decimal line \<noteq> [] \<and> (c = 46 \<or> c = 41) \<and> rest \<noteq> [] \<and> is_space (hd rest) \<and> dropWhile is_space rest \<noteq> []
          then Some (dropWhile is_space rest) else None
      | [] \<Rightarrow> None)"

text \<open>A cell of the separator row: three or more hyphens, with optional colons.\<close>

definition separator_cell :: "pystr \<Rightarrow> bool" where
  "separator_cell cell =
     (let s = strip cell;
          s = (if starts_with s [58] then tl s else s);
          s = (if s \<noteq> [] \<and> last s = 58 then butlast s else s) in
      3 \<le> length s \<and> list_all (\<lambda>c. c = 45) s)"

definition table_separator :: "pystr \<Rightarrow> bool" where
  "table_separator line =
     (starts_with line [124] \<and>
      (let s = tl line; s = (if s \<noteq> [] \<and> last s = 124 then butlast s else s); cells = split_on 124 s in
       2 \<le> length cells \<and> list_all separator_cell cells))"

text \<open>Whether a table starts: its first line and the line behind it.\<close>

definition table_starts :: "pystr list \<Rightarrow> bool" where
  "table_starts ls = (case ls of l # m # _ \<Rightarrow> starts_with (strip l) [124] \<and> table_separator (strip m) | _ \<Rightarrow> False)"

definition starts_block :: "(nat \<Rightarrow> bool) \<Rightarrow> pystr list \<Rightarrow> bool" where
  "starts_block decimal ls =
     (case ls of
        [] \<Rightarrow> False
      | l # _ \<Rightarrow>
          (let line = strip l in
           starts_any line ([[35], [62], fence] @ bullets) \<or> match_ordered decimal line \<noteq> None \<or> line \<in> set dividers \<or> table_starts ls))"

section \<open>The parser\<close>

definition table_row :: "pystr \<Rightarrow> pystr list" where
  "table_row line = map strip (split_on 124 (strip_char 124 (strip line)))"

text \<open>A fenced block: the closing fence, if there is one, belongs to it.\<close>

definition code_block :: "pystr list \<Rightarrow> ExportBlock \<times> pystr list" where
  "code_block ls =
     (let language = strip (drop 3 (strip (hd ls)));
          is_fence = (\<lambda>l. starts_with (strip l) fence);
          values = takeWhile (\<lambda>l. \<not> is_fence l) (tl ls) in
      ((plain_block B_CODE)\<lparr>block_text := Some (join_str [10] values), block_language := (if language = [] then None else Some language)\<rparr>,
       drop (length values + 1) (tl ls)))"

definition table_block :: "pystr list \<Rightarrow> ExportBlock \<times> pystr list" where
  "table_block ls =
     (let is_row = (\<lambda>l. starts_with (strip l) [124]); rest = drop 2 ls in
      ((plain_block B_TABLE)\<lparr>block_rows := map table_row (hd ls # takeWhile is_row rest)\<rparr>, dropWhile is_row rest))"

text \<open>The lines that continue a paragraph.\<close>

fun paragraph_lines :: "(nat \<Rightarrow> bool) \<Rightarrow> pystr list \<Rightarrow> pystr list" where
  "paragraph_lines decimal [] = []"
| "paragraph_lines decimal (l # ls) =
     (if strip l = [] \<or> starts_block decimal (l # ls) then [] else strip l # paragraph_lines decimal ls)"

text \<open>One turn of the loop on a line that is not blank: its block and the lines behind it.\<close>

definition parse_block :: "(nat \<Rightarrow> bool) \<Rightarrow> pystr list \<Rightarrow> ExportBlock \<times> pystr list" where
  "parse_block decimal ls =
     (let line = strip (hd ls);
          is_quote = (\<lambda>l. starts_with (strip l) [62]);
          is_bullet = (\<lambda>l. starts_any (strip l) bullets);
          is_ordered = (\<lambda>l. match_ordered decimal (strip l) \<noteq> None) in
      if starts_with line fence then code_block ls
      else
        (case match_heading line of
           Some (n, title) \<Rightarrow> ((plain_block B_HEADING)\<lparr>block_level := Some (min n 3), block_text := Some (strip title)\<rparr>, tl ls)
         | None \<Rightarrow>
             if line \<in> set dividers then (plain_block B_DIVIDER, tl ls)
             else if starts_with line [62] then
               ((plain_block B_QUOTE)\<lparr>block_text := Some (join_str [10] (map (\<lambda>l. strip (tl (strip l))) (takeWhile is_quote ls)))\<rparr>, dropWhile is_quote ls)
             else if starts_any line bullets then
               ((plain_block B_UNORDERED_LIST)\<lparr>block_items := map (\<lambda>l. strip (drop 2 (strip l))) (takeWhile is_bullet ls)\<rparr>, dropWhile is_bullet ls)
             else if match_ordered decimal line \<noteq> None then
               ((plain_block B_ORDERED_LIST)\<lparr>block_items := map (\<lambda>l. strip (the (match_ordered decimal (strip l)))) (takeWhile is_ordered ls)\<rparr>,
                dropWhile is_ordered ls)
             else if table_starts ls then table_block ls
             else
               (let values = line # paragraph_lines decimal (tl ls) in
                ((plain_block B_PARAGRAPH)\<lparr>block_text := Some (join_str [32] values)\<rparr>, drop (length values) ls))))"

lemma dropWhile_shorter: "ls \<noteq> [] \<Longrightarrow> P (hd ls) \<Longrightarrow> length (dropWhile P ls) < length ls"
  by (cases ls) (auto simp: less_Suc_eq_le length_dropWhile_le)

lemma parse_block_shorter:
  assumes "ls \<noteq> []"
  shows "length (snd (parse_block decimal ls)) < length ls"
proof -
  have "length (dropWhile P (drop 2 ls)) < length ls" for P
    using assms length_dropWhile_le [of P "drop 2 ls"] by (cases ls) (auto simp: le_imp_less_Suc intro: le_trans)
  with assms show ?thesis
    by (auto simp: parse_block_def Let_def code_block_def table_block_def split: option.split
        intro!: dropWhile_shorter)
qed

function parse_blocks :: "(nat \<Rightarrow> bool) \<Rightarrow> pystr list \<Rightarrow> ExportBlock list" where
  "parse_blocks decimal ls =
     (if ls = [] then []
      else if strip (hd ls) = [] then parse_blocks decimal (tl ls)
      else fst (parse_block decimal ls) # parse_blocks decimal (snd (parse_block decimal ls)))"
  by pat_completeness auto
termination
  by (relation "measure (\<lambda>(d, ls). length ls)") (auto simp: parse_block_shorter)

declare parse_blocks.simps [simp del]

section \<open>The document\<close>

record ExportDocument =
  xd_title :: pystr
  xd_document_version :: int
  xd_blocks :: "ExportBlock list"
  xd_unresolved_items :: "pystr list"
  xd_content_hash :: pystr

definition opt_json :: "('a \<Rightarrow> json) \<Rightarrow> 'a option \<Rightarrow> json" where
  "opt_json f v = (case v of None \<Rightarrow> JNull | Some x \<Rightarrow> f x)"

text \<open>\<open>model_dump(mode="json")\<close> of a block.\<close>

definition block_json :: "ExportBlock \<Rightarrow> json" where
  "block_json b =
     JObj [(lit ''block_type'', JStr (lit (block_type_value (block_type b)))), (lit ''text'', opt_json JStr (block_text b)),
           (lit ''level'', opt_json (\<lambda>n. JInt (int n)) (block_level b)), (lit ''items'', JList (map JStr (block_items b))),
           (lit ''rows'', JList (map (\<lambda>r. JList (map JStr r)) (block_rows b))), (lit ''language'', opt_json JStr (block_language b))]"

definition document_title :: "ExportBlock list \<Rightarrow> pystr" where
  "document_title blocks =
     (case find (\<lambda>b. block_type b = B_HEADING \<and> block_level b = Some 1 \<and> block_text b \<noteq> None \<and> block_text b \<noteq> Some []) blocks of
        None \<Rightarrow> lit ''PRD''
      | Some b \<Rightarrow> the (block_text b))"

definition document_json :: "pystr \<Rightarrow> int \<Rightarrow> ExportBlock list \<Rightarrow> pystr list \<Rightarrow> json" where
  "document_json title version blocks unresolved =
     JObj [(lit ''title'', JStr title), (lit ''document_version'', JInt version), (lit ''blocks'', JList (map block_json blocks)),
           (lit ''unresolved_items'', JList (map JStr unresolved))]"

text \<open>The constraints of the document: a title of at most 200 characters and a positive version.\<close>

definition format_document :: "(pystr \<Rightarrow> pystr) \<Rightarrow> (nat \<Rightarrow> bool) \<Rightarrow> pystr \<Rightarrow> int \<Rightarrow> pystr list \<Rightarrow> exn + ExportDocument" where
  "format_document sha256 decimal markdown version unresolved =
     (let normalized = strip (replace_str [13] [10] (replace_str [13, 10] [10] markdown));
          blocks = parse_blocks decimal (splitlines normalized);
          title = document_title blocks in
      if title = [] \<or> 200 < length title \<or> version < 1 then Inl (ValidationError ''ExportDocument'')
      else
        Inr \<lparr>xd_title = title, xd_document_version = version, xd_blocks = blocks, xd_unresolved_items = unresolved,
             xd_content_hash = sha256_json sha256 (document_json title version blocks unresolved)\<rparr>)"

end
