(* ===== verification/Export_Store.thy ===== *)
theory Export_Store
  imports Export_Formatter Workflow_Store Py_Logic
begin

text \<open>
  The data of an export and its store (\<^verbatim>\<open>src/prd_agent/export/models.py\<close>,
  \<^verbatim>\<open>store.py\<close>, \<^verbatim>\<open>source.py\<close>): intents a person confirms, the runs that carry
  them out, the binding of a task to its external document, and the claims by which one run at a
  time holds an intent. Every operation of the store runs under its lock and is one function here.
\<close>

section \<open>Errors\<close>

datatype IntegrationErrorCode =
    IE_UNAUTHORIZED | IE_RESOURCE_NOT_ALLOWED | IE_RESOURCE_NOT_FOUND | IE_VERSION_NOT_FOUND
  | IE_RATE_LIMITED | IE_TIMEOUT | IE_PROVIDER_UNAVAILABLE | IE_INVALID_PROVIDER_RESPONSE
  | IE_RESOURCE_CHANGED | IE_PAYLOAD_TOO_LARGE | IE_IDEMPOTENCY_CONFLICT | IE_INVALID_STATE
  | IE_CONFIRMATION_REQUIRED | IE_RESULT_UNKNOWN

text \<open>An \<open>IntegrationError\<close> with its code, message and \<open>retryable\<close>, or another exception.\<close>

datatype xexn = IntegrationError IntegrationErrorCode string bool | OtherExn exn

abbreviation integration_error :: "IntegrationErrorCode \<Rightarrow> string \<Rightarrow> xexn" where
  "integration_error code m \<equiv> IntegrationError code m False"

definition liftX :: "exn + 'a \<Rightarrow> xexn + 'a" where
  "liftX r = (case r of Inl e \<Rightarrow> Inl (OtherExn e) | Inr x \<Rightarrow> Inr x)"

section \<open>Data\<close>

datatype ExportMode = M_CREATE | M_OVERWRITE_BOUND

fun mode_value :: "ExportMode \<Rightarrow> string" where
  "mode_value M_CREATE = ''CREATE''"
| "mode_value M_OVERWRITE_BOUND = ''OVERWRITE_BOUND''"

datatype ExportRunStatus = ER_RUNNING | ER_SUCCEEDED | ER_FAILED | ER_RESULT_UNKNOWN | ER_MANUAL_REVIEW

datatype CreateIdempotencyCapability = C_PROVIDER_KEY | C_RECONCILABLE | C_NONE

record ExportSourceSnapshot =
  sn_task_id :: pystr
  sn_owner_id :: pystr
  sn_task_status :: TaskStatus
  sn_task_version :: int
  sn_document_id :: pystr
  sn_document_version :: int
  sn_markdown :: pystr
  sn_unresolved_items :: "pystr list"

record ExportIntent =
  xi_intent_id :: pystr
  xi_task_id :: pystr
  xi_owner_id :: pystr
  xi_mode :: ExportMode
  xi_task_version :: int
  xi_document_id :: pystr
  xi_document_version :: int
  xi_content_hash :: pystr
  xi_title :: pystr
  xi_unresolved_items :: "pystr list"
  xi_bound_title :: "pystr option"
  xi_bound_safe_url :: "pystr option"
  xi_expires_at :: time
  xi_consumed_at :: "time option"

record ExportPreview =
  xp_intent_id :: pystr
  xp_confirmation_token :: pystr
  xp_mode :: ExportMode
  xp_title :: pystr
  xp_task_version :: int
  xp_document_version :: int
  xp_content_hash :: pystr
  xp_unresolved_items :: "pystr list"
  xp_expires_at :: time
  xp_bound_title :: "pystr option"
  xp_bound_safe_url :: "pystr option"

record ProviderDocumentResult =
  pr_external_id :: pystr
  pr_safe_url :: pystr
  pr_title :: pystr
  pr_provider_revision :: "pystr option"

text \<open>The field \<open>provider\<close> of a binding is always \<open>"FEISHU"\<close>.\<close>

record ExternalDocumentBinding =
  xb_binding_id :: pystr
  xb_task_id :: pystr
  xb_owner_id :: pystr
  xb_external_id :: pystr
  xb_safe_url :: pystr
  xb_display_title :: pystr
  xb_last_export_hash :: pystr
  xb_last_document_version :: int
  xb_provider_revision :: "pystr option"

text \<open>The field \<open>attempt_count\<close> of a run is always 1.\<close>

record ExportRun =
  xr_export_run_id :: pystr
  xr_intent_id :: pystr
  xr_task_id :: pystr
  xr_owner_id :: pystr
  xr_mode :: ExportMode
  xr_task_version :: int
  xr_document_version :: int
  xr_content_hash :: pystr
  xr_status :: ExportRunStatus
  xr_idempotency_key_hash :: pystr
  xr_binding_id :: "pystr option"
  xr_safe_url :: "pystr option"
  xr_display_title :: "pystr option"
  xr_error_code :: "IntegrationErrorCode option"
  xr_retryable :: bool
  xr_created_at :: time
  xr_completed_at :: "time option"

section \<open>The source of a document\<close>

definition get_export_source :: "Repo \<Rightarrow> pystr \<Rightarrow> pystr \<Rightarrow> xexn + ExportSourceSnapshot" where
  "get_export_source r tid owner =
     bindE (liftX (snapshot_for_owner r tid owner)) (\<lambda>s.
       case last_option (ss_documents s) of
         None \<Rightarrow> Inl (integration_error IE_INVALID_STATE ''task has no PRD document'')
       | Some d \<Rightarrow>
           if task_version (ss_task s) < 1 \<or> document_version d < 1 then Inl (OtherExn (ValidationError ''ExportSourceSnapshot''))
           else
             Inr \<lparr>sn_task_id = tid, sn_owner_id = owner, sn_task_status = task_status (ss_task s),
                  sn_task_version = task_version (ss_task s), sn_document_id = document_id d,
                  sn_document_version = document_version d, sn_markdown = document_markdown d,
                  sn_unresolved_items = (case current_brief s of None \<Rightarrow> [] | Some b \<Rightarrow> open_questions (brief_value b))\<rparr>)"

section \<open>The store\<close>

text \<open>A claim: the owner, the run that holds the intent, and until when.\<close>

record ExportStore =
  xs_intents :: "(pystr, ExportIntent) dict"
  xs_bindings :: "(pystr \<times> pystr, ExternalDocumentBinding) dict"
  xs_runs :: "(pystr, ExportRun) dict"
  xs_replays :: "(pystr \<times> pystr, pystr \<times> pystr) dict"
  xs_preview_replays :: "(pystr \<times> pystr, pystr \<times> pystr) dict"
  xs_intent_claims :: "(pystr, pystr \<times> pystr \<times> time) dict"

definition empty_export_store :: ExportStore where
  "empty_export_store =
     \<lparr>xs_intents = [], xs_bindings = [], xs_runs = [], xs_replays = [], xs_preview_replays = [], xs_intent_claims = []\<rparr>"

text \<open>\<open>del d[k]\<close>.\<close>

definition dict_del :: "'k \<Rightarrow> ('k, 'v) dict \<Rightarrow> ('k, 'v) dict" where
  "dict_del k d = filter (\<lambda>e. fst e \<noteq> k) d"

lemma dict_get_del [simp, dict_simps]: "dict_get (dict_del k d) k' = (if k' = k then None else dict_get d k')"
  by (induction d) (auto simp: dict_del_def dict_get_def)

definition save_intent :: "ExportIntent \<Rightarrow> ExportStore \<Rightarrow> ExportStore" where
  "save_intent i st = st\<lparr>xs_intents := dict_set (xi_intent_id i) i (xs_intents st)\<rparr>"

definition get_intent :: "ExportStore \<Rightarrow> pystr \<Rightarrow> pystr \<Rightarrow> xexn + ExportIntent" where
  "get_intent st iid owner =
     (case dict_get (xs_intents st) iid of
        None \<Rightarrow> Inl (integration_error IE_RESOURCE_NOT_FOUND ''export intent was not found'')
      | Some i \<Rightarrow>
          if xi_owner_id i \<noteq> owner then Inl (integration_error IE_RESOURCE_NOT_FOUND ''export intent was not found'')
          else Inr i)"

text \<open>\<open>d[k]\<close> of a dictionary.\<close>

definition index_of :: "('k, 'v) dict \<Rightarrow> 'k \<Rightarrow> xexn + 'v" where
  "index_of d k = (case dict_get d k of None \<Rightarrow> Inl (OtherExn KeyError) | Some v \<Rightarrow> Inr v)"

definition get_preview_replay :: "ExportStore \<Rightarrow> pystr \<Rightarrow> pystr \<Rightarrow> xexn + (pystr \<times> ExportIntent) option" where
  "get_preview_replay st owner key =
     (case dict_get (xs_preview_replays st) (owner, key) of
        None \<Rightarrow> Inr None
      | Some (h, iid) \<Rightarrow> bindE (get_intent st iid owner) (\<lambda>i. Inr (Some (h, i))))"

definition save_preview_replay :: "pystr \<Rightarrow> pystr \<Rightarrow> pystr \<Rightarrow> ExportIntent \<Rightarrow> ExportStore \<Rightarrow> xexn + ExportStore" where
  "save_preview_replay owner key h i st =
     (let saved = st\<lparr>xs_preview_replays := dict_set (owner, key) (h, xi_intent_id i) (xs_preview_replays st)\<rparr> in
      case dict_get (xs_preview_replays st) (owner, key) of
        Some (h', iid) \<Rightarrow>
          if h' \<noteq> h then Inl (integration_error IE_IDEMPOTENCY_CONFLICT ''idempotency key was used with different preview input'')
          else Inr saved
      | None \<Rightarrow> Inr saved)"

text \<open>\<open>begin_preview\<close>: the intent of an earlier preview with this key, or the new one stored.\<close>

definition begin_preview ::
  "pystr \<Rightarrow> pystr \<Rightarrow> pystr \<Rightarrow> ExportIntent \<Rightarrow> ExportStore \<Rightarrow> xexn + (ExportIntent option \<times> ExportStore)" where
  "begin_preview owner key h i st =
     (case dict_get (xs_preview_replays st) (owner, key) of
        Some (h', iid) \<Rightarrow>
          if h' \<noteq> h then Inl (integration_error IE_IDEMPOTENCY_CONFLICT ''idempotency key was used with different preview input'')
          else bindE (index_of (xs_intents st) iid) (\<lambda>i'. Inr (Some i', st))
      | None \<Rightarrow>
          Inr (None, (save_intent i st)\<lparr>xs_preview_replays := dict_set (owner, key) (h, xi_intent_id i) (xs_preview_replays st)\<rparr>))"

definition save_binding :: "ExternalDocumentBinding \<Rightarrow> ExportStore \<Rightarrow> xexn + ExportStore" where
  "save_binding b st =
     (let key = (xb_owner_id b, xb_task_id b); saved = st\<lparr>xs_bindings := dict_set key b (xs_bindings st)\<rparr> in
      case dict_get (xs_bindings st) key of
        Some current \<Rightarrow>
          if xb_binding_id current \<noteq> xb_binding_id b
          then Inl (integration_error IE_IDEMPOTENCY_CONFLICT ''task already has a different document binding'')
          else Inr saved
      | None \<Rightarrow> Inr saved)"

definition get_binding :: "ExportStore \<Rightarrow> pystr \<Rightarrow> pystr \<Rightarrow> ExternalDocumentBinding option" where
  "get_binding st tid owner = dict_get (xs_bindings st) (owner, tid)"

definition save_export_run :: "ExportRun \<Rightarrow> ExportStore \<Rightarrow> ExportStore" where
  "save_export_run run st = st\<lparr>xs_runs := dict_set (xr_export_run_id run) run (xs_runs st)\<rparr>"

definition begin_run :: "pystr \<Rightarrow> pystr \<Rightarrow> pystr \<Rightarrow> ExportRun \<Rightarrow> ExportStore \<Rightarrow> xexn + (ExportRun option \<times> ExportStore)" where
  "begin_run owner key h run st =
     (case dict_get (xs_replays st) (owner, key) of
        Some (h', rid) \<Rightarrow>
          if h' \<noteq> h then Inl (integration_error IE_IDEMPOTENCY_CONFLICT ''idempotency key was used with different input'')
          else bindE (index_of (xs_runs st) rid) (\<lambda>r. Inr (Some r, st))
      | None \<Rightarrow>
          Inr (None,
            st\<lparr>xs_runs := dict_set (xr_export_run_id run) run (xs_runs st),
               xs_replays := dict_set (owner, key) (h, xr_export_run_id run) (xs_replays st)\<rparr>))"

definition get_replay :: "ExportStore \<Rightarrow> pystr \<Rightarrow> pystr \<Rightarrow> xexn + (pystr \<times> ExportRun) option" where
  "get_replay st owner key =
     (case dict_get (xs_replays st) (owner, key) of
        None \<Rightarrow> Inr None
      | Some (h, rid) \<Rightarrow> bindE (index_of (xs_runs st) rid) (\<lambda>r. Inr (Some (h, r))))"

definition save_replay :: "pystr \<Rightarrow> pystr \<Rightarrow> pystr \<Rightarrow> ExportRun \<Rightarrow> ExportStore \<Rightarrow> xexn + ExportStore" where
  "save_replay owner key h run st =
     (let saved = st\<lparr>xs_runs := dict_set (xr_export_run_id run) run (xs_runs st),
                     xs_replays := dict_set (owner, key) (h, xr_export_run_id run) (xs_replays st)\<rparr> in
      case dict_get (xs_replays st) (owner, key) of
        Some (h', rid) \<Rightarrow>
          if h' \<noteq> h then Inl (integration_error IE_IDEMPOTENCY_CONFLICT ''idempotency key was used with different input'')
          else Inr saved
      | None \<Rightarrow> Inr saved)"

definition consume_intent :: "ExportIntent \<Rightarrow> ExportStore \<Rightarrow> ExportStore" where
  "consume_intent i st = st\<lparr>xs_intents := dict_set (xi_intent_id i) i (xs_intents st)\<rparr>"

definition claim_intent :: "pystr \<Rightarrow> pystr \<Rightarrow> pystr \<Rightarrow> time \<Rightarrow> time \<Rightarrow> ExportStore \<Rightarrow> bool \<times> ExportStore" where
  "claim_intent iid owner claim now until st =
     (let claimed = (True, st\<lparr>xs_intent_claims := dict_set iid (owner, claim, until) (xs_intent_claims st)\<rparr>) in
      case dict_get (xs_intents st) iid of
        None \<Rightarrow> (False, st)
      | Some i \<Rightarrow>
          if xi_owner_id i \<noteq> owner \<or> xi_consumed_at i \<noteq> None then (False, st)
          else
            (case dict_get (xs_intent_claims st) iid of
               None \<Rightarrow> claimed
             | Some (_, holder, expires) \<Rightarrow> if holder \<noteq> claim \<and> expires > now then (False, st) else claimed))"

definition release_intent_claim :: "pystr \<Rightarrow> pystr \<Rightarrow> pystr \<Rightarrow> ExportStore \<Rightarrow> ExportStore" where
  "release_intent_claim iid owner claim st =
     (case dict_get (xs_intent_claims st) iid of
        Some (o', holder, _) \<Rightarrow>
          if (o', holder) = (owner, claim) then st\<lparr>xs_intent_claims := dict_del iid (xs_intent_claims st)\<rparr> else st
      | None \<Rightarrow> st)"

definition consume_claimed_intent :: "pystr \<Rightarrow> pystr \<Rightarrow> pystr \<Rightarrow> time \<Rightarrow> ExportStore \<Rightarrow> bool \<times> ExportStore" where
  "consume_claimed_intent iid owner claim consumed_at st =
     (case (dict_get (xs_intent_claims st) iid, dict_get (xs_intents st) iid) of
        (Some (o', holder, _), Some i) \<Rightarrow>
          if (o', holder) \<noteq> (owner, claim) \<or> xi_consumed_at i \<noteq> None then (False, st)
          else
            (True,
             st\<lparr>xs_intents := dict_set iid (i\<lparr>xi_consumed_at := Some consumed_at\<rparr>) (xs_intents st),
                xs_intent_claims := dict_del iid (xs_intent_claims st)\<rparr>)
      | _ \<Rightarrow> (False, st))"

text \<open>\<open>sorted\<close> with \<open>reverse=True\<close> keeps the order of runs created at the same time.\<close>

definition list_export_runs :: "ExportStore \<Rightarrow> pystr \<Rightarrow> pystr \<Rightarrow> ExportRun list" where
  "list_export_runs st tid owner =
     rev (sort_key xr_created_at (rev (filter (\<lambda>r. xr_task_id r = tid \<and> xr_owner_id r = owner) (dict_values (xs_runs st)))))"

end
