(* ===== verification/Export_Service.thy ===== *)
theory Export_Service
  imports Export_Store
begin

text \<open>
  The export service (\<^verbatim>\<open>src/prd_agent/export/service.py\<close>) over the store in memory. A
  preview records an intent and hands out a confirmation token; an execution checks the token and
  the document, claims the intent, calls the provider and settles the intent.

  The world holds the workflow repository the documents are read from, the store, the counters of
  clock readings and identifiers, the events given to the sink and the calls of the provider. An
  execution is cut into four stages: the checks, the record of the run with the claim, the call with
  its binding, and the settlement. A stage is atomic here. The code takes the lock of the store for
  each operation separately, so requests can also interleave inside a stage; these finer
  interleavings are not modelled.
\<close>

section \<open>The world and the environment\<close>

datatype ExportEventPayload =
    PreviewedPayload pystr ExportMode int pystr
  | StartedPayload pystr ExportMode int
  | EndedPayload pystr ExportMode int "pystr option" ExportRunStatus "IntegrationErrorCode option" bool

record ExportEvent =
  xv_task_id :: pystr
  xv_type :: string
  xv_payload :: ExportEventPayload

text \<open>A call of \<open>create_document\<close> or of \<open>overwrite_document\<close> and what the provider answers.\<close>

datatype GatewayCall =
    CreateDocument ExportDocument pystr
  | OverwriteDocument pystr ExportDocument pystr "pystr option"

type_synonym GatewayReply = "xexn + ProviderDocumentResult"

record ExportWorld =
  xw_repo :: Repo
  xw_store :: ExportStore
  xw_ticks :: nat
  xw_uuids :: nat
  xw_events :: "ExportEvent list"
  xw_calls :: "GatewayCall list"

text \<open>
  \<open>xe_hmac\<close> is the keyed digest of a text, \<open>xe_isoformat\<close> prints a time in UTC;
  \<open>xe_now\<close> is the clock of the service and \<open>xe_wall\<close> the one that stamps new runs.
\<close>

record ExportEnv =
  xe_now :: "nat \<Rightarrow> time"
  xe_wall :: "nat \<Rightarrow> time"
  xe_uuid :: "nat \<Rightarrow> pystr"
  xe_sha256 :: "pystr \<Rightarrow> pystr"
  xe_hmac :: "pystr \<Rightarrow> pystr"
  xe_isoformat :: "time \<Rightarrow> pystr"
  xe_decimal :: "nat \<Rightarrow> bool"
  xe_ttl :: time
  xe_capability :: CreateIdempotencyCapability
  xe_gateway :: "nat \<Rightarrow> GatewayCall \<Rightarrow> GatewayReply"

type_synonym 'a xm = "(ExportWorld, xexn, 'a) sem"

definition nowM :: "ExportEnv \<Rightarrow> time xm" where
  "nowM env w = (Inr (xe_now env (xw_ticks w)), w\<lparr>xw_ticks := xw_ticks w + 1\<rparr>)"

definition wallM :: "ExportEnv \<Rightarrow> time xm" where
  "wallM env w = (Inr (xe_wall env (xw_ticks w)), w\<lparr>xw_ticks := xw_ticks w + 1\<rparr>)"

definition uuidM :: "ExportEnv \<Rightarrow> string \<Rightarrow> pystr xm" where
  "uuidM env prefix w = (Inr (lit prefix @ xe_uuid env (xw_uuids w)), w\<lparr>xw_uuids := xw_uuids w + 1\<rparr>)"

definition emitX :: "pystr \<Rightarrow> string \<Rightarrow> ExportEventPayload \<Rightarrow> unit xm" where
  "emitX tid ty p = modifyM (\<lambda>w. w\<lparr>xw_events := xw_events w @ [\<lparr>xv_task_id = tid, xv_type = ty, xv_payload = p\<rparr>]\<rparr>)"

text \<open>An operation of the store that reads, that writes, and that does both.\<close>

definition askM :: "(ExportStore \<Rightarrow> xexn + 'a) \<Rightarrow> 'a xm" where
  "askM f w = (f (xw_store w), w)"

definition putM :: "(ExportStore \<Rightarrow> xexn + ExportStore) \<Rightarrow> unit xm" where
  "putM f w = (case f (xw_store w) of Inl e \<Rightarrow> (Inl e, w) | Inr st \<Rightarrow> (Inr (), w\<lparr>xw_store := st\<rparr>))"

definition storeM :: "(ExportStore \<Rightarrow> xexn + ('a \<times> ExportStore)) \<Rightarrow> 'a xm" where
  "storeM f w = (case f (xw_store w) of Inl e \<Rightarrow> (Inl e, w) | Inr (x, st) \<Rightarrow> (Inr x, w\<lparr>xw_store := st\<rparr>))"

definition gatewayM :: "ExportEnv \<Rightarrow> GatewayCall \<Rightarrow> ProviderDocumentResult xm" where
  "gatewayM env c w = (xe_gateway env (length (xw_calls w)) c, w\<lparr>xw_calls := xw_calls w @ [c]\<rparr>)"

section \<open>Tokens and sources\<close>

definition confirmation_token :: "ExportEnv \<Rightarrow> ExportIntent \<Rightarrow> pystr" where
  "confirmation_token env i =
     xe_hmac env (canonical_json (JObj
       [(lit ''intent_id'', JStr (xi_intent_id i)), (lit ''task_id'', JStr (xi_task_id i)), (lit ''owner_id'', JStr (xi_owner_id i)),
        (lit ''mode'', JStr (lit (mode_value (xi_mode i)))), (lit ''task_version'', JInt (xi_task_version i)),
        (lit ''document_version'', JInt (xi_document_version i)), (lit ''content_hash'', JStr (xi_content_hash i)),
        (lit ''expires_at'', JStr (xe_isoformat env (xi_expires_at i)))]))"

text \<open>\<open>hmac.compare_digest\<close> of two texts refuses characters outside ASCII.\<close>

definition compare_digest :: "pystr \<Rightarrow> pystr \<Rightarrow> xexn + bool" where
  "compare_digest a b = (if list_all (\<lambda>c. c < 128) (a @ b) then Inr (a = b) else Inl (OtherExn TypeError))"

definition verify_confirmation :: "ExportEnv \<Rightarrow> ExportIntent \<Rightarrow> pystr \<Rightarrow> xexn + unit" where
  "verify_confirmation env i supplied =
     bindE (compare_digest (confirmation_token env i) supplied) (\<lambda>same.
       if same then Inr () else Inl (integration_error IE_CONFIRMATION_REQUIRED ''export confirmation is invalid''))"

definition current_source :: "Repo \<Rightarrow> pystr \<Rightarrow> pystr \<Rightarrow> int \<Rightarrow> xexn + ExportSourceSnapshot" where
  "current_source r tid owner version =
     bindE (get_export_source r tid owner) (\<lambda>src.
       if sn_task_status src \<noteq> TS_COMPLETED then Inl (integration_error IE_INVALID_STATE ''only completed tasks can be exported'')
       else if sn_task_version src \<noteq> version then Inl (integration_error IE_RESOURCE_CHANGED ''task version changed'')
       else Inr src)"

definition format_source :: "ExportEnv \<Rightarrow> ExportSourceSnapshot \<Rightarrow> xexn + ExportDocument" where
  "format_source env src =
     liftX (format_document (xe_sha256 env) (xe_decimal env) (sn_markdown src) (sn_document_version src) (sn_unresolved_items src))"

text \<open>The binding has to be absent for a creation and present for an overwrite.\<close>

definition check_mode :: "ExportMode \<Rightarrow> ExternalDocumentBinding option \<Rightarrow> unit xm" where
  "check_mode mode binding =
     thenM (checkM (\<not> (mode = M_CREATE \<and> binding \<noteq> None)) (integration_error IE_INVALID_STATE ''task already has a bound document''))
           (checkM (\<not> (mode = M_OVERWRITE_BOUND \<and> binding = None)) (integration_error IE_INVALID_STATE ''task has no bound document''))"

section \<open>Preview\<close>

definition preview_from_intent :: "ExportEnv \<Rightarrow> ExportIntent \<Rightarrow> ExportPreview" where
  "preview_from_intent env i =
     \<lparr>xp_intent_id = xi_intent_id i, xp_confirmation_token = confirmation_token env i, xp_mode = xi_mode i, xp_title = xi_title i,
      xp_task_version = xi_task_version i, xp_document_version = xi_document_version i, xp_content_hash = xi_content_hash i,
      xp_unresolved_items = xi_unresolved_items i, xp_expires_at = xi_expires_at i, xp_bound_title = xi_bound_title i,
      xp_bound_safe_url = xi_bound_safe_url i\<rparr>"

record PreviewRequest =
  pq_task_id :: pystr
  pq_owner_id :: pystr
  pq_mode :: ExportMode
  pq_expected_task_version :: int
  pq_idempotency_key :: "pystr option"

definition preview_hash :: "ExportEnv \<Rightarrow> PreviewRequest \<Rightarrow> pystr" where
  "preview_hash env q =
     sha256_json (xe_sha256 env) (JObj
       [(lit ''task_id'', JStr (pq_task_id q)), (lit ''owner_id'', JStr (pq_owner_id q)),
        (lit ''mode'', JStr (lit (mode_value (pq_mode q)))), (lit ''expected_task_version'', JInt (pq_expected_task_version q))])"

text \<open>\<open>if idempotency_key\<close>: a key that is given and not empty.\<close>

definition given_key :: "pystr option \<Rightarrow> pystr option" where
  "given_key k = (if k = Some [] then None else k)"

definition new_intent :: "ExportEnv \<Rightarrow> PreviewRequest \<Rightarrow> ExportSourceSnapshot \<Rightarrow> ExportDocument \<Rightarrow> ExternalDocumentBinding option \<Rightarrow> ExportIntent xm" where
  "new_intent env q src doc binding =
     bindM (uuidM env ''export-intent-'') (\<lambda>iid.
     bindM (nowM env) (\<lambda>t.
       returnM
         \<lparr>xi_intent_id = iid, xi_task_id = pq_task_id q, xi_owner_id = pq_owner_id q, xi_mode = pq_mode q,
          xi_task_version = sn_task_version src, xi_document_id = sn_document_id src, xi_document_version = sn_document_version src,
          xi_content_hash = xd_content_hash doc, xi_title = xd_title doc, xi_unresolved_items = xd_unresolved_items doc,
          xi_bound_title = map_option xb_display_title binding, xi_bound_safe_url = map_option xb_safe_url binding,
          xi_expires_at = t + xe_ttl env, xi_consumed_at = None\<rparr>))"

definition record_intent :: "ExportEnv \<Rightarrow> PreviewRequest \<Rightarrow> ExportIntent \<Rightarrow> ExportIntent option xm" where
  "record_intent env q i =
     (case given_key (pq_idempotency_key q) of
        Some key \<Rightarrow> storeM (begin_preview (pq_owner_id q) key (preview_hash env q) i)
      | None \<Rightarrow> thenM (putM (\<lambda>st. Inr (save_intent i st))) (returnM None))"

definition create_preview :: "ExportEnv \<Rightarrow> PreviewRequest \<Rightarrow> ExportPreview xm" where
  "create_preview env q =
     bindM (readM xw_repo) (\<lambda>r.
     bindM (liftM (current_source r (pq_task_id q) (pq_owner_id q) (pq_expected_task_version q))) (\<lambda>src.
     bindM (liftM (format_source env src)) (\<lambda>doc.
     bindM (askM (\<lambda>st. Inr (get_binding st (pq_task_id q) (pq_owner_id q)))) (\<lambda>binding.
     thenM (check_mode (pq_mode q) binding)
    (bindM (new_intent env q src doc binding) (\<lambda>i.
     bindM (record_intent env q i) (\<lambda>concurrent.
       case concurrent of
         Some i' \<Rightarrow> returnM (preview_from_intent env i')
       | None \<Rightarrow>
           thenM (emitX (xi_task_id i) ''ExportPreviewed''
                    (PreviewedPayload (xi_intent_id i) (xi_mode i) (xi_document_version i) (xi_content_hash i)))
                 (returnM (preview_from_intent env i)))))))))"

definition preview :: "ExportEnv \<Rightarrow> PreviewRequest \<Rightarrow> ExportPreview xm" where
  "preview env q =
     (case given_key (pq_idempotency_key q) of
        None \<Rightarrow> create_preview env q
      | Some key \<Rightarrow>
          bindM (askM (\<lambda>st. get_preview_replay st (pq_owner_id q) key)) (\<lambda>replay.
            case replay of
              None \<Rightarrow> create_preview env q
            | Some (h, i) \<Rightarrow>
                thenM (checkM (h = preview_hash env q)
                         (integration_error IE_IDEMPOTENCY_CONFLICT ''idempotency key was used with different preview input''))
                      (returnM (preview_from_intent env i))))"

section \<open>Execution\<close>

record ExecuteRequest =
  eq_intent_id :: pystr
  eq_confirmation_token :: pystr
  eq_owner_id :: pystr
  eq_expected_task_version :: int
  eq_idempotency_key :: pystr
  eq_mode :: "ExportMode option"
  eq_expected_task_id :: "pystr option"

definition execute_hash :: "ExportEnv \<Rightarrow> ExecuteRequest \<Rightarrow> pystr" where
  "execute_hash env q =
     sha256_json (xe_sha256 env) (JObj
       [(lit ''intent_id'', JStr (eq_intent_id q)), (lit ''owner_id'', JStr (eq_owner_id q)),
        (lit ''expected_task_version'', JInt (eq_expected_task_version q)),
        (lit ''expected_task_id'', opt_json JStr (eq_expected_task_id q))])"

text \<open>The local variables of an execution between its stages.\<close>

record Execution =
  ex_owner :: pystr
  ex_key :: pystr
  ex_hash :: pystr
  ex_intent :: ExportIntent
  ex_document :: ExportDocument
  ex_binding :: "ExternalDocumentBinding option"
  ex_run :: ExportRun

text \<open>A stage either ends the execution with a run or leads to the next one.\<close>

datatype 'a staged = Returned ExportRun | Continue 'a

definition new_export_run :: "ExportEnv \<Rightarrow> ExecuteRequest \<Rightarrow> ExportIntent \<Rightarrow> ExportRun xm" where
  "new_export_run env q i =
     bindM (uuidM env ''export-run-'') (\<lambda>rid.
     bindM (wallM env) (\<lambda>t.
       returnM
         \<lparr>xr_export_run_id = rid, xr_intent_id = xi_intent_id i, xr_task_id = xi_task_id i, xr_owner_id = eq_owner_id q,
          xr_mode = xi_mode i, xr_task_version = xi_task_version i, xr_document_version = xi_document_version i,
          xr_content_hash = xi_content_hash i, xr_status = ER_RUNNING,
          xr_idempotency_key_hash = sha256_json (xe_sha256 env) (JObj [(lit ''idempotency_key'', JStr (eq_idempotency_key q))]),
          xr_binding_id = None, xr_safe_url = None, xr_display_title = None, xr_error_code = None, xr_retryable = False,
          xr_created_at = t, xr_completed_at = None\<rparr>))"

text \<open>The checks of the request against the intent, in the order of the source.\<close>

definition check_intent :: "ExportEnv \<Rightarrow> ExecuteRequest \<Rightarrow> ExportIntent \<Rightarrow> unit xm" where
  "check_intent env q i =
     thenM (checkM (eq_expected_task_id q = None \<or> eq_expected_task_id q = Some (xi_task_id i))
              (integration_error IE_RESOURCE_NOT_FOUND ''export intent was not found''))
    (thenM (checkM (eq_mode q = None \<or> eq_mode q = Some (xi_mode i))
              (integration_error IE_CONFIRMATION_REQUIRED ''export mode does not match the confirmed preview''))
    (thenM (liftM (verify_confirmation env i (eq_confirmation_token q)))
    (thenM (checkM (xi_consumed_at i = None) (integration_error IE_CONFIRMATION_REQUIRED ''export confirmation was already used''))
    (bindM (nowM env) (\<lambda>t.
     thenM (checkM (t < xi_expires_at i) (integration_error IE_CONFIRMATION_REQUIRED ''export confirmation expired''))
           (checkM (eq_expected_task_version q = xi_task_version i)
              (integration_error IE_RESOURCE_CHANGED ''task version changed after preview'')))))))"

definition unchanged :: "ExportIntent \<Rightarrow> ExportSourceSnapshot \<Rightarrow> ExportDocument \<Rightarrow> bool" where
  "unchanged i src doc \<longleftrightarrow>
     sn_document_id src = xi_document_id i \<and> sn_document_version src = xi_document_version i \<and> xd_content_hash doc = xi_content_hash i"

definition prepare_execution :: "ExportEnv \<Rightarrow> ExecuteRequest \<Rightarrow> Execution xm" where
  "prepare_execution env q =
     bindM (askM (\<lambda>st. get_intent st (eq_intent_id q) (eq_owner_id q))) (\<lambda>i.
     thenM (check_intent env q i)
    (bindM (readM xw_repo) (\<lambda>r.
     bindM (liftM (current_source r (xi_task_id i) (eq_owner_id q) (eq_expected_task_version q))) (\<lambda>src.
     bindM (liftM (format_source env src)) (\<lambda>doc.
     thenM (checkM (unchanged i src doc) (integration_error IE_RESOURCE_CHANGED ''document changed after preview''))
    (bindM (askM (\<lambda>st. Inr (get_binding st (xi_task_id i) (eq_owner_id q)))) (\<lambda>binding.
     thenM (check_mode (xi_mode i) binding)
    (bindM (new_export_run env q i) (\<lambda>run.
       returnM \<lparr>ex_owner = eq_owner_id q, ex_key = eq_idempotency_key q, ex_hash = execute_hash env q, ex_intent = i,
                ex_document = doc, ex_binding = binding, ex_run = run\<rparr>)))))))))"

text \<open>The first stage: a replay, or the checks and the new run.\<close>

definition check_export :: "ExportEnv \<Rightarrow> ExecuteRequest \<Rightarrow> Execution staged xm" where
  "check_export env q =
     bindM (askM (\<lambda>st. get_replay st (eq_owner_id q) (eq_idempotency_key q))) (\<lambda>replay.
       case replay of
         Some (h, run) \<Rightarrow>
           thenM (checkM (h = execute_hash env q)
                    (integration_error IE_IDEMPOTENCY_CONFLICT ''idempotency key was used with different input''))
                 (returnM (Returned run))
       | None \<Rightarrow> bindM (prepare_execution env q) (\<lambda>x. returnM (Continue x)))"

text \<open>A run that ends: its status, error and time.\<close>

definition end_run :: "ExportRunStatus \<Rightarrow> IntegrationErrorCode \<Rightarrow> bool \<Rightarrow> time \<Rightarrow> ExportRun \<Rightarrow> ExportRun" where
  "end_run status code retryable t run =
     run\<lparr>xr_status := status, xr_error_code := Some code, xr_retryable := retryable, xr_completed_at := Some t\<rparr>"

text \<open>The claim could not be taken: the failed run is kept for replays.\<close>

definition refuse_export :: "ExportEnv \<Rightarrow> Execution \<Rightarrow> Execution staged xm" where
  "refuse_export env x =
     bindM (nowM env) (\<lambda>t.
     thenM (putM (save_replay (ex_owner x) (ex_key x) (ex_hash x)
              ((ex_run x)\<lparr>xr_status := ER_FAILED, xr_error_code := Some IE_CONFIRMATION_REQUIRED, xr_completed_at := Some t\<rparr>)))
           (raiseM (integration_error IE_CONFIRMATION_REQUIRED ''export confirmation is already being used'')))"

definition claimM :: "ExportEnv \<Rightarrow> Execution \<Rightarrow> time \<Rightarrow> bool xm" where
  "claimM env x t =
     storeM (\<lambda>st. Inr (claim_intent (xi_intent_id (ex_intent x)) (ex_owner x) (xr_export_run_id (ex_run x)) t (t + xe_ttl env) st))"

text \<open>The second stage: the run is recorded and the intent claimed for it.\<close>

definition start_export :: "ExportEnv \<Rightarrow> Execution \<Rightarrow> Execution staged xm" where
  "start_export env x =
     bindM (storeM (begin_run (ex_owner x) (ex_key x) (ex_hash x) (ex_run x))) (\<lambda>concurrent.
       case concurrent of
         Some run \<Rightarrow> returnM (Returned run)
       | None \<Rightarrow>
           bindM (nowM env) (\<lambda>t.
           bindM (claimM env x t) (\<lambda>claimed.
             if \<not> claimed then refuse_export env x
             else
               thenM (emitX (xr_task_id (ex_run x)) ''ExportStarted''
                        (StartedPayload (xr_export_run_id (ex_run x)) (xr_mode (ex_run x)) (xr_document_version (ex_run x))))
                     (returnM (Continue x)))))"

definition created_binding :: "ExportEnv \<Rightarrow> Execution \<Rightarrow> ProviderDocumentResult \<Rightarrow> ExternalDocumentBinding xm" where
  "created_binding env x res =
     bindM (uuidM env ''document-binding-'') (\<lambda>bid.
       returnM
         \<lparr>xb_binding_id = bid, xb_task_id = xi_task_id (ex_intent x), xb_owner_id = ex_owner x, xb_external_id = pr_external_id res,
          xb_safe_url = pr_safe_url res, xb_display_title = pr_title res, xb_last_export_hash = xd_content_hash (ex_document x),
          xb_last_document_version = xd_document_version (ex_document x), xb_provider_revision = pr_provider_revision res\<rparr>)"

definition overwritten_binding :: "Execution \<Rightarrow> ProviderDocumentResult \<Rightarrow> ExternalDocumentBinding \<Rightarrow> ExternalDocumentBinding" where
  "overwritten_binding x res b =
     b\<lparr>xb_safe_url := pr_safe_url res, xb_display_title := pr_title res, xb_last_export_hash := xd_content_hash (ex_document x),
       xb_last_document_version := xd_document_version (ex_document x), xb_provider_revision := pr_provider_revision res\<rparr>"

definition provider_binding :: "ExportEnv \<Rightarrow> Execution \<Rightarrow> ExternalDocumentBinding xm" where
  "provider_binding env x =
     (if xi_mode (ex_intent x) = M_CREATE then
        bindM (gatewayM env (CreateDocument (ex_document x) (ex_key x))) (created_binding env x)
      else
        (case ex_binding x of
           None \<Rightarrow> raiseM (OtherExn (OtherError (lit ''AssertionError'')))
         | Some b \<Rightarrow>
             bindM (gatewayM env (OverwriteDocument (xb_external_id b) (ex_document x) (ex_key x) (xb_provider_revision b))) (\<lambda>res.
               returnM (overwritten_binding x res b))))"

text \<open>The handler of an \<open>IntegrationError\<close>; other exceptions leave the execution.\<close>

definition failed_run :: "ExportEnv \<Rightarrow> ExportRun \<Rightarrow> xexn \<Rightarrow> ExportRun xm" where
  "failed_run env run e =
     (case e of
        IntegrationError code m retryable \<Rightarrow>
          (let status = (if code = IE_RESULT_UNKNOWN then (if xe_capability env = C_NONE then ER_MANUAL_REVIEW else ER_RESULT_UNKNOWN)
                         else ER_FAILED) in
           bindM (nowM env) (\<lambda>t. returnM (end_run status code (retryable \<and> status \<noteq> ER_MANUAL_REVIEW) t run)))
      | OtherExn e' \<Rightarrow> raiseM (OtherExn e'))"

text \<open>The third stage: the call of the provider and the binding.\<close>

definition deliver_export :: "ExportEnv \<Rightarrow> Execution \<Rightarrow> Execution staged xm" where
  "deliver_export env x =
     bindM (catchM
       (bindM (provider_binding env x) (\<lambda>b.
        thenM (putM (save_binding b))
       (bindM (nowM env) (\<lambda>t.
          returnM ((ex_run x)\<lparr>xr_status := ER_SUCCEEDED, xr_binding_id := Some (xb_binding_id b), xr_safe_url := Some (xb_safe_url b),
                              xr_display_title := Some (xb_display_title b), xr_completed_at := Some t\<rparr>)))))
       (failed_run env (ex_run x))) (\<lambda>run. returnM (Continue (x\<lparr>ex_run := run\<rparr>)))"

text \<open>The fate of the intent: released for a failure that may be retried, else consumed.\<close>

definition settle_intent :: "ExportEnv \<Rightarrow> Execution \<Rightarrow> ExportRun xm" where
  "settle_intent env x =
     (let run = ex_run x; iid = xi_intent_id (ex_intent x); rid = xr_export_run_id run in
      if xr_status run = ER_FAILED \<and> xr_retryable run then
        thenM (putM (\<lambda>st. Inr (release_intent_claim iid (ex_owner x) rid st))) (returnM run)
      else
        bindM (nowM env) (\<lambda>t.
        bindM (storeM (\<lambda>st. Inr (consume_claimed_intent iid (ex_owner x) rid t st))) (\<lambda>consumed.
          if consumed then returnM run
          else bindM (nowM env) (\<lambda>t'. returnM (end_run ER_RESULT_UNKNOWN IE_RESULT_UNKNOWN False t' run)))))"

text \<open>The last stage.\<close>

definition settle_export :: "ExportEnv \<Rightarrow> Execution \<Rightarrow> Execution staged xm" where
  "settle_export env x =
     bindM (settle_intent env x) (\<lambda>run.
     thenM (putM (save_replay (ex_owner x) (ex_key x) (ex_hash x) run))
    (thenM (emitX (xr_task_id run) (if xr_status run = ER_SUCCEEDED then ''ExportSucceeded'' else ''ExportFailed'')
              (EndedPayload (xr_export_run_id run) (xr_mode run) (xr_document_version run) (xr_binding_id run) (xr_status run)
                 (xr_error_code run) (xr_retryable run)))
           (returnM (Returned run))))"

definition continue :: "'a staged \<Rightarrow> ('a \<Rightarrow> 'b staged xm) \<Rightarrow> 'b staged xm" where
  "continue r f = (case r of Returned run \<Rightarrow> returnM (Returned run) | Continue x \<Rightarrow> f x)"

definition execute_export :: "ExportEnv \<Rightarrow> ExecuteRequest \<Rightarrow> Execution staged xm" where
  "execute_export env q =
     bindM (check_export env q) (\<lambda>r.
     bindM (continue r (start_export env)) (\<lambda>r.
     bindM (continue r (deliver_export env)) (\<lambda>r. continue r (settle_export env))))"

definition list_exports :: "pystr \<Rightarrow> pystr \<Rightarrow> ExportRun list xm" where
  "list_exports tid owner =
     bindM (readM xw_repo) (\<lambda>r.
     bindM (liftM (get_export_source r tid owner)) (\<lambda>_. askM (\<lambda>st. Inr (list_export_runs st tid owner))))"

end
