(* ===== verification/Export_System.thy ===== *)
theory Export_System
  imports Export_Service
begin

text \<open>
  Exports in parallel. Threads advance through the stages of their executions in any order, between
  them people ask for previews and the workflow changes its repository; a thread may stop for ever.
  The first part gives the rules by which the computations of the service are executed
  symbolically, the second the invariant of the system.
\<close>

section \<open>The system\<close>

datatype Stage = Checked | Started | Delivered | Ended

record ExportSystem =
  sy_world :: ExportWorld
  sy_threads :: "(Stage \<times> Execution) list"

datatype ExportAction = DoPreview PreviewRequest | DoExecute ExecuteRequest | Advance nat | WorkflowMoves Repo

fun run_stage :: "ExportEnv \<Rightarrow> Stage \<Rightarrow> Execution \<Rightarrow> Execution staged xm" where
  "run_stage env Checked x = start_export env x"
| "run_stage env Started x = deliver_export env x"
| "run_stage env Delivered x = settle_export env x"
| "run_stage env Ended x = returnM (Returned (ex_run x))"

fun next_stage :: "Stage \<Rightarrow> Stage" where
  "next_stage Checked = Started"
| "next_stage Started = Delivered"
| "next_stage _ = Ended"

fun thread_after :: "Stage \<Rightarrow> Execution \<Rightarrow> xexn + Execution staged \<Rightarrow> Stage \<times> Execution" where
  "thread_after g x (Inr (Continue x')) = (next_stage g, x')"
| "thread_after g x _ = (Ended, x)"

fun thread_new :: "xexn + Execution staged \<Rightarrow> (Stage \<times> Execution) list" where
  "thread_new (Inr (Continue x)) = [(Checked, x)]"
| "thread_new _ = []"

fun export_step :: "ExportEnv \<Rightarrow> ExportAction \<Rightarrow> ExportSystem \<Rightarrow> ExportSystem" where
  "export_step env (DoPreview q) s = s\<lparr>sy_world := snd (preview env q (sy_world s))\<rparr>"
| "export_step env (DoExecute q) s =
     (let (r, w) = check_export env q (sy_world s) in \<lparr>sy_world = w, sy_threads = sy_threads s @ thread_new r\<rparr>)"
| "export_step env (Advance n) s =
     (if n < length (sy_threads s) then
        (let (g, x) = sy_threads s ! n; (r, w) = run_stage env g x (sy_world s) in
         \<lparr>sy_world = w, sy_threads = (sy_threads s)[n := thread_after g x r]\<rparr>)
      else s)"
| "export_step env (WorkflowMoves r) s = s\<lparr>sy_world := (sy_world s)\<lparr>xw_repo := r\<rparr>\<rparr>"

definition export_world :: "Repo \<Rightarrow> ExportWorld" where
  "export_world r = \<lparr>xw_repo = r, xw_store = empty_export_store, xw_ticks = 0, xw_uuids = 0, xw_events = [], xw_calls = []\<rparr>"

definition export_start :: "ExportSystem \<Rightarrow> bool" where
  "export_start s \<longleftrightarrow> (\<exists>r. s = \<lparr>sy_world = export_world r, sy_threads = []\<rparr>)"

section \<open>Symbolic execution\<close>

lemma wp_read [wp_rules]: "wp (readM f) Q E s = Q (f s) s"
  by (simp add: wp_def readM_def)

lemma wp_clockX [wp_rules]: "wp (nowM env) Q E w = Q (xe_now env (xw_ticks w)) (w\<lparr>xw_ticks := xw_ticks w + 1\<rparr>)"
  by (simp add: wp_def nowM_def)

lemma wp_wall [wp_rules]: "wp (wallM env) Q E w = Q (xe_wall env (xw_ticks w)) (w\<lparr>xw_ticks := xw_ticks w + 1\<rparr>)"
  by (simp add: wp_def wallM_def)

lemma wp_uuid [wp_rules]: "wp (uuidM env p) Q E w = Q (lit p @ xe_uuid env (xw_uuids w)) (w\<lparr>xw_uuids := xw_uuids w + 1\<rparr>)"
  by (simp add: wp_def uuidM_def)

lemma wp_emitX [wp_rules]:
  "wp (emitX tid ty p) Q E w = Q () (w\<lparr>xw_events := xw_events w @ [\<lparr>xv_task_id = tid, xv_type = ty, xv_payload = p\<rparr>]\<rparr>)"
  by (simp add: wp_def emitX_def modifyM_def)

lemma wp_ask [wp_rules]: "wp (askM f) Q E w = (case f (xw_store w) of Inl e \<Rightarrow> E e w | Inr x \<Rightarrow> Q x w)"
  by (simp add: wp_def askM_def split: sum.split)

lemma wp_put [wp_rules]:
  "wp (putM f) Q E w = (case f (xw_store w) of Inl e \<Rightarrow> E e w | Inr st \<Rightarrow> Q () (w\<lparr>xw_store := st\<rparr>))"
  by (simp add: wp_def putM_def split: sum.split)

lemma wp_store [wp_rules]:
  "wp (storeM f) Q E w = (case f (xw_store w) of Inl e \<Rightarrow> E e w | Inr (x, st) \<Rightarrow> Q x (w\<lparr>xw_store := st\<rparr>))"
  by (simp add: wp_def storeM_def split: sum.split prod.split)

lemma wp_gateway [wp_rules]:
  "wp (gatewayM env c) Q E w =
    (case xe_gateway env (length (xw_calls w)) c of
       Inl e \<Rightarrow> E e (w\<lparr>xw_calls := xw_calls w @ [c]\<rparr>) | Inr x \<Rightarrow> Q x (w\<lparr>xw_calls := xw_calls w @ [c]\<rparr>))"
  by (simp add: wp_def gatewayM_def split: sum.split)

lemma wp_case_option [wp_rules]:
  "wp (case v of None \<Rightarrow> m | Some x \<Rightarrow> n x) Q E = (case v of None \<Rightarrow> wp m Q E | Some x \<Rightarrow> wp (n x) Q E)"
  by (simp split: option.split)

lemma wp_case_prod [wp_rules]: "wp (case v of (a, b) \<Rightarrow> m a b) Q E = (case v of (a, b) \<Rightarrow> wp (m a b) Q E)"
  by (simp split: prod.split)

lemma wp_case_staged [wp_rules]:
  "wp (case v of Returned r \<Rightarrow> m r | Continue x \<Rightarrow> n x) Q E = (case v of Returned r \<Rightarrow> wp (m r) Q E | Continue x \<Rightarrow> wp (n x) Q E)"
  by (simp split: staged.split)

lemma wp_case_xexn [wp_rules]:
  "wp (case v of IntegrationError c m r \<Rightarrow> f c m r | OtherExn e \<Rightarrow> g e) Q E =
    (case v of IntegrationError c m r \<Rightarrow> wp (f c m r) Q E | OtherExn e \<Rightarrow> wp (g e) Q E)"
  by (simp split: xexn.split)

text \<open>What a computation leaves behind, whether it returns or raises.\<close>

definition after :: "('s, 'e, 'a) sem \<Rightarrow> 's \<Rightarrow> ('e + 'a \<Rightarrow> 's \<Rightarrow> bool) \<Rightarrow> bool" where
  "after m s P \<longleftrightarrow> wp m (\<lambda>x. P (Inr x)) (\<lambda>e. P (Inl e)) s"

lemma afterD: "after m s P \<Longrightarrow> m s = (r, t) \<Longrightarrow> P r t"
  by (cases r) (auto simp: after_def wp_def)

section \<open>Stages and the store\<close>

lemma dict_get_set_fun: "dict_get (dict_set k v d) = (dict_get d)(k \<mapsto> v)"
  by (simp add: fun_eq_iff)

lemma dict_get_del_fun: "dict_get (dict_del k d) = (dict_get d)(k := None)"
  by (simp add: fun_eq_iff)

lemmas dict_funs = dict_get_set_fun dict_get_del_fun

text \<open>The parts of the store, as the invariants read them.\<close>

abbreviation intents :: "ExportWorld \<Rightarrow> pystr \<Rightarrow> ExportIntent option" where
  "intents w \<equiv> dict_get (xs_intents (xw_store w))"

abbreviation runs :: "ExportWorld \<Rightarrow> pystr \<Rightarrow> ExportRun option" where
  "runs w \<equiv> dict_get (xs_runs (xw_store w))"

abbreviation bindings :: "ExportWorld \<Rightarrow> pystr \<times> pystr \<Rightarrow> ExternalDocumentBinding option" where
  "bindings w \<equiv> dict_get (xs_bindings (xw_store w))"

abbreviation claims :: "ExportWorld \<Rightarrow> pystr \<Rightarrow> (pystr \<times> pystr \<times> time) option" where
  "claims w \<equiv> dict_get (xs_intent_claims (xw_store w))"

text \<open>A preview changes nothing or stores one new intent.\<close>

definition fresh_intent :: "ExportEnv \<Rightarrow> ExportWorld \<Rightarrow> ExportIntent \<Rightarrow> bool" where
  "fresh_intent env w i \<longleftrightarrow> xi_intent_id i = lit ''export-intent-'' @ xe_uuid env (xw_uuids w) \<and> xi_consumed_at i = None"

definition same_but_intents :: "ExportWorld \<Rightarrow> ExportWorld \<Rightarrow> bool" where
  "same_but_intents w w' \<longleftrightarrow> runs w' = runs w \<and> bindings w' = bindings w \<and> claims w' = claims w \<and> xw_calls w' = xw_calls w"

definition intent_stored :: "ExportEnv \<Rightarrow> ExportWorld \<Rightarrow> ExportWorld \<Rightarrow> bool" where
  "intent_stored env w w' \<longleftrightarrow>
     (\<exists>i. fresh_intent env w i \<and> xw_uuids w < xw_uuids w' \<and> intents w' = (intents w)(xi_intent_id i \<mapsto> i))"

definition previewed :: "ExportEnv \<Rightarrow> ExportWorld \<Rightarrow> ExportWorld \<Rightarrow> bool" where
  "previewed env w w' \<longleftrightarrow>
     same_but_intents w w' \<and> xw_uuids w \<le> xw_uuids w' \<and> (intents w' = intents w \<or> intent_stored env w w')"

lemma previewed_refl: "previewed env w w"
  by (simp add: previewed_def same_but_intents_def)

lemma wp_new_intent:
  assumes "\<And>i. fresh_intent env w i \<Longrightarrow> Q i (w\<lparr>xw_uuids := xw_uuids w + 1, xw_ticks := xw_ticks w + 1\<rparr>)"
  shows "wp (new_intent env q src doc binding) Q E w"
proof -
  have ticks: "xw_ticks (w\<lparr>xw_uuids := n\<rparr>) = xw_ticks w" for n by simp
  show ?thesis unfolding new_intent_def wp_rules ticks by (rule assms) (simp add: fresh_intent_def)
qed

lemma record_intent_effect:
  assumes "fresh_intent env w i"
  shows "after (record_intent env q i) (w\<lparr>xw_uuids := xw_uuids w + 1, xw_ticks := t\<rparr>) (\<lambda>_ w'. previewed env w w')"
proof -
  have "\<exists>j. fresh_intent env w j \<and> f (xi_intent_id i \<mapsto> i) = f (xi_intent_id j \<mapsto> j)" for f :: "pystr \<Rightarrow> ExportIntent option"
    using assms by blast
  then show ?thesis
    by (auto simp: after_def record_intent_def wp_rules begin_preview_def save_intent_def previewed_def same_but_intents_def
        intent_stored_def bindE_def index_of_def fun_eq_iff assms split: option.splits sum.splits intro!: exI [of _ i])
qed

lemma previewed_emit [simp]: "previewed env w (w'\<lparr>xw_events := v\<rparr>) = previewed env w w'"
  by (simp add: previewed_def same_but_intents_def intent_stored_def)

lemma create_preview_effect: "after (create_preview env q) w (\<lambda>_ w'. previewed env w w')"
proof -
  have rec: "wp (record_intent env q i) Q E (w\<lparr>xw_uuids := xw_uuids w + 1, xw_ticks := xw_ticks w + 1\<rparr>)"
    if "fresh_intent env w i" "\<And>x t. previewed env w t \<Longrightarrow> Q x t" "\<And>e t. previewed env w t \<Longrightarrow> E e t" for i Q E
    using record_intent_effect [OF that(1), of q "xw_ticks w + 1"] that(2,3) by (auto simp: after_def intro: wp_mono)
  show ?thesis
    unfolding after_def create_preview_def check_mode_def
    by (auto simp: wp_rules previewed_refl split: sum.split option.split intro!: wp_new_intent rec)
qed

lemma preview_effect: "after (preview env q) w (\<lambda>_ w'. previewed env w w')"
  using create_preview_effect [of env q w]
  by (auto simp: after_def preview_def wp_rules previewed_refl split: sum.split option.split)

text \<open>The checks change neither the store nor the calls; an execution that passes them is prepared.\<close>

definition quiet :: "ExportWorld \<Rightarrow> ExportWorld \<Rightarrow> bool" where
  "quiet w w' \<longleftrightarrow> xw_store w' = xw_store w \<and> xw_calls w' = xw_calls w \<and> xw_uuids w \<le> xw_uuids w'"

definition prepared :: "ExecuteRequest \<Rightarrow> ExportWorld \<Rightarrow> Execution \<Rightarrow> bool" where
  "prepared q w x \<longleftrightarrow>
     intents w (eq_intent_id q) = Some (ex_intent x) \<and> xi_owner_id (ex_intent x) = ex_owner x \<and> ex_owner x = eq_owner_id q
     \<and> xi_consumed_at (ex_intent x) = None \<and> xd_content_hash (ex_document x) = xi_content_hash (ex_intent x)
     \<and> ex_binding x = bindings w (ex_owner x, xi_task_id (ex_intent x))
     \<and> (xi_mode (ex_intent x) = M_CREATE \<longleftrightarrow> ex_binding x = None)
     \<and> xr_intent_id (ex_run x) = xi_intent_id (ex_intent x) \<and> xr_status (ex_run x) = ER_RUNNING"

lemma mode_cases: "mode \<noteq> M_OVERWRITE_BOUND \<longleftrightarrow> mode = M_CREATE"
  by (cases mode) simp_all

lemma check_effect:
  "after (check_export env q) w (\<lambda>r w'. quiet w w' \<and> (\<forall>x. r = Inr (Continue x) \<longrightarrow> prepared q w x))"
  unfolding after_def check_export_def prepare_execution_def check_intent_def check_mode_def new_export_run_def
  by (auto simp: wp_rules quiet_def prepared_def get_intent_def get_binding_def unchanged_def mode_cases
      split: sum.splits option.splits if_splits)

text \<open>The second stage records a run that has not succeeded and may take the claim.\<close>

definition claim_free :: "ExportWorld \<Rightarrow> pystr \<Rightarrow> pystr \<Rightarrow> pystr \<Rightarrow> time \<Rightarrow> bool" where
  "claim_free w iid owner claim now \<longleftrightarrow>
     (\<exists>i. intents w iid = Some i \<and> xi_owner_id i = owner \<and> xi_consumed_at i = None)
     \<and> (\<forall>o' holder expires. claims w iid = Some (o', holder, expires) \<longrightarrow> holder = claim \<or> expires \<le> now)"

definition unfinished :: "pystr \<Rightarrow> (pystr \<Rightarrow> ExportRun option) \<Rightarrow> (pystr \<Rightarrow> ExportRun option) \<Rightarrow> bool" where
  "unfinished rid f f' \<longleftrightarrow> f' = f \<or> (\<exists>r. xr_status r \<noteq> ER_SUCCEEDED \<and> f' = f(rid \<mapsto> r))"

lemma unfinished_intros: "unfinished rid f f" "xr_status r \<noteq> ER_SUCCEEDED \<Longrightarrow> unfinished rid f (f(rid \<mapsto> r))"
  by (auto simp: unfinished_def)

lemma unfinished_trans: "unfinished rid f g \<Longrightarrow> unfinished rid g h \<Longrightarrow> unfinished rid f h"
  by (auto simp: unfinished_def)

definition started :: "ExportEnv \<Rightarrow> Execution \<Rightarrow> ExportWorld \<Rightarrow> ExportWorld \<Rightarrow> bool" where
  "started env x w w' \<longleftrightarrow>
     intents w' = intents w \<and> bindings w' = bindings w \<and> xw_calls w' = xw_calls w \<and> xw_uuids w' = xw_uuids w
     \<and> unfinished (xr_export_run_id (ex_run x)) (runs w) (runs w')
     \<and> (claims w' = claims w
        \<or> (\<exists>n. claim_free w (xi_intent_id (ex_intent x)) (ex_owner x) (xr_export_run_id (ex_run x)) (xe_now env n)
             \<and> claims w' = (claims w)(xi_intent_id (ex_intent x) \<mapsto> (ex_owner x, xr_export_run_id (ex_run x), xe_now env n + xe_ttl env))))"

lemma claim_result:
  "claim_intent iid owner claim now until st = (b, st') \<Longrightarrow>
    (if b then claim_free (w\<lparr>xw_store := st\<rparr>) iid owner claim now \<and> st' = st\<lparr>xs_intent_claims := dict_set iid (owner, claim, until) (xs_intent_claims st)\<rparr>
     else st' = st)"
  by (auto simp: claim_intent_def claim_free_def Let_def split: option.splits if_splits)

lemma wp_claim:
  assumes "claim_free w (xi_intent_id (ex_intent x)) (ex_owner x) (xr_export_run_id (ex_run x)) t \<Longrightarrow>
      Q True (w\<lparr>xw_store := (xw_store w)\<lparr>xs_intent_claims :=
        dict_set (xi_intent_id (ex_intent x)) (ex_owner x, xr_export_run_id (ex_run x), t + xe_ttl env) (xs_intent_claims (xw_store w))\<rparr>\<rparr>)"
    and "Q False w"
  shows "wp (claimM env x t) Q E w"
proof (cases "claim_intent (xi_intent_id (ex_intent x)) (ex_owner x) (xr_export_run_id (ex_run x)) t (t + xe_ttl env) (xw_store w)")
  case (Pair b st')
  then show ?thesis using claim_result [OF Pair, of w] assms by (cases b) (simp_all add: wp_rules claimM_def)
qed

lemma refuse_effect:
  "after (refuse_export env x) w (\<lambda>r w'. intents w' = intents w \<and> bindings w' = bindings w \<and> claims w' = claims w
     \<and> xw_calls w' = xw_calls w \<and> xw_uuids w' = xw_uuids w
     \<and> unfinished (xr_export_run_id (ex_run x)) (runs w) (runs w')
     \<and> (\<exists>e. r = Inl e))"
  unfolding after_def refuse_export_def save_replay_def
  by (auto simp: wp_rules Let_def dict_funs split: option.split intro!: unfinished_intros)

lemma start_effect:
  assumes "xr_status (ex_run x) = ER_RUNNING"
  shows "after (start_export env x) w (\<lambda>r w'. started env x w w' \<and> (\<forall>x'. r = Inr (Continue x') \<longrightarrow> x' = x))"
proof -
  have run: "unfinished (xr_export_run_id (ex_run x)) (runs w) ((runs w)(xr_export_run_id (ex_run x) \<mapsto> ex_run x))"
    by (rule unfinished_intros) (simp add: assms)
  have ref: "wp (refuse_export env x) Q E w1"
    if "intents w1 = intents w" "bindings w1 = bindings w" "claims w1 = claims w" "xw_calls w1 = xw_calls w" "xw_uuids w1 = xw_uuids w"
      "runs w1 = (runs w)(xr_export_run_id (ex_run x) \<mapsto> ex_run x)" "\<And>e t. started env x w t \<Longrightarrow> E e t" for w1 Q E
    using refuse_effect [of env x w1] unfolding after_def
    by (rule wp_mono) (use that in \<open>auto simp: started_def intro!: that(7) intro: unfinished_trans [OF run]\<close>)
  show ?thesis
    unfolding after_def start_export_def begin_run_def
    by (auto simp: wp_rules bindE_def index_of_def dict_funs assms split: sum.splits option.splits intro!: wp_claim ref)
       (auto simp: started_def claim_free_def dict_funs assms intro: unfinished_intros run)
qed

text \<open>The third stage makes at most one call and may save the binding.\<close>

definition call_of :: "Execution \<Rightarrow> GatewayCall" where
  "call_of x =
     (case ex_binding x of
        None \<Rightarrow> CreateDocument (ex_document x) (ex_key x)
      | Some b \<Rightarrow> OverwriteDocument (xb_external_id b) (ex_document x) (ex_key x) (xb_provider_revision b))"

definition binding_of :: "ExportEnv \<Rightarrow> Execution \<Rightarrow> ExportWorld \<Rightarrow> ExternalDocumentBinding \<Rightarrow> bool" where
  "binding_of env x w b \<longleftrightarrow>
     (case ex_binding x of
        None \<Rightarrow> xb_binding_id b = lit ''document-binding-'' @ xe_uuid env (xw_uuids w)
                \<and> xb_owner_id b = ex_owner x \<and> xb_task_id b = xi_task_id (ex_intent x)
      | Some b0 \<Rightarrow> xb_binding_id b = xb_binding_id b0 \<and> xb_external_id b = xb_external_id b0
                \<and> xb_owner_id b = xb_owner_id b0 \<and> xb_task_id b = xb_task_id b0)"

definition delivered :: "ExportEnv \<Rightarrow> Execution \<Rightarrow> ExportWorld \<Rightarrow> ExportWorld \<Rightarrow> bool" where
  "delivered env x w w' \<longleftrightarrow>
     intents w' = intents w \<and> runs w' = runs w \<and> claims w' = claims w \<and> xw_calls w' = xw_calls w @ [call_of x]
     \<and> xw_uuids w \<le> xw_uuids w'
     \<and> (bindings w' = bindings w
        \<or> (\<exists>b. binding_of env x w b \<and> (ex_binding x = None \<longrightarrow> xw_uuids w < xw_uuids w')
             \<and> (\<forall>b'. bindings w (xb_owner_id b, xb_task_id b) = Some b' \<longrightarrow> xb_binding_id b' = xb_binding_id b)
             \<and> bindings w' = (bindings w)((xb_owner_id b, xb_task_id b) \<mapsto> b)))"

definition delivering :: "ExportEnv \<Rightarrow> Execution \<Rightarrow> ExportWorld \<Rightarrow> ExternalDocumentBinding \<Rightarrow> ExportWorld \<Rightarrow> bool" where
  "delivering env x w b w1 \<longleftrightarrow>
     xw_store w1 = xw_store w \<and> xw_calls w1 = xw_calls w @ [call_of x] \<and> xw_uuids w \<le> xw_uuids w1 \<and> binding_of env x w b
     \<and> (ex_binding x = None \<longrightarrow> xw_uuids w < xw_uuids w1)"

lemma provider_effect:
  assumes "xi_mode (ex_intent x) = M_CREATE \<longleftrightarrow> ex_binding x = None"
  shows "wp (provider_binding env x) (delivering env x w) (\<lambda>e w1. delivered env x w w1) w"
  using assms
  by (auto simp: provider_binding_def created_binding_def overwritten_binding_def wp_rules delivering_def delivered_def
      call_of_def binding_of_def split: sum.split option.split)

lemma save_binding_effect:
  assumes "delivering env x w b w1"
  shows "wp (putM (save_binding b)) (\<lambda>_ w'. delivered env x w w') (\<lambda>e w'. delivered env x w w') w1"
proof -
  have same: "xw_store w1 = xw_store w" and b: "binding_of env x w b" using assms by (auto simp: delivering_def)
  show ?thesis
  proof (cases "save_binding b (xw_store w1)")
    case (Inl e)
    then show ?thesis using assms by (simp add: wp_rules delivered_def delivering_def)
  next
    case (Inr st)
    then have "st = (xw_store w)\<lparr>xs_bindings := dict_set (xb_owner_id b, xb_task_id b) b (xs_bindings (xw_store w))\<rparr>
        \<and> (\<forall>b'. bindings w (xb_owner_id b, xb_task_id b) = Some b' \<longrightarrow> xb_binding_id b' = xb_binding_id b)"
      by (auto simp: save_binding_def same Let_def split: option.splits if_splits)
    with Inr assms b show ?thesis by (auto simp: wp_rules delivered_def delivering_def dict_funs)
  qed
qed

lemma delivered_tick [simp]: "delivered env x w (w'\<lparr>xw_ticks := n\<rparr>) = delivered env x w w'"
  by (simp add: delivered_def)

lemma deliver_effect:
  assumes "xi_mode (ex_intent x) = M_CREATE \<longleftrightarrow> ex_binding x = None"
  shows "after (deliver_export env x) w (\<lambda>r w'. delivered env x w w'
    \<and> (\<forall>x'. r = Inr (Continue x') \<longrightarrow> x' = x\<lparr>ex_run := ex_run x'\<rparr> \<and> xr_intent_id (ex_run x') = xr_intent_id (ex_run x)))"
proof -
  have fail: "wp (failed_run env (ex_run x) e) Q E w1"
    if "delivered env x w w1" "\<And>run t. delivered env x w t \<Longrightarrow> xr_intent_id run = xr_intent_id (ex_run x) \<Longrightarrow> Q run t"
      "\<And>e t. delivered env x w t \<Longrightarrow> E e t" for w1 e Q E
    using that by (auto simp: failed_run_def wp_rules end_run_def split: xexn.split)
  show ?thesis
    unfolding after_def deliver_export_def wp_bind wp_catch wp_then
    by (rule wp_mono [OF provider_effect [OF assms]])
       (auto simp: wp_return wp_bind wp_clockX intro!: fail wp_mono [OF save_binding_effect])
qed

text \<open>The last stage: a run that is stored as a success has consumed its intent.\<close>

definition consumed :: "Execution \<Rightarrow> ExportWorld \<Rightarrow> ExportWorld \<Rightarrow> bool" where
  "consumed x w w' \<longleftrightarrow>
     (\<exists>i expires t. intents w (xi_intent_id (ex_intent x)) = Some i \<and> xi_consumed_at i = None
        \<and> claims w (xi_intent_id (ex_intent x)) = Some (ex_owner x, xr_export_run_id (ex_run x), expires)
        \<and> intents w' = (intents w)(xi_intent_id (ex_intent x) \<mapsto> i\<lparr>xi_consumed_at := Some t\<rparr>)
        \<and> claims w' = (claims w)(xi_intent_id (ex_intent x) := None))"

definition released :: "Execution \<Rightarrow> ExportWorld \<Rightarrow> ExportWorld \<Rightarrow> bool" where
  "released x w w' \<longleftrightarrow>
     intents w' = intents w \<and> (claims w' = claims w
       \<or> (\<exists>expires. claims w (xi_intent_id (ex_intent x)) = Some (ex_owner x, xr_export_run_id (ex_run x), expires))
         \<and> claims w' = (claims w)(xi_intent_id (ex_intent x) := None))"

definition settled :: "Execution \<Rightarrow> ExportWorld \<Rightarrow> ExportWorld \<Rightarrow> bool" where
  "settled x w w' \<longleftrightarrow>
     bindings w' = bindings w \<and> xw_calls w' = xw_calls w \<and> xw_uuids w' = xw_uuids w
     \<and> (consumed x w w' \<and> (runs w' = runs w \<or> runs w' = (runs w)(xr_export_run_id (ex_run x) \<mapsto> ex_run x))
        \<or> released x w w' \<and> unfinished (xr_export_run_id (ex_run x)) (runs w) (runs w'))"

text \<open>The state between the fate of the intent and the record of the run.\<close>

definition settling :: "Execution \<Rightarrow> ExportWorld \<Rightarrow> ExportRun \<Rightarrow> ExportWorld \<Rightarrow> bool" where
  "settling x w run w1 \<longleftrightarrow>
     bindings w1 = bindings w \<and> xw_calls w1 = xw_calls w \<and> xw_uuids w1 = xw_uuids w \<and> runs w1 = runs w
     \<and> xr_export_run_id run = xr_export_run_id (ex_run x)
     \<and> (consumed x w w1 \<and> run = ex_run x \<or> released x w w1 \<and> xr_status run \<noteq> ER_SUCCEEDED)"

lemma consume_result:
  "consume_claimed_intent (xi_intent_id (ex_intent x)) (ex_owner x) (xr_export_run_id (ex_run x)) t (xw_store w) = (b, st) \<Longrightarrow>
    runs (w\<lparr>xw_store := st\<rparr>) = runs w \<and> bindings (w\<lparr>xw_store := st\<rparr>) = bindings w
    \<and> (if b then consumed x w (w\<lparr>xw_store := st\<rparr>) else st = xw_store w)"
  by (auto simp: consume_claimed_intent_def consumed_def dict_funs split: option.splits prod.splits if_splits)

lemma settle_intent_effect: "wp (settle_intent env x) (settling x w) (\<lambda>e w1. False) w"
proof -
  have consume: "wp (storeM (\<lambda>st. Inr (consume_claimed_intent (xi_intent_id (ex_intent x)) (ex_owner x) (xr_export_run_id (ex_run x)) t st))) Q E w1"
    if "xw_store w1 = xw_store w" "xw_calls w1 = xw_calls w" "xw_uuids w1 = xw_uuids w"
      "\<And>w'. xw_calls w' = xw_calls w \<Longrightarrow> xw_uuids w' = xw_uuids w \<Longrightarrow> runs w' = runs w \<Longrightarrow> bindings w' = bindings w \<Longrightarrow> consumed x w w' \<Longrightarrow> Q True w'"
      "Q False w1" for w1 t Q E
  proof (cases "consume_claimed_intent (xi_intent_id (ex_intent x)) (ex_owner x) (xr_export_run_id (ex_run x)) t (xw_store w)")
    case (Pair b st)
    note result = consume_result [OF Pair]
    show ?thesis
    proof (cases b)
      case True
      with result that(2,3) have "Q True (w1\<lparr>xw_store := st\<rparr>)"
        by (intro that(4)) (auto simp: consumed_def)
      with Pair True show ?thesis by (simp add: wp_store that(1))
    next
      case False
      with result that(1) have "w1\<lparr>xw_store := st\<rparr> = w1" by simp
      with Pair False that(5) show ?thesis by (simp add: wp_store that(1))
    qed
  qed
  show ?thesis
    unfolding settle_intent_def Let_def wp_If wp_bind wp_clockX wp_then wp_put
    by (auto simp: wp_return wp_bind wp_clockX wp_If settling_def released_def release_intent_claim_def end_run_def dict_funs
        split: option.split intro!: consume)
qed

lemma save_replay_effect:
  assumes "settling x w run w1"
  shows "wp (putM (save_replay owner key h run)) (\<lambda>_ w'. settled x w w') (\<lambda>e w'. settled x w w') w1"
  using assms
  by (auto simp: wp_rules save_replay_def Let_def settling_def settled_def consumed_def released_def dict_funs
      split: option.split intro: unfinished_intros)

lemma settled_emit [simp]: "settled x w (w'\<lparr>xw_events := v\<rparr>) = settled x w w'"
  by (simp add: settled_def consumed_def released_def)

lemma settle_effect: "after (settle_export env x) w (\<lambda>r w'. settled x w w' \<and> (\<forall>x'. r \<noteq> Inr (Continue x')))"
  unfolding after_def settle_export_def wp_bind wp_then
  by (rule wp_mono [OF settle_intent_effect])
     (auto simp: wp_return wp_emitX intro!: wp_mono [OF save_replay_effect])

end
