(* ===== verification/Export_Safety.thy ===== *)
theory Export_Safety
  imports Export_System
begin

text \<open>
  What the export service guarantees whatever the order of the stages of its executions: an intent is carried out at most
  once, a task keeps its external document, and the store of intents refines a slot that is
  published, held by one run at a time, and spent for ever. Identifiers are assumed never to repeat.
\<close>

section \<open>The invariant\<close>

definition named_intents :: "ExportEnv \<Rightarrow> nat \<Rightarrow> (pystr \<Rightarrow> ExportIntent option) \<Rightarrow> bool" where
  "named_intents env n f \<longleftrightarrow>
     (\<forall>iid i. f iid = Some i \<longrightarrow> xi_intent_id i = iid \<and> (\<exists>k<n. iid = lit ''export-intent-'' @ xe_uuid env k))"

definition named_bindings :: "ExportEnv \<Rightarrow> nat \<Rightarrow> (pystr \<times> pystr \<Rightarrow> ExternalDocumentBinding option) \<Rightarrow> bool" where
  "named_bindings env n f \<longleftrightarrow>
     (\<forall>owner tid b. f (owner, tid) = Some b \<longrightarrow>
        xb_owner_id b = owner \<and> xb_task_id b = tid \<and> (\<exists>k<n. xb_binding_id b = lit ''document-binding-'' @ xe_uuid env k))"

text \<open>A success has consumed its intent, and no other run of the intent is one.\<close>

definition spent_intent :: "(pystr \<Rightarrow> ExportIntent option) \<Rightarrow> pystr \<Rightarrow> bool" where
  "spent_intent f iid \<longleftrightarrow> (\<exists>i. f iid = Some i \<and> xi_consumed_at i \<noteq> None)"

definition succeeded :: "(pystr \<Rightarrow> ExportRun option) \<Rightarrow> pystr \<Rightarrow> pystr \<Rightarrow> bool" where
  "succeeded f iid rid \<longleftrightarrow> (\<exists>r. f rid = Some r \<and> xr_status r = ER_SUCCEEDED \<and> xr_intent_id r = iid)"

definition successes_spent :: "(pystr \<Rightarrow> ExportRun option) \<Rightarrow> (pystr \<Rightarrow> ExportIntent option) \<Rightarrow> bool" where
  "successes_spent f g \<longleftrightarrow>
     (\<forall>iid rid. succeeded f iid rid \<longrightarrow> spent_intent g iid) \<and> (\<forall>iid rid rid'. succeeded f iid rid \<longrightarrow> succeeded f iid rid' \<longrightarrow> rid = rid')"

definition same_document :: "ExternalDocumentBinding \<Rightarrow> ExternalDocumentBinding \<Rightarrow> bool" where
  "same_document b b' \<longleftrightarrow> xb_binding_id b' = xb_binding_id b \<and> xb_external_id b' = xb_external_id b"

definition rebound :: "(pystr \<times> pystr \<Rightarrow> ExternalDocumentBinding option) \<Rightarrow> (pystr \<times> pystr \<Rightarrow> ExternalDocumentBinding option) \<Rightarrow> bool" where
  "rebound f f' \<longleftrightarrow> (\<forall>k b. f k = Some b \<longrightarrow> (\<exists>b'. f' k = Some b' \<and> same_document b b'))"

definition intents_kept :: "(pystr \<Rightarrow> ExportIntent option) \<Rightarrow> (pystr \<Rightarrow> ExportIntent option) \<Rightarrow> bool" where
  "intents_kept f f' \<longleftrightarrow>
     (\<forall>iid i. f iid = Some i \<longrightarrow> (\<exists>c. f' iid = Some (i\<lparr>xi_consumed_at := c\<rparr>) \<and> (xi_consumed_at i \<noteq> None \<longrightarrow> c \<noteq> None)))"

text \<open>What a call sends is the document of an intent; an overwrite goes to the document bound to its task.\<close>

fun call_allowed :: "(pystr \<Rightarrow> ExportIntent option) \<Rightarrow> (pystr \<times> pystr \<Rightarrow> ExternalDocumentBinding option) \<Rightarrow> GatewayCall \<Rightarrow> bool" where
  "call_allowed f g (CreateDocument doc key) =
     (\<exists>iid i. f iid = Some i \<and> xi_mode i = M_CREATE \<and> xi_content_hash i = xd_content_hash doc)"
| "call_allowed f g (OverwriteDocument ext doc key revision) =
     (\<exists>iid i b. f iid = Some i \<and> xi_mode i = M_OVERWRITE_BOUND \<and> xi_content_hash i = xd_content_hash doc
        \<and> g (xi_owner_id i, xi_task_id i) = Some b \<and> xb_external_id b = ext)"

definition thread_ok :: "ExportWorld \<Rightarrow> Stage \<times> Execution \<Rightarrow> bool" where
  "thread_ok w gx \<longleftrightarrow>
     (let (g, x) = gx; i = ex_intent x in
      g = Ended \<or>
      (xr_intent_id (ex_run x) = xi_intent_id i \<and> (g = Checked \<longrightarrow> xr_status (ex_run x) = ER_RUNNING)
       \<and> (\<exists>c. intents w (xi_intent_id i) = Some (i\<lparr>xi_consumed_at := c\<rparr>))
       \<and> xi_owner_id i = ex_owner x \<and> xd_content_hash (ex_document x) = xi_content_hash i
       \<and> (xi_mode i = M_CREATE \<longleftrightarrow> ex_binding x = None)
       \<and> (\<forall>b. ex_binding x = Some b \<longrightarrow> xb_owner_id b = ex_owner x \<and> xb_task_id b = xi_task_id i
            \<and> (\<exists>b'. bindings w (ex_owner x, xi_task_id i) = Some b' \<and> same_document b b'))))"

definition world_ok :: "ExportEnv \<Rightarrow> ExportWorld \<Rightarrow> bool" where
  "world_ok env w \<longleftrightarrow>
     named_intents env (xw_uuids w) (intents w) \<and> named_bindings env (xw_uuids w) (bindings w) \<and> successes_spent (runs w) (intents w)
     \<and> (\<forall>iid. claims w iid \<noteq> None \<longrightarrow> intents w iid \<noteq> None) \<and> (\<forall>c \<in> set (xw_calls w). call_allowed (intents w) (bindings w) c)"

definition export_invar :: "ExportEnv \<Rightarrow> ExportSystem \<Rightarrow> bool" where
  "export_invar env s \<longleftrightarrow> world_ok env (sy_world s) \<and> (\<forall>gx \<in> set (sy_threads s). thread_ok (sy_world s) gx)"

section \<open>Stability\<close>

lemma same_document_refl [simp]: "same_document b b"
  by (simp add: same_document_def)

lemma same_document_trans: "same_document a b \<Longrightarrow> same_document b c \<Longrightarrow> same_document a c"
  by (simp add: same_document_def)

lemma kept_refl [simp]: "rebound g g" "intents_kept f f"
  by (auto simp: rebound_def intents_kept_def) (metis ExportIntent.surjective ExportIntent.update_convs(14))

lemma rebound_trans: "rebound f g \<Longrightarrow> rebound g h \<Longrightarrow> rebound f h"
  by (unfold rebound_def) (meson same_document_trans)

lemma keptD: "intents_kept f f' \<Longrightarrow> f iid = Some i \<Longrightarrow> \<exists>c. f' iid = Some (i\<lparr>xi_consumed_at := c\<rparr>)"
  unfolding intents_kept_def by blast

lemma kept_consumed: "f iid = Some i \<Longrightarrow> intents_kept f (f(iid \<mapsto> i\<lparr>xi_consumed_at := Some t\<rparr>))"
  using kept_refl(2) [of f] unfolding intents_kept_def by (metis fun_upd_apply option.distinct(1) option.inject)

lemma kept_spent: "intents_kept f f' \<Longrightarrow> spent_intent f iid \<Longrightarrow> spent_intent f' iid"
  by (fastforce simp: intents_kept_def spent_intent_def)

lemma kept_call:
  assumes "intents_kept f f'" "rebound g g'" "call_allowed f g c"
  shows "call_allowed f' g' c"
proof (cases c)
  case (CreateDocument doc key)
  then obtain iid i where i: "f iid = Some i" "xi_mode i = M_CREATE" "xi_content_hash i = xd_content_hash doc" using assms(3) by auto
  obtain c where "f' iid = Some (i\<lparr>xi_consumed_at := c\<rparr>)" using keptD [OF assms(1) i(1)] by blast
  with i CreateDocument show ?thesis by (auto intro!: exI [of _ iid])
next
  case (OverwriteDocument ext doc key revision)
  then obtain iid i b where i: "f iid = Some i" "xi_mode i = M_OVERWRITE_BOUND" "xi_content_hash i = xd_content_hash doc"
      "g (xi_owner_id i, xi_task_id i) = Some b" "xb_external_id b = ext" using assms(3) by auto
  obtain c where "f' iid = Some (i\<lparr>xi_consumed_at := c\<rparr>)" using keptD [OF assms(1) i(1)] by blast
  moreover obtain b' where "g' (xi_owner_id i, xi_task_id i) = Some b'" "xb_external_id b' = ext"
    using assms(2) i(4,5) by (fastforce simp: rebound_def same_document_def)
  ultimately show ?thesis using i OverwriteDocument by (auto intro!: exI [of _ iid])
qed

lemma kept_thread:
  assumes "intents_kept (intents w) (intents w')" "rebound (bindings w) (bindings w')" "thread_ok w gx"
  shows "thread_ok w' gx"
proof -
  obtain g x where gx: "gx = (g, x)" by (cases gx)
  let ?i = "ex_intent x"
  have "\<exists>c. intents w' (xi_intent_id ?i) = Some (?i\<lparr>xi_consumed_at := c\<rparr>)"
    if "intents w (xi_intent_id ?i) = Some (?i\<lparr>xi_consumed_at := c\<rparr>)" for c
    using keptD [OF assms(1) that] by simp
  moreover have "\<exists>b''. bindings w' k = Some b'' \<and> same_document b b''"
    if "bindings w k = Some b'" "same_document b b'" for k b b'
    using assms(2) that by (meson rebound_def same_document_trans)
  ultimately show ?thesis using assms(3) unfolding gx thread_ok_def Let_def prod.case by metis
qed

section \<open>Every step keeps the invariant\<close>

lemma named_mono:
  "named_intents env n f \<Longrightarrow> n \<le> m \<Longrightarrow> named_intents env m f"
  "named_bindings env n g \<Longrightarrow> n \<le> m \<Longrightarrow> named_bindings env m g"
  unfolding named_intents_def named_bindings_def by (meson less_le_trans)+

lemma named_bindingsD:
  "named_bindings env n g \<Longrightarrow> g k = Some b \<Longrightarrow> \<exists>m<n. xb_binding_id b = lit ''document-binding-'' @ xe_uuid env m"
  by (cases k) (simp only: named_bindings_def)

lemma named_bindings_set:
  assumes "\<exists>k<n. xb_binding_id b = lit ''document-binding-'' @ xe_uuid env k" "named_bindings env n g"
  shows "named_bindings env n (g((xb_owner_id b, xb_task_id b) \<mapsto> b))"
  using assms by (simp only: named_bindings_def fun_upd_apply split: if_split) blast

lemma unfinished_succeeded: "unfinished rid f f' \<Longrightarrow> succeeded f' iid rid' \<Longrightarrow> succeeded f iid rid'"
  by (auto simp: unfinished_def succeeded_def split: if_splits)

lemma successes_unfinished:
  "unfinished rid f f' \<Longrightarrow> successes_spent f g \<Longrightarrow> successes_spent f' g"
  unfolding successes_spent_def by (meson unfinished_succeeded)

lemma successes_kept: "intents_kept g g' \<Longrightarrow> successes_spent f g \<Longrightarrow> successes_spent f g'"
  by (auto simp: successes_spent_def dest: kept_spent)

text \<open>A transition of the world that keeps intents and bindings keeps the invariant of the other threads.\<close>

definition world_step :: "ExportWorld \<Rightarrow> ExportWorld \<Rightarrow> bool" where
  "world_step w w' \<longleftrightarrow> intents_kept (intents w) (intents w') \<and> rebound (bindings w) (bindings w')"

lemma fresh_not_named:
  assumes "inj (xe_uuid env)" "named_intents env n f"
  shows "f (lit ''export-intent-'' @ xe_uuid env n) = None"
proof (rule ccontr)
  assume "\<not> ?thesis"
  then obtain k where "k < n" "xe_uuid env n = xe_uuid env k" using assms(2) by (auto simp: named_intents_def)
  with assms(1) show False by (auto dest: injD)
qed

lemma preview_ok:
  assumes inj: "inj (xe_uuid env)" and ok: "world_ok env w" and p: "previewed env w w'"
  shows "world_ok env w' \<and> world_step w w'"
proof -
  have same: "runs w' = runs w" "bindings w' = bindings w" "claims w' = claims w" "xw_calls w' = xw_calls w" "xw_uuids w \<le> xw_uuids w'"
    using p by (auto simp: previewed_def same_but_intents_def)
  have named: "named_intents env (xw_uuids w) (intents w)" using ok by (simp add: world_ok_def)
  have kept: "intents_kept (intents w) (intents w') \<and> named_intents env (xw_uuids w') (intents w')
      \<and> (\<forall>iid. intents w iid \<noteq> None \<longrightarrow> intents w' iid \<noteq> None)"
  proof (cases "intents w' = intents w")
    case True
    then show ?thesis using named_mono(1) [OF named same(5)] by simp
  next
    case False
    then obtain i where i: "fresh_intent env w i" "xw_uuids w < xw_uuids w'" "intents w' = (intents w)(xi_intent_id i \<mapsto> i)"
      using p by (auto simp: previewed_def intent_stored_def)
    have new: "intents w (xi_intent_id i) = None" using fresh_not_named [OF inj named] i(1) by (simp add: fresh_intent_def)
    have "named_intents env (xw_uuids w') (intents w')"
      using named_mono(1) [OF named same(5)] i(1,2) unfolding i(3) named_intents_def fresh_intent_def by auto
    moreover have "intents_kept (intents w) (intents w')"
      using kept_refl(2) [of "intents w"] new unfolding i(3) intents_kept_def by (metis fun_upd_other option.distinct(1))
    ultimately show ?thesis by (simp add: i(3))
  qed
  then have "world_step w w'" by (simp add: world_step_def same)
  with kept ok show ?thesis
    using named_mono(2) [of env "xw_uuids w" "bindings w", OF _ same(5)]
    by (auto simp: world_ok_def same intro: successes_kept kept_call [where f = "intents w" and g = "bindings w"])
qed

lemma check_ok:
  assumes ok: "world_ok env w" and q: "quiet w w'"
  shows "world_ok env w' \<and> world_step w w'"
  using ok q named_mono by (auto simp: world_ok_def quiet_def world_step_def)

lemma prepared_ok:
  assumes ok: "world_ok env w" and p: "prepared q w x" and q: "quiet w w'"
  shows "thread_ok w' (Checked, x)"
proof -
  have "xi_intent_id (ex_intent x) = eq_intent_id q" using ok p by (auto simp: world_ok_def named_intents_def prepared_def)
  moreover have "ex_intent x\<lparr>xi_consumed_at := None\<rparr> = ex_intent x" using p by (simp add: prepared_def)
  ultimately have "\<exists>c. intents w (xi_intent_id (ex_intent x)) = Some (ex_intent x\<lparr>xi_consumed_at := c\<rparr>)"
    using p by (metis prepared_def)
  moreover have "xb_owner_id b = ex_owner x \<and> xb_task_id b = xi_task_id (ex_intent x)" if "ex_binding x = Some b" for b
    using ok p that by (auto simp: world_ok_def named_bindings_def prepared_def)
  ultimately show ?thesis using p q by (auto simp: thread_ok_def Let_def prepared_def quiet_def)
qed

lemma start_ok:
  assumes ok: "world_ok env w" and s: "started env x w w'"
  shows "world_ok env w' \<and> world_step w w'"
  using ok s by (auto simp: world_ok_def started_def world_step_def claim_free_def intro: successes_unfinished split: if_splits)

lemma deliver_ok:
  assumes inj: "inj (xe_uuid env)" and ok: "world_ok env w" and t: "thread_ok w (Started, x)" and d: "delivered env x w w'"
  shows "world_ok env w' \<and> world_step w w'"
proof -
  have same: "intents w' = intents w" "runs w' = runs w" "claims w' = claims w" "xw_calls w' = xw_calls w @ [call_of x]" "xw_uuids w \<le> xw_uuids w'"
    using d by (auto simp: delivered_def)
  have named: "named_bindings env (xw_uuids w) (bindings w)" using ok by (simp add: world_ok_def)
  have "rebound (bindings w) (bindings w') \<and> named_bindings env (xw_uuids w') (bindings w')"
  proof (cases "bindings w' = bindings w")
    case True
    then show ?thesis using named_mono(2) [OF named same(5)] by simp
  next
    case False
    then obtain b where b: "binding_of env x w b" "ex_binding x = None \<longrightarrow> xw_uuids w < xw_uuids w'"
        "\<And>b'. bindings w (xb_owner_id b, xb_task_id b) = Some b' \<Longrightarrow> xb_binding_id b' = xb_binding_id b"
        "bindings w' = (bindings w)((xb_owner_id b, xb_task_id b) \<mapsto> b)"
      using d False unfolding delivered_def by metis
    have one: "same_document b' b" if b': "bindings w (xb_owner_id b, xb_task_id b) = Some b'" for b'
    proof (cases "ex_binding x")
      case None
      then have "xb_binding_id b' = lit ''document-binding-'' @ xe_uuid env (xw_uuids w)"
        using b(1) b(3) [OF b'] by (simp add: binding_of_def)
      moreover obtain k where "k < xw_uuids w" "xb_binding_id b' = lit ''document-binding-'' @ xe_uuid env k"
        using named b' unfolding named_bindings_def by blast
      ultimately have "xe_uuid env k = xe_uuid env (xw_uuids w)" by simp
      with inj \<open>k < xw_uuids w\<close> show ?thesis by (auto dest: injD)
    next
      case (Some b0)
      then have "xb_external_id b = xb_external_id b0" "(xb_owner_id b, xb_task_id b) = (ex_owner x, xi_task_id (ex_intent x))"
        using t b(1) by (simp_all add: thread_ok_def Let_def binding_of_def Let_def)
      moreover have "\<exists>b''. bindings w (ex_owner x, xi_task_id (ex_intent x)) = Some b'' \<and> same_document b0 b''"
        using t Some by (simp add: thread_ok_def Let_def)
      ultimately show ?thesis using b' b(3) [OF b'] by (auto simp: same_document_def)
    qed
    have "\<exists>k<xw_uuids w'. xb_binding_id b = lit ''document-binding-'' @ xe_uuid env k"
    proof (cases "ex_binding x")
      case None
      with b(1,2) show ?thesis by (auto simp: binding_of_def)
    next
      case (Some b0)
      with t b(1) obtain b' where b': "bindings w (xb_owner_id b, xb_task_id b) = Some b'" by (auto simp: thread_ok_def Let_def binding_of_def)
      from named_bindingsD [OF named_mono(2) [OF named same(5)] b'] b(3) [OF b'] show ?thesis by simp
    qed
    from this named_mono(2) [OF named same(5)] have "named_bindings env (xw_uuids w') (bindings w')"
      unfolding b(4) by (rule named_bindings_set)
    moreover have "rebound (bindings w) (bindings w')" using one by (auto simp: rebound_def b(4))
    ultimately show ?thesis by simp
  qed
  moreover have "call_allowed (intents w) (bindings w) (call_of x)"
  proof -
    obtain c where c: "intents w (xi_intent_id (ex_intent x)) = Some (ex_intent x\<lparr>xi_consumed_at := c\<rparr>)"
      using t by (auto simp: thread_ok_def Let_def)
    show ?thesis
    proof (cases "ex_binding x")
      case None
      with t c show ?thesis by (auto simp: call_of_def thread_ok_def Let_def intro!: exI [of _ "xi_intent_id (ex_intent x)"])
    next
      case (Some b)
      moreover have "xi_mode (ex_intent x) = M_OVERWRITE_BOUND" using t Some by (cases "xi_mode (ex_intent x)") (auto simp: thread_ok_def Let_def)
      ultimately show ?thesis
        using t c by (auto simp: call_of_def thread_ok_def Let_def same_document_def intro!: exI [of _ "xi_intent_id (ex_intent x)"])
    qed
  qed
  ultimately show ?thesis
    using ok named_mono(1) [of env "xw_uuids w" "intents w", OF _ same(5)]
    by (auto simp: world_ok_def world_step_def same intro: kept_call [where f = "intents w" and g = "bindings w"])
qed

lemma successes_consumed:
  assumes s: "successes_spent f g" and i: "g iid = Some i" "xi_consumed_at i = None"
    and r: "f' = f \<or> f' = f(rid \<mapsto> run) \<and> xr_intent_id run = iid"
  shows "successes_spent f' (g(iid \<mapsto> i\<lparr>xi_consumed_at := Some t\<rparr>))"
proof -
  let ?g = "g(iid \<mapsto> i\<lparr>xi_consumed_at := Some t\<rparr>)"
  have none: "\<not> succeeded f iid rid'" for rid' using s i by (auto simp: successes_spent_def spent_intent_def)
  have now: "spent_intent ?g iid" by (simp add: spent_intent_def)
  have kept: "spent_intent g j \<Longrightarrow> spent_intent ?g j" for j using now by (cases "j = iid") (auto simp: spent_intent_def)
  have new: "succeeded f' j rid' \<Longrightarrow> succeeded f j rid' \<or> j = iid \<and> rid' = rid" for j rid'
    using r by (auto simp: succeeded_def split: if_splits)
  from s none now kept new show ?thesis unfolding successes_spent_def by metis
qed

lemma settle_ok:
  assumes ok: "world_ok env w" and t: "thread_ok w (Delivered, x)" and s: "settled x w w'"
  shows "world_ok env w' \<and> world_step w w'"
proof -
  let ?iid = "xi_intent_id (ex_intent x)"
  have same: "bindings w' = bindings w" "xw_calls w' = xw_calls w" "xw_uuids w' = xw_uuids w" using s by (auto simp: settled_def)
  have run: "xr_intent_id (ex_run x) = ?iid" using t by (simp add: thread_ok_def Let_def)
  have named: "named_intents env (xw_uuids w) (intents w)" using ok by (simp add: world_ok_def)
  show ?thesis
  proof (cases "consumed x w w' \<and> (runs w' = runs w \<or> runs w' = (runs w)(xr_export_run_id (ex_run x) \<mapsto> ex_run x))")
    case True
    then obtain i u where i: "intents w ?iid = Some i" "xi_consumed_at i = None"
        "intents w' = (intents w)(?iid \<mapsto> i\<lparr>xi_consumed_at := Some u\<rparr>)" "claims w' = (claims w)(?iid := None)"
      by (auto simp: consumed_def)
    have kept: "intents_kept (intents w) (intents w')"
      unfolding i(3) using i(1) by (rule kept_consumed)
    have "named_intents env (xw_uuids w) (intents w')"
      using named i(1) unfolding i(3) named_intents_def by auto
    moreover have "successes_spent (runs w') (intents w')"
      unfolding i(3)
      by (rule successes_consumed [where f = "runs w" and g = "intents w" and rid = "xr_export_run_id (ex_run x)" and run = "ex_run x", OF _ i(1,2)])
         (use ok True run in \<open>auto simp: world_ok_def\<close>)
    moreover have "\<forall>iid. intents w iid \<noteq> None \<longrightarrow> intents w' iid \<noteq> None" by (simp add: i(3))
    ultimately show ?thesis
      using ok kept by (auto simp: world_ok_def world_step_def same i(4) intro: kept_call [where f = "intents w" and g = "bindings w"])
  next
    case False
    with s have "released x w w'" "unfinished (xr_export_run_id (ex_run x)) (runs w) (runs w')" by (auto simp: settled_def)
    with ok show ?thesis
      by (auto simp: world_ok_def world_step_def same released_def intro: successes_unfinished split: if_splits)
  qed
qed

section \<open>The system\<close>

lemma thread_ended [simp]: "thread_ok w (Ended, x)"
  by (simp add: thread_ok_def)

text \<open>What a stage of a thread does to the world and to the thread itself.\<close>

lemma stage_ok:
  assumes inj: "inj (xe_uuid env)" and ok: "world_ok env w" and t: "thread_ok w (g, x)" and r: "run_stage env g x w = (r, w')"
  shows "world_ok env w' \<and> world_step w w' \<and> thread_ok w' (thread_after g x r)"
proof (cases g)
  case Checked
  then have run: "xr_status (ex_run x) = ER_RUNNING" using t by (simp add: thread_ok_def Let_def)
  have s: "started env x w w'" "\<And>x'. r = Inr (Continue x') \<Longrightarrow> x' = x"
    using afterD [OF start_effect [OF run]] r Checked by auto
  have w: "world_ok env w' \<and> world_step w w'" by (rule start_ok [OF ok s(1)])
  have "thread_ok w' (Started, x)"
    using kept_thread [of w w' "(Started, x)"] w t Checked by (simp add: world_step_def thread_ok_def Let_def)
  with w s(2) show ?thesis by (cases "(g, x, r)" rule: thread_after.cases) (auto simp: Checked)
next
  case Started
  then have m: "xi_mode (ex_intent x) = M_CREATE \<longleftrightarrow> ex_binding x = None" using t by (simp add: thread_ok_def Let_def)
  have d: "delivered env x w w'"
      "\<And>x'. r = Inr (Continue x') \<Longrightarrow> x' = x\<lparr>ex_run := ex_run x'\<rparr> \<and> xr_intent_id (ex_run x') = xr_intent_id (ex_run x)"
    using afterD [OF deliver_effect [OF m]] r Started by auto
  have w: "world_ok env w' \<and> world_step w w'" using deliver_ok [OF inj ok _ d(1)] t Started by simp
  then have "thread_ok w' (g, x)" using kept_thread [OF _ _ t] by (simp add: world_step_def)
  then have "thread_ok w' (Delivered, x\<lparr>ex_run := run\<rparr>)" if "xr_intent_id run = xr_intent_id (ex_run x)" for run
    using that Started by (simp add: thread_ok_def Let_def)
  with w d(2) show ?thesis by (cases "(g, x, r)" rule: thread_after.cases) (auto simp: Started, metis)
next
  case Delivered
  have s: "settled x w w'" "\<And>x'. r \<noteq> Inr (Continue x')"
    using afterD [OF settle_effect] r Delivered by auto
  have "world_ok env w' \<and> world_step w w'" using settle_ok [OF ok _ s(1)] t Delivered by simp
  with s(2) show ?thesis by (cases "(g, x, r)" rule: thread_after.cases) auto
next
  case Ended
  with r ok show ?thesis by (auto simp: returnM_def world_step_def)
qed

definition system_step :: "ExportSystem \<Rightarrow> ExportSystem \<Rightarrow> bool" where
  "system_step s s' \<longleftrightarrow> world_step (sy_world s) (sy_world s')"

lemma export_invar_step:
  assumes inj: "inj (xe_uuid env)" and inv: "export_invar env s"
  shows "export_invar env (export_step env a s) \<and> system_step s (export_step env a s)"
proof -
  have ok: "world_ok env (sy_world s)" using inv by (simp add: export_invar_def)
  have others: "thread_ok w' gx" if "world_step (sy_world s) w'" "gx \<in> set (sy_threads s)" for w' gx
    using kept_thread [of "sy_world s" w' gx] inv that by (simp add: export_invar_def world_step_def)
  show ?thesis
  proof (cases a)
    case (DoPreview q)
    obtain r w' where p: "preview env q (sy_world s) = (r, w')" by fastforce
    have "world_ok env w' \<and> world_step (sy_world s) w'" by (rule preview_ok [OF inj ok afterD [OF preview_effect p]])
    with others show ?thesis by (simp add: DoPreview p export_invar_def system_step_def)
  next
    case (DoExecute q)
    obtain r w' where p: "check_export env q (sy_world s) = (r, w')" by fastforce
    note e = afterD [OF check_effect p]
    then have w: "world_ok env w' \<and> world_step (sy_world s) w'" using check_ok [OF ok] by simp
    have "\<forall>gx \<in> set (thread_new r). thread_ok w' gx"
      using e prepared_ok [OF ok] by (cases r rule: thread_new.cases) auto
    with w others show ?thesis by (auto simp: DoExecute p export_invar_def system_step_def)
  next
    case (Advance n)
    show ?thesis
    proof (cases "n < length (sy_threads s)")
      case True
      obtain g x where gx: "sy_threads s ! n = (g, x)" by fastforce
      then have t: "thread_ok (sy_world s) (g, x)" using inv True by (metis export_invar_def nth_mem)
      obtain r w' where p: "run_stage env g x (sy_world s) = (r, w')" by fastforce
      note w = stage_ok [OF inj ok t p]
      then have "\<forall>gx \<in> set ((sy_threads s)[n := thread_after g x r]). thread_ok w' gx"
        using others set_update_subset_insert [of "sy_threads s" n] by blast
      with w True show ?thesis by (simp add: Advance gx p export_invar_def system_step_def)
    next
      case False
      with inv show ?thesis by (simp add: Advance system_step_def world_step_def)
    qed
  next
    case (WorkflowMoves r)
    with inv show ?thesis by (simp add: export_invar_def world_ok_def thread_ok_def system_step_def world_step_def)
  qed
qed

interpretation exports: invariant_system export_start "export_step env" "\<lambda>s. inj (xe_uuid env) \<longrightarrow> export_invar env s" for env
proof
  show "inj (xe_uuid env) \<longrightarrow> export_invar env s" if "export_start s" for s
    using that by (auto simp: export_start_def export_world_def export_invar_def world_ok_def empty_export_store_def
        named_intents_def named_bindings_def successes_spent_def succeeded_def)
qed (use export_invar_step in blast)

end
