(* ===== verification/Export_Example.thy ===== *)
theory Export_Example
  imports Export_System
begin

text \<open>
  A concrete environment and a session with it: a preview, its confirmation, the creation of the
  external document and a second export that overwrites it.
\<close>

definition shop_task :: Task where
  "shop_task = \<lparr>task_id = lit ''t1'', task_title = None, task_status = TS_COMPLETED, task_version = 9, current_outline_version = Some 1,
     current_unit_sequence = None, task_created_at = 0, task_updated_at = 0, task_owner_id = lit ''ann''\<rparr>"

definition shop_run :: AgentRun where
  "shop_run = \<lparr>run_id = lit ''r1'', run_task_id = lit ''t1'', thread_id = lit ''th'', graph_name = ''g'', graph_version = ''1'', run_status = RS_SUCCEEDED,
     input_hash = [], run_idempotency_key = [], started_at = Some 0, ended_at = None, run_error = None\<rparr>"

definition shop_document :: PrdDocumentVersion where
  "shop_document = \<lparr>document_id = lit ''d1'', document_task_id = lit ''t1'', document_version = 2,
     document_markdown = lit ''# Shop'' @ [10] @ lit ''- cart'', document_created_at = 0, document_content_hash = [], document_status = DS_CONFIRMED,
     document_section_ids = [], document_confirmed_by = None, document_confirmed_at = None\<rparr>"

definition shop_repo :: Repo where
  "shop_repo = empty_repo\<lparr>rp_tasks := [(lit ''t1'', shop_task)], rp_runs := [(lit ''r1'', shop_run)], rp_documents := [(lit ''t1'', [shop_document])]\<rparr>"

definition shop_env :: ExportEnv where
  "shop_env = \<lparr>xe_now = int, xe_wall = int, xe_uuid = (\<lambda>n. [n]), xe_sha256 = (\<lambda>_. lit ''h''), xe_hmac = (\<lambda>_. lit ''ok''),
     xe_isoformat = (\<lambda>_. []), xe_decimal = (\<lambda>c. 48 \<le> c \<and> c \<le> 57), xe_ttl = 600, xe_capability = C_NONE,
     xe_gateway = (\<lambda>n c. Inr \<lparr>pr_external_id = [n], pr_safe_url = lit ''url'', pr_title = lit ''Shop'', pr_provider_revision = None\<rparr>)\<rparr>"

definition shop_preview :: "ExportMode \<Rightarrow> ExportAction" where
  "shop_preview mode = DoPreview \<lparr>pq_task_id = lit ''t1'', pq_owner_id = lit ''ann'', pq_mode = mode, pq_expected_task_version = 9, pq_idempotency_key = None\<rparr>"

definition shop_request :: "nat \<Rightarrow> nat \<Rightarrow> ExecuteRequest" where
  "shop_request intent key = \<lparr>eq_intent_id = lit ''export-intent-'' @ [intent], eq_confirmation_token = lit ''ok'', eq_owner_id = lit ''ann'',
     eq_expected_task_version = 9, eq_idempotency_key = [key], eq_mode = None, eq_expected_task_id = Some (lit ''t1'')\<rparr>"

definition shop_start :: ExportSystem where
  "shop_start = \<lparr>sy_world = export_world shop_repo, sy_threads = []\<rparr>"

definition shop_actions :: "ExportAction list" where
  "shop_actions =
     [shop_preview M_CREATE, DoExecute (shop_request 0 1), Advance 0, Advance 0, Advance 0,
      shop_preview M_OVERWRITE_BOUND, DoExecute (shop_request 3 2), Advance 1, Advance 1, Advance 1]"

definition shop_end :: ExportSystem where
  "shop_end = run_commands (export_step shop_env) shop_actions shop_start"

lemma shop_reachable: "reachable export_start (export_step shop_env) shop_end"
  unfolding shop_end_def by (rule reachable_run, rule reach_start) (auto simp: export_start_def shop_start_def)

lemma shop_inj: "inj (xe_uuid shop_env)"
  by (simp add: shop_env_def inj_def)

definition is_success :: "ExportRun option \<Rightarrow> bool" where
  "is_success r = (case r of None \<Rightarrow> False | Some r \<Rightarrow> xr_status r = ER_SUCCEEDED)"

lemma shop_first:
  "\<exists>r. dict_get (xs_runs (xw_store (sy_world shop_end))) (lit ''export-run-'' @ [1]) = Some r \<and> xr_status r = ER_SUCCEEDED"
proof -
  have "is_success (dict_get (xs_runs (xw_store (sy_world shop_end))) (lit ''export-run-'' @ [1]))" by code_simp
  then show ?thesis by (simp add: is_success_def split: option.splits)
qed

lemma shop_bound: "\<exists>b. get_binding (xw_store (sy_world shop_end)) (lit ''t1'') (lit ''ann'') = Some b"
proof -
  have "get_binding (xw_store (sy_world shop_end)) (lit ''t1'') (lit ''ann'') \<noteq> None" by code_simp
  then show ?thesis by simp
qed

text \<open>The system after the preview, and the execution that follows.\<close>

definition shop_previewed :: ExportSystem where
  "shop_previewed = run_commands (export_step shop_env) [shop_preview M_CREATE] shop_start"

lemma shop_previewed_reachable: "reachable export_start (export_step shop_env) shop_previewed"
  unfolding shop_previewed_def by (rule reachable_run, rule reach_start) (auto simp: export_start_def shop_start_def)

lemma shop_called:
  "xw_calls (sy_world shop_previewed) = []"
  "xw_calls (snd (execute_export shop_env (shop_request 0 1) (sy_world shop_previewed))) \<noteq> []"
  by code_simp+

definition is_returned :: "xexn + 'a staged \<Rightarrow> bool" where
  "is_returned r = (case r of Inr (Returned run) \<Rightarrow> True | _ \<Rightarrow> False)"

text \<open>The same with hashes that tell the inputs apart.\<close>

definition plain_env :: ExportEnv where
  "plain_env = shop_env\<lparr>xe_sha256 := (\<lambda>x. x)\<rparr>"

definition plain_previewed :: ExportSystem where
  "plain_previewed = run_commands (export_step plain_env) [shop_preview M_CREATE] shop_start"

lemma plain_returned: "\<exists>run w1. execute_export plain_env (shop_request 0 1) (sy_world plain_previewed) = (Inr (Returned run), w1)"
proof -
  have "is_returned (fst (execute_export plain_env (shop_request 0 1) (sy_world plain_previewed)))" by code_simp
  then show ?thesis by (auto simp: is_returned_def prod_eq_iff split: sum.splits staged.splits)
qed

lemma plain_other_hash:
  "execute_hash plain_env ((shop_request 0 1)\<lparr>eq_expected_task_version := 8\<rparr>) \<noteq> execute_hash plain_env (shop_request 0 1)"
  by code_simp

text \<open>The system before the first export is settled.\<close>

definition shop_delivered :: ExportSystem where
  "shop_delivered = run_commands (export_step shop_env) (take 4 shop_actions) shop_start"

lemma shop_delivered_reachable: "reachable export_start (export_step shop_env) shop_delivered"
  unfolding shop_delivered_def by (rule reachable_run, rule reach_start) (auto simp: export_start_def shop_start_def)

end
