(* ===== verification/Export_Correct.thy ===== *)
theory Export_Correct
  imports Export_Safety Export_Example
begin

text \<open>
  The properties of the export service: at most one success for an intent, the refinement of the
  store of intents to a slot, the identity of bound documents, the checks before a call, and the
  replay of an execution.
\<close>

section \<open>Steps of the world\<close>

text \<open>What one action can do to the world.\<close>

definition export_effect :: "ExportEnv \<Rightarrow> ExportWorld \<Rightarrow> ExportWorld \<Rightarrow> bool" where
  "export_effect env w w' \<longleftrightarrow>
     xw_store w' = xw_store w \<or> previewed env w w' \<or> (\<exists>x. started env x w w') \<or> (\<exists>x. delivered env x w w')
     \<or> (\<exists>x. thread_ok w (Delivered, x) \<and> settled x w w')"

lemma stage_effect:
  assumes t: "thread_ok w (g, x)" and r: "run_stage env g x w = (r, w')"
  shows "export_effect env w w'"
proof (cases g)
  case Checked
  then have run: "xr_status (ex_run x) = ER_RUNNING" using t by (simp add: thread_ok_def Let_def)
  from afterD [OF start_effect [OF run]] r Checked show ?thesis by (fastforce simp: export_effect_def)
next
  case Started
  then have m: "xi_mode (ex_intent x) = M_CREATE \<longleftrightarrow> ex_binding x = None" using t by (simp add: thread_ok_def Let_def)
  from afterD [OF deliver_effect [OF m]] r Started show ?thesis by (fastforce simp: export_effect_def)
next
  case Delivered
  with afterD [OF settle_effect] r t show ?thesis by (fastforce simp: export_effect_def)
qed (use r in \<open>simp add: returnM_def export_effect_def\<close>)

lemma step_effect:
  assumes inv: "export_invar env s"
  shows "export_effect env (sy_world s) (sy_world (export_step env a s))"
proof (cases a)
  case (DoPreview q)
  obtain r w' where p: "preview env q (sy_world s) = (r, w')" by fastforce
  from afterD [OF preview_effect p] show ?thesis by (simp add: DoPreview p export_effect_def)
next
  case (DoExecute q)
  obtain r w' where p: "check_export env q (sy_world s) = (r, w')" by fastforce
  from afterD [OF check_effect p] show ?thesis by (simp add: DoExecute p export_effect_def quiet_def)
next
  case (Advance n)
  obtain g x where gx: "sy_threads s ! n = (g, x)" by fastforce
  obtain r w' where p: "run_stage env g x (sy_world s) = (r, w')" by fastforce
  show ?thesis
  proof (cases "n < length (sy_threads s)")
    case True
    then have "thread_ok (sy_world s) (g, x)" using inv gx by (metis export_invar_def nth_mem)
    from stage_effect [OF this p] True show ?thesis by (simp add: Advance gx p)
  qed (simp add: Advance export_effect_def)
qed (simp add: export_effect_def)

section \<open>The slot of an intent\<close>

datatype Slot = Absent | Open | Held pystr time | Spent

text \<open>The abstract machine: a slot is published, taken, taken over when the claim is over, given back, and spent.\<close>

inductive slot_step :: "ExportEnv \<Rightarrow> Slot \<Rightarrow> Slot \<Rightarrow> bool" for env where
  publish: "slot_step env Absent Open"
| take_slot: "slot_step env Open (Held claim (xe_now env n + xe_ttl env))"
| take_over: "claim' = claim \<or> until \<le> xe_now env n \<Longrightarrow> slot_step env (Held claim until) (Held claim' (xe_now env n + xe_ttl env))"
| give_back: "slot_step env (Held claim until) Open"
| spend: "slot_step env (Held claim until) Spent"

inductive_simps slot_step_spent [simp]: "slot_step env Spent s"

definition slot_of :: "ExportIntent option \<Rightarrow> (pystr \<times> pystr \<times> time) option \<Rightarrow> Slot" where
  "slot_of i c =
     (case i of
        None \<Rightarrow> Absent
      | Some i \<Rightarrow> if xi_consumed_at i \<noteq> None then Spent else (case c of None \<Rightarrow> Open | Some (_, claim, until) \<Rightarrow> Held claim until))"

definition slot :: "ExportStore \<Rightarrow> pystr \<Rightarrow> Slot" where
  "slot st iid = slot_of (dict_get (xs_intents st) iid) (dict_get (xs_intent_claims st) iid)"

text \<open>A step of the slot, and a new success only where the run that held the slot spends it.\<close>

definition slot_refined :: "ExportEnv \<Rightarrow> ExportStore \<Rightarrow> ExportStore \<Rightarrow> bool" where
  "slot_refined env st st' \<longleftrightarrow>
     (\<forall>iid. slot st' iid = slot st iid \<or> slot_step env (slot st iid) (slot st' iid))
     \<and> (\<forall>rid r. dict_get (xs_runs st') rid = Some r \<longrightarrow> xr_status r = ER_SUCCEEDED \<longrightarrow>
          dict_get (xs_runs st) rid = Some r
          \<or> (\<exists>until. slot st (xr_intent_id r) = Held rid until \<and> slot st' (xr_intent_id r) = Spent))"

lemma unfinished_success:
  "unfinished rid' f f' \<Longrightarrow> f' rid = Some r \<Longrightarrow> xr_status r = ER_SUCCEEDED \<Longrightarrow> f rid = Some r"
  by (auto simp: unfinished_def split: if_splits)

lemma previewed_refines:
  assumes inj: "inj (xe_uuid env)" and ok: "world_ok env w" and p: "previewed env w w'"
  shows "slot_refined env (xw_store w) (xw_store w')"
proof -
  have same: "runs w' = runs w" "claims w' = claims w" using p by (auto simp: previewed_def same_but_intents_def)
  have "slot (xw_store w') iid = slot (xw_store w) iid \<or> slot_step env (slot (xw_store w) iid) (slot (xw_store w') iid)" for iid
  proof (cases "intents w' iid = intents w iid")
    case False
    then obtain i where i: "fresh_intent env w i" "intents w' = (intents w)(xi_intent_id i \<mapsto> i)"
      using p unfolding previewed_def intent_stored_def by metis
    with False have iid: "iid = xi_intent_id i" by (metis fun_upd_other)
    have "named_intents env (xw_uuids w) (intents w)" using ok by (simp add: world_ok_def)
    from fresh_not_named [OF inj this] i(1) have none: "intents w iid = None" by (simp add: iid fresh_intent_def)
    then have "claims w iid = None" using ok unfolding world_ok_def by metis
    with none i show ?thesis by (simp add: slot_def slot_of_def same iid fresh_intent_def publish)
  qed (simp add: slot_def same)
  then show ?thesis by (simp add: slot_refined_def same)
qed

lemma started_refines:
  assumes s: "started env x w w'"
  shows "slot_refined env (xw_store w) (xw_store w')"
proof -
  let ?iid = "xi_intent_id (ex_intent x)" and ?rid = "xr_export_run_id (ex_run x)"
  have same: "intents w' = intents w" "unfinished ?rid (runs w) (runs w')" using s by (simp_all add: started_def)
  have "slot (xw_store w') iid = slot (xw_store w) iid \<or> slot_step env (slot (xw_store w) iid) (slot (xw_store w') iid)" for iid
  proof (cases "claims w' iid = claims w iid")
    case False
    then obtain n where n: "claim_free w ?iid (ex_owner x) ?rid (xe_now env n)"
        "claims w' = (claims w)(?iid \<mapsto> (ex_owner x, ?rid, xe_now env n + xe_ttl env))"
      using s unfolding started_def by metis
    with False have iid: "iid = ?iid" by (metis fun_upd_other)
    from n(1) obtain i where "intents w ?iid = Some i" "xi_consumed_at i = None" by (auto simp: claim_free_def)
    with n show ?thesis
      by (cases "claims w ?iid") (auto simp: slot_def slot_of_def same iid claim_free_def intro!: take_slot take_over)
  qed (simp add: slot_def same)
  with unfinished_success [OF same(2)] show ?thesis by (simp add: slot_refined_def)
qed

lemma settled_refines:
  assumes t: "thread_ok w (Delivered, x)" and s: "settled x w w'"
  shows "slot_refined env (xw_store w) (xw_store w')"
proof -
  let ?iid = "xi_intent_id (ex_intent x)" and ?rid = "xr_export_run_id (ex_run x)"
  have run: "xr_intent_id (ex_run x) = ?iid" using t by (simp add: thread_ok_def Let_def)
  consider (consumed) "consumed x w w'" "runs w' = runs w \<or> runs w' = (runs w)(?rid \<mapsto> ex_run x)"
    | (released) "released x w w'" "unfinished ?rid (runs w) (runs w')" using s unfolding settled_def by metis
  then show ?thesis
  proof cases
    case consumed
    from consumed(1) obtain i until u where i: "intents w ?iid = Some i" "xi_consumed_at i = None" "claims w ?iid = Some (ex_owner x, ?rid, until)"
        "intents w' = (intents w)(?iid \<mapsto> i\<lparr>xi_consumed_at := Some u\<rparr>)" "claims w' = (claims w)(?iid := None)"
      unfolding consumed_def by metis
    have slots: "slot (xw_store w) ?iid = Held ?rid until" "slot (xw_store w') ?iid = Spent"
      "iid \<noteq> ?iid \<Longrightarrow> slot (xw_store w') iid = slot (xw_store w) iid" for iid
      using i by (simp_all add: slot_def slot_of_def)
    have "slot (xw_store w') iid = slot (xw_store w) iid \<or> slot_step env (slot (xw_store w) iid) (slot (xw_store w') iid)" for iid
      using slots by (cases "iid = ?iid") (simp_all add: spend)
    with consumed(2) slots(1,2) run show ?thesis by (auto simp: slot_refined_def split: if_splits)
  next
    case released
    have "slot (xw_store w') iid = slot (xw_store w) iid \<or> slot_step env (slot (xw_store w) iid) (slot (xw_store w') iid)" for iid
    proof (cases "claims w' iid = claims w iid")
      case False
      then obtain until where c: "claims w ?iid = Some (ex_owner x, ?rid, until)" "claims w' = (claims w)(?iid := None)"
        using released(1) unfolding released_def by metis
      with False have iid: "iid = ?iid" by (metis fun_upd_other)
      have "intents w' = intents w" using released(1) by (simp add: released_def)
      with c show ?thesis by (auto simp: slot_def slot_of_def iid intro: give_back split: option.split)
    qed (use released(1) in \<open>simp add: slot_def released_def\<close>)
    with unfinished_success [OF released(2)] show ?thesis by (simp add: slot_refined_def)
  qed
qed

lemma effect_refines:
  assumes "inj (xe_uuid env)" "world_ok env w" "export_effect env w w'"
  shows "slot_refined env (xw_store w) (xw_store w')"
proof -
  have "slot_refined env (xw_store w) (xw_store w')" if "delivered env x w w'" for x
    using that by (simp add: delivered_def slot_refined_def slot_def)
  moreover have "slot_refined env st st" for st by (simp add: slot_refined_def)
  ultimately show ?thesis
    using assms previewed_refines started_refines settled_refines unfolding export_effect_def by metis
qed

section \<open>What an execution checks and what it records\<close>

definition call_document :: "GatewayCall \<Rightarrow> ExportDocument" where
  "call_document c = (case c of CreateDocument d k \<Rightarrow> d | OverwriteDocument e d k v \<Rightarrow> d)"

text \<open>The request is confirmed: its token is that of an unused intent of the owner that has not expired, and the
  completed task still has the document that was previewed.\<close>

definition confirmed :: "ExportEnv \<Rightarrow> ExecuteRequest \<Rightarrow> ExportWorld \<Rightarrow> ExportDocument \<Rightarrow> bool" where
  "confirmed env q w doc \<longleftrightarrow>
     (\<exists>i src. get_intent (xw_store w) (eq_intent_id q) (eq_owner_id q) = Inr i \<and> eq_confirmation_token q = confirmation_token env i
        \<and> xi_consumed_at i = None \<and> xe_now env (xw_ticks w) < xi_expires_at i
        \<and> get_export_source (xw_repo w) (xi_task_id i) (eq_owner_id q) = Inr src
        \<and> sn_task_status src = TS_COMPLETED \<and> sn_task_version src = xi_task_version i
        \<and> format_source env src = Inr doc \<and> unchanged i src doc)"

definition for_request :: "ExportEnv \<Rightarrow> ExecuteRequest \<Rightarrow> Execution \<Rightarrow> bool" where
  "for_request env q x \<longleftrightarrow> ex_owner x = eq_owner_id q \<and> ex_key x = eq_idempotency_key q \<and> ex_hash x = execute_hash env q"

text \<open>The run that is replayed for a request.\<close>

definition replayed :: "ExportEnv \<Rightarrow> ExecuteRequest \<Rightarrow> ExportStore \<Rightarrow> ExportRun \<Rightarrow> bool" where
  "replayed env q st run \<longleftrightarrow>
     (\<exists>rid. dict_get (xs_replays st) (eq_owner_id q, eq_idempotency_key q) = Some (execute_hash env q, rid) \<and> dict_get (xs_runs st) rid = Some run)"

lemma verified: "verify_confirmation env i t = Inr () \<Longrightarrow> t = confirmation_token env i"
  by (auto simp: verify_confirmation_def compare_digest_def bindE_def split: if_splits)

lemma sourced:
  "current_source r tid owner v = Inr src \<Longrightarrow>
    get_export_source r tid owner = Inr src \<and> sn_task_status src = TS_COMPLETED \<and> sn_task_version src = v"
  by (auto simp: current_source_def bindE_def split: sum.splits if_splits)

lemma prepare_confirms:
  "wp (prepare_execution env q) (\<lambda>x w'. confirmed env q w (ex_document x) \<and> for_request env q x) (\<lambda>_ _. True) w"
  unfolding prepare_execution_def check_intent_def check_mode_def new_export_run_def
  by (auto simp: wp_rules confirmed_def for_request_def split: sum.split dest: verified sourced)

lemma check_confirms:
  "wp (check_export env q) (\<lambda>r w'. case r of Returned run \<Rightarrow> replayed env q (xw_store w') run
     | Continue x \<Rightarrow> confirmed env q w (ex_document x) \<and> for_request env q x) (\<lambda>_ _. True) w"
  unfolding check_export_def
  by (auto simp: wp_bind wp_ask wp_then wp_check wp_return get_replay_def replayed_def index_of_def bindE_def
      split: sum.split option.split intro!: wp_mono [OF prepare_confirms])

lemma start_records:
  "for_request env q x \<Longrightarrow> wp (start_export env x) (\<lambda>r w'. \<forall>run. r = Returned run \<longrightarrow> replayed env q (xw_store w') run) (\<lambda>_ _. True) w"
  unfolding start_export_def refuse_export_def claimM_def
  by (auto simp: wp_rules begin_run_def for_request_def replayed_def index_of_def bindE_def split: sum.split option.split)

lemma start_continues: "wp (start_export env x) (\<lambda>r w'. \<forall>x'. r = Continue x' \<longrightarrow> x' = x) (\<lambda>_ _. True) w"
  unfolding start_export_def refuse_export_def claimM_def
  by (auto simp: wp_rules split: sum.split option.split)

lemma wp_True: "wp m (\<lambda>_ _. True) (\<lambda>_ _. True) s"
  by (simp add: wp_def split: prod.split sum.split)

lemma settle_records:
  "for_request env q x \<Longrightarrow> wp (settle_export env x) (\<lambda>r w'. \<forall>run. r = Returned run \<longrightarrow> replayed env q (xw_store w') run) (\<lambda>_ _. True) w"
  unfolding settle_export_def wp_bind
  by (rule wp_mono [OF wp_True])
     (auto simp: wp_rules save_replay_def for_request_def replayed_def Let_def split: sum.split option.split)

lemma deliver_continues: "wp (deliver_export env x) (\<lambda>r w'. \<exists>run. r = Continue (x\<lparr>ex_run := run\<rparr>)) (\<lambda>_ _. True) w"
  unfolding deliver_export_def wp_bind
  by (rule wp_mono [OF wp_True]) (auto simp: wp_return)

lemma execute_records:
  "wp (execute_export env q) (\<lambda>r w'. \<forall>run. r = Returned run \<longrightarrow> replayed env q (xw_store w') run) (\<lambda>_ _. True) w"
  unfolding execute_export_def wp_bind
proof (rule wp_mono [OF check_confirms], goal_cases)
  case (1 r t)
  have settle: "wp (continue r' (settle_export env)) (\<lambda>r w'. \<forall>run. r = Returned run \<longrightarrow> replayed env q (xw_store w') run) (\<lambda>_ _. True) t'"
    if "case r' of Returned run \<Rightarrow> replayed env q (xw_store t') run | Continue x \<Rightarrow> for_request env q x" for r' t'
    using that settle_records by (cases r') (auto simp: continue_def wp_return)
  show ?case
  proof (cases r)
    case (Returned run)
    with 1 settle show ?thesis by (simp add: continue_def wp_return)
  next
    case (Continue x)
    then have x: "for_request env q x" using 1 by simp
    show ?thesis
      unfolding Continue continue_def staged.case
    proof (rule wp_mono [OF wp_conj [OF start_records [OF x] start_continues]], goal_cases)
      case (1 r1 t1)
      then show ?case
      proof (cases r1)
        case (Returned run)
        with 1 settle [unfolded continue_def] show ?thesis by (simp add: wp_return)
      next
        case (Continue x1)
        with 1 have "x1 = x" by simp
        with Continue x show ?thesis
          by (auto intro!: wp_mono [OF deliver_continues] settle [unfolded continue_def] simp: for_request_def)
      qed
    qed simp
  qed
qed simp

lemma execute_calls:
  assumes ok: "world_ok env w"
  shows "after (execute_export env q) w (\<lambda>_ w'. xw_calls w' = xw_calls w
    \<or> (\<exists>c. xw_calls w' = xw_calls w @ [c] \<and> confirmed env q w (call_document c)))"
    (is "after _ _ (\<lambda>_. ?P)")
proof -
  have settle: "wp (continue r (settle_export env)) (\<lambda>_. ?P) (\<lambda>_. ?P) t" if "?P t" for r t
  proof (cases r)
    case (Continue x)
    show ?thesis
      unfolding Continue continue_def staged.case
      by (rule wp_mono [OF settle_effect [of env x t, unfolded after_def]]) (use that in \<open>auto simp: settled_def\<close>)
  qed (use that in \<open>simp add: continue_def wp_return\<close>)
  have deliver: "wp (deliver_export env x) (\<lambda>_. ?P) (\<lambda>_. ?P) t"
    if "xw_calls t = xw_calls w" "prepared q w x" "confirmed env q w (ex_document x)" for x t
  proof -
    have m: "xi_mode (ex_intent x) = M_CREATE \<longleftrightarrow> ex_binding x = None" using that(2) by (simp add: prepared_def)
    have "call_document (call_of x) = ex_document x" by (simp add: call_of_def call_document_def split: option.split)
    then show ?thesis
      by (intro wp_mono [OF deliver_effect [OF m, of env t, unfolded after_def]]) (use that in \<open>auto simp: delivered_def\<close>)
  qed
  have start: "wp (start_export env x) (\<lambda>r t. xw_calls t = xw_calls w \<and> (\<forall>x'. r = Continue x' \<longrightarrow> x' = x)) (\<lambda>_ t. xw_calls t = xw_calls w) t"
    if "xw_calls t = xw_calls w" "prepared q w x" for x t
  proof -
    have "xr_status (ex_run x) = ER_RUNNING" using that(2) by (simp add: prepared_def)
    from start_effect [OF this, of env t, unfolded after_def] show ?thesis
      by (rule wp_mono) (use that(1) in \<open>auto simp: started_def\<close>)
  qed
  show ?thesis
    unfolding after_def execute_export_def wp_bind
  proof (rule wp_mono [OF wp_conj [OF check_effect [of env q w, unfolded after_def] check_confirms]], goal_cases)
    case (1 r t)
    then have t: "xw_calls t = xw_calls w" by (simp add: quiet_def)
    show ?case
    proof (cases r)
      case (Returned run)
      with t settle show ?thesis by (simp add: continue_def wp_return)
    next
      case (Continue x)
      with 1 have x: "prepared q w x" "confirmed env q w (ex_document x)" by auto
      show ?thesis
        unfolding Continue continue_def [of "Continue x" "start_export env"] staged.case
      proof (rule wp_mono [OF start [OF t x(1)]], goal_cases)
        case (1 r1 t1)
        show ?case
        proof (cases r1)
          case (Continue x1)
          with 1 deliver x show ?thesis
            by (simp add: continue_def [of "Continue x" "deliver_export env"]) (rule wp_mono [of _ "\<lambda>_. ?P" "\<lambda>_. ?P"], auto intro: settle)
        qed (use 1 settle in \<open>simp add: continue_def [of "Returned _" "deliver_export env"] wp_return\<close>)
      qed simp
    qed
  qed (simp add: quiet_def)
qed

section \<open>Properties\<close>

text \<open>
  C5. An export intent is carried out at most once. Whatever the interleaving of previews, of the stages of
  executions and of changes of the workflow, two runs of the same intent that are stored as succeeded are the same run, and
  the intent is consumed.
\<close>

theorem export_at_most_once:
  assumes "inj (xe_uuid env)" "reachable export_start (export_step env) s"
    and "dict_get (xs_runs (xw_store (sy_world s))) rid = Some r" "xr_status r = ER_SUCCEEDED"
    and "dict_get (xs_runs (xw_store (sy_world s))) rid' = Some r'" "xr_status r' = ER_SUCCEEDED"
    and "xr_intent_id r' = xr_intent_id r"
  shows "rid' = rid \<and> (\<exists>i. dict_get (xs_intents (xw_store (sy_world s))) (xr_intent_id r) = Some i \<and> xi_consumed_at i \<noteq> None)"
proof -
  have "successes_spent (runs (sy_world s)) (intents (sy_world s))"
    using exports.invar_reachable [OF assms(2)] assms(1) by (simp add: export_invar_def world_ok_def)
  moreover have "succeeded (runs (sy_world s)) (xr_intent_id r) rid" "succeeded (runs (sy_world s)) (xr_intent_id r) rid'"
    using assms(3-7) by (auto simp: succeeded_def)
  ultimately show ?thesis unfolding successes_spent_def spent_intent_def by blast
qed

theorem export_at_most_once_witness:
  "\<exists>rid r. dict_get (xs_runs (xw_store (sy_world shop_end))) rid = Some r \<and> xr_status r = ER_SUCCEEDED
     \<and> (\<exists>i. dict_get (xs_intents (xw_store (sy_world shop_end))) (xr_intent_id r) = Some i \<and> xi_consumed_at i \<noteq> None)"
proof -
  obtain r where r: "dict_get (xs_runs (xw_store (sy_world shop_end))) (lit ''export-run-'' @ [1]) = Some r" "xr_status r = ER_SUCCEEDED"
    using shop_first by blast
  from export_at_most_once [OF shop_inj shop_reachable r r] r show ?thesis by blast
qed

text \<open>
  C6. The store of intents refines a slot. Every action leaves the slot of an intent or makes a step of the
  abstract machine: published, taken by a run, taken over only when the claim is over, given back, or spent,
  which is final. A run becomes a success only when it holds the slot of its intent and spends it.
\<close>

theorem intents_refine_slots:
  assumes "inj (xe_uuid env)" "reachable export_start (export_step env) s"
  shows "slot_refined env (xw_store (sy_world s)) (xw_store (sy_world (export_step env a s)))"
proof -
  have inv: "export_invar env s" using exports.invar_reachable [OF assms(2)] assms(1) by simp
  then have "world_ok env (sy_world s)" by (simp add: export_invar_def)
  from effect_refines [OF assms(1) this step_effect [OF inv]] show ?thesis .
qed

theorem intents_refine_slots_witness:
  "slot (xw_store (sy_world shop_delivered)) (lit ''export-intent-'' @ [0]) = Held (lit ''export-run-'' @ [1]) 603
    \<and> slot (xw_store (sy_world (export_step shop_env (Advance 0) shop_delivered))) (lit ''export-intent-'' @ [0]) = Spent
    \<and> slot_refined shop_env (xw_store (sy_world shop_delivered)) (xw_store (sy_world (export_step shop_env (Advance 0) shop_delivered)))"
proof (intro conjI)
  show "slot (xw_store (sy_world shop_delivered)) (lit ''export-intent-'' @ [0]) = Held (lit ''export-run-'' @ [1]) 603" by code_simp
  show "slot (xw_store (sy_world (export_step shop_env (Advance 0) shop_delivered))) (lit ''export-intent-'' @ [0]) = Spent" by code_simp
qed (rule intents_refine_slots [OF shop_inj shop_delivered_reachable])

text \<open>
  C12. A task keeps its external document. Once a task of an owner is bound, every later state binds it to the
  same document of the provider, and every call made so far sent the document of a stored intent; an overwrite
  went to the document bound to the task of its intent.
\<close>

theorem exports_stay_bound:
  assumes inj: "inj (xe_uuid env)" and reach: "reachable export_start (export_step env) s"
    and s': "s' = run_commands (export_step env) acts s"
    and b: "get_binding (xw_store (sy_world s)) tid owner = Some b"
  shows "(\<exists>b'. get_binding (xw_store (sy_world s')) tid owner = Some b' \<and> xb_binding_id b' = xb_binding_id b \<and> xb_external_id b' = xb_external_id b)
    \<and> (\<forall>c \<in> set (xw_calls (sy_world s')). call_allowed (dict_get (xs_intents (xw_store (sy_world s')))) (dict_get (xs_bindings (xw_store (sy_world s')))) c)"
proof -
  have inv: "export_invar env s" using exports.invar_reachable [OF reach] inj by simp
  have "rebound (bindings (sy_world s)) (bindings (sy_world (run_commands (export_step env) acts s)))"
    using inv
  proof (induction acts arbitrary: s)
    case (Cons a acts)
    from export_invar_step [OF inj Cons.prems, of a] Cons.IH show ?case
      by (auto simp: system_step_def world_step_def intro: rebound_trans)
  qed simp
  moreover have "world_ok env (sy_world s')"
    using exports.invar_reachable [OF reachable_run [OF reach, of acts]] inj by (simp add: s' export_invar_def)
  ultimately show ?thesis using b by (auto simp: s' get_binding_def rebound_def same_document_def world_ok_def)
qed

theorem exports_stay_bound_witness:
  "\<exists>b. get_binding (xw_store (sy_world shop_end)) (lit ''t1'') (lit ''ann'') = Some b
     \<and> (\<exists>b'. get_binding (xw_store (sy_world (run_commands (export_step shop_env) [shop_preview M_OVERWRITE_BOUND] shop_end))) (lit ''t1'') (lit ''ann'') = Some b'
          \<and> xb_external_id b' = xb_external_id b)"
proof -
  obtain b where b: "get_binding (xw_store (sy_world shop_end)) (lit ''t1'') (lit ''ann'') = Some b" using shop_bound by blast
  from exports_stay_bound [OF shop_inj shop_reachable refl b] b show ?thesis by blast
qed

text \<open>
  C13. Nothing is sent without confirmation. An execution calls the provider at most once, and only if the token is
  that of an unused intent of the caller that has not expired, and the completed task still has the version and
  the document that were previewed, which is the document sent.
\<close>

theorem export_confirmed:
  assumes "inj (xe_uuid env)" "reachable export_start (export_step env) s"
    and "execute_export env q (sy_world s) = (r, w')"
  shows "xw_calls w' = xw_calls (sy_world s)
    \<or> (\<exists>c. xw_calls w' = xw_calls (sy_world s) @ [c] \<and> confirmed env q (sy_world s) (call_document c))"
proof -
  have "world_ok env (sy_world s)" using exports.invar_reachable [OF assms(2)] assms(1) by (simp add: export_invar_def)
  from afterD [OF execute_calls [OF this] assms(3)] show ?thesis .
qed

theorem export_confirmed_witness:
  "\<exists>c. xw_calls (snd (execute_export shop_env (shop_request 0 1) (sy_world shop_previewed))) = [c]
     \<and> confirmed shop_env (shop_request 0 1) (sy_world shop_previewed) (call_document c)"
  using export_confirmed [OF shop_inj shop_previewed_reachable surjective_pairing] shop_called by fastforce



end
