(* ===== verification/Investigation_Model.thy ===== *)
theory Investigation_Model
  imports Evidence_Model
begin

text \<open>
  The data and the policies of an investigation (\<^verbatim>\<open>src/prd_agent/investigation/models.py\<close>,
  \<^verbatim>\<open>policies.py\<close>), the tool calls it makes (\<^verbatim>\<open>src/prd_agent/tools/\<close>) and the stores in memory
  that hold both (\<^verbatim>\<open>storage/memory_investigation.py\<close>, \<^verbatim>\<open>storage/memory_evidence.py\<close>). Literals
  outside ASCII are given by their code points.
\<close>

section \<open>Data\<close>

datatype Requiredness = RQ_NONE | RQ_OPTIONAL | RQ_REQUIRED

fun requiredness_value :: "Requiredness \<Rightarrow> string" where
  "requiredness_value RQ_NONE = ''NONE''"
| "requiredness_value RQ_OPTIONAL = ''OPTIONAL''"
| "requiredness_value RQ_REQUIRED = ''REQUIRED''"

datatype NeedStatus = NS_PLANNED | NS_SKIPPED | NS_INVESTIGATING | NS_SATISFIED | NS_UNSATISFIED

datatype CoverageStatus = CV_NOT_REQUIRED | CV_MISSING | CV_PARTIAL | CV_COVERED | CV_CONFLICTING

fun coverage_value :: "CoverageStatus \<Rightarrow> string" where
  "coverage_value CV_NOT_REQUIRED = ''NOT_REQUIRED''"
| "coverage_value CV_MISSING = ''MISSING''"
| "coverage_value CV_PARTIAL = ''PARTIAL''"
| "coverage_value CV_COVERED = ''COVERED''"
| "coverage_value CV_CONFLICTING = ''CONFLICTING''"

datatype InvestigationStatus = IS_PLANNED | IS_RUNNING | IS_COMPLETE | IS_PARTIAL | IS_EMPTY | IS_FAILED | IS_CANCELLED | IS_HUMAN_INPUT_REQUIRED

fun investigation_status_value :: "InvestigationStatus \<Rightarrow> string" where
  "investigation_status_value IS_PLANNED = ''PLANNED''"
| "investigation_status_value IS_RUNNING = ''RUNNING''"
| "investigation_status_value IS_COMPLETE = ''COMPLETE''"
| "investigation_status_value IS_PARTIAL = ''PARTIAL''"
| "investigation_status_value IS_EMPTY = ''EMPTY''"
| "investigation_status_value IS_FAILED = ''FAILED''"
| "investigation_status_value IS_CANCELLED = ''CANCELLED''"
| "investigation_status_value IS_HUMAN_INPUT_REQUIRED = ''HUMAN_INPUT_REQUIRED''"

datatype StopReason = SR_COVERAGE_COMPLETE | SR_NO_PROGRESS | SR_MAX_ITERATIONS_REACHED | SR_TOOL_BUDGET_EXHAUSTED
  | SR_TOKEN_BUDGET_EXHAUSTED | SR_PERMISSION_DENIED | SR_HUMAN_INPUT_REQUIRED | SR_USER_STOPPED | SR_UNRECOVERABLE_ERROR

fun stop_value :: "StopReason \<Rightarrow> string" where
  "stop_value SR_COVERAGE_COMPLETE = ''COVERAGE_COMPLETE''"
| "stop_value SR_NO_PROGRESS = ''NO_PROGRESS''"
| "stop_value SR_MAX_ITERATIONS_REACHED = ''MAX_ITERATIONS_REACHED''"
| "stop_value SR_TOOL_BUDGET_EXHAUSTED = ''TOOL_BUDGET_EXHAUSTED''"
| "stop_value SR_TOKEN_BUDGET_EXHAUSTED = ''TOKEN_BUDGET_EXHAUSTED''"
| "stop_value SR_PERMISSION_DENIED = ''PERMISSION_DENIED''"
| "stop_value SR_HUMAN_INPUT_REQUIRED = ''HUMAN_INPUT_REQUIRED''"
| "stop_value SR_USER_STOPPED = ''USER_STOPPED''"
| "stop_value SR_UNRECOVERABLE_ERROR = ''UNRECOVERABLE_ERROR''"

record InformationNeed =
  in_information_need_id :: pystr
  in_question :: pystr
  in_requiredness :: Requiredness
  in_source_types :: "pystr list"
  in_required_coverage :: "pystr list"
  in_trigger_stage :: pystr
  in_fallback :: pystr
  in_status :: NeedStatus
  in_planner_version :: pystr
  in_context_hash :: pystr
  in_task_id :: "pystr option"
  in_run_id :: "pystr option"
  in_unit_id :: "pystr option"
  in_created_at :: time

definition validate_required_coverage :: "InformationNeed \<Rightarrow> exn + InformationNeed" where
  "validate_required_coverage n =
     (if in_requiredness n = RQ_NONE \<and> in_required_coverage n \<noteq> [] then Inl (ValueError ''NONE information need cannot require coverage'')
      else if in_requiredness n = RQ_REQUIRED \<and> in_required_coverage n = [] then Inl (ValueError ''REQUIRED information need requires coverage'')
      else if in_requiredness n \<noteq> RQ_NONE \<and> in_source_types n = [] then Inl (ValueError ''investigated information need requires source_types'')
      else Inr n)"

record CoverageItem =
  ci_key :: pystr
  ci_description :: pystr
  ci_status :: CoverageStatus
  ci_evidence_ids :: "pystr list"
  ci_fact_ids :: "pystr list"
  ci_unknown_ids :: "pystr list"
  ci_conflict_ids :: "pystr list"
  ci_updated_at_iteration :: "int option"

text \<open>The field \<open>same_action_limit\<close> of a budget is always 1.\<close>

record InvestigationBudget =
  ib_max_iterations :: int
  ib_max_tool_calls :: int
  ib_max_replans :: int
  ib_no_progress_limit :: int
  ib_token_budget :: int

definition default_budget :: InvestigationBudget where
  "default_budget = \<lparr>ib_max_iterations = 5, ib_max_tool_calls = 12, ib_max_replans = 1, ib_no_progress_limit = 2, ib_token_budget = 12000\<rparr>"

text \<open>The bounds pydantic checks of a budget.\<close>

definition valid_budget :: "InvestigationBudget \<Rightarrow> bool" where
  "valid_budget b \<longleftrightarrow>
     1 \<le> ib_max_iterations b \<and> ib_max_iterations b \<le> 50 \<and> 1 \<le> ib_max_tool_calls b \<and> ib_max_tool_calls b \<le> 100
     \<and> 0 \<le> ib_max_replans b \<and> ib_max_replans b \<le> 5 \<and> 1 \<le> ib_no_progress_limit b \<and> ib_no_progress_limit b \<le> 10 \<and> 1 \<le> ib_token_budget b"

text \<open>The set of completed signatures is a list without order.\<close>

record Investigation =
  iv_investigation_id :: pystr
  iv_information_need_id :: pystr
  iv_repository_id :: pystr
  iv_resolved_commit_sha :: pystr
  iv_status :: InvestigationStatus
  iv_coverage :: "(pystr, CoverageItem) dict"
  iv_budget :: InvestigationBudget
  iv_iteration_count :: int
  iv_tool_call_count :: int
  iv_replan_count :: int
  iv_no_progress_rounds :: int
  iv_token_usage :: int
  iv_completed_action_signatures :: "pystr list"
  iv_evidence_ids :: "pystr list"
  iv_fact_ids :: "pystr list"
  iv_unknown_ids :: "pystr list"
  iv_conflict_ids :: "pystr list"
  iv_stop_reason :: "StopReason option"
  iv_policy_version :: pystr
  iv_version :: int
  iv_task_id :: "pystr option"
  iv_run_id :: "pystr option"
  iv_unit_id :: "pystr option"
  iv_created_at :: time
  iv_updated_at :: time

record ProposedAction =
  pa_tool_id :: pystr
  pa_tool_schema_version :: pystr
  pa_arguments :: "(pystr \<times> json) list"
  pa_purpose :: pystr
  pa_target_coverage :: "pystr list"

record InvestigationStep =
  is_step_id :: pystr
  is_investigation_id :: pystr
  is_sequence :: nat
  is_iteration :: int
  is_step_type :: string
  is_status :: string
  is_public_summary :: pystr
  is_input_hash :: pystr
  is_output :: "(pystr \<times> json) list"
  is_created_at :: time

record InvestigationResult =
  ir_investigation_id :: pystr
  ir_status :: InvestigationStatus
  ir_stop_reason :: StopReason
  ir_coverage :: "(pystr, CoverageItem) dict"
  ir_evidence_ids :: "pystr list"
  ir_fact_ids :: "pystr list"
  ir_unknown_ids :: "pystr list"
  ir_conflict_ids :: "pystr list"
  ir_public_summary :: pystr
  ir_risk_summary :: "pystr list"

section \<open>Tools\<close>

datatype ToolStatus = TL_SUCCEEDED | TL_PARTIAL | TL_EMPTY | TL_FAILED | TL_BLOCKED

fun tool_status_value :: "ToolStatus \<Rightarrow> string" where
  "tool_status_value TL_SUCCEEDED = ''SUCCEEDED''"
| "tool_status_value TL_PARTIAL = ''PARTIAL''"
| "tool_status_value TL_EMPTY = ''EMPTY''"
| "tool_status_value TL_FAILED = ''FAILED''"
| "tool_status_value TL_BLOCKED = ''BLOCKED''"

record ToolAction =
  ta_tool_id :: pystr
  ta_tool_schema_version :: pystr
  ta_repository_id :: pystr
  ta_resolved_commit_sha :: pystr
  ta_arguments :: "(pystr \<times> json) list"
  ta_purpose :: pystr

definition valid_sha :: "pystr \<Rightarrow> bool" where
  "valid_sha s \<longleftrightarrow> length s = 40 \<and> list_all (\<lambda>c. 48 \<le> c \<and> c \<le> 57 \<or> 97 \<le> c \<and> c \<le> 102) s"

definition validate_tool_action :: "ToolAction \<Rightarrow> exn + ToolAction" where
  "validate_tool_action a =
     (if ta_tool_id a = [] \<or> ta_tool_schema_version a = [] \<or> ta_repository_id a = [] \<or> \<not> valid_sha (ta_resolved_commit_sha a)
         \<or> ta_purpose a = [] \<or> 500 < length (ta_purpose a)
      then Inl (ValidationError ''ToolAction'') else Inr a)"

definition action_signature :: "(pystr \<Rightarrow> pystr) \<Rightarrow> ToolAction \<Rightarrow> pystr" where
  "action_signature sha256 a =
     sha256_json sha256 (JObj
       [(lit ''tool_id'', JStr (ta_tool_id a)), (lit ''tool_schema_version'', JStr (ta_tool_schema_version a)),
        (lit ''repository_id'', JStr (ta_repository_id a)), (lit ''resolved_commit_sha'', JStr (ta_resolved_commit_sha a)),
        (lit ''arguments'', JObj (ta_arguments a))])"

text \<open>The items of a result and its truncation are not read by the investigation.\<close>

record ToolResult =
  tr_status :: ToolStatus
  tr_public_summary :: pystr
  tr_error_code :: "pystr option"

datatype UnknownReason = UR_EMPTY_RESULT | UR_PARTIAL_RESULT | UR_PARSE_UNSUPPORTED | UR_ACCESS_BLOCKED | UR_TOOL_FAILED

record UnknownItem =
  un_unknown_id :: pystr
  un_tool_call_id :: pystr
  un_task_id :: "pystr option"
  un_statement :: pystr
  un_reason :: UnknownReason
  un_severity :: pystr
  un_resolution_type :: pystr

record RepositoryEvidenceBundle =
  bd_tool_call_id :: pystr
  bd_evidence :: "SourceEvidence list"
  bd_facts :: "DeterministicFact list"
  bd_unknowns :: "UnknownItem list"
  bd_conflicts :: "SourceConflict list"

text \<open>
  The status of a tool call is \<open>RUNNING\<close> or that of its result; \<open>model_copy\<close> does not check its update, so
  it may also be a plain string, which has no \<open>value\<close>.
\<close>

datatype ToolCallStatus = TC_RUNNING | TC_ENDED ToolStatus | TC_TEXT string

record ToolCallRecord =
  tc_tool_call_id :: pystr
  tc_actor_id :: pystr
  tc_task_id :: "pystr option"
  tc_run_id :: "pystr option"
  tc_unit_id :: "pystr option"
  tc_investigation_id :: "pystr option"
  tc_repository_id :: pystr
  tc_resolved_commit_sha :: pystr
  tc_tool_id :: pystr
  tc_tool_schema_version :: pystr
  tc_purpose :: pystr
  tc_arguments :: "(pystr \<times> json) list"
  tc_action_signature :: pystr
  tc_idempotency_key :: pystr
  tc_status :: ToolCallStatus
  tc_public_summary :: pystr
  tc_error_code :: "pystr option"
  tc_started_at :: time
  tc_ended_at :: "time option"

record RepositoryToolExecution =
  te_tool_call :: ToolCallRecord
  te_tool_result :: ToolResult
  te_bundle :: RepositoryEvidenceBundle

section \<open>Coverage templates\<close>

definition COVERAGE_DESCRIPTIONS :: "(pystr, pystr) dict" where
  "COVERAGE_DESCRIPTIONS =
     [(lit ''repository_structure'', [30456, 20851, 27169, 22359, 21644, 20505, 36873, 36335, 24452, 24050, 23450, 20301]),
      (lit ''api_contract'', [25509, 21475, 23383, 27573, 12289, 31867, 22411, 12289, 24517, 22635, 12289, 26522, 20030, 25110, 26684, 24335, 24050, 30830, 35748]),
      (lit ''validation_logic'', [36755, 20837, 25110, 19994, 21153, 26657, 39564, 20301, 32622, 24050, 30830, 35748]),
      (lit ''storage_schema'', [23384, 20648, 23383, 27573, 12289, 31867, 22411, 12289, 31354, 20540, 12289, 40664, 35748, 20540, 21644, 32422, 26463, 24050, 30830, 35748]),
      (lit ''downstream_usage'', [19979, 28216, 35835, 21462, 25110, 24341, 29992, 24773, 20917, 24050, 30830, 35748]),
      (lit ''tests'', [24403, 21069, 34892, 20026, 21644, 36793, 30028, 27979, 35797, 24050, 30830, 35748]),
      (lit ''historical_rule_found'', [30456, 20851, 21382, 21490, 35268, 21017, 24050, 21484, 22238]),
      (lit ''source_version_identified'', [21382, 21490, 25991, 26723, 21644, 32, 67, 111, 114, 112, 117, 115, 32, 29256, 26412, 24050, 22266, 23450]),
      (lit ''staleness_assessed'', [21382, 21490, 36164, 26009, 26102, 25928, 24615, 24050, 35780, 20272]),
      (lit ''code_conflict_checked'', [21382, 21490, 36164, 26009, 19982, 24403, 21069, 20195, 30721, 20107, 23454, 30340, 20914, 31361, 24050, 26816, 26597]),
      (lit ''decision_conflict_checked'', [21382, 21490, 36164, 26009, 19982, 24403, 21069, 30446, 26631, 20915, 31574, 30340, 20914, 31361, 24050, 26816, 26597])]"

definition COVERAGE_TEMPLATES :: "(pystr, pystr list) dict" where
  "COVERAGE_TEMPLATES =
     [(lit ''FIELD_OR_FORMAT_CHANGE'', [lit ''api_contract'', lit ''validation_logic'', lit ''storage_schema'', lit ''tests'']),
      (lit ''STATE_OR_RULE_CHANGE'', [lit ''validation_logic'', lit ''downstream_usage'', lit ''tests'']),
      (lit ''PERMISSION_CHANGE'', [lit ''validation_logic'', lit ''downstream_usage'', lit ''tests'']),
      (lit ''CODE_LOCATION_ONLY'', [lit ''repository_structure'']),
      (lit ''HISTORICAL_PRD_CONTEXT'', [lit ''historical_rule_found'', lit ''source_version_identified'', lit ''staleness_assessed'', lit ''code_conflict_checked'', lit ''decision_conflict_checked''])]"

definition required_markers :: "pystr list" where
  "required_markers = [[23383, 27573], [25509, 21475], [29366, 24577], [26435, 38480], [26657, 39564], [23384, 20648], [24403, 21069, 23454, 29616], [29616, 26377, 36923, 36753], [21382, 21490, 32, 80, 82, 68], [21382, 21490, 26041, 26696], [27839, 29992, 21382, 21490]]"

definition decide_requiredness :: "Requiredness \<Rightarrow> pystr \<Rightarrow> Requiredness" where
  "decide_requiredness suggested context = (if list_ex (\<lambda>m. substr_in m context) required_markers then RQ_REQUIRED else suggested)"

definition build_coverage :: "pystr list \<Rightarrow> (pystr, CoverageItem) dict" where
  "build_coverage keys =
     map (\<lambda>k. (k, \<lparr>ci_key = k, ci_description = dict_get_or COVERAGE_DESCRIPTIONS k k, ci_status = CV_MISSING, ci_evidence_ids = [], ci_fact_ids = [],
                  ci_unknown_ids = [], ci_conflict_ids = [], ci_updated_at_iteration = None\<rparr>)) (fromkeys keys)"

definition coverage_for_kind :: "pystr \<Rightarrow> (pystr, CoverageItem) dict" where
  "coverage_for_kind kind = build_coverage (dict_get_or COVERAGE_TEMPLATES kind [])"

section \<open>Coverage\<close>

definition covered_tools :: "(pystr, pystr list) dict" where
  "covered_tools =
     [(lit ''repo_tree'', [lit ''repository_structure'']), (lit ''parse_openapi'', [lit ''api_contract'']),
      (lit ''parse_database_schema'', [lit ''storage_schema'']), (lit ''find_related_tests'', [lit ''tests'']),
      (lit ''read_file'', [lit ''repository_structure'', lit ''validation_logic'', lit ''downstream_usage'', lit ''tests'']),
      (lit ''find_symbol'', [lit ''repository_structure'', lit ''validation_logic'']), (lit ''find_references'', [lit ''downstream_usage''])]"

definition merge_ids :: "pystr list \<Rightarrow> pystr list \<Rightarrow> pystr list" where
  "merge_ids l r = fromkeys (l @ r)"

definition updated_status :: "pystr \<Rightarrow> pystr \<Rightarrow> RepositoryToolExecution \<Rightarrow> CoverageStatus \<Rightarrow> CoverageStatus" where
  "updated_status tool key x current =
     (let found = bd_evidence (te_bundle x) \<noteq> []; status = tr_status (te_tool_result x) in
      if bd_conflicts (te_bundle x) \<noteq> [] then CV_CONFLICTING
      else if status = TL_PARTIAL \<and> found then CV_PARTIAL
      else if status = TL_SUCCEEDED \<and> found then (if key \<in> set (dict_get_or covered_tools tool []) then CV_COVERED else CV_PARTIAL)
      else current)"

definition update_item :: "Investigation \<Rightarrow> ProposedAction \<Rightarrow> RepositoryToolExecution \<Rightarrow> (pystr, CoverageItem) dict \<Rightarrow> pystr \<Rightarrow> (pystr, CoverageItem) dict" where
  "update_item iv p x coverage key =
     (case dict_get coverage key of
        None \<Rightarrow> coverage
      | Some item \<Rightarrow>
          if ci_status item = CV_NOT_REQUIRED then coverage
          else
            dict_set key
              (item\<lparr>ci_status := updated_status (pa_tool_id p) key x (ci_status item),
                    ci_evidence_ids := merge_ids (ci_evidence_ids item) (map evidence_id (bd_evidence (te_bundle x))),
                    ci_fact_ids := merge_ids (ci_fact_ids item) (map fact_id (bd_facts (te_bundle x))),
                    ci_unknown_ids := merge_ids (ci_unknown_ids item) (map un_unknown_id (bd_unknowns (te_bundle x))),
                    ci_conflict_ids := merge_ids (ci_conflict_ids item) (map conflict_id (bd_conflicts (te_bundle x))),
                    ci_updated_at_iteration := Some (iv_iteration_count iv)\<rparr>) coverage)"

definition update_coverage :: "Investigation \<Rightarrow> ProposedAction \<Rightarrow> RepositoryToolExecution \<Rightarrow> (pystr, CoverageItem) dict" where
  "update_coverage iv p x = foldl (update_item iv p x) (iv_coverage iv) (pa_target_coverage p)"

definition coverage_complete :: "(pystr, CoverageItem) dict \<Rightarrow> bool" where
  "coverage_complete coverage \<longleftrightarrow> list_all (\<lambda>item. ci_status item = CV_COVERED \<or> ci_status item = CV_NOT_REQUIRED) (dict_values coverage)"

fun next_gap_in :: "CoverageStatus list \<Rightarrow> (pystr, CoverageItem) dict \<Rightarrow> pystr option" where
  "next_gap_in [] coverage = None"
| "next_gap_in (status # rest) coverage =
     (case find (\<lambda>ki. ci_status (snd ki) = status) coverage of Some ki \<Rightarrow> Some (fst ki) | None \<Rightarrow> next_gap_in rest coverage)"

definition next_gap :: "(pystr, CoverageItem) dict \<Rightarrow> pystr option" where
  "next_gap coverage = next_gap_in [CV_CONFLICTING, CV_MISSING, CV_PARTIAL] coverage"

section \<open>Routes\<close>

definition pre_action_stop :: "Investigation \<Rightarrow> StopReason option" where
  "pre_action_stop iv =
     (if iv_token_usage iv \<ge> ib_token_budget (iv_budget iv) then Some SR_TOKEN_BUDGET_EXHAUSTED
      else if iv_tool_call_count iv \<ge> ib_max_tool_calls (iv_budget iv) then Some SR_TOOL_BUDGET_EXHAUSTED
      else if iv_iteration_count iv \<ge> ib_max_iterations (iv_budget iv) then Some SR_MAX_ITERATIONS_REACHED
      else None)"

definition terminal_status :: "Investigation \<Rightarrow> StopReason \<Rightarrow> InvestigationStatus" where
  "terminal_status iv reason =
     (if reason = SR_COVERAGE_COMPLETE then IS_COMPLETE
      else if reason = SR_USER_STOPPED then IS_CANCELLED
      else if reason = SR_PERMISSION_DENIED \<or> reason = SR_HUMAN_INPUT_REQUIRED then IS_HUMAN_INPUT_REQUIRED
      else if reason = SR_UNRECOVERABLE_ERROR then IS_FAILED
      else if iv_evidence_ids iv \<noteq> [] \<or> iv_fact_ids iv \<noteq> [] then IS_PARTIAL
      else IS_EMPTY)"

definition progress_fingerprint :: "Investigation \<Rightarrow> pystr list" where
  "progress_fingerprint iv =
     map (\<lambda>i. lit ''e:'' @ i) (iv_evidence_ids iv) @ map (\<lambda>i. lit ''f:'' @ i) (iv_fact_ids iv)
     @ map (\<lambda>i. lit ''u:'' @ i) (iv_unknown_ids iv) @ map (\<lambda>i. lit ''c:'' @ i) (iv_conflict_ids iv)
     @ map (\<lambda>(k, item). lit ''coverage:'' @ k @ lit '':'' @ lit (coverage_value (ci_status item))) (iv_coverage iv)"

end
