(* ===== verification/Investigation_Runner.thy ===== *)
theory Investigation_Runner
  imports Investigation_Model Py_Logic
begin

text \<open>
  The bounded loop of an investigation (\<^verbatim>\<open>src/prd_agent/investigation/runner.py\<close>) with the selector
  of \<^verbatim>\<open>planner.py\<close>, the evidence service it executes tools through
  (\<^verbatim>\<open>src/prd_agent/application/repository_evidence_service.py\<close>) and the application service around it
  (\<^verbatim>\<open>application/investigation_service.py\<close>).

  The model that proposes actions, the registered tools with the schemas of their arguments, the
  resolution of a repository snapshot and the outcome of a tool (its sanitised result and the evidence
  normalised from it) are functions of the environment. An exception of a tool's handler or of the
  processing of its evidence is a failed result there, as the service makes it one; the redaction of
  the result is taken not to raise.
\<close>

section \<open>The world and the environment\<close>

datatype iexn =
    ModelApiError pystr bool
  | InvestigationVersionConflict string
  | ToolRegistryError string
  | EvidenceIdempotencyConflict string
  | RoundsExhausted
  | IExn exn

record InvestigationStore =
  st_needs :: "(pystr, InformationNeed) dict"
  st_investigations :: "(pystr, Investigation) dict"
  st_steps :: "(pystr, InvestigationStep list) dict"

text \<open>A snapshot of a repository, as it is saved: repository, commit and allowed prefix.\<close>

type_synonym snapshot_key = "pystr \<times> pystr \<times> pystr"

record EvidenceStore =
  ev_calls :: "(pystr, ToolCallRecord) dict"
  ev_inputs :: "(pystr, pystr) dict"
  ev_replays :: "(pystr \<times> pystr, pystr \<times> RepositoryToolExecution) dict"
  ev_snapshots :: "snapshot_key list"

record StructuredModelResult =
  sm_model_id :: pystr
  sm_prompt_version :: pystr
  sm_structured_output :: json
  sm_raw_output_hash :: pystr
  sm_token_usage :: "(pystr \<times> json) list"
  sm_finish_reason :: pystr

text \<open>\<open>iw_tool_log\<close> lists the idempotency keys of the tools that were really run.\<close>

record IWorld =
  iw_store :: InvestigationStore
  iw_evidence :: EvidenceStore
  iw_last_token_usage :: int
  iw_last_model_result :: "StructuredModelResult option"
  iw_ticks :: nat
  iw_uuids :: nat
  iw_model_calls :: nat
  iw_tool_log :: "(pystr \<times> pystr) list"

record PublicStep =
  ps_iteration :: int
  ps_step_type :: string
  ps_status :: string
  ps_summary :: pystr

record PriorResult =
  pt_iteration :: int
  pt_tool_id :: pystr
  pt_status :: ToolStatus
  pt_public_summary :: pystr
  pt_evidence_ids :: "pystr list"
  pt_fact_ids :: "pystr list"
  pt_unknown_ids :: "pystr list"
  pt_conflict_ids :: "pystr list"

record SelectorPayload =
  sl_investigation_id :: pystr
  sl_information_need_id :: pystr
  sl_question :: pystr
  sl_requiredness :: Requiredness
  sl_repository_id :: pystr
  sl_resolved_commit_sha :: pystr
  sl_gap :: "pystr option"
  sl_coverage :: "(pystr \<times> CoverageStatus) list"
  sl_completed_action_signatures :: "pystr list"
  sl_available_tools :: json
  sl_prior_public_steps :: "PublicStep list"
  sl_prior_tool_results :: "PriorResult list"
  sl_remaining_iterations :: int
  sl_remaining_tool_calls :: int
  sl_remaining_replans :: int
  sl_remaining_tokens :: int

record IEnv =
  ie_clock :: "nat \<Rightarrow> time"
  ie_uuid :: "nat \<Rightarrow> pystr"
  ie_sha256 :: "pystr \<Rightarrow> pystr"
  ie_model :: "nat \<Rightarrow> bool \<Rightarrow> SelectorPayload \<Rightarrow> bool \<Rightarrow> iexn + StructuredModelResult"
  ie_registry :: "pystr \<times> pystr \<Rightarrow> ((pystr \<times> json) list \<Rightarrow> bool) option"
  ie_tools :: json
  ie_snapshot :: "nat \<Rightarrow> ToolAction \<Rightarrow> iexn + snapshot_key"
  ie_tool :: "nat \<Rightarrow> pystr \<Rightarrow> ToolAction \<Rightarrow> pystr option \<Rightarrow> ToolResult \<times> RepositoryEvidenceBundle"

type_synonym 'a im = "(IWorld, iexn, 'a) sem"

definition clockI :: "IEnv \<Rightarrow> time im" where
  "clockI env w = (Inr (ie_clock env (iw_ticks w)), w\<lparr>iw_ticks := iw_ticks w + 1\<rparr>)"

definition uuidI :: "IEnv \<Rightarrow> string \<Rightarrow> pystr im" where
  "uuidI env prefix w = (Inr (lit prefix @ ie_uuid env (iw_uuids w)), w\<lparr>iw_uuids := iw_uuids w + 1\<rparr>)"

definition liftI :: "exn + 'a \<Rightarrow> 'a im" where
  "liftI r w = ((case r of Inl e \<Rightarrow> Inl (IExn e) | Inr x \<Rightarrow> Inr x), w)"

text \<open>The outcome of a computation as a value, which is what \<open>try\<close> inspects.\<close>

definition tryI :: "'a im \<Rightarrow> (iexn + 'a) im" where
  "tryI m w = (case m w of (r, w') \<Rightarrow> (Inr r, w'))"

section \<open>The store of investigations\<close>

definition save_need :: "InformationNeed \<Rightarrow> unit im" where
  "save_need n = modifyM (\<lambda>w. w\<lparr>iw_store := (iw_store w)\<lparr>st_needs := dict_set (in_information_need_id n) n (st_needs (iw_store w))\<rparr>\<rparr>)"

definition get_need :: "pystr \<Rightarrow> InformationNeed im" where
  "get_need nid w = ((case dict_get (st_needs (iw_store w)) nid of None \<Rightarrow> Inl (IExn KeyError) | Some n \<Rightarrow> Inr n), w)"

definition active_for :: "pystr \<Rightarrow> Investigation \<Rightarrow> bool" where
  "active_for nid iv \<longleftrightarrow> iv_information_need_id iv = nid \<and> (iv_status iv = IS_PLANNED \<or> iv_status iv = IS_RUNNING)"

definition put_investigation :: "Investigation \<Rightarrow> IWorld \<Rightarrow> IWorld" where
  "put_investigation iv w =
     w\<lparr>iw_store := (iw_store w)\<lparr>st_investigations := dict_set (iv_investigation_id iv) iv (st_investigations (iw_store w))\<rparr>\<rparr>"

definition create_investigation :: "Investigation \<Rightarrow> unit im" where
  "create_investigation iv w =
     (let ivs = st_investigations (iw_store w) in
      if dict_get ivs (iv_investigation_id iv) \<noteq> None then (Inl (InvestigationVersionConflict ''investigation already exists''), w)
      else if list_ex (active_for (iv_information_need_id iv)) (dict_values ivs)
      then (Inl (InvestigationVersionConflict ''information need already has an active investigation''), w)
      else (Inr (), put_investigation iv w))"

definition get_investigation :: "pystr \<Rightarrow> Investigation im" where
  "get_investigation iid w = ((case dict_get (st_investigations (iw_store w)) iid of None \<Rightarrow> Inl (IExn KeyError) | Some iv \<Rightarrow> Inr iv), w)"

definition save_investigation :: "Investigation \<Rightarrow> int \<Rightarrow> unit im" where
  "save_investigation iv expected w =
     (case dict_get (st_investigations (iw_store w)) (iv_investigation_id iv) of
        None \<Rightarrow> (Inl (IExn KeyError), w)
      | Some current \<Rightarrow>
          if iv_version current \<noteq> expected
          then (Inl (InvestigationVersionConflict ''expected version {expected_version}, current version is {current.version}''), w)
          else (Inr (), put_investigation iv w))"

definition steps_of :: "IWorld \<Rightarrow> pystr \<Rightarrow> InvestigationStep list" where
  "steps_of w iid = dict_get_or (st_steps (iw_store w)) iid []"

definition append_step :: "InvestigationStep \<Rightarrow> unit im" where
  "append_step s w =
     (let values = steps_of w (is_investigation_id s) in
      if list_ex (\<lambda>x. is_sequence x = is_sequence s) values then (Inl (InvestigationVersionConflict ''step sequence already exists''), w)
      else (Inr (), w\<lparr>iw_store := (iw_store w)\<lparr>st_steps := dict_set (is_investigation_id s) (values @ [s]) (st_steps (iw_store w))\<rparr>\<rparr>))"

definition investigations_for_task :: "IWorld \<Rightarrow> pystr \<Rightarrow> Investigation list" where
  "investigations_for_task w tid = filter (\<lambda>iv. iv_task_id iv = Some tid) (dict_values (st_investigations (iw_store w)))"

section \<open>The evidence service\<close>

definition get_execution :: "IWorld \<Rightarrow> pystr \<Rightarrow> RepositoryToolExecution option" where
  "get_execution w cid = find (\<lambda>x. tc_tool_call_id (te_tool_call x) = cid) (map snd (dict_values (ev_replays (iw_evidence w))))"

definition evidence_replay :: "IWorld \<Rightarrow> pystr \<Rightarrow> pystr \<Rightarrow> (pystr \<times> RepositoryToolExecution) option" where
  "evidence_replay w actor key = dict_get (ev_replays (iw_evidence w)) (actor, key)"

definition save_running :: "ToolCallRecord \<Rightarrow> pystr \<Rightarrow> EvidenceStore \<Rightarrow> EvidenceStore" where
  "save_running c h ev =
     ev\<lparr>ev_calls := dict_set (tc_tool_call_id c) c (ev_calls ev), ev_inputs := dict_set (tc_tool_call_id c) h (ev_inputs ev)\<rparr>"

definition complete_call :: "pystr \<Rightarrow> pystr \<Rightarrow> pystr \<Rightarrow> RepositoryToolExecution \<Rightarrow> EvidenceStore \<Rightarrow> EvidenceStore" where
  "complete_call actor key h x ev =
     ev\<lparr>ev_calls := dict_set (tc_tool_call_id (te_tool_call x)) (te_tool_call x) (ev_calls ev),
        ev_replays := dict_set (actor, key) (h, x) (ev_replays ev)\<rparr>"

text \<open>\<open>.value\<close> of a status.\<close>

definition no_value_error :: exn where
  "no_value_error = OtherError (lit ''AttributeError'')"

fun status_ended :: "ToolCallStatus \<Rightarrow> exn + bool" where
  "status_ended TC_RUNNING = Inr False"
| "status_ended (TC_ENDED s) = Inr True"
| "status_ended (TC_TEXT s) = Inl no_value_error"

definition all_calls :: "IWorld \<Rightarrow> ToolCallRecord list" where
  "all_calls w = dict_values (ev_calls (iw_evidence w))"

fun collect_executions :: "IWorld \<Rightarrow> pystr \<Rightarrow> ToolCallRecord list \<Rightarrow> exn + RepositoryToolExecution list" where
  "collect_executions w iid [] = Inr []"
| "collect_executions w iid (c # rest) =
     (if tc_investigation_id c \<noteq> Some iid then collect_executions w iid rest
      else
        (case status_ended (tc_status c) of
           Inl e \<Rightarrow> Inl e
         | Inr False \<Rightarrow> collect_executions w iid rest
         | Inr True \<Rightarrow>
             (case get_execution w (tc_tool_call_id c) of
                None \<Rightarrow> Inl KeyError
              | Some x \<Rightarrow> (case collect_executions w iid rest of Inl e \<Rightarrow> Inl e | Inr xs \<Rightarrow> Inr (x # xs)))))"

definition executions_for_investigation :: "IWorld \<Rightarrow> pystr \<Rightarrow> exn + RepositoryToolExecution list" where
  "executions_for_investigation w iid = collect_executions w iid (all_calls w)"

definition evidenceI :: "(EvidenceStore \<Rightarrow> EvidenceStore) \<Rightarrow> unit im" where
  "evidenceI f = modifyM (\<lambda>w. w\<lparr>iw_evidence := f (iw_evidence w)\<rparr>)"

text \<open>\<open>recover_stale_running\<close>: the loop over the calls there were at its start.\<close>

fun recover_calls :: "time \<Rightarrow> time \<Rightarrow> (pystr \<times> ToolCallRecord) list \<Rightarrow> pystr list im" where
  "recover_calls now stale_before [] = returnM []"
| "recover_calls now stale_before ((cid, c) # rest) =
     bindM (liftI (status_ended (tc_status c))) (\<lambda>ended.
       if \<not> ended \<and> tc_started_at c < stale_before then
         thenM (evidenceI (\<lambda>ev. ev\<lparr>ev_calls := dict_set cid
                  (c\<lparr>tc_status := TC_TEXT ''FAILED'', tc_public_summary := [24037, 20855, 35843, 29992, 25191, 34892, 36827, 31243, 22833, 32852],
                     tc_error_code := Some (lit ''WORKER_LOST''), tc_ended_at := Some now\<rparr>) (ev_calls ev)\<rparr>))
               (bindM (recover_calls now stale_before rest) (\<lambda>ids. returnM (cid # ids)))
       else recover_calls now stale_before rest)"

definition recover_stale_running :: "IEnv \<Rightarrow> time \<Rightarrow> pystr list im" where
  "recover_stale_running env stale_before =
     bindM (clockI env) (\<lambda>now.
     bindM (readM (\<lambda>w. ev_calls (iw_evidence w))) (\<lambda>calls. recover_calls now stale_before calls))"

definition validate_action :: "IEnv \<Rightarrow> ToolAction \<Rightarrow> unit im" where
  "validate_action env a =
     (case ie_registry env (ta_tool_id a, ta_tool_schema_version a) of
        None \<Rightarrow> raiseM (ToolRegistryError ''tool is not registered: {action.tool_id}'')
      | Some accepts \<Rightarrow> checkM (accepts (ta_arguments a)) (IExn (ValidationError ''arguments'')))"

definition opt_str :: "pystr option \<Rightarrow> json" where
  "opt_str v = (case v of None \<Rightarrow> JNull | Some s \<Rightarrow> JStr s)"

definition execution_hash :: "IEnv \<Rightarrow> ToolAction \<Rightarrow> Investigation \<Rightarrow> pystr" where
  "execution_hash env a iv =
     sha256_json (ie_sha256 env) (JObj
       [(lit ''action'', JObj [(lit ''tool_id'', JStr (ta_tool_id a)), (lit ''tool_schema_version'', JStr (ta_tool_schema_version a)),
           (lit ''repository_id'', JStr (ta_repository_id a)), (lit ''resolved_commit_sha'', JStr (ta_resolved_commit_sha a)),
           (lit ''arguments'', JObj (ta_arguments a)), (lit ''purpose'', JStr (ta_purpose a))]),
        (lit ''task_id'', opt_str (iv_task_id iv)), (lit ''run_id'', opt_str (iv_run_id iv)), (lit ''unit_id'', opt_str (iv_unit_id iv)),
        (lit ''investigation_id'', JStr (iv_investigation_id iv)), (lit ''attempt'', JInt 1), (lit ''retry_of_tool_call_id'', JNull)])"

definition new_call :: "IEnv \<Rightarrow> pystr \<Rightarrow> pystr \<Rightarrow> Investigation \<Rightarrow> ToolAction \<Rightarrow> snapshot_key \<Rightarrow> ToolCallRecord im" where
  "new_call env actor key iv a snap =
     bindM (uuidI env ''tool-call-'') (\<lambda>cid.
     bindM (clockI env) (\<lambda>t.
       returnM
         \<lparr>tc_tool_call_id = cid, tc_actor_id = actor, tc_task_id = iv_task_id iv, tc_run_id = iv_run_id iv, tc_unit_id = iv_unit_id iv,
          tc_investigation_id = Some (iv_investigation_id iv), tc_repository_id = ta_repository_id a, tc_resolved_commit_sha = fst (snd snap),
          tc_tool_id = ta_tool_id a, tc_tool_schema_version = ta_tool_schema_version a, tc_purpose = ta_purpose a, tc_arguments = ta_arguments a,
          tc_action_signature = action_signature (ie_sha256 env) a, tc_idempotency_key = key, tc_status = TC_RUNNING, tc_public_summary = [],
          tc_error_code = None, tc_started_at = t, tc_ended_at = None\<rparr>))"

text \<open>Running the tool: the handler and what is made of its result.\<close>

definition runI :: "IEnv \<Rightarrow> pystr \<Rightarrow> pystr \<Rightarrow> pystr \<Rightarrow> ToolAction \<Rightarrow> pystr option \<Rightarrow> (ToolResult \<times> RepositoryEvidenceBundle) im" where
  "runI env actor key cid a tid w =
     (Inr (ie_tool env (length (iw_tool_log w)) cid a tid), w\<lparr>iw_tool_log := iw_tool_log w @ [(actor, key)]\<rparr>)"

definition snapshotI :: "IEnv \<Rightarrow> ToolAction \<Rightarrow> snapshot_key im" where
  "snapshotI env a w = (ie_snapshot env (iw_ticks w) a, w)"

definition execute_new :: "IEnv \<Rightarrow> pystr \<Rightarrow> pystr \<Rightarrow> Investigation \<Rightarrow> ToolAction \<Rightarrow> RepositoryToolExecution im" where
  "execute_new env actor key iv a =
     thenM (validate_action env a)
    (bindM (snapshotI env a) (\<lambda>snap.
     thenM (evidenceI (\<lambda>ev. ev\<lparr>ev_snapshots := List.insert snap (ev_snapshots ev)\<rparr>))
    (bindM (new_call env actor key iv a snap) (\<lambda>c.
     thenM (evidenceI (save_running c (execution_hash env a iv)))
    (bindM (runI env actor key (tc_tool_call_id c) a (iv_task_id iv)) (\<lambda>rb.
     bindM (clockI env) (\<lambda>t.
       let x = \<lparr>te_tool_call = c\<lparr>tc_status := TC_ENDED (tr_status (fst rb)), tc_public_summary := tr_public_summary (fst rb),
                                   tc_error_code := tr_error_code (fst rb), tc_ended_at := Some t\<rparr>,
                te_tool_result = fst rb, te_bundle = snd rb\<rparr> in
       thenM (evidenceI (complete_call actor key (execution_hash env a iv) x)) (returnM x))))))))"

definition execute_tool :: "IEnv \<Rightarrow> pystr \<Rightarrow> pystr \<Rightarrow> Investigation \<Rightarrow> ToolAction \<Rightarrow> RepositoryToolExecution im" where
  "execute_tool env actor key iv a =
     bindM (readM (\<lambda>w. evidence_replay w actor key)) (\<lambda>replay.
       case replay of
         Some (h, x) \<Rightarrow>
           thenM (checkM (h = execution_hash env a iv) (EvidenceIdempotencyConflict ''idempotency key was already used with different input''))
                 (returnM x)
       | None \<Rightarrow> execute_new env actor key iv a)"

section \<open>The selector\<close>

definition usage_tokens :: "(pystr \<times> json) list \<Rightarrow> exn + int" where
  "usage_tokens usage =
     (let total = (\<lambda>k. obj_get_or usage k JNull);
          counted = sum_list (map (\<lambda>kv. case snd kv of JInt i \<Rightarrow> i | JBool b \<Rightarrow> (if b then 1 else 0) | _ \<Rightarrow> 0) usage) in
      if py_truthy (total ''total_tokens'') then py_int (total ''total_tokens'')
      else if py_truthy (total ''total'') then py_int (total ''total'')
      else Inr counted)"

definition json_text :: "json \<Rightarrow> pystr option" where
  "json_text v = (case v of JStr s \<Rightarrow> Some s | _ \<Rightarrow> None)"

definition texts_of :: "json \<Rightarrow> pystr list option" where
  "texts_of v = (case v of JList xs \<Rightarrow> (if list_all (\<lambda>x. json_text x \<noteq> None) xs then Some (map (\<lambda>x. the (json_text x)) xs) else None) | _ \<Rightarrow> None)"

text \<open>\<open>ProposedAction.model_validate\<close>: known keys only, texts of bounded length, a mapping of arguments.\<close>

definition parse_proposal :: "json \<Rightarrow> exn + ProposedAction" where
  "parse_proposal v =
     (case v of
        JObj kvs \<Rightarrow>
          (case (json_text (obj_get_or kvs ''tool_id'' JNull), json_text (obj_get_or kvs ''tool_schema_version'' (JStr (lit ''1''))),
                 obj_get_or kvs ''arguments'' JNull, json_text (obj_get_or kvs ''purpose'' JNull), texts_of (obj_get_or kvs ''target_coverage'' (JList []))) of
             (Some tool, Some version, JObj arguments, Some purpose, Some target) \<Rightarrow>
               if list_all (\<lambda>kv. fst kv \<in> set (map lit [''tool_id'', ''tool_schema_version'', ''arguments'', ''purpose'', ''target_coverage''])) kvs
                  \<and> tool \<noteq> [] \<and> version \<noteq> [] \<and> purpose \<noteq> [] \<and> length purpose \<le> 500
               then Inr \<lparr>pa_tool_id = tool, pa_tool_schema_version = version, pa_arguments = arguments, pa_purpose = purpose, pa_target_coverage = target\<rparr>
               else Inl (ValidationError ''ProposedAction'')
           | _ \<Rightarrow> Inl (ValidationError ''ProposedAction''))
      | _ \<Rightarrow> Inl (ValidationError ''ProposedAction''))"

definition modelI :: "IEnv \<Rightarrow> bool \<Rightarrow> SelectorPayload \<Rightarrow> bool \<Rightarrow> StructuredModelResult im" where
  "modelI env replan payload repair w = (ie_model env (iw_model_calls w) replan payload repair, w\<lparr>iw_model_calls := iw_model_calls w + 1\<rparr>)"

fun select_loop :: "IEnv \<Rightarrow> bool \<Rightarrow> SelectorPayload \<Rightarrow> bool list \<Rightarrow> ProposedAction im" where
  "select_loop env replan payload [] = raiseM (IExn (ValueError ''invalid investigation action after one repair: {first_error}''))"
| "select_loop env replan payload (repair # rest) =
     bindM (modelI env replan payload repair) (\<lambda>res.
     thenM (modifyM (\<lambda>w. w\<lparr>iw_last_model_result := Some res\<rparr>))
    (bindM (liftI (usage_tokens (sm_token_usage res))) (\<lambda>n.
     thenM (modifyM (\<lambda>w. w\<lparr>iw_last_token_usage := iw_last_token_usage w + n\<rparr>))
       (case parse_proposal (sm_structured_output res) of
          Inr p \<Rightarrow> returnM p
        | Inl e \<Rightarrow> select_loop env replan payload rest))))"

definition select_action :: "IEnv \<Rightarrow> bool \<Rightarrow> SelectorPayload \<Rightarrow> ProposedAction im" where
  "select_action env replan payload = select_loop env replan payload [False, True]"

section \<open>Saving and steps\<close>

text \<open>\<open>_save\<close>: the updated investigation with the next version, if nobody else saved one.\<close>

definition saveI :: "IEnv \<Rightarrow> Investigation \<Rightarrow> Investigation im" where
  "saveI env iv =
     bindM (clockI env) (\<lambda>t.
       let u = iv\<lparr>iv_version := iv_version iv + 1, iv_updated_at := t\<rparr> in
       thenM (save_investigation u (iv_version iv)) (returnM u))"

definition stepI :: "IEnv \<Rightarrow> Investigation \<Rightarrow> string \<Rightarrow> string \<Rightarrow> pystr \<Rightarrow> (pystr \<times> json) list \<Rightarrow> unit im" where
  "stepI env iv ty status summary output =
     bindM (readM (\<lambda>w. length (steps_of w (iv_investigation_id iv)) + 1)) (\<lambda>n.
     bindM (uuidI env ''investigation-step-'') (\<lambda>sid.
     bindM (clockI env) (\<lambda>t.
       append_step
         \<lparr>is_step_id = sid, is_investigation_id = iv_investigation_id iv, is_sequence = n, is_iteration = iv_iteration_count iv, is_step_type = ty,
          is_status = status, is_public_summary = summary, is_input_hash = sha256_json (ie_sha256 env) (JObj output), is_output = output,
          is_created_at = t\<rparr>)))"

definition finishI :: "IEnv \<Rightarrow> Investigation \<Rightarrow> StopReason \<Rightarrow> Investigation im" where
  "finishI env iv reason =
     (let status = terminal_status iv reason in
      bindM (saveI env (iv\<lparr>iv_status := status, iv_stop_reason := Some reason\<rparr>)) (\<lambda>iv'.
      thenM (stepI env iv' ''FINALIZE'' ''SUCCEEDED'' ([35843, 26597, 32467, 26463, 65306] @ lit (stop_value reason))
               [(lit ''status'', JStr (lit (investigation_status_value status))), (lit ''stop_reason'', JStr (lit (stop_value reason)))])
            (returnM iv')))"

definition record_no_progress :: "IEnv \<Rightarrow> Investigation \<Rightarrow> Investigation im" where
  "record_no_progress env iv = saveI env (iv\<lparr>iv_no_progress_rounds := iv_no_progress_rounds iv + 1\<rparr>)"

definition no_progress_left :: "Investigation \<Rightarrow> bool" where
  "no_progress_left iv \<longleftrightarrow> iv_no_progress_rounds iv \<ge> ib_no_progress_limit (iv_budget iv)"

text \<open>A round without progress, which may be the last.\<close>

definition fruitless :: "IEnv \<Rightarrow> Investigation \<Rightarrow> Investigation im" where
  "fruitless env iv =
     bindM (record_no_progress env iv) (\<lambda>iv. if no_progress_left iv then finishI env iv SR_NO_PROGRESS else returnM iv)"

definition investigation_result :: "Investigation \<Rightarrow> InvestigationResult" where
  "investigation_result iv =
     (let reason = (case iv_stop_reason iv of None \<Rightarrow> SR_UNRECOVERABLE_ERROR | Some r \<Rightarrow> r) in
      \<lparr>ir_investigation_id = iv_investigation_id iv, ir_status = iv_status iv, ir_stop_reason = reason, ir_coverage = iv_coverage iv,
       ir_evidence_ids = iv_evidence_ids iv, ir_fact_ids = iv_fact_ids iv, ir_unknown_ids = iv_unknown_ids iv, ir_conflict_ids = iv_conflict_ids iv,
       ir_public_summary = [35843, 26597, 20197, 32] @ lit (investigation_status_value (iv_status iv)) @ [32, 32467, 26463, 65306] @ lit (stop_value reason),
       ir_risk_summary = map (\<lambda>(k, item). k @ lit '': '' @ lit (coverage_value (ci_status item)))
         (filter (\<lambda>(k, item). ci_status item \<noteq> CV_COVERED \<and> ci_status item \<noteq> CV_NOT_REQUIRED) (iv_coverage iv))\<rparr>)"

section \<open>The payload of the selector\<close>

text \<open>The last elements of a list, \<open>values[-n:]\<close>.\<close>

definition last_n :: "nat \<Rightarrow> 'a list \<Rightarrow> 'a list" where
  "last_n n xs = drop (length xs - n) xs"

definition prior_result :: "IWorld \<Rightarrow> InvestigationStep \<Rightarrow> PriorResult option" where
  "prior_result w s =
     (if is_step_type s \<noteq> ''EXECUTE_TOOL'' then None
      else
        (case obj_get (is_output s) ''tool_call_id'' of
           Some (JStr cid) \<Rightarrow>
             if cid = [] then None
             else
               map_option (\<lambda>x. \<lparr>pt_iteration = is_iteration s, pt_tool_id = tc_tool_id (te_tool_call x), pt_status = tr_status (te_tool_result x),
                 pt_public_summary = tr_public_summary (te_tool_result x), pt_evidence_ids = map evidence_id (bd_evidence (te_bundle x)),
                 pt_fact_ids = map fact_id (bd_facts (te_bundle x)), pt_unknown_ids = map un_unknown_id (bd_unknowns (te_bundle x)),
                 pt_conflict_ids = map conflict_id (bd_conflicts (te_bundle x))\<rparr>) (get_execution w cid)
         | _ \<Rightarrow> None))"

definition prior_tool_results :: "IWorld \<Rightarrow> InvestigationStep list \<Rightarrow> PriorResult list" where
  "prior_tool_results w steps = last_n 5 (concat (map (\<lambda>s. case prior_result w s of None \<Rightarrow> [] | Some r \<Rightarrow> [r]) steps))"

definition selector_payload :: "IEnv \<Rightarrow> Investigation \<Rightarrow> pystr option \<Rightarrow> SelectorPayload im" where
  "selector_payload env iv gap =
     bindM (get_need (iv_information_need_id iv)) (\<lambda>need.
     bindM (readM (\<lambda>w. (steps_of w (iv_investigation_id iv), prior_tool_results w (steps_of w (iv_investigation_id iv))))) (\<lambda>(steps, results).
       returnM
         \<lparr>sl_investigation_id = iv_investigation_id iv, sl_information_need_id = iv_information_need_id iv, sl_question = in_question need,
          sl_requiredness = in_requiredness need, sl_repository_id = iv_repository_id iv, sl_resolved_commit_sha = iv_resolved_commit_sha iv,
          sl_gap = gap, sl_coverage = map (\<lambda>(k, item). (k, ci_status item)) (iv_coverage iv),
          sl_completed_action_signatures = sort (remdups (iv_completed_action_signatures iv)), sl_available_tools = ie_tools env,
          sl_prior_public_steps = map (\<lambda>s. \<lparr>ps_iteration = is_iteration s, ps_step_type = is_step_type s, ps_status = is_status s,
            ps_summary = is_public_summary s\<rparr>) (last_n 10 steps),
          sl_prior_tool_results = results,
          sl_remaining_iterations = ib_max_iterations (iv_budget iv) - iv_iteration_count iv,
          sl_remaining_tool_calls = ib_max_tool_calls (iv_budget iv) - iv_tool_call_count iv,
          sl_remaining_replans = ib_max_replans (iv_budget iv) - iv_replan_count iv,
          sl_remaining_tokens = ib_token_budget (iv_budget iv) - iv_token_usage iv\<rparr>))"

section \<open>A round\<close>

text \<open>
  How the selection of an action ends: an action, an investigation that ran out of tokens, a failure of the model
  service, or any other exception. The value carries the investigation as it was saved last, which is
  what the handlers of the source see.
\<close>

datatype Selection =
    Selected Investigation ProposedAction ToolAction
  | OutOfTokens Investigation
  | ModelDown Investigation pystr bool
  | Rejected Investigation

fun failed_selection :: "Investigation \<Rightarrow> iexn \<Rightarrow> Selection" where
  "failed_selection iv (ModelApiError code retryable) = ModelDown iv code retryable"
| "failed_selection iv _ = Rejected iv"

text \<open>A step of the \<open>try\<close> block: an exception ends the selection with the investigation at hand.\<close>

definition attemptI :: "Investigation \<Rightarrow> 'a im \<Rightarrow> ('a \<Rightarrow> Selection im) \<Rightarrow> Selection im" where
  "attemptI iv m k = bindM (tryI m) (\<lambda>r. case r of Inl e \<Rightarrow> returnM (failed_selection iv e) | Inr x \<Rightarrow> k x)"

definition active_target :: "Investigation \<Rightarrow> ProposedAction \<Rightarrow> bool" where
  "active_target iv p \<longleftrightarrow>
     list_ex (\<lambda>k. case dict_get (iv_coverage iv) k of None \<Rightarrow> False
       | Some item \<Rightarrow> ci_status item \<in> {CV_MISSING, CV_PARTIAL, CV_CONFLICTING}) (pa_target_coverage p)"

definition tool_action :: "Investigation \<Rightarrow> ProposedAction \<Rightarrow> ToolAction" where
  "tool_action iv p =
     \<lparr>ta_tool_id = pa_tool_id p, ta_tool_schema_version = pa_tool_schema_version p, ta_repository_id = iv_repository_id iv,
      ta_resolved_commit_sha = iv_resolved_commit_sha iv, ta_arguments = pa_arguments p, ta_purpose = pa_purpose p\<rparr>"

definition accept_proposal :: "IEnv \<Rightarrow> Investigation \<Rightarrow> ProposedAction \<Rightarrow> Selection im" where
  "accept_proposal env iv p =
     (if iv_token_usage iv \<ge> ib_token_budget (iv_budget iv)
      then attemptI iv (finishI env iv SR_TOKEN_BUDGET_EXHAUSTED) (\<lambda>iv'. returnM (OutOfTokens iv'))
      else
        attemptI iv
          (thenM (checkM (active_target iv p) (IExn (ValueError ''action does not target an active coverage gap'')))
          (bindM (liftI (validate_tool_action (tool_action iv p))) (\<lambda>a.
           thenM (validate_action env a) (returnM a)))) (\<lambda>a.
        returnM (Selected iv p a)))"

definition model_step :: "IEnv \<Rightarrow> Investigation \<Rightarrow> unit im" where
  "model_step env iv =
     bindM (readM iw_last_model_result) (\<lambda>res.
       case res of
         None \<Rightarrow> returnM ()
       | Some m \<Rightarrow>
           stepI env iv ''CALL_MODEL'' ''SUCCEEDED'' [27169, 22411, 24050, 36820, 22238, 32467, 26500, 21270, 35843, 26597, 21160, 20316]
             [(lit ''model_id'', JStr (sm_model_id m)), (lit ''prompt_version'', JStr (sm_prompt_version m)),
              (lit ''raw_output_hash'', JStr (sm_raw_output_hash m)), (lit ''token_usage'', JObj (sm_token_usage m)),
              (lit ''finish_reason'', JStr (sm_finish_reason m))])"

text \<open>The tokens of the selection are added to the investigation.\<close>

definition charge_tokens :: "IEnv \<Rightarrow> Investigation \<Rightarrow> Investigation im" where
  "charge_tokens env iv =
     bindM (readM iw_last_token_usage) (\<lambda>n.
       if n = 0 then returnM iv
       else
         bindM (saveI env (iv\<lparr>iv_token_usage := iv_token_usage iv + n\<rparr>)) (\<lambda>iv'.
         thenM (modifyM (\<lambda>w. w\<lparr>iw_last_token_usage := 0\<rparr>)) (returnM iv')))"

definition selection :: "IEnv \<Rightarrow> Investigation \<Rightarrow> bool \<Rightarrow> SelectorPayload \<Rightarrow> Selection im" where
  "selection env iv replan payload =
     attemptI iv (select_action env replan payload) (\<lambda>p.
     attemptI iv (model_step env iv) (\<lambda>_.
     attemptI iv (charge_tokens env iv) (\<lambda>iv. accept_proposal env iv p)))"

text \<open>The handler of a rejected selection.\<close>

definition reject_round :: "IEnv \<Rightarrow> Investigation \<Rightarrow> Investigation im" where
  "reject_round env iv =
     bindM (charge_tokens env iv) (\<lambda>iv.
     thenM (stepI env iv ''VALIDATE_ACTION'' ''FAILED'' [35843, 26597, 21160, 20316, 26410, 36890, 36807, 32467, 26500, 25110, 24037, 20855, 31574, 30053, 26657, 39564] [])
    (bindM (record_no_progress env iv) (\<lambda>iv.
       if iv_token_usage iv \<ge> ib_token_budget (iv_budget iv) then finishI env iv SR_TOKEN_BUDGET_EXHAUSTED
       else if no_progress_left iv then finishI env iv SR_NO_PROGRESS
       else returnM iv)))"

definition execution_updates :: "Investigation \<Rightarrow> ProposedAction \<Rightarrow> RepositoryToolExecution \<Rightarrow> pystr \<Rightarrow> Investigation" where
  "execution_updates iv p x signature =
     iv\<lparr>iv_coverage := update_coverage iv p x,
        iv_completed_action_signatures :=
          (if tr_status (te_tool_result x) \<in> {TL_SUCCEEDED, TL_PARTIAL, TL_EMPTY}
           then List.insert signature (iv_completed_action_signatures iv) else iv_completed_action_signatures iv),
        iv_evidence_ids := merge_ids (iv_evidence_ids iv) (map evidence_id (bd_evidence (te_bundle x))),
        iv_fact_ids := merge_ids (iv_fact_ids iv) (map fact_id (bd_facts (te_bundle x))),
        iv_unknown_ids := merge_ids (iv_unknown_ids iv) (map un_unknown_id (bd_unknowns (te_bundle x))),
        iv_conflict_ids := merge_ids (iv_conflict_ids iv) (map conflict_id (bd_conflicts (te_bundle x)))\<rparr>"

definition has_progress :: "Investigation \<Rightarrow> Investigation \<Rightarrow> bool" where
  "has_progress before after \<longleftrightarrow> list_ex (\<lambda>v. v \<notin> set (progress_fingerprint before)) (progress_fingerprint after)"

text \<open>What follows an execution of the tool.\<close>

definition conclude_round :: "IEnv \<Rightarrow> Investigation \<Rightarrow> ProposedAction \<Rightarrow> pystr \<Rightarrow> Investigation \<Rightarrow> RepositoryToolExecution \<Rightarrow> Investigation im" where
  "conclude_round env before p signature iv x =
     bindM (saveI env (execution_updates iv p x signature)) (\<lambda>iv.
     let progress = has_progress before iv in
     bindM (saveI env (iv\<lparr>iv_no_progress_rounds := (if progress then 0 else iv_no_progress_rounds iv + 1)\<rparr>)) (\<lambda>iv.
     thenM (stepI env iv ''EXECUTE_TOOL'' (tool_status_value (tr_status (te_tool_result x))) (tr_public_summary (te_tool_result x))
              [(lit ''tool_call_id'', JStr (tc_tool_call_id (te_tool_call x))), (lit ''has_progress'', JBool progress)])
       (if coverage_complete (iv_coverage iv) then finishI env iv SR_COVERAGE_COMPLETE
        else if no_progress_left iv then finishI env iv SR_NO_PROGRESS
        else returnM iv)))"

definition action_key :: "Investigation \<Rightarrow> pystr \<Rightarrow> pystr" where
  "action_key iv signature = lit ''investigation:'' @ iv_investigation_id iv @ lit '':action:'' @ signature @ lit '':attempt:1''"

text \<open>A call whose result cannot be replayed is counted before it is made.\<close>

definition count_call :: "IEnv \<Rightarrow> pystr \<Rightarrow> pystr \<Rightarrow> Investigation \<Rightarrow> Investigation im" where
  "count_call env actor key iv =
     bindM (readM (\<lambda>w. evidence_replay w actor key)) (\<lambda>replay.
       if replay = None then saveI env (iv\<lparr>iv_tool_call_count := iv_tool_call_count iv + 1\<rparr>) else returnM iv)"

definition after_execution :: "IEnv \<Rightarrow> Investigation \<Rightarrow> ProposedAction \<Rightarrow> pystr \<Rightarrow> Investigation \<Rightarrow> iexn + RepositoryToolExecution \<Rightarrow> Investigation im" where
  "after_execution env before p signature iv r =
     (case r of
        Inl e \<Rightarrow> thenM (stepI env iv ''EXECUTE_TOOL'' ''FAILED'' [35843, 26597, 24037, 20855, 35843, 29992, 26410, 33021, 23433, 20840, 23436, 25104] []) (fruitless env iv)
      | Inr x \<Rightarrow> conclude_round env before p signature iv x)"

definition perform_action :: "IEnv \<Rightarrow> pystr \<Rightarrow> Investigation \<Rightarrow> ProposedAction \<Rightarrow> ToolAction \<Rightarrow> Investigation im" where
  "perform_action env actor iv p a =
     (let signature = action_signature (ie_sha256 env) a; key = action_key iv signature in
      if signature \<in> set (iv_completed_action_signatures iv) then
        thenM (stepI env iv ''VALIDATE_ACTION'' ''BLOCKED'' [37325, 22797, 35843, 26597, 21160, 20316, 24050, 34987, 25298, 32477] [(lit ''action_signature'', JStr signature)])
          (fruitless env iv)
      else
        thenM (stepI env iv ''SELECT_NEXT_ACTION'' ''SUCCEEDED'' (pa_purpose p)
                 [(lit ''tool_id'', JStr (pa_tool_id p)), (lit ''target_coverage'', JList (map JStr (pa_target_coverage p))),
                  (lit ''action_signature'', JStr signature)])
       (bindM (count_call env actor key iv) (\<lambda>iv'.
        bindM (tryI (execute_tool env actor key iv' a)) (after_execution env iv p signature iv'))))"

definition end_selection :: "IEnv \<Rightarrow> pystr \<Rightarrow> Selection \<Rightarrow> Investigation im" where
  "end_selection env actor sel =
     (case sel of
        Selected iv p a \<Rightarrow> perform_action env actor iv p a
      | OutOfTokens iv \<Rightarrow> returnM iv
      | Rejected iv \<Rightarrow> reject_round env iv
      | ModelDown iv code retryable \<Rightarrow>
          thenM (stepI env iv ''CALL_MODEL'' ''FAILED'' [27169, 22411, 26381, 21153, 26410, 33021, 36820, 22238, 35843, 26597, 21160, 20316] [(lit ''error_code'', JStr code), (lit ''retryable'', JBool retryable)])
         (bindM (finishI env iv SR_UNRECOVERABLE_ERROR) (\<lambda>_. raiseM (ModelApiError code retryable))))"

definition replan_step :: "IEnv \<Rightarrow> Investigation \<Rightarrow> (bool \<times> Investigation) im" where
  "replan_step env iv =
     (if iv_no_progress_rounds iv > 0 \<and> iv_replan_count iv < ib_max_replans (iv_budget iv) then
        bindM (saveI env (iv\<lparr>iv_replan_count := iv_replan_count iv + 1\<rparr>)) (\<lambda>iv.
        thenM (stepI env iv ''REPLAN'' ''SUCCEEDED'' [24050, 25191, 34892, 19968, 27425, 35843, 26597, 37325, 35268, 21010] []) (returnM (True, iv)))
      else returnM (False, iv))"

definition investigate_gap :: "IEnv \<Rightarrow> pystr \<Rightarrow> Investigation \<Rightarrow> Investigation im" where
  "investigate_gap env actor iv =
     (let gap = next_gap (iv_coverage iv) in
      bindM (saveI env (iv\<lparr>iv_iteration_count := iv_iteration_count iv + 1\<rparr>)) (\<lambda>iv.
      thenM (stepI env iv ''ASSESS_GAPS'' ''SUCCEEDED'' ([24403, 21069, 20248, 20808, 35843, 26597, 32570, 21475, 65306] @ (case gap of None \<Rightarrow> [26080] | Some g \<Rightarrow> if g = [] then [26080] else g))
               [(lit ''gap'', opt_str gap)])
     (bindM (replan_step env iv) (\<lambda>(replan, iv).
      bindM (selector_payload env iv gap) (\<lambda>payload.
      bindM (selection env iv replan payload) (end_selection env actor))))))"

definition investigate_round :: "IEnv \<Rightarrow> pystr \<Rightarrow> Investigation \<Rightarrow> Investigation im" where
  "investigate_round env actor iv =
     (if coverage_complete (iv_coverage iv) then finishI env iv SR_COVERAGE_COMPLETE
      else
        (case pre_action_stop iv of
           Some reason \<Rightarrow> finishI env iv reason
         | None \<Rightarrow> investigate_gap env actor iv))"

section \<open>The loop\<close>

text \<open>
  \<open>while status == RUNNING\<close>, with fuel. Every round that does not end the investigation counts an
  iteration, so one more round than iterations are left is enough.
\<close>

fun rounds :: "IEnv \<Rightarrow> pystr \<Rightarrow> nat \<Rightarrow> Investigation \<Rightarrow> Investigation im" where
  "rounds env actor fuel iv =
     (if iv_status iv \<noteq> IS_RUNNING then returnM iv
      else (case fuel of 0 \<Rightarrow> raiseM RoundsExhausted | Suc n \<Rightarrow> bindM (investigate_round env actor iv) (rounds env actor n)))"

declare rounds.simps [simp del]

definition rounds_needed :: "Investigation \<Rightarrow> nat" where
  "rounds_needed iv = nat (ib_max_iterations (iv_budget iv) - iv_iteration_count iv) + 1"

definition run_running :: "IEnv \<Rightarrow> pystr \<Rightarrow> Investigation \<Rightarrow> InvestigationResult im" where
  "run_running env actor iv = bindM (rounds env actor (rounds_needed iv) iv) (\<lambda>iv. returnM (investigation_result iv))"

definition run_investigation :: "IEnv \<Rightarrow> pystr \<Rightarrow> pystr \<Rightarrow> InvestigationResult im" where
  "run_investigation env actor iid =
     bindM (get_investigation iid) (\<lambda>iv.
       if iv_status iv = IS_PLANNED then
         bindM (saveI env (iv\<lparr>iv_status := IS_RUNNING\<rparr>)) (\<lambda>iv.
         thenM (stepI env iv ''START'' ''SUCCEEDED'' [35843, 26597, 24050, 24320, 22987] []) (run_running env actor iv))
       else if iv_status iv \<noteq> IS_RUNNING then returnM (investigation_result iv)
       else run_running env actor iv)"

definition cancel_investigation :: "IEnv \<Rightarrow> pystr \<Rightarrow> InvestigationResult im" where
  "cancel_investigation env iid =
     bindM (get_investigation iid) (\<lambda>iv.
     bindM (if iv_status iv = IS_PLANNED \<or> iv_status iv = IS_RUNNING then finishI env iv SR_USER_STOPPED else returnM iv) (\<lambda>iv.
       returnM (investigation_result iv)))"

section \<open>The planner of needs\<close>

text \<open>
  \<open>PlannedNeedDraft\<close>, as the model gave it and its fields were checked. The text of the context and
  its hash are arguments.
\<close>

record PlannedNeedDraft =
  pd_question :: pystr
  pd_suggested_requiredness :: Requiredness
  pd_need_kind :: pystr
  pd_source_types :: "pystr list"
  pd_suggested_coverage :: "pystr list"
  pd_fallback :: pystr
  pd_public_reason :: pystr

definition plan_information_need ::
  "IEnv \<Rightarrow> PlannedNeedDraft \<Rightarrow> pystr \<Rightarrow> pystr \<Rightarrow> pystr \<Rightarrow> pystr option \<Rightarrow> pystr option \<Rightarrow> pystr option \<Rightarrow> InformationNeed im" where
  "plan_information_need env draft context_text context_hash stage task run unit =
     (let requiredness = decide_requiredness (pd_suggested_requiredness draft) context_text;
          suggested = fromkeys (pd_suggested_coverage draft);
          coverage = (if requiredness = RQ_NONE then []
            else if suggested \<noteq> [] then suggested else dict_get_or COVERAGE_TEMPLATES (pd_need_kind draft) []);
          sources = (if requiredness = RQ_NONE then []
            else if pd_source_types draft \<noteq> [] then pd_source_types draft else [lit ''CODE'']) in
      bindM (uuidI env ''need-'') (\<lambda>nid.
      bindM (clockI env) (\<lambda>t.
      thenM (checkM (pd_question draft \<noteq> [] \<and> length (pd_question draft) \<le> 1000 \<and> stage \<noteq> [] \<and> pd_fallback draft \<noteq> [] \<and> context_hash \<noteq> [])
               (IExn (ValidationError ''InformationNeed'')))
        (liftI (validate_required_coverage
           \<lparr>in_information_need_id = nid, in_question = pd_question draft, in_requiredness = requiredness, in_source_types = sources,
            in_required_coverage = coverage, in_trigger_stage = stage, in_fallback = pd_fallback draft, in_status = NS_PLANNED,
            in_planner_version = lit ''information-need.v1'', in_context_hash = context_hash, in_task_id = task, in_run_id = run,
            in_unit_id = unit, in_created_at = t\<rparr>)))))"

section \<open>The application service\<close>

definition plan_need ::
  "IEnv \<Rightarrow> PlannedNeedDraft \<Rightarrow> pystr \<Rightarrow> pystr \<Rightarrow> pystr \<Rightarrow> pystr option \<Rightarrow> pystr option \<Rightarrow> pystr option \<Rightarrow> InformationNeed im" where
  "plan_need env draft context_text context_hash stage task run unit =
     bindM (plan_information_need env draft context_text context_hash stage task run unit) (\<lambda>need. thenM (save_need need) (returnM need))"

definition new_investigation :: "IEnv \<Rightarrow> InformationNeed \<Rightarrow> pystr \<Rightarrow> pystr \<Rightarrow> InvestigationBudget \<Rightarrow> Investigation im" where
  "new_investigation env need repo sha budget =
     bindM (uuidI env ''investigation-'') (\<lambda>iid.
     thenM (checkM (list_all (\<lambda>k. k \<noteq> []) (in_required_coverage need)) (IExn (ValidationError ''CoverageItem'')))
    (bindM (clockI env) (\<lambda>t.
     bindM (clockI env) (\<lambda>t'.
     thenM (checkM (in_information_need_id need \<noteq> [] \<and> repo \<noteq> [] \<and> valid_sha sha) (IExn (ValidationError ''Investigation'')))
       (returnM
          \<lparr>iv_investigation_id = iid, iv_information_need_id = in_information_need_id need, iv_repository_id = repo, iv_resolved_commit_sha = sha,
           iv_status = IS_PLANNED, iv_coverage = build_coverage (in_required_coverage need), iv_budget = budget, iv_iteration_count = 0,
           iv_tool_call_count = 0, iv_replan_count = 0, iv_no_progress_rounds = 0, iv_token_usage = 0, iv_completed_action_signatures = [],
           iv_evidence_ids = [], iv_fact_ids = [], iv_unknown_ids = [], iv_conflict_ids = [], iv_stop_reason = None,
           iv_policy_version = lit ''investigation.v1+''
             @ take 12 (drop 7 (sha256_json (ie_sha256 env) (JList (map JStr (in_required_coverage need))))),
           iv_version = 1, iv_task_id = in_task_id need, iv_run_id = in_run_id need, iv_unit_id = in_unit_id need, iv_created_at = t,
           iv_updated_at = t'\<rparr>)))))"

definition open_investigation :: "IEnv \<Rightarrow> InformationNeed \<Rightarrow> pystr \<Rightarrow> pystr \<Rightarrow> InvestigationBudget option \<Rightarrow> Investigation option im" where
  "open_investigation env need repo sha budget =
     thenM (save_need need)
       (if in_requiredness need = RQ_NONE then thenM (save_need (need\<lparr>in_status := NS_SKIPPED\<rparr>)) (returnM None)
        else
          thenM (checkM (in_required_coverage need \<noteq> []) (IExn (ValueError ''investigation requires at least one coverage item'')))
         (bindM (new_investigation env need repo sha (case budget of None \<Rightarrow> default_budget | Some b \<Rightarrow> b)) (\<lambda>iv.
          thenM (create_investigation iv)
         (thenM (save_need (need\<lparr>in_status := NS_INVESTIGATING\<rparr>)) (returnM (Some iv))))))"

definition run_service :: "IEnv \<Rightarrow> pystr \<Rightarrow> pystr \<Rightarrow> InvestigationResult im" where
  "run_service env actor iid =
     bindM (run_investigation env actor iid) (\<lambda>res.
     bindM (get_investigation iid) (\<lambda>iv.
     bindM (get_need (iv_information_need_id iv)) (\<lambda>need.
     thenM (save_need (need\<lparr>in_status := (if ir_status res = IS_COMPLETE then NS_SATISFIED else NS_UNSATISFIED)\<rparr>)) (returnM res))))"

text \<open>\<open>context\<close>: the identifiers a call of the workflow's model may see.\<close>

record ContextSummary =
  ix_investigation_id :: pystr
  ix_status :: string
  ix_stop_reason :: "string option"
  ix_coverage :: "(pystr \<times> string) list"
  ix_fact_ids :: "pystr list"
  ix_unknown_ids :: "pystr list"
  ix_conflict_ids :: "pystr list"
  ix_evidence_ids :: "pystr list"

definition investigation_context :: "pystr \<Rightarrow> ContextSummary im" where
  "investigation_context iid =
     bindM (get_investigation iid) (\<lambda>iv.
       returnM
         \<lparr>ix_investigation_id = iv_investigation_id iv, ix_status = investigation_status_value (iv_status iv),
          ix_stop_reason = map_option stop_value (iv_stop_reason iv), ix_coverage = map (\<lambda>(k, item). (k, coverage_value (ci_status item))) (iv_coverage iv),
          ix_fact_ids = iv_fact_ids iv, ix_unknown_ids = iv_unknown_ids iv, ix_conflict_ids = iv_conflict_ids iv, ix_evidence_ids = iv_evidence_ids iv\<rparr>)"

text \<open>\<open>InvestigationReadService.for_task\<close>.\<close>

record InvestigationTrace =
  it_investigation :: Investigation
  it_need :: InformationNeed
  it_steps :: "InvestigationStep list"
  it_executions :: "RepositoryToolExecution list"

fun traces :: "Investigation list \<Rightarrow> InvestigationTrace list im" where
  "traces [] = returnM []"
| "traces (iv # rest) =
     bindM (get_need (iv_information_need_id iv)) (\<lambda>need.
     bindM (readM (\<lambda>w. (executions_for_investigation w (iv_investigation_id iv), steps_of w (iv_investigation_id iv)))) (\<lambda>(xs, steps).
     bindM (liftI xs) (\<lambda>executions.
     bindM (traces rest) (\<lambda>later.
       returnM (\<lparr>it_investigation = iv, it_need = need, it_steps = steps, it_executions = executions\<rparr> # later)))))"

definition for_task :: "pystr \<Rightarrow> InvestigationTrace list im" where
  "for_task tid = bindM (readM (\<lambda>w. investigations_for_task w tid)) traces"

end
