(* ===== verification/Investigation_Bounds.thy ===== *)
theory Investigation_Bounds
  imports Investigation_Runner
begin

text \<open>
  The bounded loop of an investigation ends within its budget, whatever the model proposes and the
  tools return, and coverage is claimed only with evidence.
\<close>

section \<open>Symbolic execution\<close>

lemma wp_readI [wp_rules]: "wp (readM f) Q E s = Q (f s) s"
  by (simp add: wp_def readM_def)

lemma wp_modifyI [wp_rules]: "wp (modifyM f) Q E s = Q () (f s)"
  by (simp add: wp_def modifyM_def)

lemma wp_clockI [wp_rules]: "wp (clockI env) Q E w = Q (ie_clock env (iw_ticks w)) (w\<lparr>iw_ticks := iw_ticks w + 1\<rparr>)"
  by (simp add: wp_def clockI_def)

lemma wp_uuidI [wp_rules]: "wp (uuidI env p) Q E w = Q (lit p @ ie_uuid env (iw_uuids w)) (w\<lparr>iw_uuids := iw_uuids w + 1\<rparr>)"
  by (simp add: wp_def uuidI_def)

lemma wp_liftI [wp_rules]: "wp (liftI r) Q E w = (case r of Inl e \<Rightarrow> E (IExn e) w | Inr x \<Rightarrow> Q x w)"
  by (simp add: wp_def liftI_def split: sum.split)

lemma wp_tryI [wp_rules]: "wp (tryI m) Q E w = wp m (\<lambda>x. Q (Inr x)) (\<lambda>e. Q (Inl e)) w"
  by (simp add: wp_def tryI_def split: prod.split sum.split)

lemma wp_attemptI: "wp (attemptI iv m k) Q E w = wp m (\<lambda>x. wp (k x) Q E) (\<lambda>e. Q (failed_selection iv e)) w"
  by (simp add: attemptI_def wp_bind wp_tryI wp_return)

section \<open>What holds_version between the operations\<close>

definition steps_numbered :: "InvestigationStep list \<Rightarrow> bool" where
  "steps_numbered steps \<longleftrightarrow> map is_sequence steps = [1..<length steps + 1]"

text \<open>The store holds this version of the investigation, its numbered steps and its need.\<close>

definition held :: "IWorld \<Rightarrow> pystr \<Rightarrow> int \<Rightarrow> pystr \<Rightarrow> bool" where
  "held w iid version nid \<longleftrightarrow>
     (\<exists>iv. dict_get (st_investigations (iw_store w)) iid = Some iv \<and> iv_version iv = version)
     \<and> steps_numbered (steps_of w iid) \<and> dict_get (st_needs (iw_store w)) nid \<noteq> None"

abbreviation holds_version :: "IWorld \<Rightarrow> Investigation \<Rightarrow> bool" where
  "holds_version w iv \<equiv> held w (iv_investigation_id iv) (iv_version iv) (iv_information_need_id iv)"

definition stored_as :: "IWorld \<Rightarrow> Investigation \<Rightarrow> bool" where
  "stored_as w iv \<longleftrightarrow> dict_get (st_investigations (iw_store w)) (iv_investigation_id iv) = Some iv"

text \<open>Apart from this investigation and its steps, the store is the same.\<close>

definition apart :: "pystr \<Rightarrow> IWorld \<Rightarrow> IWorld \<Rightarrow> bool" where
  "apart iid w w' \<longleftrightarrow>
     st_needs (iw_store w') = st_needs (iw_store w)
     \<and> (\<forall>j. j \<noteq> iid \<longrightarrow>
          dict_get (st_investigations (iw_store w')) j = dict_get (st_investigations (iw_store w)) j \<and> steps_of w' j = steps_of w j)"

lemma apart_refl [simp]: "apart iid w w"
  by (simp add: apart_def)

lemma apart_trans: "apart iid w w' \<Longrightarrow> apart iid w' w'' \<Longrightarrow> apart iid w w''"
  by (simp add: apart_def)

lemma apart_store: "iw_store w' = iw_store w \<Longrightarrow> apart iid w0 w' = apart iid w0 w"
  by (simp add: apart_def steps_of_def)

text \<open>What saving and steps leave alone.\<close>

definition evidence_kept :: "IWorld \<Rightarrow> IWorld \<Rightarrow> bool" where
  "evidence_kept w w' \<longleftrightarrow> iw_evidence w' = iw_evidence w \<and> iw_tool_log w' = iw_tool_log w"

lemma evidence_kept_refl [simp]: "evidence_kept w w"
  by (simp add: evidence_kept_def)

lemma evidence_kept_trans: "evidence_kept w w' \<Longrightarrow> evidence_kept w' w'' \<Longrightarrow> evidence_kept w w''"
  by (simp add: evidence_kept_def)

lemma wp_saveI:
  assumes "holds_version w iv"
    and "\<And>u w'. u = iv\<lparr>iv_version := iv_version iv + 1, iv_updated_at := iv_updated_at u\<rparr> \<Longrightarrow> holds_version w' u \<Longrightarrow> stored_as w' u \<Longrightarrow> evidence_kept w w' \<Longrightarrow>
      apart (iv_investigation_id iv) w w' \<Longrightarrow> Q u w'"
  shows "wp (saveI env iv) Q E w"
proof -
  obtain iv0 where iv0: "dict_get (st_investigations (iw_store w)) (iv_investigation_id iv) = Some iv0" "iv_version iv0 = iv_version iv"
    using assms(1) by (auto simp: held_def)
  let ?u = "iv\<lparr>iv_version := iv_version iv + 1, iv_updated_at := ie_clock env (iw_ticks w)\<rparr>"
  let ?w = "put_investigation ?u (w\<lparr>iw_ticks := iw_ticks w + 1\<rparr>)"
  have "Q ?u ?w"
    by (rule assms(2)) (use assms(1) in \<open>auto simp: held_def stored_as_def evidence_kept_def apart_def put_investigation_def steps_of_def\<close>)
  then show ?thesis
    by (simp add: saveI_def wp_rules Let_def) (simp add: wp_def save_investigation_def iv0)
qed

lemma steps_snoc: "steps_numbered steps \<Longrightarrow> is_sequence s = length steps + 1 \<Longrightarrow> steps_numbered (steps @ [s])"
  by (simp add: steps_numbered_def)

lemma steps_bound:
  assumes "steps_numbered steps" "x \<in> set steps"
  shows "is_sequence x \<le> length steps"
proof -
  have "is_sequence x \<in> set (map is_sequence steps)" using assms(2) by simp
  then show ?thesis using assms(1) by (simp only: steps_numbered_def) auto
qed

lemma wp_append_step:
  assumes "held w iid version nid" "is_investigation_id s = iid" "is_sequence s = length (steps_of w iid) + 1"
    and "\<And>w'. held w' iid version nid \<Longrightarrow> st_investigations (iw_store w') = st_investigations (iw_store w) \<Longrightarrow> evidence_kept w w' \<Longrightarrow>
      apart iid w w' \<Longrightarrow> Q () w'"
  shows "wp (append_step s) Q E w"
proof -
  let ?steps = "steps_of w iid"
  have n: "steps_numbered ?steps" using assms(1) by (simp add: held_def)
  have fresh: "\<not> list_ex (\<lambda>x. is_sequence x = is_sequence s) ?steps"
    using steps_bound [OF n] assms(3) by (force simp: list_ex_iff)
  let ?w = "w\<lparr>iw_store := (iw_store w)\<lparr>st_steps := dict_set iid (?steps @ [s]) (st_steps (iw_store w))\<rparr>\<rparr>"
  have "steps_of ?w iid = ?steps @ [s]" by (simp add: steps_of_def)
  then have "Q () ?w" using assms(1) steps_snoc [OF n assms(3)] by (intro assms(4)) (simp_all add: held_def evidence_kept_def apart_def steps_of_def dict_get_or_def)
  with fresh assms(2) show ?thesis by (simp add: wp_def append_step_def Let_def)
qed

lemma held_counters [simp]: "held (w\<lparr>iw_uuids := a\<rparr>) iid v nid = held w iid v nid" "held (w\<lparr>iw_ticks := b\<rparr>) iid v nid = held w iid v nid"
  by (simp_all add: held_def steps_of_def)

lemma wp_stepI:
  assumes "holds_version w iv"
    and "\<And>w'. holds_version w' iv \<Longrightarrow> (stored_as w iv \<Longrightarrow> stored_as w' iv) \<Longrightarrow> evidence_kept w w' \<Longrightarrow>
      apart (iv_investigation_id iv) w w' \<Longrightarrow> Q () w'"
  shows "wp (stepI env iv ty status summary output) Q E w"
  unfolding stepI_def wp_rules
  by (rule wp_append_step [where iid = "iv_investigation_id iv" and version = "iv_version iv" and nid = "iv_information_need_id iv"])
     (use assms(1) in \<open>auto simp: steps_of_def stored_as_def evidence_kept_def apart_def intro!: assms(2)\<close>)

section \<open>The invariant\<close>

text \<open>Counts within the budget.\<close>

definition within_budget :: "Investigation \<Rightarrow> bool" where
  "within_budget iv \<longleftrightarrow>
     iv_iteration_count iv \<le> ib_max_iterations (iv_budget iv) \<and> iv_tool_call_count iv \<le> ib_max_tool_calls (iv_budget iv)
     \<and> iv_replan_count iv \<le> ib_max_replans (iv_budget iv)"

text \<open>Every item is required. A covered item has evidence, which is among the evidence of the investigation.\<close>

definition backed_item :: "pystr list \<Rightarrow> CoverageItem \<Rightarrow> bool" where
  "backed_item evidence item \<longleftrightarrow>
     ci_status item \<noteq> CV_NOT_REQUIRED \<and> (ci_status item = CV_COVERED \<longrightarrow> ci_evidence_ids item \<noteq> []) \<and> set (ci_evidence_ids item) \<subseteq> set evidence"

definition backed_coverage :: "pystr list \<Rightarrow> (pystr, CoverageItem) dict \<Rightarrow> bool" where
  "backed_coverage evidence coverage \<longleftrightarrow> (\<forall>k item. dict_get coverage k = Some item \<longrightarrow> backed_item evidence item)"

text \<open>No tool was run twice under a key, and what was run can be replayed.\<close>

definition logged :: "IWorld \<Rightarrow> bool" where
  "logged w \<longleftrightarrow> distinct (iw_tool_log w) \<and> (\<forall>k \<in> set (iw_tool_log w). dict_get (ev_replays (iw_evidence w)) k \<noteq> None)"

definition sane :: "Investigation \<Rightarrow> bool" where
  "sane iv \<longleftrightarrow> within_budget iv \<and> backed_coverage (iv_evidence_ids iv) (iv_coverage iv)"

text \<open>
  Where the runner started: the world, and the number of tools that were run before and that its
  investigation does not count.
\<close>

type_synonym origin = "IWorld \<times> int"

text \<open>The investigation at hand is the stored one, its runs are counted, and the others are as they were.\<close>

definition fine :: "origin \<Rightarrow> IWorld \<Rightarrow> Investigation \<Rightarrow> bool" where
  "fine b w iv \<longleftrightarrow> holds_version w iv \<and> stored_as w iv \<and> sane iv \<and> logged w \<and> apart (iv_investigation_id iv) (fst b) w
     \<and> int (length (iw_tool_log w)) \<le> snd b + iv_tool_call_count iv"

text \<open>The state before a save: everything but being stored, for the investigation that is about to be.\<close>

definition save_ready :: "origin \<Rightarrow> IWorld \<Rightarrow> Investigation \<Rightarrow> bool" where
  "save_ready b w iv \<longleftrightarrow> holds_version w iv \<and> sane iv \<and> logged w \<and> apart (iv_investigation_id iv) (fst b) w
     \<and> int (length (iw_tool_log w)) \<le> snd b + iv_tool_call_count iv"

lemma fine_save_ready: "fine b w iv \<Longrightarrow> save_ready b w iv"
  by (simp add: fine_def save_ready_def)

lemma sane_version [simp]: "sane (iv\<lparr>iv_version := v, iv_updated_at := t\<rparr>) = sane iv"
  by (simp add: sane_def within_budget_def)

lemma logged_kept: "evidence_kept w w' \<Longrightarrow> logged w \<Longrightarrow> logged w'"
  by (simp add: evidence_kept_def logged_def)

text \<open>The identity of an investigation, which the runner never changes.\<close>

definition same_identity :: "Investigation \<Rightarrow> Investigation \<Rightarrow> bool" where
  "same_identity iv iv' \<longleftrightarrow>
     iv_investigation_id iv' = iv_investigation_id iv \<and> iv_information_need_id iv' = iv_information_need_id iv \<and> iv_budget iv' = iv_budget iv
     \<and> dict_keys (iv_coverage iv') = dict_keys (iv_coverage iv)"

lemma same_identity_refl [simp]: "same_identity iv iv"
  by (simp add: same_identity_def)

lemma same_identity_trans: "same_identity a b \<Longrightarrow> same_identity b c \<Longrightarrow> same_identity a c"
  by (simp add: same_identity_def)

lemma save_fine:
  assumes "save_ready b w iv"
    and "\<And>u w'. u = iv\<lparr>iv_version := iv_version iv + 1, iv_updated_at := iv_updated_at u\<rparr> \<Longrightarrow> fine b w' u \<Longrightarrow> evidence_kept w w' \<Longrightarrow> Q u w'"
  shows "wp (saveI env iv) Q E w"
proof (rule wp_saveI)
  show "holds_version w iv" using assms(1) by (simp add: save_ready_def)
next
  fix u w' assume u: "u = iv\<lparr>iv_version := iv_version iv + 1, iv_updated_at := iv_updated_at u\<rparr>"
    and w: "holds_version w' u" "stored_as w' u" "evidence_kept w w'" "apart (iv_investigation_id iv) w w'"
  have "iv_investigation_id u = iv_investigation_id iv" by (subst u) simp
  then have "apart (iv_investigation_id u) (fst b) w'" using assms(1) w(4) apart_trans by (simp add: save_ready_def) blast
  moreover have "sane u" using assms(1) by (subst u) (simp add: save_ready_def)
  moreover have "iv_tool_call_count u = iv_tool_call_count iv" by (subst u) simp
  moreover have "iw_tool_log w' = iw_tool_log w" using w(3) by (simp add: evidence_kept_def)
  ultimately have "fine b w' u" using assms(1) w logged_kept by (auto simp: fine_def save_ready_def)
  then show "Q u w'" by (rule assms(2) [OF u _ w(3)])
qed

lemma step_fine:
  assumes "fine b w iv" and "\<And>w'. fine b w' iv \<Longrightarrow> evidence_kept w w' \<Longrightarrow> Q () w'"
  shows "wp (stepI env iv ty status summary output) Q E w"
  by (rule wp_stepI)
     (use assms apart_trans in \<open>auto simp: fine_def logged_def evidence_kept_def\<close>)

text \<open>An investigation that is over.\<close>

definition over :: "Investigation \<Rightarrow> bool" where
  "over iv \<longleftrightarrow>
     iv_status iv \<noteq> IS_PLANNED \<and> iv_status iv \<noteq> IS_RUNNING \<and> iv_stop_reason iv \<noteq> None
     \<and> (iv_status iv = IS_COMPLETE \<longleftrightarrow> iv_stop_reason iv = Some SR_COVERAGE_COMPLETE)
     \<and> (iv_status iv = IS_COMPLETE \<longrightarrow> coverage_complete (iv_coverage iv))"

text \<open>Its status tells exactly whether the coverage is complete.\<close>

definition decided :: "Investigation \<Rightarrow> bool" where
  "decided iv \<longleftrightarrow> (iv_status iv = IS_COMPLETE \<longleftrightarrow> coverage_complete (iv_coverage iv))"

lemma finish_fine:
  assumes "fine b w iv" "reason = SR_COVERAGE_COMPLETE \<longrightarrow> coverage_complete (iv_coverage iv)"
    and "\<And>iv' w'. fine b w' iv' \<Longrightarrow> evidence_kept w w' \<Longrightarrow> over iv' \<Longrightarrow> same_identity iv iv' \<Longrightarrow> iv_status iv' = terminal_status iv reason
      \<Longrightarrow> (reason = SR_COVERAGE_COMPLETE \<longleftrightarrow> coverage_complete (iv_coverage iv)) \<longrightarrow> decided iv' \<Longrightarrow> Q iv' w'"
  shows "wp (finishI env iv reason) Q E w"
proof -
  let ?iv = "iv\<lparr>iv_status := terminal_status iv reason, iv_stop_reason := Some reason\<rparr>"
  have r: "save_ready b w ?iv" using assms(1) by (simp add: fine_def save_ready_def sane_def within_budget_def)
  have o: "over ?iv" using assms(2) by (auto simp: over_def terminal_status_def)
  show ?thesis
    unfolding finishI_def Let_def wp_bind
  proof (rule save_fine [OF r], goal_cases)
    case (1 u w1)
    have u: "over u" "same_identity iv u" "iv_status u = terminal_status iv reason" "iv_coverage u = iv_coverage iv"
      using o by (subst 1(1); simp add: over_def same_identity_def)+
    moreover have "terminal_status iv reason = IS_COMPLETE \<longleftrightarrow> reason = SR_COVERAGE_COMPLETE" by (simp add: terminal_status_def)
    ultimately have d: "(reason = SR_COVERAGE_COMPLETE \<longleftrightarrow> coverage_complete (iv_coverage iv)) \<longrightarrow> decided u"
      by (simp add: decided_def)
    show ?case
      unfolding wp_then wp_return
      by (rule step_fine [OF 1(2)], rule assms(3) [OF _ _ u(1-3) d]) (use 1(3) evidence_kept_trans in blast)+
  qed
qed

text \<open>What only concerns the model leaves the investigation alone.\<close>

definition unmoved :: "IWorld \<Rightarrow> IWorld \<Rightarrow> bool" where
  "unmoved w w' \<longleftrightarrow> iw_store w' = iw_store w \<and> evidence_kept w w'"

lemma unmoved_refl [simp]: "unmoved w w"
  by (simp add: unmoved_def)

lemma unmoved_trans: "unmoved w w' \<Longrightarrow> unmoved w' w'' \<Longrightarrow> unmoved w w''"
  by (simp add: unmoved_def evidence_kept_def)

lemma fine_unmoved: "unmoved w w' \<Longrightarrow> fine b w iv \<Longrightarrow> fine b w' iv"
  by (simp add: unmoved_def evidence_kept_def fine_def held_def stored_as_def apart_store [of w' w] logged_def steps_of_def)

section \<open>The parts of a round\<close>

text \<open>In the middle of a round that began as \<open>iv0\<close>.\<close>

definition going :: "origin \<Rightarrow> Investigation \<Rightarrow> IWorld \<Rightarrow> Investigation \<Rightarrow> bool" where
  "going b iv0 w iv \<longleftrightarrow>
     fine b w iv \<and> same_identity iv0 iv \<and> iv_status iv = IS_RUNNING \<and> iv_iteration_count iv = iv_iteration_count iv0
     \<and> iv_tool_call_count iv < ib_max_tool_calls (iv_budget iv) \<and> \<not> coverage_complete (iv_coverage iv)"

text \<open>The round is done: it is the end, or the investigation goes on.\<close>

definition advanced :: "origin \<Rightarrow> Investigation \<Rightarrow> Investigation \<Rightarrow> IWorld \<Rightarrow> bool" where
  "advanced b iv0 iv w \<longleftrightarrow>
     fine b w iv \<and> same_identity iv0 iv \<and> (over iv \<and> decided iv \<or> iv_status iv = IS_RUNNING \<and> iv_iteration_count iv = iv_iteration_count iv0)"

text \<open>The only exception of a round is that of the model service, and the investigation has failed.\<close>

definition model_failed :: "origin \<Rightarrow> Investigation \<Rightarrow> iexn \<Rightarrow> IWorld \<Rightarrow> bool" where
  "model_failed b iv0 e w \<longleftrightarrow>
     (\<exists>code retryable. e = ModelApiError code retryable) \<and> (\<exists>iv. fine b w iv \<and> same_identity iv0 iv \<and> over iv \<and> decided iv \<and> iv_status iv = IS_FAILED)"

abbreviation round_wp :: "origin \<Rightarrow> Investigation \<Rightarrow> Investigation im \<Rightarrow> IWorld \<Rightarrow> bool" where
  "round_wp b iv0 m w \<equiv> wp m (advanced b iv0) (model_failed b iv0) w"

lemma goingD:
  assumes "going b iv0 w iv"
  shows "fine b w iv" "same_identity iv0 iv" "iv_status iv = IS_RUNNING" "iv_iteration_count iv = iv_iteration_count iv0"
    "iv_tool_call_count iv < ib_max_tool_calls (iv_budget iv)" "\<not> coverage_complete (iv_coverage iv)"
  using assms by (simp_all add: going_def)

lemma finish_round:
  assumes "fine b w iv" "same_identity iv0 iv" "reason = SR_COVERAGE_COMPLETE \<longleftrightarrow> coverage_complete (iv_coverage iv)"
  shows "round_wp b iv0 (finishI env iv reason) w"
  by (rule finish_fine [OF assms(1)]) (use assms(2,3) same_identity_trans in \<open>auto simp: advanced_def\<close>)

lemma fine_update:
  assumes "fine b w iv" "iv_investigation_id iv' = iv_investigation_id iv" "iv_version iv' = iv_version iv"
    "iv_information_need_id iv' = iv_information_need_id iv" "sane iv'" "iv_tool_call_count iv \<le> iv_tool_call_count iv'"
  shows "save_ready b w iv'"
  using assms by (simp add: fine_def save_ready_def)

text \<open>Saving a count that the budget does not bound.\<close>

lemma tokens_sane [simp]: "sane (iv\<lparr>iv_token_usage := n\<rparr>) = sane iv" "sane (iv\<lparr>iv_no_progress_rounds := n\<rparr>) = sane iv"
  by (simp_all add: sane_def within_budget_def)

lemma fruitless_round:
  assumes "fine b w iv" "same_identity iv0 iv" "iv_status iv = IS_RUNNING" "iv_iteration_count iv = iv_iteration_count iv0"
    "\<not> coverage_complete (iv_coverage iv)"
  shows "round_wp b iv0 (fruitless env iv) w"
proof -
  have r: "save_ready b w (iv\<lparr>iv_no_progress_rounds := iv_no_progress_rounds iv + 1\<rparr>)"
    by (rule fine_update [OF assms(1)]) (use assms(1) in \<open>simp_all add: fine_def\<close>)
  show ?thesis
    unfolding fruitless_def record_no_progress_def wp_bind
  proof (rule save_fine [OF r], goal_cases)
    case (1 u w1)
    have u: "same_identity iv0 u" "iv_status u = IS_RUNNING" "iv_iteration_count u = iv_iteration_count iv0" "\<not> coverage_complete (iv_coverage u)"
      using assms(2-5) by (subst 1(1); simp add: same_identity_def)+
    show ?case using finish_round [OF 1(2) u(1)] u 1(2) by (simp add: wp_If wp_return advanced_def)
  qed
qed

lemma charge_going:
  assumes "going b iv0 w iv" "\<And>iv' w'. going b iv0 w' iv' \<Longrightarrow> Q iv' w'"
  shows "wp (charge_tokens env iv) Q E w"
proof -
  note g = goingD [OF assms(1)]
  have r: "save_ready b w (iv\<lparr>iv_token_usage := iv_token_usage iv + n\<rparr>)" for n
    by (rule fine_update [OF g(1)]) (use g(1) in \<open>simp_all add: fine_def\<close>)
  have saved: "wp (saveI env (iv\<lparr>iv_token_usage := iv_token_usage iv + n\<rparr>))
      (\<lambda>u w'. wp (modifyM (\<lambda>w. w\<lparr>iw_last_token_usage := 0\<rparr>)) (\<lambda>_. Q u) E w') E w" for n
  proof (rule save_fine [OF r], goal_cases)
    case (1 u w1)
    have "same_identity iv0 u" "iv_status u = IS_RUNNING" "iv_iteration_count u = iv_iteration_count iv0"
        "iv_tool_call_count u < ib_max_tool_calls (iv_budget u)" "\<not> coverage_complete (iv_coverage u)"
      using g(2-6) by (subst 1(1); simp add: same_identity_def)+
    moreover have "fine b (w1\<lparr>iw_last_token_usage := 0\<rparr>) u"
      by (rule fine_unmoved [OF _ 1(2)]) (simp add: unmoved_def evidence_kept_def)
    ultimately show ?case unfolding wp_modifyI by (intro assms(2)) (simp add: going_def)
  qed
  show ?thesis
    using saved assms by (simp add: charge_tokens_def wp_bind wp_readI wp_If wp_return wp_then)
qed

lemma reject_going:
  assumes "going b iv0 w iv"
  shows "round_wp b iv0 (reject_round env iv) w"
  unfolding reject_round_def wp_bind
proof (rule charge_going [OF assms], goal_cases)
  case (1 iv1 w1)
  show ?case
    unfolding wp_then
  proof (rule step_fine [OF goingD(1) [OF 1]], goal_cases)
    case (1 w2)
    note g = goingD [OF \<open>going b iv0 w1 iv1\<close>]
    have r: "save_ready b w2 (iv1\<lparr>iv_no_progress_rounds := iv_no_progress_rounds iv1 + 1\<rparr>)"
      by (rule fine_update [OF 1(1)]) (use 1(1) in \<open>simp_all add: fine_def\<close>)
    show ?case
      unfolding record_no_progress_def wp_bind
    proof (rule save_fine [OF r], goal_cases)
      case (1 u w3)
      have u: "same_identity iv0 u" "iv_status u = IS_RUNNING" "iv_iteration_count u = iv_iteration_count iv0" "\<not> coverage_complete (iv_coverage u)"
        using g(2-4,6) by (subst 1(1); simp add: same_identity_def)+
      show ?case using finish_round [OF 1(2) u(1)] u 1(2) by (simp add: wp_If wp_return advanced_def)
    qed
  qed
qed

section \<open>Selecting an action\<close>

lemma going_unmoved: "unmoved w w' \<Longrightarrow> going b iv0 w iv \<Longrightarrow> going b iv0 w' iv"
  by (simp add: going_def fine_unmoved)

lemma wp_modelI: "wp (modelI env replan payload repair) Q E w =
    (case ie_model env (iw_model_calls w) replan payload repair of Inl e \<Rightarrow> E e (w\<lparr>iw_model_calls := iw_model_calls w + 1\<rparr>)
       | Inr res \<Rightarrow> Q res (w\<lparr>iw_model_calls := iw_model_calls w + 1\<rparr>))"
  by (simp add: wp_def modelI_def split: sum.split)

lemma select_loop_unmoved:
  assumes "\<And>w'. unmoved w0 w' \<Longrightarrow> (\<forall>p. Q p w') \<and> (\<forall>e. E e w')" "unmoved w0 w"
  shows "wp (select_loop env replan payload repairs) Q E w"
  using assms(2)
proof (induction repairs arbitrary: w)
  case Nil
  then show ?case using assms(1) by (simp add: wp_raise)
next
  case (Cons repair rest)
  have u: "unmoved w0 (w\<lparr>iw_model_calls := c, iw_last_model_result := r\<rparr>)" "unmoved w0 (w\<lparr>iw_model_calls := c\<rparr>)"
      "unmoved w0 (w\<lparr>iw_model_calls := c, iw_last_model_result := r, iw_last_token_usage := t\<rparr>)" for c r t
    using Cons.prems by (simp_all add: unmoved_def evidence_kept_def)
  show ?case
    using u assms(1)
    by (auto simp: wp_bind wp_then wp_modelI wp_modifyI wp_liftI wp_return intro!: Cons.IH split: sum.split)
qed

lemma select_action_unmoved:
  assumes "\<And>p w'. unmoved w w' \<Longrightarrow> Q p w'" "\<And>e w'. unmoved w w' \<Longrightarrow> E e w'"
  shows "wp (select_action env replan payload) Q E w"
  unfolding select_action_def by (rule select_loop_unmoved [of w]) (use assms in auto)

text \<open>How a selection ends.\<close>

definition selected_well :: "origin \<Rightarrow> Investigation \<Rightarrow> Selection \<Rightarrow> IWorld \<Rightarrow> bool" where
  "selected_well b iv0 sel w \<longleftrightarrow>
     (case sel of
        Selected iv p a \<Rightarrow> going b iv0 w iv
      | OutOfTokens iv \<Rightarrow> advanced b iv0 iv w
      | ModelDown iv code retryable \<Rightarrow> going b iv0 w iv
      | Rejected iv \<Rightarrow> going b iv0 w iv)"

lemma failed_selection_well: "going b iv0 w iv \<Longrightarrow> selected_well b iv0 (failed_selection iv e) w"
  by (cases e) (simp_all add: selected_well_def)

lemma model_step_going:
  assumes "going b iv0 w iv" "\<And>w'. going b iv0 w' iv \<Longrightarrow> Q () w'"
  shows "wp (model_step env iv) Q E w"
proof -
  have "wp (stepI env iv ty status summary out) Q E w" for ty status summary out
    by (rule step_fine [OF goingD(1) [OF assms(1)]]) (use assms in \<open>simp add: going_def\<close>)
  then show ?thesis
    using assms by (simp add: model_step_def wp_bind wp_readI wp_return split: option.split)
qed

lemma accept_well:
  assumes "going b iv0 w iv"
  shows "wp (accept_proposal env iv p) (selected_well b iv0) E w"
proof (cases "iv_token_usage iv \<ge> ib_token_budget (iv_budget iv)")
  case True
  have "wp (finishI env iv SR_TOKEN_BUDGET_EXHAUSTED) (\<lambda>iv'. selected_well b iv0 (OutOfTokens iv')) E' w" for E'
    by (rule finish_fine [OF goingD(1) [OF assms]])
       (use goingD(2,6) [OF assms] same_identity_trans in \<open>auto simp: selected_well_def advanced_def\<close>)
  then show ?thesis using True by (simp add: accept_proposal_def wp_attemptI wp_return)
next
  case False
  have "selected_well b iv0 (Selected iv p a) w" "selected_well b iv0 (Rejected iv) w" for a
    using assms by (simp_all add: selected_well_def)
  then show ?thesis
    using False failed_selection_well [OF assms]
    by (simp add: accept_proposal_def wp_attemptI wp_then wp_bind wp_return wp_check wp_liftI validate_action_def wp_raise
        split: sum.split option.split)
qed

lemma selection_well:
  assumes "going b iv0 w iv"
  shows "wp (selection env iv replan payload) (selected_well b iv0) E w"
  unfolding selection_def wp_attemptI
proof (rule select_action_unmoved, goal_cases)
  case (1 p w1)
  have "going b iv0 w1 iv" by (rule going_unmoved [OF 1 assms])
  then show ?case
  proof (rule model_step_going, goal_cases)
    case (1 w2)
    then show ?case by (rule charge_going) (rule accept_well)
  qed
next
  case (2 e w1)
  then show ?case by (intro failed_selection_well going_unmoved [OF _ assms])
qed

section \<open>Executing the action\<close>

lemma wp_runI: "wp (runI env actor key cid a tid) Q E w =
    Q (ie_tool env (length (iw_tool_log w)) cid a tid) (w\<lparr>iw_tool_log := iw_tool_log w @ [(actor, key)]\<rparr>)"
  by (simp add: wp_def runI_def)

lemma wp_snapshotI: "wp (snapshotI env a) Q E w = (case ie_snapshot env (iw_ticks w) a of Inl e \<Rightarrow> E e w | Inr s \<Rightarrow> Q s w)"
  by (simp add: wp_def snapshotI_def split: sum.split)

text \<open>The world after the tool was run, or was not.\<close>

definition executed :: "IWorld \<Rightarrow> pystr \<times> pystr \<Rightarrow> IWorld \<Rightarrow> bool" where
  "executed w k w' \<longleftrightarrow>
     iw_store w' = iw_store w \<and> (logged w \<longrightarrow> logged w')
     \<and> (iw_tool_log w' = iw_tool_log w \<or> dict_get (ev_replays (iw_evidence w)) k = None \<and> iw_tool_log w' = iw_tool_log w @ [k])"

lemma execute_new_executed:
  assumes "dict_get (ev_replays (iw_evidence w)) (actor, key) = None"
  shows "wp (execute_new env actor key iv a) (\<lambda>_. executed w (actor, key)) (\<lambda>_. executed w (actor, key)) w"
  using assms
  by (auto simp: execute_new_def validate_action_def new_call_def evidenceI_def wp_then wp_bind wp_return wp_check wp_raise wp_modifyI
      wp_uuidI wp_clockI wp_runI wp_snapshotI Let_def save_running_def complete_call_def executed_def logged_def
      split: option.split sum.split)

lemma execute_tool_executed:
  "wp (execute_tool env actor key iv a) (\<lambda>_. executed w (actor, key)) (\<lambda>_. executed w (actor, key)) w"
  using execute_new_executed [of w actor key env iv a]
  by (auto simp: execute_tool_def evidence_replay_def wp_bind wp_readI wp_then wp_check wp_return executed_def split: option.split)

lemma fine_executed:
  assumes "fine b w iv" "executed w k w'"
    "dict_get (ev_replays (iw_evidence w)) k = None \<Longrightarrow> int (length (iw_tool_log w)) + 1 \<le> snd b + iv_tool_call_count iv"
  shows "fine b w' iv"
  using assms by (auto simp: fine_def executed_def held_def stored_as_def apart_store [of w' w] steps_of_def)

section \<open>Coverage\<close>

lemma merge_ids_set [simp]: "set (merge_ids l r) = set l \<union> set r"
  by (simp add: merge_ids_def)

lemma merge_ids_Nil [simp]: "merge_ids l r = [] \<longleftrightarrow> l = [] \<and> r = []"
  by (metis merge_ids_set set_empty Un_empty)

lemma dict_set_keys: "dict_get d k \<noteq> None \<Longrightarrow> dict_keys (dict_set k v d) = dict_keys d"
  by (induction d) (auto simp: dict_keys_def dict_get_def)

lemma update_item_keys: "dict_keys (update_item iv p x coverage key) = dict_keys coverage"
  by (auto simp: update_item_def dict_set_keys split: option.split)

lemma update_coverage_keys: "dict_keys (update_coverage iv p x) = dict_keys (iv_coverage iv)"
proof -
  have "dict_keys (foldl (update_item iv p x) coverage keys) = dict_keys coverage" for coverage keys
    by (induction keys arbitrary: coverage) (simp_all add: update_item_keys)
  then show ?thesis by (simp add: update_coverage_def)
qed

lemma updated_status_backed:
  "updated_status tool key x current = CV_COVERED \<Longrightarrow> bd_evidence (te_bundle x) \<noteq> [] \<or> current = CV_COVERED"
  by (auto simp: updated_status_def Let_def split: if_splits)

lemma updated_status_required: "current \<noteq> CV_NOT_REQUIRED \<Longrightarrow> updated_status tool key x current \<noteq> CV_NOT_REQUIRED"
  by (auto simp: updated_status_def Let_def)

lemma update_item_backed:
  assumes "backed_coverage evidence coverage" "set (map evidence_id (bd_evidence (te_bundle x))) \<subseteq> set evidence"
  shows "backed_coverage evidence (update_item iv p x coverage key)"
  using assms updated_status_backed [of "pa_tool_id p" key x] updated_status_required [of _ "pa_tool_id p" key x]
  by (fastforce simp: backed_coverage_def backed_item_def update_item_def split: option.split if_splits)

lemma update_coverage_backed:
  assumes "backed_coverage (iv_evidence_ids iv) (iv_coverage iv)"
  shows "backed_coverage (merge_ids (iv_evidence_ids iv) (map evidence_id (bd_evidence (te_bundle x)))) (update_coverage iv p x)"
    (is "backed_coverage ?ev _")
proof -
  have "backed_coverage ?ev coverage \<Longrightarrow> backed_coverage ?ev (foldl (update_item iv p x) coverage keys)" for coverage keys
    by (induction keys arbitrary: coverage) (simp_all add: update_item_backed)
  moreover have "backed_coverage ?ev (iv_coverage iv)"
    using assms by (fastforce simp: backed_coverage_def backed_item_def)
  ultimately show ?thesis by (simp add: update_coverage_def)
qed

section \<open>A round\<close>

lemma conclude_going:
  assumes "fine b w iv" "same_identity iv0 iv" "iv_status iv = IS_RUNNING" "iv_iteration_count iv = iv_iteration_count iv0"
  shows "round_wp b iv0 (conclude_round env before p signature iv x) w"
proof -
  let ?iv = "execution_updates iv p x signature"
  have "sane ?iv"
    using assms(1) update_coverage_backed by (simp add: fine_def sane_def within_budget_def execution_updates_def)
  then have r: "save_ready b w ?iv"
    by (intro fine_update [OF assms(1)]) (simp_all add: execution_updates_def)
  have s: "same_identity iv0 ?iv" "iv_status ?iv = IS_RUNNING" "iv_iteration_count ?iv = iv_iteration_count iv0"
    using assms(2-4) by (simp_all add: same_identity_def execution_updates_def update_coverage_keys)
  show ?thesis
    unfolding conclude_round_def Let_def wp_bind
  proof (rule save_fine [OF r], goal_cases)
    case (1 u w1)
    have u: "same_identity iv0 u" "iv_status u = IS_RUNNING" "iv_iteration_count u = iv_iteration_count iv0"
      using s by (subst 1(1); simp add: same_identity_def)+
    have r1: "save_ready b w1 (u\<lparr>iv_no_progress_rounds := n\<rparr>)" for n
      by (rule fine_update [OF 1(2)]) (use 1(2) in \<open>simp_all add: fine_def\<close>)
    show ?case
    proof (rule save_fine [OF r1], goal_cases)
      case (1 v w2)
      have v: "same_identity iv0 v" "iv_status v = IS_RUNNING" "iv_iteration_count v = iv_iteration_count iv0"
        using u by (subst 1(1); simp add: same_identity_def)+
      show ?case
        unfolding wp_then
      proof (rule step_fine [OF 1(2)], goal_cases)
        case (1 w3)
        show ?case using finish_round [OF 1(1) v(1)] v 1(1) by (simp add: wp_If wp_return advanced_def)
      qed
    qed
  qed
qed

text \<open>A call that would run a tool is counted first.\<close>

definition counted :: "origin \<Rightarrow> Investigation \<Rightarrow> pystr \<times> pystr \<Rightarrow> Investigation \<Rightarrow> IWorld \<Rightarrow> bool" where
  "counted b iv0 k iv w \<longleftrightarrow>
     fine b w iv \<and> same_identity iv0 iv \<and> iv_status iv = IS_RUNNING \<and> iv_iteration_count iv = iv_iteration_count iv0
     \<and> \<not> coverage_complete (iv_coverage iv)
     \<and> (dict_get (ev_replays (iw_evidence w)) k = None \<longrightarrow> int (length (iw_tool_log w)) + 1 \<le> snd b + iv_tool_call_count iv)"

lemma count_going:
  assumes "going b iv0 w iv"
  shows "wp (count_call env actor key iv) (counted b iv0 (actor, key)) E w"
proof -
  note g = goingD [OF assms]
  let ?iv = "iv\<lparr>iv_tool_call_count := iv_tool_call_count iv + 1\<rparr>"
  have r: "save_ready b w ?iv"
    by (rule fine_update [OF g(1)]) (use g(1,5) in \<open>simp_all add: fine_def sane_def within_budget_def\<close>)
  have "wp (saveI env ?iv) (counted b iv0 (actor, key)) E w"
  proof (rule save_fine [OF r], goal_cases)
    case (1 u w1)
    have "same_identity iv0 u" "iv_status u = IS_RUNNING" "iv_iteration_count u = iv_iteration_count iv0"
        "iv_tool_call_count u = iv_tool_call_count iv + 1" "\<not> coverage_complete (iv_coverage u)"
      using g(2-4,6) by (subst 1(1); simp add: same_identity_def)+
    then show ?case using g(1) 1(2,3) by (simp add: counted_def fine_def evidence_kept_def)
  qed
  moreover have "counted b iv0 (actor, key) iv w" if "evidence_replay w actor key \<noteq> None"
    using g that by (auto simp: counted_def evidence_replay_def)
  ultimately show ?thesis by (auto simp: count_call_def wp_bind wp_readI wp_return)
qed

lemma after_execution_round:
  assumes "counted b iv0 k iv w" "executed w k w'"
  shows "round_wp b iv0 (after_execution env before p signature iv r) w'"
proof -
  have c: "fine b w' iv" "same_identity iv0 iv" "iv_status iv = IS_RUNNING" "iv_iteration_count iv = iv_iteration_count iv0"
      "\<not> coverage_complete (iv_coverage iv)"
    using assms(1) fine_executed [OF _ assms(2)] by (simp_all add: counted_def)
  show ?thesis
  proof (cases r)
    case (Inl e)
    show ?thesis
      unfolding after_execution_def Inl sum.case wp_then
      by (rule step_fine [OF c(1)], rule fruitless_round) (use c in simp_all)
  next
    case (Inr x)
    show ?thesis unfolding after_execution_def Inr sum.case by (rule conclude_going [OF c(1-4)])
  qed
qed

lemma perform_going:
  assumes "going b iv0 w iv"
  shows "round_wp b iv0 (perform_action env actor iv p a) w"
proof -
  note g = goingD [OF assms]
  let ?signature = "action_signature (ie_sha256 env) a"
  let ?key = "action_key iv ?signature"
  have run: "round_wp b iv0 (bindM (count_call env actor ?key iv) (\<lambda>iv'.
      bindM (tryI (execute_tool env actor ?key iv' a)) (after_execution env iv p ?signature iv'))) w'" if "going b iv0 w' iv" for w'
    unfolding wp_bind wp_tryI
    by (rule wp_mono [OF count_going [OF that]], rule wp_mono [OF execute_tool_executed]) (blast intro: after_execution_round)+
  have stepped: "going b iv0 w' iv" if "fine b w' iv" for w' using assms that by (simp add: going_def)
  show ?thesis
  proof (cases "?signature \<in> set (iv_completed_action_signatures iv)")
    case True
    then show ?thesis
      unfolding perform_action_def Let_def if_P [OF True] wp_then
      by (intro step_fine [OF g(1)] fruitless_round) (use g in simp_all)
  next
    case False
    then show ?thesis
      unfolding perform_action_def Let_def if_not_P [OF False] wp_then
      by (intro step_fine [OF g(1)] run stepped)
  qed
qed

lemma end_selection_round:
  assumes "selected_well b iv0 sel w"
  shows "round_wp b iv0 (end_selection env actor sel) w"
proof (cases sel)
  case (Selected iv p a)
  then show ?thesis using assms by (simp add: selected_well_def end_selection_def perform_going)
next
  case (OutOfTokens iv)
  then show ?thesis using assms by (simp add: selected_well_def end_selection_def wp_return)
next
  case (Rejected iv)
  then show ?thesis using assms by (simp add: selected_well_def end_selection_def reject_going)
next
  case (ModelDown iv code retryable)
  then have g: "going b iv0 w iv" using assms by (simp add: selected_well_def)
  have "wp (finishI env iv SR_UNRECOVERABLE_ERROR) (\<lambda>_. model_failed b iv0 (ModelApiError code retryable)) E w'" if "fine b w' iv" for w' E
    by (rule finish_fine [OF that])
       (use goingD(2,6) [OF g] same_identity_trans in \<open>auto simp: model_failed_def terminal_status_def\<close>)
  then show ?thesis
    unfolding ModelDown end_selection_def Selection.case wp_then wp_bind wp_raise
    by (intro step_fine [OF goingD(1) [OF g]])
qed

section \<open>The loop\<close>

lemma replan_going:
  assumes "going b iv0 w iv" "\<And>r iv' w'. going b iv0 w' iv' \<Longrightarrow> Q (r, iv') w'"
  shows "wp (replan_step env iv) Q E w"
proof (cases "iv_no_progress_rounds iv > 0 \<and> iv_replan_count iv < ib_max_replans (iv_budget iv)")
  case False
  then show ?thesis using assms by (auto simp: replan_step_def wp_return)
next
  case True
  note g = goingD [OF assms(1)]
  have r: "save_ready b w (iv\<lparr>iv_replan_count := iv_replan_count iv + 1\<rparr>)"
    by (rule fine_update [OF g(1)]) (use g(1) True in \<open>simp_all add: fine_def sane_def within_budget_def\<close>)
  show ?thesis
    unfolding replan_step_def if_P [OF True] wp_bind
  proof (rule save_fine [OF r], goal_cases)
    case (1 u w1)
    have u: "same_identity iv0 u" "iv_status u = IS_RUNNING" "iv_iteration_count u = iv_iteration_count iv0"
        "iv_tool_call_count u < ib_max_tool_calls (iv_budget u)" "\<not> coverage_complete (iv_coverage u)"
      using g(2-6) by (subst 1(1); simp add: same_identity_def)+
    show ?case
      unfolding wp_then wp_return
      by (rule step_fine [OF 1(2)], rule assms(2)) (use u in \<open>simp add: going_def\<close>)
  qed
qed

lemma wp_selector_payload:
  assumes "fine b w iv" "\<And>payload. Q payload w"
  shows "wp (selector_payload env iv gap) Q E w"
  using assms
  by (auto simp: selector_payload_def get_need_def fine_def held_def wp_def bindM_def readM_def returnM_def)

text \<open>A round counts one iteration more.\<close>

definition counted_round :: "Investigation \<Rightarrow> Investigation" where
  "counted_round iv = iv\<lparr>iv_iteration_count := iv_iteration_count iv + 1\<rparr>"

lemma gap_round:
  assumes "fine b w iv" "iv_status iv = IS_RUNNING" "\<not> coverage_complete (iv_coverage iv)" "pre_action_stop iv = None"
  shows "round_wp b (counted_round iv) (investigate_gap env actor iv) w"
proof -
  have left: "iv_tool_call_count iv < ib_max_tool_calls (iv_budget iv)" "iv_iteration_count iv < ib_max_iterations (iv_budget iv)"
    using assms(4) by (auto simp: pre_action_stop_def split: if_splits)
  have r: "save_ready b w (counted_round iv)"
    by (rule fine_update [OF assms(1)]) (use assms(1) left in \<open>simp_all add: fine_def sane_def within_budget_def counted_round_def\<close>)
  show ?thesis
    unfolding investigate_gap_def Let_def wp_bind counted_round_def [symmetric, of iv]
  proof (rule save_fine [OF r], goal_cases)
    case (1 u w1)
    have u: "same_identity (counted_round iv) u" "iv_status u = IS_RUNNING" "iv_iteration_count u = iv_iteration_count (counted_round iv)"
        "iv_tool_call_count u < ib_max_tool_calls (iv_budget u)" "\<not> coverage_complete (iv_coverage u)"
      using assms(2,3) left by (subst 1(1); simp add: same_identity_def counted_round_def)+
    show ?case
      unfolding wp_then
    proof (rule step_fine [OF 1(2)], goal_cases)
      case (1 w2)
      have "going b (counted_round iv) w2 u" using u 1(1) by (simp add: going_def)
      then show ?case
        unfolding wp_bind
      proof (rule replan_going, goal_cases)
        case (1 replan iv2 w3)
        show ?case
          unfolding prod.case wp_bind
          by (rule wp_selector_payload [OF goingD(1) [OF 1]], rule wp_mono [OF selection_well [OF 1]])
             (auto intro: end_selection_round)
      qed
    qed
  qed
qed

text \<open>The end of a round: over, or one iteration further; the model service may have failed.\<close>

lemma counted_round_simps [simp]:
  "same_identity (counted_round iv) iv' = same_identity iv iv'" "iv_iteration_count (counted_round iv) = iv_iteration_count iv + 1"
  by (simp_all add: same_identity_def counted_round_def)

definition round_done :: "origin \<Rightarrow> Investigation \<Rightarrow> Investigation \<Rightarrow> IWorld \<Rightarrow> bool" where
  "round_done b iv0 iv w \<longleftrightarrow>
     fine b w iv \<and> same_identity iv0 iv \<and> (over iv \<and> decided iv \<or> iv_status iv = IS_RUNNING \<and> iv_iteration_count iv = iv_iteration_count iv0 + 1)"

lemma one_round:
  assumes "fine b w iv" "iv_status iv = IS_RUNNING"
  shows "wp (investigate_round env actor iv) (round_done b iv) (model_failed b iv) w"
proof -
  have ends: "wp (finishI env iv reason) (round_done b iv) (model_failed b iv) w"
    if "reason = SR_COVERAGE_COMPLETE \<longleftrightarrow> coverage_complete (iv_coverage iv)" for reason
    by (rule finish_fine [OF assms(1)]) (use that in \<open>auto simp: round_done_def\<close>)
  have "pre_action_stop iv \<noteq> Some SR_COVERAGE_COMPLETE" by (simp add: pre_action_stop_def)
  moreover have "wp (investigate_gap env actor iv) (round_done b iv) (model_failed b iv) w" if "\<not> coverage_complete (iv_coverage iv)" "pre_action_stop iv = None"
    by (rule wp_mono [OF gap_round [OF assms that]])
       (auto simp: advanced_def round_done_def model_failed_def)
  ultimately show ?thesis using ends by (auto simp: investigate_round_def split: option.split)
qed

lemma rounds_end:
  assumes "fine b w iv" "same_identity iv0 iv" "over iv \<and> decided iv \<or> iv_status iv = IS_RUNNING"
    "iv_status iv = IS_RUNNING \<Longrightarrow> nat (ib_max_iterations (iv_budget iv) - iv_iteration_count iv) < fuel"
  shows "wp (rounds env actor fuel iv) (\<lambda>iv' w'. fine b w' iv' \<and> same_identity iv0 iv' \<and> over iv' \<and> decided iv') (model_failed b iv0) w"
  using assms
proof (induction fuel arbitrary: w iv)
  case 0
  then show ?case by (subst rounds.simps) (auto simp: wp_return over_def)
next
  case (Suc n)
  show ?case
  proof (cases "iv_status iv = IS_RUNNING")
    case False
    then show ?thesis using Suc.prems by (subst rounds.simps) (simp add: wp_return)
  next
    case True
    have failed: "model_failed b iv0 e w'" if "model_failed b iv e w'" for e w'
      using that Suc.prems(2) same_identity_trans unfolding model_failed_def by metis
    have unroll: "rounds env actor (Suc n) iv = bindM (investigate_round env actor iv) (rounds env actor n)"
      using True by (subst rounds.simps) simp
    show ?thesis
      unfolding unroll wp_bind
    proof (intro wp_mono [OF one_round [OF Suc.prems(1) True]] failed, goal_cases)
      case (1 iv1 w1)
      have b: "iv_iteration_count iv1 \<le> ib_max_iterations (iv_budget iv1)" "iv_budget iv1 = iv_budget iv"
        using 1 by (auto simp: round_done_def fine_def sane_def within_budget_def same_identity_def)
      have "over iv1 \<and> decided iv1 \<or> iv_status iv1 = IS_RUNNING \<and> iv_iteration_count iv1 = iv_iteration_count iv + 1"
        using 1 by (simp add: round_done_def)
      moreover have "iv_status iv1 \<noteq> IS_RUNNING" if "over iv1" using that by (simp add: over_def)
      ultimately show ?case
        using 1 Suc.prems(2,4) True b same_identity_trans
        by (intro Suc.IH) (auto simp: round_done_def)
    qed
  qed
qed

end
