(* ===== verification/Investigation_Service.thy ===== *)
theory Investigation_Service
  imports Investigation_Bounds
begin

text \<open>
  The service of investigations as a system driven by commands. What every command sound_later: counts
  within budgets, coverage with evidence, numbered steps, one active investigation per need, no tool
  run twice under a key, and investigations that ended stay as they are.
\<close>

section \<open>Commands\<close>

text \<open>
  A need is planned from any draft of the model. A budget is a checked value; \<open>None\<close> is the default.
\<close>

datatype ICommand =
    PlanNeed PlannedNeedDraft pystr pystr pystr "pystr option" "pystr option" "pystr option"
  | OpenInvestigation InformationNeed pystr pystr "InvestigationBudget option"
  | RunInvestigation pystr pystr
  | CancelInvestigation pystr

fun investigation_step :: "IEnv \<Rightarrow> ICommand \<Rightarrow> IWorld \<Rightarrow> IWorld" where
  "investigation_step env (PlanNeed draft ctext hash stage task run unit) w = snd (plan_need env draft ctext hash stage task run unit w)"
| "investigation_step env (OpenInvestigation need repo sha budget) w =
     (if case_option True valid_budget budget then snd (open_investigation env need repo sha budget w) else w)"
| "investigation_step env (RunInvestigation actor iid) w = snd (run_service env actor iid w)"
| "investigation_step env (CancelInvestigation iid) w = snd (cancel_investigation env iid w)"

definition investigation_start :: "IWorld \<Rightarrow> bool" where
  "investigation_start w \<longleftrightarrow>
     iw_store w = \<lparr>st_needs = [], st_investigations = [], st_steps = []\<rparr> \<and> iw_tool_log w = []"

abbreviation ireachable :: "IEnv \<Rightarrow> IWorld \<Rightarrow> bool" where
  "ireachable env \<equiv> reachable investigation_start (investigation_step env)"

section \<open>The invariant\<close>

definition unfinished :: "Investigation \<Rightarrow> bool" where
  "unfinished iv \<longleftrightarrow> iv_status iv = IS_PLANNED \<or> iv_status iv = IS_RUNNING"

abbreviation the_investigation :: "IWorld \<Rightarrow> pystr \<Rightarrow> Investigation option" where
  "the_investigation w \<equiv> dict_get (st_investigations (iw_store w))"

text \<open>What is known of a stored investigation.\<close>

definition known :: "IWorld \<Rightarrow> pystr \<Rightarrow> Investigation \<Rightarrow> bool" where
  "known w iid iv \<longleftrightarrow>
     iv_investigation_id iv = iid \<and> steps_numbered (steps_of w iid) \<and> dict_get (st_needs (iw_store w)) (iv_information_need_id iv) \<noteq> None
     \<and> sane iv \<and> (unfinished iv \<or> over iv)"

definition sound :: "IWorld \<Rightarrow> bool" where
  "sound w \<longleftrightarrow>
     logged w \<and> (\<forall>nid need. dict_get (st_needs (iw_store w)) nid = Some need \<longrightarrow> in_information_need_id need = nid)
     \<and> (\<forall>iid. case the_investigation w iid of None \<Rightarrow> steps_of w iid = [] | Some iv \<Rightarrow> known w iid iv)
     \<and> (\<forall>i j a b. the_investigation w i = Some a \<longrightarrow> the_investigation w j = Some b \<longrightarrow> unfinished a \<longrightarrow> unfinished b
          \<longrightarrow> iv_information_need_id a = iv_information_need_id b \<longrightarrow> i = j)"

text \<open>From one world to a later one: investigations keep their identity, and stay as they are when they are over.\<close>

definition later :: "IWorld \<Rightarrow> IWorld \<Rightarrow> bool" where
  "later w w' \<longleftrightarrow>
     (\<forall>iid iv. the_investigation w iid = Some iv \<longrightarrow>
        (\<exists>iv'. the_investigation w' iid = Some iv' \<and> same_identity iv iv' \<and> (over iv \<longrightarrow> iv' = iv)))"

lemma later_refl [simp]: "later w w"
  by (simp add: later_def)

lemma laterD:
  assumes "later w w'" "the_investigation w iid = Some iv"
  obtains iv' where "the_investigation w' iid = Some iv'" "same_identity iv iv'" "over iv \<Longrightarrow> iv' = iv"
  using assms unfolding later_def by blast

lemma later_trans:
  assumes "later w w'" "later w' w''"
  shows "later w w''"
  unfolding later_def
proof (intro allI impI)
  fix iid iv assume "the_investigation w iid = Some iv"
  then obtain a where a: "the_investigation w' iid = Some a" "same_identity iv a" "over iv \<Longrightarrow> a = iv"
    using laterD [OF assms(1)] by blast
  obtain c where c: "the_investigation w'' iid = Some c" "same_identity a c" "over a \<Longrightarrow> c = a"
    using laterD [OF assms(2) a(1)] by blast
  have "same_identity iv c" by (rule same_identity_trans [OF a(2) c(2)])
  with a(3) c(1,3) show "\<exists>iv'. the_investigation w'' iid = Some iv' \<and> same_identity iv iv' \<and> (over iv \<longrightarrow> iv' = iv)"
    by auto
qed

lemma soundD:
  assumes "sound w" "the_investigation w iid = Some iv"
  shows "known w iid iv"
proof -
  have "case the_investigation w iid of None \<Rightarrow> steps_of w iid = [] | Some iv \<Rightarrow> known w iid iv"
    using assms(1) unfolding sound_def by blast
  then show ?thesis using assms(2) by simp
qed

lemma sound_needD:
  assumes "sound w" "dict_get (st_needs (iw_store w)) nid = Some need"
  shows "in_information_need_id need = nid"
  using assms unfolding sound_def by blast

lemma sound_fine:
  assumes "sound w" "the_investigation w iid = Some iv"
  shows "fine (w, int (length (iw_tool_log w)) - iv_tool_call_count iv) w iv"
  using soundD [OF assms] assms by (simp add: fine_def known_def held_def stored_as_def sound_def)

text \<open>What a command on one investigation has to show.\<close>

lemma sound_one:
  assumes "sound w" "the_investigation w iid = Some iv" "fine (w, n) w' iv'" "same_identity iv iv'" "unfinished iv \<or> iv' = iv" "unfinished iv' \<or> over iv'"
  shows "sound w'" "later w w'"
proof -
  have iid: "iv_investigation_id iv' = iid"
    using soundD [OF assms(1,2)] assms(4) by (simp add: known_def same_identity_def)
  have here: "the_investigation w' iid = Some iv'"
    using assms(3) iid by (simp add: fine_def stored_as_def)
  have elsewhere: "the_investigation w' j = the_investigation w j" "steps_of w' j = steps_of w j" if "j \<noteq> iid" for j
    using assms(3) that iid by (simp_all add: fine_def apart_def)
  have needs: "st_needs (iw_store w') = st_needs (iw_store w)"
    using assms(3) by (simp add: fine_def apart_def)
  have known': "known w' iid iv'"
    using assms(3,6) iid by (simp add: fine_def held_def known_def)
  have nid: "iv_information_need_id iv' = iv_information_need_id iv" using assms(4) by (simp add: same_identity_def)
  have all: "case the_investigation w' j of None \<Rightarrow> steps_of w' j = [] | Some v \<Rightarrow> known w' j v" for j
  proof (cases "j = iid")
    case True
    then show ?thesis using here known' by simp
  next
    case False
    have "case the_investigation w j of None \<Rightarrow> steps_of w j = [] | Some v \<Rightarrow> known w j v"
      using assms(1) unfolding sound_def by blast
    then show ?thesis using elsewhere [OF False] needs by (auto simp: known_def split: option.splits)
  qed
  have one: "i = j" if "the_investigation w' i = Some a" "the_investigation w' j = Some b" "unfinished a" "unfinished b"
      "iv_information_need_id a = iv_information_need_id b" for i j a b
  proof -
    have before: "\<exists>a0. the_investigation w i = Some a0 \<and> unfinished a0 \<and> iv_information_need_id a0 = iv_information_need_id a"
      if "the_investigation w' i = Some a" "unfinished a" for i a
      using that here elsewhere assms(2,5) nid by (cases "i = iid") auto
    show ?thesis
      using before [OF that(1,3)] before [OF that(2,4)] that(5) assms(1) unfolding sound_def by metis
  qed
  have "logged w'" using assms(3) by (simp add: fine_def)
  then show "sound w'" unfolding sound_def using all one needs sound_needD [OF assms(1)] by simp
  have "over iv \<longrightarrow> iv' = iv" using assms(5) by (auto simp: unfinished_def over_def)
  then show "later w w'" unfolding later_def using here elsewhere assms(2,4) same_identity_refl by (metis option.inject)
qed

section \<open>Running\<close>

text \<open>How the run of an investigation ends.\<close>

definition concluded :: "IWorld \<Rightarrow> Investigation \<Rightarrow> Investigation \<Rightarrow> IWorld \<Rightarrow> bool" where
  "concluded w iv iv' w' \<longleftrightarrow>
     fine (w, int (length (iw_tool_log w)) - iv_tool_call_count iv) w' iv' \<and> same_identity iv iv' \<and> (unfinished iv \<and> decided iv' \<or> iv' = iv) \<and> over iv'"

definition model_gave_up :: "IWorld \<Rightarrow> Investigation \<Rightarrow> iexn \<Rightarrow> IWorld \<Rightarrow> bool" where
  "model_gave_up w iv e w' \<longleftrightarrow>
     (\<exists>code retryable. e = ModelApiError code retryable) \<and> (\<exists>iv'. concluded w iv iv' w' \<and> iv_status iv' = IS_FAILED)"

lemma wp_get_investigation:
  "wp (get_investigation iid) Q E w = (case the_investigation w iid of None \<Rightarrow> E (IExn KeyError) w | Some iv \<Rightarrow> Q iv w)"
  by (simp add: wp_def get_investigation_def split: option.split)

lemma running_concludes:
  assumes "fine (w, int (length (iw_tool_log w)) - iv_tool_call_count iv) w1 iv1" "same_identity iv iv1" "unfinished iv" "iv_status iv1 = IS_RUNNING"
  shows "wp (run_running env actor iv1) (\<lambda>res w'. \<exists>iv'. concluded w iv iv' w' \<and> res = investigation_result iv') (model_gave_up w iv) w1"
  unfolding run_running_def wp_bind wp_return
proof (rule wp_mono [OF rounds_end [OF assms(1,2)]], goal_cases)
  case 1 then show ?case using assms(4) by simp
next
  case 2 then show ?case by (simp add: rounds_needed_def)
next
  case (3 iv' w') then show ?case using assms(3) by (auto simp: concluded_def)
next
  case (4 e w')
  then obtain iv' where "\<exists>code retryable. e = ModelApiError code retryable" "iv_status iv' = IS_FAILED" "concluded w iv iv' w'"
    unfolding model_failed_def concluded_def using assms(3) by auto
  then show ?case unfolding model_gave_up_def by blast
qed

lemma run_concludes:
  assumes "sound w" "the_investigation w iid = Some iv"
  shows "wp (run_investigation env actor iid) (\<lambda>res w'. \<exists>iv'. concluded w iv iv' w' \<and> res = investigation_result iv') (model_gave_up w iv) w"
proof -
  let ?Q = "\<lambda>res w'. \<exists>iv'. concluded w iv iv' w' \<and> res = investigation_result iv'"
  let ?n = "int (length (iw_tool_log w)) - iv_tool_call_count iv"
  have f: "fine (w, ?n) w iv" by (rule sound_fine [OF assms])
  have o: "unfinished iv \<or> over iv" using soundD [OF assms] by (simp add: known_def)
  let ?start = "bindM (saveI env (iv\<lparr>iv_status := IS_RUNNING\<rparr>)) (\<lambda>iv.
      thenM (stepI env iv ''START'' ''SUCCEEDED'' [35843, 26597, 24050, 24320, 22987] []) (run_running env actor iv))"
  have start: "wp ?start ?Q (model_gave_up w iv) w" if "iv_status iv = IS_PLANNED"
  proof -
    have "sane (iv\<lparr>iv_status := IS_RUNNING\<rparr>)" using f by (simp add: fine_def sane_def within_budget_def)
    then have r: "save_ready (w, ?n) w (iv\<lparr>iv_status := IS_RUNNING\<rparr>)" by (intro fine_update [OF f]) simp_all
    show ?thesis
      unfolding wp_bind
    proof (rule save_fine [OF r], goal_cases)
      case (1 u w1)
      have u: "same_identity iv u" "iv_status u = IS_RUNNING" by (subst 1(1); simp add: same_identity_def)+
      show ?case
        unfolding wp_then
        by (rule step_fine [OF 1(2)], rule running_concludes) (use that u in \<open>simp_all add: unfinished_def\<close>)
    qed
  qed
  have running: "wp (run_running env actor iv) ?Q (model_gave_up w iv) w" if "iv_status iv = IS_RUNNING"
    by (rule running_concludes [OF f]) (use that in \<open>simp_all add: unfinished_def\<close>)
  have ended: "?Q (investigation_result iv) w" if "iv_status iv \<noteq> IS_PLANNED" "iv_status iv \<noteq> IS_RUNNING"
    using that o f by (auto simp: concluded_def unfinished_def)
  show ?thesis
    using start running ended assms(2) unfolding run_investigation_def wp_bind [of "get_investigation iid"] wp_get_investigation
    by (simp add: wp_return)
qed

lemma concluded_sound:
  assumes "sound w" "the_investigation w iid = Some iv" "concluded w iv iv' w'"
  shows "sound w'" "later w w'" "the_investigation w' iid = Some iv'"
proof -
  have c: "fine (w, int (length (iw_tool_log w)) - iv_tool_call_count iv) w' iv'" "same_identity iv iv'" "unfinished iv \<or> iv' = iv" "over iv'"
    using assms(3) by (auto simp: concluded_def)
  show "sound w'" "later w w'" using sound_one [OF assms(1,2) c(1-3)] c(4) by simp_all
  have "iv_investigation_id iv' = iid" using soundD [OF assms(1,2)] c(2) by (simp add: known_def same_identity_def)
  then show "the_investigation w' iid = Some iv'" using c(1) by (simp add: fine_def stored_as_def)
qed

section \<open>Needs\<close>

lemma wp_save_need: "wp (save_need need) Q E w =
    Q () (w\<lparr>iw_store := (iw_store w)\<lparr>st_needs := dict_set (in_information_need_id need) need (st_needs (iw_store w))\<rparr>\<rparr>)"
  by (simp add: save_need_def wp_modifyI)

lemmas wp_save_need_fun = ext [OF wp_save_need]

lemma sound_need:
  assumes "sound w" "in_information_need_id need = nid"
  shows "sound (w\<lparr>iw_store := (iw_store w)\<lparr>st_needs := dict_set nid need (st_needs (iw_store w))\<rparr>\<rparr>)" (is "sound ?w")
proof -
  have k: "known ?w iid iv" if "known w iid iv" for iid iv
    using that by (simp add: known_def steps_of_def)
  have "case the_investigation ?w iid of None \<Rightarrow> steps_of ?w iid = [] | Some iv \<Rightarrow> known ?w iid iv" for iid
  proof -
    have "case the_investigation w iid of None \<Rightarrow> steps_of w iid = [] | Some iv \<Rightarrow> known w iid iv"
      using assms(1) unfolding sound_def by blast
    then show ?thesis using k by (auto simp: steps_of_def split: option.splits)
  qed
  moreover have "logged ?w" using assms(1) by (simp add: sound_def logged_def)
  moreover have "\<forall>i n. dict_get (st_needs (iw_store ?w)) i = Some n \<longrightarrow> in_information_need_id n = i"
    using sound_needD [OF assms(1)] assms(2) by (simp split: if_splits)
  moreover have "\<forall>i j a b. the_investigation ?w i = Some a \<longrightarrow> the_investigation ?w j = Some b \<longrightarrow> unfinished a \<longrightarrow> unfinished b
      \<longrightarrow> iv_information_need_id a = iv_information_need_id b \<longrightarrow> i = j"
    using assms(1) by (simp add: sound_def)
  ultimately show ?thesis unfolding sound_def by blast
qed

lemma later_need [simp]: "later w (w\<lparr>iw_store := (iw_store w)\<lparr>st_needs := needs\<rparr>\<rparr>)"
  by (simp add: later_def)

lemma run_service_concludes:
  assumes "sound w" "the_investigation w iid = Some iv"
  shows "wp (run_service env actor iid)
      (\<lambda>res w'. \<exists>iv' w1 need. concluded w iv iv' w1 \<and> res = investigation_result iv'
         \<and> dict_get (st_needs (iw_store w1)) (iv_information_need_id iv) = Some need
         \<and> w' = w1\<lparr>iw_store := (iw_store w1)\<lparr>st_needs := dict_set (in_information_need_id need)
               (need\<lparr>in_status := (if iv_status iv' = IS_COMPLETE then NS_SATISFIED else NS_UNSATISFIED)\<rparr>) (st_needs (iw_store w1))\<rparr>\<rparr>)
      (model_gave_up w iv) w"
  unfolding run_service_def wp_bind
proof (rule wp_mono [OF run_concludes [OF assms]], goal_cases)
  case (1 res w1)
  then obtain iv' where c: "concluded w iv iv' w1" and res: "res = investigation_result iv'" by blast
  have iv': "the_investigation w1 iid = Some iv'" by (rule concluded_sound(3) [OF assms c])
  have nid: "iv_information_need_id iv' = iv_information_need_id iv" using c by (simp add: concluded_def same_identity_def)
  obtain need where need: "dict_get (st_needs (iw_store w1)) (iv_information_need_id iv) = Some need"
    using c nid by (auto simp: concluded_def fine_def held_def)
  have "wp (get_need (iv_information_need_id iv')) Q E w1 = Q need w1" for Q E
    using need nid by (simp add: wp_def get_need_def)
  then show ?case
    using c res need iv' by (auto simp: wp_get_investigation wp_then wp_save_need wp_return investigation_result_def Let_def)
qed

section \<open>Opening\<close>

lemma default_budget_valid: "valid_budget default_budget"
  by (simp add: valid_budget_def default_budget_def)

lemma build_coverage_get:
  "dict_get (build_coverage keys) k = Some item \<Longrightarrow> ci_status item = CV_MISSING \<and> ci_evidence_ids item = []"
  by (auto simp: build_coverage_def dict_get_def dest!: map_of_SomeD)

lemma build_coverage_keys: "dict_keys (build_coverage keys) = fromkeys keys"
  by (simp add: build_coverage_def dict_keys_def comp_def)

text \<open>A new investigation for a stored need that has no active one.\<close>

definition brand_new :: "InformationNeed \<Rightarrow> Investigation \<Rightarrow> bool" where
  "brand_new need iv \<longleftrightarrow>
     iv_information_need_id iv = in_information_need_id need \<and> iv_coverage iv = build_coverage (in_required_coverage need)
     \<and> iv_status iv = IS_PLANNED \<and> valid_budget (iv_budget iv) \<and> iv_iteration_count iv = 0 \<and> iv_tool_call_count iv = 0 \<and> iv_replan_count iv = 0"

lemma brand_new_sane: "brand_new need iv \<Longrightarrow> sane iv"
  by (auto simp: brand_new_def sane_def within_budget_def valid_budget_def backed_coverage_def backed_item_def dest!: build_coverage_get)

lemma create_sound:
  assumes "sound w" "brand_new need iv" "dict_get (st_needs (iw_store w)) (in_information_need_id need) \<noteq> None"
    "the_investigation w (iv_investigation_id iv) = None" "\<not> list_ex (active_for (iv_information_need_id iv)) (dict_values (st_investigations (iw_store w)))"
  shows "sound (put_investigation iv w)" "later w (put_investigation iv w)"
proof -
  let ?w = "put_investigation iv w" and ?iid = "iv_investigation_id iv"
  have all0: "case the_investigation w j of None \<Rightarrow> steps_of w j = [] | Some v \<Rightarrow> known w j v" for j
    using assms(1) unfolding sound_def by blast
  have get: "the_investigation ?w j = (if j = ?iid then Some iv else the_investigation w j)" for j
    by (simp add: put_investigation_def)
  have rest: "steps_of ?w j = steps_of w j" "st_needs (iw_store ?w) = st_needs (iw_store w)" for j
    by (simp_all add: put_investigation_def steps_of_def)
  have new: "known ?w ?iid iv"
    using assms(2,3) all0 [of ?iid] assms(4) brand_new_sane [OF assms(2)] rest
    by (simp add: known_def unfinished_def brand_new_def steps_numbered_def)
  have all: "case the_investigation ?w j of None \<Rightarrow> steps_of ?w j = [] | Some v \<Rightarrow> known ?w j v" for j
    using all0 [of j] new rest by (auto simp: get known_def split: option.splits)
  have idle: "iv_information_need_id v \<noteq> iv_information_need_id iv" if "the_investigation w j = Some v" "unfinished v" for j v
  proof -
    have "v \<in> set (dict_values (st_investigations (iw_store w)))"
      using that(1) by (force simp: dict_get_def dict_values_def dest: map_of_SomeD)
    then show ?thesis using assms(5) that(2) by (auto simp: list_ex_iff active_for_def unfinished_def)
  qed
  have one0: "i = j" if "the_investigation w i = Some a" "the_investigation w j = Some c" "unfinished a" "unfinished c"
      "iv_information_need_id a = iv_information_need_id c" for i j a c
    using assms(1) that unfolding sound_def by blast
  have one: "i = j" if "the_investigation ?w i = Some a" "the_investigation ?w j = Some c" "unfinished a" "unfinished c"
      "iv_information_need_id a = iv_information_need_id c" for i j a c
    using that one0 [of i a j c] idle by (auto simp: get split: if_splits)
  have "logged ?w" using assms(1) by (simp add: sound_def logged_def put_investigation_def)
  then show "sound ?w" unfolding sound_def using all one rest(2) sound_needD [OF assms(1)] by simp
  show "later w ?w" using assms(4) by (auto simp: later_def get)
qed

lemma wp_create_investigation:
  assumes "the_investigation w (iv_investigation_id iv) = None \<Longrightarrow>
      \<not> list_ex (active_for (iv_information_need_id iv)) (dict_values (st_investigations (iw_store w))) \<Longrightarrow> Q () (put_investigation iv w)"
    "\<And>e. E e w"
  shows "wp (create_investigation iv) Q E w"
  using assms by (auto simp: wp_def create_investigation_def Let_def)

lemma wp_new_investigation:
  assumes "valid_budget budget" "\<And>iv n t. brand_new need iv \<Longrightarrow> Q iv (w\<lparr>iw_uuids := n, iw_ticks := t\<rparr>)" "\<And>e n t. E e (w\<lparr>iw_uuids := n, iw_ticks := t\<rparr>)"
    "\<And>e n. E e (w\<lparr>iw_uuids := n\<rparr>)"
  shows "wp (new_investigation env need repo sha budget) Q E w"
  using assms by (auto simp: new_investigation_def wp_bind wp_then wp_check wp_return wp_uuidI wp_clockI brand_new_def)

lemma counters_known:
  "steps_of (w\<lparr>iw_uuids := n\<rparr>) = steps_of w" "known (w\<lparr>iw_uuids := n\<rparr>) = known w"
  "steps_of (w\<lparr>iw_ticks := t\<rparr>) = steps_of w" "known (w\<lparr>iw_ticks := t\<rparr>) = known w"
  by (simp_all add: fun_eq_iff steps_of_def known_def)

lemma counters_sound [simp]:
  "sound (w\<lparr>iw_uuids := n\<rparr>) = sound w" "later w0 (w\<lparr>iw_uuids := n\<rparr>) = later w0 w"
  "sound (w\<lparr>iw_ticks := t\<rparr>) = sound w" "later w0 (w\<lparr>iw_ticks := t\<rparr>) = later w0 w"
  by (simp_all add: sound_def later_def logged_def counters_known cong: option.case_cong)

abbreviation sound_later :: "IWorld \<Rightarrow> IWorld \<Rightarrow> bool" where
  "sound_later w w' \<equiv> sound w' \<and> later w w'"

lemma open_keeps:
  assumes "sound w" "case_option True valid_budget budget"
  shows "wp (open_investigation env need repo sha budget)
      (\<lambda>r w'. sound_later w w' \<and> (\<forall>iv. r = Some iv \<longrightarrow> the_investigation w' (iv_investigation_id iv) = Some iv \<and> brand_new need iv))
      (\<lambda>_. sound_later w) w"
proof -
  let ?needed = "\<lambda>need w. w\<lparr>iw_store := (iw_store w)\<lparr>st_needs := dict_set (in_information_need_id need) need (st_needs (iw_store w))\<rparr>\<rparr>"
  let ?w = "?needed need w"
  let ?budget = "case budget of None \<Rightarrow> default_budget | Some b \<Rightarrow> b"
  have budget: "valid_budget ?budget" using assms(2) default_budget_valid by (simp split: option.splits)
  have k: "sound_later w ?w" using sound_need [OF assms(1)] by simp
  have none: "sound_later w (?needed (need\<lparr>in_status := NS_SKIPPED\<rparr>) ?w)"
    using sound_need [of ?w "need\<lparr>in_status := NS_SKIPPED\<rparr>"] k later_trans [OF _ later_need] by simp
  let ?Q = "\<lambda>r w'. sound_later w w' \<and> (\<forall>iv. r = Some iv \<longrightarrow> the_investigation w' (iv_investigation_id iv) = Some iv \<and> brand_new need iv)"
  have created: "wp (create_investigation iv) (\<lambda>_ w'. wp (save_need (need\<lparr>in_status := NS_INVESTIGATING\<rparr>)) (\<lambda>_. ?Q (Some iv)) (\<lambda>_. sound_later w) w') (\<lambda>_. sound_later w)
      (?w\<lparr>iw_uuids := n, iw_ticks := t\<rparr>)" if "brand_new need iv" for iv n t
  proof (rule wp_create_investigation, goal_cases)
    case 1
    let ?w1 = "?w\<lparr>iw_uuids := n, iw_ticks := t\<rparr>"
    have "sound ?w1" "dict_get (st_needs (iw_store ?w1)) (in_information_need_id need) \<noteq> None" using k by simp_all
    then have p: "sound (put_investigation iv ?w1)" "later ?w1 (put_investigation iv ?w1)"
      using create_sound [OF _ that] 1 by blast+
    have "later w ?w1" using k by simp
    then have "later w (put_investigation iv ?w1)" using p(2) later_trans by blast
    then have "sound_later w (?needed (need\<lparr>in_status := NS_INVESTIGATING\<rparr>) (put_investigation iv ?w1))"
      using sound_need [OF p(1), of "need\<lparr>in_status := NS_INVESTIGATING\<rparr>"] later_trans [OF _ later_need] by simp
    then show ?case using that by (simp add: wp_save_need put_investigation_def)
  next
    case 2 then show ?case using k by simp
  qed
  have opened: "wp (new_investigation env need repo sha ?budget) (\<lambda>iv. wp (create_investigation iv)
      (\<lambda>_ w'. wp (save_need (need\<lparr>in_status := NS_INVESTIGATING\<rparr>)) (\<lambda>_. ?Q (Some iv)) (\<lambda>_. sound_later w) w') (\<lambda>_. sound_later w)) (\<lambda>_. sound_later w) ?w"
  proof (rule wp_new_investigation [OF budget], goal_cases)
    case (1 iv n t)
    show ?case by (rule created [OF 1])
  next
    case (2 e n t)
    show ?case using k by simp
  next
    case (3 e n)
    show ?case using k by simp
  qed
  show ?thesis
    using none k opened
    by (simp add: open_investigation_def wp_then wp_bind wp_save_need_fun wp_check wp_return wp_If)
qed

lemma plan_keeps:
  assumes "sound w"
  shows "wp (plan_need env draft ctext hash stage task run unit) (\<lambda>_. sound_later w) (\<lambda>_. sound_later w) w"
proof -
  have k: "sound_later w (w\<lparr>iw_uuids := n, iw_ticks := t\<rparr>)" for n t using assms by simp
  have saved: "sound_later w (w'\<lparr>iw_store := (iw_store w')\<lparr>st_needs := dict_set (in_information_need_id need) need (st_needs (iw_store w'))\<rparr>\<rparr>)"
    if "sound_later w w'" for w' need
    using that sound_need [of w' need] later_trans [OF _ later_need] by simp
  show ?thesis
    using k saved [OF k]
    by (simp add: plan_need_def plan_information_need_def Let_def wp_bind wp_then wp_uuidI wp_clockI wp_check wp_liftI wp_save_need_fun wp_return
        split: sum.split)
qed

lemma cancel_keeps:
  assumes "sound w"
  shows "wp (cancel_investigation env iid) (\<lambda>_. sound_later w) (\<lambda>_. sound_later w) w"
proof (cases "the_investigation w iid")
  case None
  then show ?thesis using assms by (simp add: cancel_investigation_def wp_bind wp_get_investigation)
next
  case (Some iv)
  have "wp (finishI env iv SR_USER_STOPPED) (\<lambda>_. sound_later w) (\<lambda>_. sound_later w) w" if "unfinished iv"
    by (rule finish_fine [OF sound_fine [OF assms Some]]) (use sound_one [OF assms Some] that in auto)
  then show ?thesis using assms Some by (simp add: cancel_investigation_def wp_bind wp_get_investigation wp_return unfinished_def)
qed

lemma run_keeps:
  assumes "sound w"
  shows "wp (run_service env actor iid) (\<lambda>_. sound_later w) (\<lambda>_. sound_later w) w"
proof (cases "the_investigation w iid")
  case None
  then show ?thesis using assms by (simp add: run_service_def run_investigation_def wp_bind wp_get_investigation)
next
  case (Some iv)
  show ?thesis
  proof (rule wp_mono [OF run_service_concludes [OF assms Some]], goal_cases)
    case (1 res w')
    then obtain iv' w1 need where c: "concluded w iv iv' w1"
      and w': "w' = w1\<lparr>iw_store := (iw_store w1)\<lparr>st_needs := dict_set (in_information_need_id need)
               (need\<lparr>in_status := (if iv_status iv' = IS_COMPLETE then NS_SATISFIED else NS_UNSATISFIED)\<rparr>) (st_needs (iw_store w1))\<rparr>\<rparr>"
      by blast
    note k = concluded_sound [OF assms Some c]
    show ?case unfolding w' by (intro conjI sound_need [OF k(1)] later_trans [OF k(2) later_need]) simp
  next
    case (2 e w')
    then obtain iv' where "concluded w iv iv' w'" unfolding model_gave_up_def by blast
    then show ?case using concluded_sound [OF assms Some] by blast
  qed
qed

lemma wp_world: "wp m (\<lambda>_. P) (\<lambda>_. P) w \<Longrightarrow> P (snd (m w))"
  by (auto simp: wp_def split: prod.splits sum.splits)

lemma step_keeps:
  assumes "sound w"
  shows "sound_later w (investigation_step env c w)"
proof (cases c)
  case (PlanNeed draft ctext hash stage task run unit)
  then show ?thesis using wp_world [OF plan_keeps [OF assms]] by simp
next
  case (OpenInvestigation need repo sha budget)
  show ?thesis
  proof (cases "case_option True valid_budget budget")
    case True
    have "wp (open_investigation env need repo sha budget) (\<lambda>_. sound_later w) (\<lambda>_. sound_later w) w"
      by (rule wp_mono [OF open_keeps [OF assms True]]) simp_all
    from wp_world [OF this] True show ?thesis by (simp add: OpenInvestigation)
  next
    case False
    then show ?thesis using assms by (simp add: OpenInvestigation)
  qed
next
  case (RunInvestigation actor iid)
  then show ?thesis using wp_world [OF run_keeps [OF assms]] by simp
next
  case (CancelInvestigation iid)
  then show ?thesis using wp_world [OF cancel_keeps [OF assms]] by simp
qed

text \<open>
  A call that was recovered as lost has a status without a \<open>value\<close>: reading the executions of its
  investigation raises from then on.
\<close>

lemma recovered_unreadable:
  assumes "dict_get (ev_calls (iw_evidence w)) cid = Some c" "tc_status c = TC_TEXT s" "tc_investigation_id c = Some iid"
  shows "\<exists>e. executions_for_investigation w iid = Inl e"
proof -
  have "c \<in> set (all_calls w)"
    using assms(1) by (force simp: all_calls_def dict_get_def dict_values_def dest: map_of_SomeD)
  moreover have "\<exists>e. collect_executions w iid calls = Inl e" if "c \<in> set calls" for calls
    using that assms(2,3) by (induction calls) (auto split: option.split sum.split bool.split)
  ultimately show ?thesis by (simp add: executions_for_investigation_def)
qed

interpretation investigations: invariant_system investigation_start "investigation_step env" sound for env
proof
  show "sound w" if "investigation_start w" for w
    using that by (simp add: sound_def investigation_start_def logged_def steps_of_def dict_get_def dict_get_or_def)
  show "sound (investigation_step env c w)" if "sound w" for c w
    using step_keeps [OF that] by simp
qed

lemma commands_later:
  assumes "sound w"
  shows "later w (run_commands (investigation_step env) cs w)"
  using assms
proof (induction cs arbitrary: w)
  case (Cons c cs)
  have k: "sound_later w (investigation_step env c w)" by (rule step_keeps [OF Cons.prems])
  with Cons.IH [of "investigation_step env c w"] later_trans show ?case by auto
qed simp

end
