(* ===== verification/Investigation_Correct.thy ===== *)
theory Investigation_Correct
  imports Investigation_Service
begin

text \<open>
  What the service of investigations promises: a run ends, stays within its budget, claims coverage
  only with evidence, and never touches an investigation that ended. A small repository with one tool
  shows each of them at work.
\<close>

section \<open>From the lemmas to the calls\<close>

lemma run_outcome:
  assumes "sound w" "the_investigation w iid = Some iv"
  obtains (returned) iv' w1 need res where "run_service env actor iid w =
      (Inr res, w1\<lparr>iw_store := (iw_store w1)\<lparr>st_needs := dict_set (iv_information_need_id iv)
         (need\<lparr>in_status := (if iv_status iv' = IS_COMPLETE then NS_SATISFIED else NS_UNSATISFIED)\<rparr>) (st_needs (iw_store w1))\<rparr>\<rparr>)"
      "concluded w iv iv' w1" "res = investigation_result iv'"
  | (failed) code retryable iv' w1 where "run_service env actor iid w = (Inl (ModelApiError code retryable), w1)"
      "concluded w iv iv' w1" "iv_status iv' = IS_FAILED"
proof (cases "run_service env actor iid w")
  case (Pair r w')
  note c = run_service_concludes [OF assms, of env actor, unfolded wp_def Pair prod.case]
  show thesis
  proof (cases r)
    case (Inl e)
    then show thesis using c Pair failed unfolding model_gave_up_def by auto
  next
    case (Inr res)
    then obtain iv' w1 need where o: "concluded w iv iv' w1" "res = investigation_result iv'"
        "dict_get (st_needs (iw_store w1)) (iv_information_need_id iv) = Some need"
      and w': "w' = w1\<lparr>iw_store := (iw_store w1)\<lparr>st_needs := dict_set (in_information_need_id need)
               (need\<lparr>in_status := (if iv_status iv' = IS_COMPLETE then NS_SATISFIED else NS_UNSATISFIED)\<rparr>) (st_needs (iw_store w1))\<rparr>\<rparr>"
      using c by auto
    have "in_information_need_id need = iv_information_need_id iv"
      by (rule sound_needD [OF concluded_sound(1) [OF assms o(1)] o(3)])
    then show thesis using returned [OF _ o(1,2)] Pair Inr w' by simp
  qed
qed

lemma reached_sound: "ireachable env w \<Longrightarrow> sound w"
  by (rule investigations.invar_reachable)

lemma backed_result:
  assumes "fine b w iv" "over iv" "iv_status iv = IS_COMPLETE" "k \<in> set (dict_keys (iv_coverage iv))"
  shows "\<exists>item. dict_get (iv_coverage iv) k = Some item \<and> ci_status item = CV_COVERED \<and> ci_evidence_ids item \<noteq> []
     \<and> set (ci_evidence_ids item) \<subseteq> set (iv_evidence_ids iv)"
proof -
  obtain item where item: "dict_get (iv_coverage iv) k = Some item"
    using assms(4) by (auto simp: dict_keys_iff)
  then have "item \<in> set (dict_values (iv_coverage iv))"
    by (force simp: dict_get_def dict_values_def dest: map_of_SomeD)
  moreover have "coverage_complete (iv_coverage iv)" using assms(2,3) by (simp add: over_def)
  moreover have "backed_item (iv_evidence_ids iv) item"
    using assms(1) item by (simp add: fine_def sane_def backed_coverage_def)
  ultimately show ?thesis using item by (auto simp: coverage_complete_def list_all_iff backed_item_def)
qed

lemma concluded_bounds:
  assumes "concluded w iv iv' w1"
  shows "iv_budget iv' = iv_budget iv" "within_budget iv'" "distinct (iw_tool_log w1)"
    "int (length (iw_tool_log w1)) \<le> int (length (iw_tool_log w)) + (iv_tool_call_count iv' - iv_tool_call_count iv)"
  using assms by (simp_all add: concluded_def same_identity_def fine_def sane_def logged_def)

section \<open>A small repository\<close>

definition small_evidence :: SourceEvidence where
  "small_evidence =
     \<lparr>evidence_id = lit ''e1'', evidence_tool_call_id = [], evidence_source_type = lit ''CODE'', evidence_source_kind = CODE_REPOSITORY,
      evidence_source_id = None, evidence_source_version = None, evidence_locator = [], evidence_access_scope_hash = None,
      evidence_repository_id = Some (lit ''repo''), evidence_resolved_commit_sha = None, evidence_path = Some (lit ''api.yaml''),
      evidence_line_start = Some 1, evidence_line_end = Some 2, evidence_symbol = None, evidence_excerpt = [], evidence_content_hash = [],
      evidence_source_blob_id = None, evidence_extraction_method = EM_OPENAPI_PARSE, evidence_redaction_applied = False, evidence_retrieved_at = 0\<rparr>"

definition small_proposal :: json where
  "small_proposal = JObj
     [(lit ''tool_id'', JStr (lit ''parse_openapi'')), (lit ''arguments'', JObj []), (lit ''purpose'', JStr (lit ''read'')),
      (lit ''target_coverage'', JList [JStr (lit ''api_contract'')])]"

text \<open>The first proposal is not an action, its repair is; the tool finds the contract.\<close>

definition small_env :: IEnv where
  "small_env =
     \<lparr>ie_clock = int, ie_uuid = (\<lambda>n. [n]), ie_sha256 = (\<lambda>s. [97]),
      ie_model = (\<lambda>n replan payload repair. Inr \<lparr>sm_model_id = lit ''m'', sm_prompt_version = lit ''1'',
         sm_structured_output = (if n = 0 then JNull else small_proposal), sm_raw_output_hash = [], sm_token_usage = [(lit ''total'', JInt 7)], sm_finish_reason = lit ''stop''\<rparr>),
      ie_registry = (\<lambda>_. Some (\<lambda>_. True)), ie_tools = JList [],
      ie_snapshot = (\<lambda>_ _. Inr ([], [], [])),
      ie_tool = (\<lambda>_ cid a tid. (\<lparr>tr_status = TL_SUCCEEDED, tr_public_summary = [], tr_error_code = None\<rparr>,
         \<lparr>bd_tool_call_id = cid, bd_evidence = [small_evidence], bd_facts = [], bd_unknowns = [], bd_conflicts = []\<rparr>))\<rparr>"

definition small_need :: InformationNeed where
  "small_need =
     \<lparr>in_information_need_id = lit ''need-1'', in_question = lit ''q'', in_requiredness = RQ_REQUIRED, in_source_types = [lit ''CODE''],
      in_required_coverage = [lit ''api_contract''], in_trigger_stage = [], in_fallback = [], in_status = NS_PLANNED, in_planner_version = [],
      in_context_hash = [], in_task_id = None, in_run_id = None, in_unit_id = None, in_created_at = 0\<rparr>"

definition small_world :: IWorld where
  "small_world =
     \<lparr>iw_store = \<lparr>st_needs = [], st_investigations = [], st_steps = []\<rparr>,
      iw_evidence = \<lparr>ev_calls = [], ev_inputs = [], ev_replays = [], ev_snapshots = []\<rparr>,
      iw_last_token_usage = 0, iw_last_model_result = None, iw_ticks = 0, iw_uuids = 0, iw_model_calls = 0, iw_tool_log = []\<rparr>"

definition small_open :: ICommand where
  "small_open = OpenInvestigation small_need (lit ''repo'') (replicate 40 97) None"

definition small_id :: pystr where
  "small_id = lit ''investigation-'' @ [0]"

definition small_opened :: IWorld where
  "small_opened = investigation_step small_env small_open small_world"

lemma small_reachable: "ireachable small_env small_opened"
  unfolding small_opened_def
  by (intro reach_step reach_start) (simp add: investigation_start_def small_world_def)

lemma small_is_open:
  "(case open_investigation small_env small_need (lit ''repo'') (replicate 40 97) None small_world of
      (Inr (Some iv), w) \<Rightarrow> iv_investigation_id iv = small_id | _ \<Rightarrow> False)"
  by code_simp

lemma small_run:
  "(case run_service small_env (lit ''local'') small_id small_opened of
      (Inr res, w) \<Rightarrow> ir_status res = IS_COMPLETE \<and> length (iw_tool_log w) = 1
        \<and> map_option iv_status (the_investigation w small_id) = Some IS_COMPLETE
    | _ \<Rightarrow> False)"
  by code_simp

lemma small_opens:
  obtains iv where "open_investigation small_env small_need (lit ''repo'') (replicate 40 97) None small_world = (Inr (Some iv), small_opened)"
    "iv_investigation_id iv = small_id" "the_investigation small_opened small_id = Some iv"
proof -
  obtain iv w where o: "open_investigation small_env small_need (lit ''repo'') (replicate 40 97) None small_world = (Inr (Some iv), w)"
      "iv_investigation_id iv = small_id"
    using small_is_open by (auto split: prod.splits sum.splits option.splits)
  have w: "w = small_opened" using o(1) by (simp add: small_opened_def small_open_def)
  have "sound small_world" by (rule reached_sound [of small_env]) (rule reach_start, simp add: investigation_start_def small_world_def)
  then have "the_investigation w small_id = Some iv"
    using open_keeps [of small_world None small_env small_need "lit ''repo''" "replicate 40 97"] o by (simp add: wp_def)
  then show thesis using o w that by simp
qed

lemma small_runs:
  obtains res w where "run_service small_env (lit ''local'') small_id small_opened = (Inr res, w)" "ir_status res = IS_COMPLETE"
    "length (iw_tool_log w) = 1" "map_option iv_status (the_investigation w small_id) = Some IS_COMPLETE"
  using small_run by (auto split: prod.splits sum.splits)

section \<open>Properties\<close>

text \<open>
  C15. The run of an investigation ends. It returns the result of an investigation that is over and
  stored as such; or the model service failed, and the investigation is stored as failed. When the
  run begins with an investigation that is planned or running, the investigation ends as complete
  and its need is satisfied exactly when its coverage is complete; an investigation that was over
  already is returned as it is. No other exception leaves the runner, and its loop never needs more
  rounds than the budget has iterations, and one.
\<close>

theorem investigation_ends:
  assumes "ireachable env w" "the_investigation w iid = Some iv"
  shows "case run_service env actor iid w of
      (Inr res, w') \<Rightarrow>
        (\<exists>iv' need. the_investigation w' iid = Some iv' \<and> over iv' \<and> res = investigation_result iv'
           \<and> (if unfinished iv then iv_status iv' = IS_COMPLETE \<longleftrightarrow> coverage_complete (iv_coverage iv') else iv' = iv)
           \<and> dict_get (st_needs (iw_store w')) (iv_information_need_id iv) = Some need
           \<and> in_status need = (if iv_status iv' = IS_COMPLETE then NS_SATISFIED else NS_UNSATISFIED))
    | (Inl e, w') \<Rightarrow>
        (\<exists>code retryable. e = ModelApiError code retryable)
        \<and> (\<exists>iv'. the_investigation w' iid = Some iv' \<and> over iv' \<and> iv_status iv' = IS_FAILED)"
proof -
  note s = reached_sound [OF assms(1)]
  show ?thesis
  proof (cases rule: run_outcome [OF s assms(2), of env actor, case_names returned failed])
    case (returned iv' w1 need res)
    have "if unfinished iv then iv_status iv' = IS_COMPLETE \<longleftrightarrow> coverage_complete (iv_coverage iv') else iv' = iv" "over iv'"
      using returned(2) by (auto simp: concluded_def decided_def over_def unfinished_def)
    then show ?thesis using returned concluded_sound(3) [OF s assms(2) returned(2)] by simp
  next
    case (failed code retryable iv' w1)
    then show ?thesis using concluded_sound(3) [OF s assms(2)] by (simp add: concluded_def)
  qed
qed

theorem investigation_ends_witness:
  "\<exists>iv. the_investigation small_opened small_id = Some iv
     \<and> (\<exists>res w' iv' need. run_service small_env (lit ''local'') small_id small_opened = (Inr res, w') \<and> the_investigation w' small_id = Some iv' \<and> over iv'
          \<and> coverage_complete (iv_coverage iv')
          \<and> dict_get (st_needs (iw_store w')) (iv_information_need_id iv) = Some need \<and> in_status need = NS_SATISFIED)"
proof -
  obtain iv where o: "the_investigation small_opened small_id = Some iv" by (rule small_opens)
  obtain res w where r: "run_service small_env (lit ''local'') small_id small_opened = (Inr res, w)" "ir_status res = IS_COMPLETE"
    by (rule small_runs)
  obtain iv' need where e: "the_investigation w small_id = Some iv'" "over iv'" "res = investigation_result iv'"
      "dict_get (st_needs (iw_store w)) (iv_information_need_id iv) = Some need"
      "in_status need = (if iv_status iv' = IS_COMPLETE then NS_SATISFIED else NS_UNSATISFIED)"
    using investigation_ends [OF small_reachable o, of "lit ''local''"] r(1) by auto
  have "iv_status iv' = IS_COMPLETE" using r(2) e(3) by (simp add: investigation_result_def Let_def)
  then show ?thesis using o r(1) e by (auto simp: over_def)
qed

text \<open>
  C16. The run stays within the budget: the counts of iterations, tool calls and replans, and the
  tools it really runs, which are no more than the calls that were left. However it ends, no tool
  was ever run twice under one key.
\<close>

theorem investigation_bounded:
  assumes "ireachable env w" "the_investigation w iid = Some iv" "run_service env actor iid w = (r, w')"
  shows "\<exists>iv'. the_investigation w' iid = Some iv' \<and> iv_budget iv' = iv_budget iv \<and> within_budget iv'
     \<and> int (length (iw_tool_log w')) \<le> int (length (iw_tool_log w)) + (iv_tool_call_count iv' - iv_tool_call_count iv)
     \<and> distinct (iw_tool_log w')"
proof -
  note s = reached_sound [OF assms(1)]
  show ?thesis
  proof (cases rule: run_outcome [OF s assms(2), of env actor, case_names returned failed])
    case (returned iv' w1 need res)
    then show ?thesis
      using assms(3) concluded_sound(3) [OF s assms(2) returned(2)] concluded_bounds [OF returned(2)] by (intro exI [of _ iv']) simp
  next
    case (failed code retryable iv' w1)
    then show ?thesis
      using assms(3) concluded_sound(3) [OF s assms(2) failed(2)] concluded_bounds [OF failed(2)] by (intro exI [of _ iv']) simp
  qed
qed

theorem investigation_bounded_witness:
  "\<exists>r w'. run_service small_env (lit ''local'') small_id small_opened = (r, w') \<and> length (iw_tool_log w') = 1
     \<and> (\<exists>iv'. the_investigation w' small_id = Some iv' \<and> within_budget iv')"
proof -
  obtain iv where o: "the_investigation small_opened small_id = Some iv" by (rule small_opens)
  obtain res w where r: "run_service small_env (lit ''local'') small_id small_opened = (Inr res, w)" "length (iw_tool_log w) = 1"
    by (rule small_runs)
  show ?thesis
    using investigation_bounded [OF small_reachable o r(1)] r by blast
qed

text \<open>
  C17. A need is satisfied only with evidence: when an investigation that was opened for it is run
  and ends as complete, whatever happened in between, every item of coverage the need asked for is
  covered, with evidence that is among the evidence of the result.
\<close>

theorem investigation_backed:
  assumes "ireachable env w" "open_investigation env need repo sha budget w = (Inr (Some iv), w1)" "case_option True valid_budget budget"
    "run_service env actor (iv_investigation_id iv) (run_commands (investigation_step env) cs w1) = (Inr res, w')"
    "ir_status res = IS_COMPLETE" "k \<in> set (in_required_coverage need)"
  shows "\<exists>item. dict_get (ir_coverage res) k = Some item \<and> ci_status item = CV_COVERED \<and> ci_evidence_ids item \<noteq> []
     \<and> set (ci_evidence_ids item) \<subseteq> set (ir_evidence_ids res)"
proof -
  let ?w = "run_commands (investigation_step env) cs w1" and ?iid = "iv_investigation_id iv"
  have opened: "sound w1" "the_investigation w1 ?iid = Some iv" "brand_new need iv"
    using open_keeps [OF reached_sound [OF assms(1)] assms(3), of env need repo sha] by (simp_all add: wp_def assms(2))
  obtain iv1 where iv1: "the_investigation ?w ?iid = Some iv1" "same_identity iv iv1"
    using laterD [OF commands_later [OF opened(1)] opened(2)] by blast
  have s: "sound ?w" by (rule investigations.invar_run [OF opened(1)])
  show ?thesis
  proof (cases rule: run_outcome [OF s iv1(1), of env actor, case_names returned failed])
    case (returned iv' w2 need' res')
    then have res: "res = investigation_result iv'" using assms(4) by simp
    have c: "over iv'" "same_identity iv1 iv'" using returned(2) by (simp_all add: concluded_def)
    have "dict_keys (iv_coverage iv') = fromkeys (in_required_coverage need)"
      using c(2) iv1(2) opened(3) by (simp add: same_identity_def brand_new_def build_coverage_keys)
    then show ?thesis
      using backed_result [OF _ c(1), of _ _ k] returned(2) assms(5,6) by (simp add: res investigation_result_def Let_def concluded_def) blast
  qed (use assms(4) in simp)
qed

theorem investigation_backed_witness:
  "\<exists>res w'. run_service small_env (lit ''local'') small_id small_opened = (Inr res, w')
     \<and> (\<exists>item. dict_get (ir_coverage res) (lit ''api_contract'') = Some item \<and> ci_status item = CV_COVERED \<and> ci_evidence_ids item \<noteq> [])"
proof -
  obtain iv where o: "open_investigation small_env small_need (lit ''repo'') (replicate 40 97) None small_world = (Inr (Some iv), small_opened)"
      "iv_investigation_id iv = small_id"
    by (rule small_opens)
  obtain res w where r: "run_service small_env (lit ''local'') small_id small_opened = (Inr res, w)" "ir_status res = IS_COMPLETE"
    by (rule small_runs)
  have s: "ireachable small_env small_world" by (rule reach_start) (simp add: investigation_start_def small_world_def)
  have k: "lit ''api_contract'' \<in> set (in_required_coverage small_need)" by (simp only: small_need_def InformationNeed.simps list.set insert_iff simp_thms)
  show ?thesis
    using investigation_backed [OF s o(1), of "lit ''local''" "[]" res w, OF _ _ r(2) k] r(1) o(2) by auto
qed

text \<open>
  C18. A need never has two investigations that are planned or running, and an investigation that is
  over stays exactly as it is, whatever commands follow.
\<close>

theorem investigation_lifecycle:
  assumes "ireachable env w" "the_investigation w i = Some a"
  shows "(\<forall>j c. the_investigation w j = Some c \<and> iv_information_need_id c = iv_information_need_id a \<and> unfinished a \<and> unfinished c \<longrightarrow> i = j)
     \<and> (over a \<longrightarrow> the_investigation (run_commands (investigation_step env) cs w) i = Some a)"
proof -
  note s = reached_sound [OF assms(1)]
  have "i = j" if "the_investigation w j = Some c" "iv_information_need_id c = iv_information_need_id a" "unfinished a" "unfinished c" for j c
    using s assms(2) that unfolding sound_def by metis
  moreover have "the_investigation (run_commands (investigation_step env) cs w) i = Some a" if "over a"
    using laterD [OF commands_later [OF s] assms(2)] that by metis
  ultimately show ?thesis by blast
qed

theorem investigation_lifecycle_witness:
  "\<exists>w a. ireachable small_env w \<and> the_investigation w small_id = Some a \<and> over a
     \<and> the_investigation (run_commands (investigation_step small_env) [CancelInvestigation small_id, small_open] w) small_id = Some a"
proof -
  obtain res w where r: "run_service small_env (lit ''local'') small_id small_opened = (Inr res, w)"
      "map_option iv_status (the_investigation w small_id) = Some IS_COMPLETE"
    by (rule small_runs)
  have s: "ireachable small_env w"
    using reach_step [OF small_reachable, of "RunInvestigation (lit ''local'') small_id"] r(1) by simp
  obtain a where a: "the_investigation w small_id = Some a" "iv_status a = IS_COMPLETE" using r(2) by auto
  have "over a" using soundD [OF reached_sound [OF s] a(1)] a(2) by (simp add: known_def unfinished_def)
  then show ?thesis
    using investigation_lifecycle [OF s a(1), of "[CancelInvestigation small_id, small_open]"] s a(1) by blast
qed

end
