(* ===== verification/Spec2Isabelle.thy ===== *)
theory Spec2Isabelle
  imports Workflow_Safety Grounding_Service Dispatch_Safety Ledger_Budget Chunking_Correct Export_Correct Investigation_Correct
begin

text \<open>
  A verification development of the PRD agent. The program turns a product requirement into a
  reviewed product requirements document: a person states a requirement, a language model proposes
  an outline and writes it unit by unit, the person confirms each step, and the finished document
  can be exported to an external service. Paths below are those of the repository under
  \<^verbatim>\<open>src/\<close>, the packages \<^verbatim>\<open>src/prd_agent\<close> and \<^verbatim>\<open>agent-python/agent\<close>.

  \<^bold>\<open>Parts and how they interact.\<close>
  The workflow service executes the commands of a task on a repository, asks the model through
  validating nodes, grounds claims in evidence, renders the document and checks its quality. The
  production control store decides which runs may execute and hands them to workers. The agent
  worker records every remote call of a run in a durable ledger. The export service sends the
  document of a completed task to a provider after a confirmation. An investigation answers a need
  for information by running tools on a repository, as a model proposes. The historical index cuts
  earlier documents into chunks that can be searched.

  \<^bold>\<open>Foundations.\<close>
  \<^item> \<open>Py_Prelude\<close>, \<open>Py_Json\<close>, \<open>Py_Text\<close>, \<open>Json_Loads\<close>: Python strings as lists of code points,
    insertion-ordered dictionaries, exceptions as values, stateful code as functions that keep their
    state changes when they raise, JSON values with \<open>canonical_json\<close> (\<^verbatim>\<open>hashing.py\<close>) and the
    scanner of \<open>json.loads\<close>. The interfaces \<open>identity_store\<close> (collections that replace by
    identity), \<open>invariant_system\<close> and \<open>token_system\<close> (transition systems) are locales here.
  \<^item> \<open>Py_Logic\<close>: weakest preconditions of stateful code and the locale \<open>history\<close> of relations
    that every step keeps.

  \<^bold>\<open>Workflow.\<close>
  \<^item> \<open>Domain_Model\<close>, \<open>Evidence_Model\<close>: the records and enumerations of \<^verbatim>\<open>domain/\<close>,
    \<^verbatim>\<open>sources/models.py\<close> and \<^verbatim>\<open>evidence/models.py\<close>.
  \<^item> \<open>Workflow_Policies\<close> (\<^verbatim>\<open>policies/\<close>), \<open>Workflow_Store\<close> (\<^verbatim>\<open>storage/memory.py\<close>),
    \<open>Workflow_Nodes\<close> (\<^verbatim>\<open>workflow/nodes.py\<close>, \<^verbatim>\<open>context_builder.py\<close>), \<open>Doc_Rendering\<close>
    (\<^verbatim>\<open>rendering/\<close>, \<^verbatim>\<open>quality/\<close>), \<open>Grounding_Service\<close> (\<^verbatim>\<open>grounding/\<close>) and
    \<open>Workflow_Service\<close> (\<^verbatim>\<open>workflow/service.py\<close>, one definition for each command and helper).
    The world is the repository with counters of clock readings, identifiers and calls; the
    environment holds model, clock, identifiers, hash and the answers of the investigation service,
    which the workflow calls through an interface, as functions.
  \<^item> \<open>Model_Output\<close>, \<open>Outline_Building\<close>: an accepted outline is a well-formed forest whose units
    partition the nodes, and the stored outline has its shape; a model is asked at most twice.
  \<^item> \<open>Workflow_Logic\<close>, \<open>Workflow_History\<close>, \<open>Workflow_Effects\<close>, \<open>Workflow_Invariant\<close>,
    \<open>Workflow_Preservation\<close>: the invariant of the repository and that each command keeps it, on the
    path that returns and on the path that raises.
  \<^item> \<open>Workflow_Safety\<close>, \<open>Workflow_Idempotency\<close>, \<open>Workflow_Example\<close>: units are confirmed in
    order, tasks move along allowed transitions, one active run, refused commands change nothing,
    only the owner reads, a command that returned is never executed again but reads the task it
    returned. Grounding, rendering and the quality check have their properties in their own
    theories: what they guarantee of what they accept, and what they accept for certain. The
    renderer relies on its caller for the status of sections, and the quality check does not look
    for repeated nodes or contents.

  \<^bold>\<open>Run dispatch.\<close>
  \<^item> \<open>Run_Dispatch\<close> (\<^verbatim>\<open>production/dispatch.py\<close>): admission, outbox, leases with fencing tokens,
    recovery, publisher, reconciler and executor. \<open>Dispatch_Invariant\<close> and \<open>Dispatch_Safety\<close> show
    the queue limits, fencing of superseded workers, finality of finished runs, exclusive claims,
    and that the admission loop ends.

  \<^bold>\<open>Execution ledger.\<close>
  \<^item> \<open>Run_Ledger\<close> (\<^verbatim>\<open>agent/runtime/\<close>): budgets, operation keys, outcome artifacts and the
    protocol of a call. The sink may store, lose, or store and fail at each event, and a process
    may restart from the log at any time. \<open>Ledger_Safety\<close> and \<open>Ledger_Budget\<close>: no operation is
    invoked twice, outcomes are replayed, validated again from what was recorded, and survive
    encoding; budgets hold for calls that keep to their reservations, between restarts and in the
    fields that transitions do not charge.

  \<^bold>\<open>Export.\<close>
  \<^item> \<open>Export_Formatter\<close> (\<^verbatim>\<open>export/formatter.py\<close>), \<open>Export_Store\<close> (\<^verbatim>\<open>models.py\<close>,
    \<^verbatim>\<open>store.py\<close>, \<^verbatim>\<open>source.py\<close>), \<open>Export_Service\<close> (\<^verbatim>\<open>service.py\<close>). An execution is four
    stages; \<open>Export_System\<close> lets the stages of many executions, previews and changes of the
    workflow repository follow one another in any order and describes the effect of each stage.
    The events of the service are kept in a log of their own and not among the events of the
    workflow repository, where the source appends them.
  \<^item> \<open>Export_Safety\<close>, \<open>Export_Correct\<close>, \<open>Export_Example\<close>: an intent succeeds at most once, the
    store of intents refines an abstract slot, a task keeps its external document, nothing is sent
    without a valid confirmation, and executions are replayed by intent, owner, task and version.

  \<^bold>\<open>Investigation.\<close>
  \<^item> \<open>Investigation_Model\<close> (\<^verbatim>\<open>investigation/models.py\<close>, \<^verbatim>\<open>policies.py\<close>, \<^verbatim>\<open>tools/\<close>) and
    \<open>Investigation_Runner\<close> (\<^verbatim>\<open>investigation/runner.py\<close>, \<^verbatim>\<open>planner.py\<close>,
    \<^verbatim>\<open>storage/memory_investigation.py\<close>, \<^verbatim>\<open>memory_evidence.py\<close>, \<^verbatim>\<open>application/\<close>): needs, coverage
    and budgets, the selector with its repair, the execution of a tool with its replay, the loop
    of rounds and the service around it. Model, tools and snapshots are functions of the environment,
    which may answer anything.
  \<^item> \<open>Investigation_Bounds\<close>, \<open>Investigation_Service\<close>, \<open>Investigation_Correct\<close>: every run ends and
    stays within its budget, ends as complete exactly when its coverage is, a need is satisfied only
    with evidence, a need has one active investigation, and one that ended never changes.

  \<^bold>\<open>Historical index.\<close>
  \<^item> \<open>Historical_Chunking\<close> (\<^verbatim>\<open>historical/chunking.py\<close> and the tokens of \<^verbatim>\<open>text.py\<close>) and
    \<open>Chunking_Correct\<close>: below the maximal hard limit the chunks contain all text of the sections in
    order and within the size; at the maximal limit a document can be refused.

  \<^bold>\<open>Bounds, fuel and hypotheses.\<close>
  Loops are total functions with a measure, except the scanner of \<open>Json_Loads\<close>, whose fuel is twice
  the length of the text; the round trip lemma shows that this is enough for what
  \<open>canonical_json\<close> writes, and the rounds of an investigation, whose fuel is the iterations left and
  one; a run never exhausts it, which is part of the property that it ends. Python integers are unbounded and are \<open>int\<close>; times are integers.
  Identifiers are assumed never to repeat (\<open>inj\<close> of the generator), which is what \<open>uuid4\<close> is used
  for; truncated hashes are assumed distinct only on the keys in use. A stage of an export and a
  command of the workflow are atomic: the code locks the export store for each operation separately,
  and interleavings inside a stage are not modelled. A run of an investigation is one step too, so
  its saves meet no other writer. The outcome of a tool is total: the service turns exceptions of
  tools into failed results, and the redaction of a result is taken not to raise. The retry provider
  of the grounding gate may raise, and its exception leaves the gate. The value of a fact is a JSON
  value: other Python objects, on which \<open>json.dumps\<close> raises, are left out. Python's \<open>int\<close> of a text is
  modelled for ASCII digits without underscores, and of a float for finite ones. Expiry is modelled by clock readings without
  any assumption on their order.

  \<^bold>\<open>Not modelled.\<close>
  SQL stores and migrations (\<^verbatim>\<open>storage/postgres*\<close>, \<^verbatim>\<open>production/postgres_dispatch.py\<close>), whose
  meaning is that of a database outside the repository; HTTP, gRPC and command line entry points
  (\<^verbatim>\<open>api/\<close>, \<^verbatim>\<open>cli.py\<close>, \<^verbatim>\<open>worker_server.py\<close>, \<^verbatim>\<open>bootstrap.py\<close>) and provider clients; the
  wiring of the langgraph library (\<^verbatim>\<open>workflow/graph.py\<close>, \<^verbatim>\<open>agent/graph/\<close>); prompts and model
  adapters; access to repositories, the tools themselves and the making of evidence from their
  results; the external investigator; the search of the historical index; context selection, units, drafts and checks of the agent worker; offline evaluation.
\<close>

end
